(* ===== verification/Prelude.thy ===== *)
theory Prelude
  imports Complex_Main "HOL-Library.Code_Target_Nat" "HOL-Library.List_Lexorder" "HOL-Library.Char_ord" "HOL-Library.Multiset"
begin

section \<open>Shared types, combinators and lemmas\<close>

text \<open>
  What the component theories share: the type names of the model, Python's dynamic values and
  floats, the text helpers of the standard library the program calls (\<open>str.strip\<close>,
  \<open>str.encode\<close>), results with an error on the left, insertion-ordered dictionaries, and the
  reachability predicate with its invariant rule that every state machine of the development
  instantiates.

  A Python string is a \<open>string\<close> with one \<open>char\<close> per code point, so the strings of the model
  are those over the code points 0 to 255. An integer is an \<open>int\<close>. A float is a
  \<open>pyfloat\<close>: a finite value is its exact rational value, and the two infinities and NaN are
  values of their own, compared as IEEE 754 compares them; rounding of finite results is not
  modelled.
\<close>

named_theorems run_simps \<open>unfolding rules of the operations of the model\<close>

subsection \<open>Results\<close>

text \<open>
  A function that may raise returns \<open>'e + 'a\<close>, with \<open>Inl e\<close> for the exception. \<open>raise_if\<close>
  is one guard of a chain \<^verbatim>\<open>if c: raise e\<close>; \<open>for_each\<close> is a \<^verbatim>\<open>for\<close> loop whose body only
  checks; \<open>and_then\<close> sequences two fallible steps.
\<close>

type_synonym ('e, 'a) result = "'e + 'a"

definition raise_if :: "bool \<Rightarrow> 'e \<Rightarrow> ('e, 'a) result \<Rightarrow> ('e, 'a) result" where
  "raise_if c e k = (if c then Inl e else k)"

definition and_then :: "('e, 'a) result \<Rightarrow> ('a \<Rightarrow> ('e, 'b) result) \<Rightarrow> ('e, 'b) result" where
  "and_then m k = (case m of Inl e \<Rightarrow> Inl e | Inr a \<Rightarrow> k a)"

fun for_each :: "('a \<Rightarrow> ('e, unit) result) \<Rightarrow> 'a list \<Rightarrow> ('e, unit) result" where
  "for_each f [] = Inr ()"
| "for_each f (x # xs) = (case f x of Inl e \<Rightarrow> Inl e | Inr u \<Rightarrow> for_each f xs)"

fun map_result :: "('a \<Rightarrow> ('e, 'b) result) \<Rightarrow> 'a list \<Rightarrow> ('e, 'b list) result" where
  "map_result f [] = Inr []"
| "map_result f (x # xs) =
     (case f x of Inl e \<Rightarrow> Inl e
      | Inr y \<Rightarrow> (case map_result f xs of Inl e \<Rightarrow> Inl e | Inr ys \<Rightarrow> Inr (y # ys)))"

fun is_ok :: "('e, 'a) result \<Rightarrow> bool" where
  "is_ok (Inl e) = False"
| "is_ok (Inr a) = True"

text \<open>
  A method that may raise and changes the state returns both; \<open>run_then\<close> runs the next one on the
  state the first one left.
\<close>

definition run_then ::
  "('e, 'a) result \<times> 's \<Rightarrow> ('a \<Rightarrow> 's \<Rightarrow> ('e, 'b) result \<times> 's) \<Rightarrow> ('e, 'b) result \<times> 's" where
  "run_then m k = (case m of (Inl e, s) \<Rightarrow> (Inl e, s) | (Inr a, s) \<Rightarrow> k a s)"

lemma run_then_simps [simp]:
  "run_then (Inl e, s) k = (Inl e, s)"
  "run_then (Inr a, s) k = k a s"
  by (simp_all add: run_then_def)

lemma run_then_Inr [simp]:
  "run_then m k = (Inr b, t) \<longleftrightarrow> (\<exists>a s. m = (Inr a, s) \<and> k a s = (Inr b, t))"
  by (auto simp: run_then_def split: prod.splits sum.splits)

lemma is_ok_iff: "is_ok r \<longleftrightarrow> (\<exists>a. r = Inr a)"
  by (cases r) auto

lemma raise_if_Inr [simp]: "raise_if c e k = Inr a \<longleftrightarrow> \<not> c \<and> k = Inr a"
  by (auto simp: raise_if_def)

lemma raise_if_ok [simp]: "is_ok (raise_if c e k) \<longleftrightarrow> \<not> c \<and> is_ok k"
  by (auto simp: raise_if_def)

lemma raise_if_False [simp]: "raise_if False e k = k"
  by (simp add: raise_if_def)

lemma raise_if_True [simp]: "raise_if True e k = Inl e"
  by (simp add: raise_if_def)

lemma and_then_Inr [simp]: "and_then m k = Inr b \<longleftrightarrow> (\<exists>a. m = Inr a \<and> k a = Inr b)"
  by (cases m) (auto simp: and_then_def)

lemma and_then_simps [simp]:
  "and_then (Inl e) k = Inl e"
  "and_then (Inr a) k = k a"
  by (simp_all add: and_then_def)

lemma for_each_ok [simp]: "for_each f xs = Inr u \<longleftrightarrow> (\<forall>x\<in>set xs. f x = Inr ())"
  by (induction xs) (auto split: sum.splits)

lemma map_result_Inr_length: "map_result f xs = Inr ys \<Longrightarrow> length ys = length xs"
  by (induction xs arbitrary: ys) (auto split: sum.splits)

lemma map_result_Inr_nth:
  "map_result f xs = Inr ys \<Longrightarrow> i < length xs \<Longrightarrow> f (xs ! i) = Inr (ys ! i)"
proof (induction xs arbitrary: ys i)
  case Nil
  then show ?case by simp
next
  case (Cons x xs)
  then show ?case by (cases i) (auto split: sum.splits)
qed

lemma map_result_Inr_set:
  "map_result f xs = Inr ys \<Longrightarrow> y \<in> set ys \<Longrightarrow> \<exists>x\<in>set xs. f x = Inr y"
  by (metis in_set_conv_nth map_result_Inr_length map_result_Inr_nth)

subsection \<open>Floats\<close>

datatype pyfloat = Fin rat | PInf | NInf | NaN

fun is_finite :: "pyfloat \<Rightarrow> bool" where
  "is_finite (Fin q) = True"
| "is_finite _ = False"

fun neg_pyfloat :: "pyfloat \<Rightarrow> pyfloat" where
  "neg_pyfloat (Fin p) = Fin (- p)"
| "neg_pyfloat PInf = NInf"
| "neg_pyfloat NInf = PInf"
| "neg_pyfloat NaN = NaN"

text \<open>Comparisons and the arithmetic the program uses, with NaN unordered.\<close>

instantiation pyfloat :: "{ord, plus, minus, zero}"
begin

fun less_eq_pyfloat :: "pyfloat \<Rightarrow> pyfloat \<Rightarrow> bool" where
  "less_eq_pyfloat NaN y = False"
| "less_eq_pyfloat x NaN = False"
| "less_eq_pyfloat NInf y = True"
| "less_eq_pyfloat x PInf = True"
| "less_eq_pyfloat (Fin p) (Fin q) = (p \<le> q)"
| "less_eq_pyfloat x y = False"

fun less_pyfloat :: "pyfloat \<Rightarrow> pyfloat \<Rightarrow> bool" where
  "less_pyfloat NaN y = False"
| "less_pyfloat x NaN = False"
| "less_pyfloat (Fin p) (Fin q) = (p < q)"
| "less_pyfloat NInf y = (y \<noteq> NInf)"
| "less_pyfloat x PInf = (x \<noteq> PInf)"
| "less_pyfloat x y = False"

fun plus_pyfloat :: "pyfloat \<Rightarrow> pyfloat \<Rightarrow> pyfloat" where
  "plus_pyfloat NaN y = NaN"
| "plus_pyfloat x NaN = NaN"
| "plus_pyfloat (Fin p) (Fin q) = Fin (p + q)"
| "plus_pyfloat PInf NInf = NaN"
| "plus_pyfloat NInf PInf = NaN"
| "plus_pyfloat PInf y = PInf"
| "plus_pyfloat x PInf = PInf"
| "plus_pyfloat NInf y = NInf"
| "plus_pyfloat x NInf = NInf"

definition minus_pyfloat :: "pyfloat \<Rightarrow> pyfloat \<Rightarrow> pyfloat" where
  "minus_pyfloat x y = x + neg_pyfloat y"

definition zero_pyfloat :: pyfloat where
  "zero_pyfloat = Fin 0"

instance ..

end

lemma minus_Fin [simp]: "Fin p - Fin q = Fin (p - q)"
  by (simp add: minus_pyfloat_def)

lemma zero_Fin: "(0::pyfloat) = Fin 0"
  by (simp add: zero_pyfloat_def)

text \<open>Python's two-argument \<open>min\<close> and \<open>max\<close> keep the first argument unless the second wins.\<close>

definition py_min :: "pyfloat \<Rightarrow> pyfloat \<Rightarrow> pyfloat" where
  "py_min a b = (if b < a then b else a)"

definition py_max :: "pyfloat \<Rightarrow> pyfloat \<Rightarrow> pyfloat" where
  "py_max a b = (if b > a then b else a)"

lemma is_finite_iff: "is_finite x \<longleftrightarrow> (\<exists>q. x = Fin q)"
  by (cases x) auto

lemma py_min_Fin [simp]: "py_min (Fin p) (Fin q) = Fin (min p q)"
  by (simp add: py_min_def min_def)

lemma py_min_PInf [simp]: "py_min (Fin p) PInf = Fin p"
  by (simp add: py_min_def)

subsection \<open>Dynamic values\<close>

text \<open>
  The values a decoded JSON document or an unchecked argument can hold. A dictionary keeps its
  entries in insertion order; \<open>KOther\<close> is a key that JSON has no rendering for (a tuple, a byte
  string), and \<open>POther\<close> is such a value (a byte string, an object). Tuples used as values and
  numbers used as keys, which \<open>json.dumps\<close> would coerce, are outside the model.
\<close>

datatype pykey = KStr string | KOther int

datatype pyval =
    PNone
  | PBool bool
  | PInt int
  | PFloat pyfloat
  | PStr string
  | PList "pyval list"
  | PDict "(pykey \<times> pyval) list"
  | POther

fun is_kstr :: "pykey \<Rightarrow> bool" where
  "is_kstr (KStr s) = True"
| "is_kstr (KOther i) = False"

definition dict_get :: "string \<Rightarrow> (pykey \<times> pyval) list \<Rightarrow> pyval option" where
  "dict_get k d = map_of d (KStr k)"

text \<open>\<open>d.get(k)\<close> and \<open>d.get(k, default)\<close>.\<close>

definition get_or :: "pyval \<Rightarrow> string \<Rightarrow> (pykey \<times> pyval) list \<Rightarrow> pyval" where
  "get_or dflt k d = (case dict_get k d of None \<Rightarrow> dflt | Some v \<Rightarrow> v)"

abbreviation get_none :: "string \<Rightarrow> (pykey \<times> pyval) list \<Rightarrow> pyval" where
  "get_none \<equiv> get_or PNone"

definition pstrs :: "string list \<Rightarrow> pyval" where
  "pstrs ss = PList (map PStr ss)"

fun of_opt_str :: "string option \<Rightarrow> pyval" where
  "of_opt_str None = PNone"
| "of_opt_str (Some s) = PStr s"

definition obj :: "(string \<times> pyval) list \<Rightarrow> pyval" where
  "obj kvs = PDict (map (\<lambda>(k, v). (KStr k, v)) kvs)"

text \<open>An object of a decoded document.\<close>

type_synonym document = "(pykey \<times> pyval) list"

subsection \<open>Text\<close>

definition ord_of :: "char \<Rightarrow> nat" where
  "ord_of c = of_char c"

text \<open>\<open>str.isspace\<close> on the code points 0 to 255.\<close>

definition is_space :: "char \<Rightarrow> bool" where
  "is_space c \<longleftrightarrow> ord_of c \<in> {9, 10, 11, 12, 13, 28, 29, 30, 31, 32, 133, 160}"

definition strip :: "string \<Rightarrow> string" where
  "strip s = rev (dropWhile is_space (rev (dropWhile is_space s)))"

text \<open>\<open>str.isprintable\<close> on the code points 0 to 255.\<close>

definition printable :: "char \<Rightarrow> bool" where
  "printable c \<longleftrightarrow> (32 \<le> ord_of c \<and> ord_of c \<le> 126) \<or> (161 \<le> ord_of c \<and> ord_of c \<noteq> 173)"

definition digits_value :: "string \<Rightarrow> nat" where
  "digits_value s = fold (\<lambda>c n. 10 * n + (ord_of c - 48)) s 0"

text \<open>The length of \<open>s.encode("utf-8")\<close>: one byte below code point 128, two from there to 255.\<close>

fun utf8_length :: "string \<Rightarrow> nat" where
  "utf8_length [] = 0"
| "utf8_length (c # cs) = (if ord_of c < 128 then 1 else 2) + utf8_length cs"

lemma utf8_length_ge: "length s \<le> utf8_length s"
  by (induction s) auto

lemma utf8_length_append [simp]: "utf8_length (s @ t) = utf8_length s + utf8_length t"
  by (induction s) auto

definition starts_with :: "string \<Rightarrow> string \<Rightarrow> bool" where
  "starts_with p s \<longleftrightarrow> take (length p) s = p"

definition remove_prefix :: "string \<Rightarrow> string \<Rightarrow> string" where
  "remove_prefix p s = (if starts_with p s then drop (length p) s else s)"

definition ends_with :: "string \<Rightarrow> string \<Rightarrow> bool" where
  "ends_with p s \<longleftrightarrow> length p \<le> length s \<and> drop (length s - length p) s = p"

text \<open>\<open>s.split(sep)\<close> for a one-character separator: always at least one piece.\<close>

fun split_on :: "char \<Rightarrow> string \<Rightarrow> string list" where
  "split_on sep [] = [[]]"
| "split_on sep (c # cs) =
     (if c = sep then [] # split_on sep cs
      else (case split_on sep cs of [] \<Rightarrow> [[c]] | p # ps \<Rightarrow> (c # p) # ps))"

lemma split_on_nonempty [simp]: "split_on sep s \<noteq> []"
  by (induction s) (auto split: list.splits)

lemma starts_with_append [simp]: "starts_with p (p @ s)"
  by (simp add: starts_with_def)

lemma remove_prefix_append [simp]: "remove_prefix p (p @ s) = s"
  by (simp add: remove_prefix_def)

subsection \<open>Dictionaries with insertion order\<close>

text \<open>
  \<open>dict_put\<close> is \<open>d[k] = v\<close>: it replaces the value of a key in place and appends a new key at the
  end, as a Python dictionary does.
\<close>

fun dict_put :: "'k \<Rightarrow> 'v \<Rightarrow> ('k \<times> 'v) list \<Rightarrow> ('k \<times> 'v) list" where
  "dict_put k v [] = [(k, v)]"
| "dict_put k v ((k', v') # d) = (if k = k' then (k', v) # d else (k', v') # dict_put k v d)"

definition dict_del :: "'k \<Rightarrow> ('k \<times> 'v) list \<Rightarrow> ('k \<times> 'v) list" where
  "dict_del k d = filter (\<lambda>kv. fst kv \<noteq> k) d"

lemma map_of_dict_put [simp]: "map_of (dict_put k v d) = (map_of d)(k \<mapsto> v)"
  by (induction d) auto

lemma keys_dict_put: "map fst (dict_put k v d) =
    (if k \<in> fst ` set d then map fst d else map fst d @ [k])"
  by (induction d) (auto, metis fst_conv image_eqI)

lemma distinct_dict_put: "distinct (map fst d) \<Longrightarrow> distinct (map fst (dict_put k v d))"
  by (auto simp: keys_dict_put)

lemma map_of_dict_del [simp]: "map_of (dict_del k d) = (map_of d)(k := None)"
  by (induction d) (auto simp: dict_del_def fun_eq_iff)

lemma distinct_dict_del: "distinct (map fst d) \<Longrightarrow> distinct (map fst (dict_del k d))"
  by (simp add: dict_del_def distinct_map_filter)

subsection \<open>State machines\<close>

text \<open>
  The states a component can be in: the least set with the initial states, closed under the
  steps. The locale is the proof rule: what holds initially and is kept by every step holds in
  every reachable state. Each component with state interprets it on its own steps.
\<close>

inductive reachable :: "('s \<Rightarrow> bool) \<Rightarrow> ('s \<Rightarrow> 's \<Rightarrow> bool) \<Rightarrow> 's \<Rightarrow> bool"
  for start :: "'s \<Rightarrow> bool" and step :: "'s \<Rightarrow> 's \<Rightarrow> bool" where
  reach_start: "start s \<Longrightarrow> reachable start step s"
| reach_step: "reachable start step s \<Longrightarrow> step s t \<Longrightarrow> reachable start step t"

locale invariant_machine =
  fixes start :: "'s \<Rightarrow> bool"
    and step :: "'s \<Rightarrow> 's \<Rightarrow> bool"
    and inv :: "'s \<Rightarrow> bool"
  assumes inv_start: "start s \<Longrightarrow> inv s"
    and inv_step: "inv s \<Longrightarrow> step s t \<Longrightarrow> inv t"
begin

lemma reachable_inv: "reachable start step s \<Longrightarrow> inv s"
  by (induction rule: reachable.induct) (auto intro: inv_start inv_step)

lemma reachable_from_inv: "step\<^sup>*\<^sup>* s t \<Longrightarrow> inv s \<Longrightarrow> inv t"
  by (induction rule: rtranclp_induct) (auto intro: inv_step)

end

end
