(* ===== verification/Regex.thy ===== *)
theory Regex
  imports Prelude
begin

section \<open>The regular expressions of the program\<close>

text \<open>
  The part of Python's \<open>re\<close> module the program uses for validation: character classes,
  concatenation, alternation and greedy repetition, matched by backtracking. \<open>rx_match r s\<close> lists
  what is left of \<open>s\<close> after each way \<open>r\<close> can match a prefix of it, in the order in which the
  engine tries them. \<open>fullmatch\<close> asks whether some way consumes the whole string.

  \<open>rx_lang\<close> is the usual language of an expression; \<open>fullmatch_iff_lang\<close> shows that the matcher
  decides it, and the lemmas after it turn the repetitions of character classes the program is
  made of into conditions on lengths and characters.
\<close>

datatype rx =
    Cls "char \<Rightarrow> bool"
  | Eps
  | Seq rx rx
  | Alt rx rx
  | Rep rx nat nat
  | Star rx

definition chr_range :: "char \<Rightarrow> char \<Rightarrow> char \<Rightarrow> bool" where
  "chr_range a b c \<longleftrightarrow> ord_of a \<le> ord_of c \<and> ord_of c \<le> ord_of b"

definition one_of :: "string \<Rightarrow> char \<Rightarrow> bool" where
  "one_of cs c \<longleftrightarrow> c \<in> set cs"

definition is_lower :: "char \<Rightarrow> bool" where "is_lower = chr_range CHR ''a'' CHR ''z''"
definition is_upper :: "char \<Rightarrow> bool" where "is_upper = chr_range CHR ''A'' CHR ''Z''"
definition is_digit :: "char \<Rightarrow> bool" where "is_digit = chr_range CHR ''0'' CHR ''9''"
definition is_alpha :: "char \<Rightarrow> bool" where "is_alpha c \<longleftrightarrow> is_upper c \<or> is_lower c"
definition is_alnum :: "char \<Rightarrow> bool" where "is_alnum c \<longleftrightarrow> is_alpha c \<or> is_digit c"
definition is_lower_alnum :: "char \<Rightarrow> bool" where "is_lower_alnum c \<longleftrightarrow> is_lower c \<or> is_digit c"
definition is_hex :: "char \<Rightarrow> bool" where
  "is_hex c \<longleftrightarrow> is_digit c \<or> chr_range CHR ''a'' CHR ''f'' c"

text \<open>A literal piece of an expression.\<close>

fun lit :: "string \<Rightarrow> rx" where
  "lit [] = Eps"
| "lit (c # cs) = Seq (Cls (\<lambda>x. x = c)) (lit cs)"

text \<open>\<open>Rep r m k\<close> is \<open>r{m,m+k}\<close>; \<open>Opt r\<close> is \<open>r?\<close>; \<open>Plus r\<close> is \<open>r+\<close>.\<close>

abbreviation Opt :: "rx \<Rightarrow> rx" where "Opt r \<equiv> Rep r 0 1"
abbreviation Plus :: "rx \<Rightarrow> rx" where "Plus r \<equiv> Seq r (Star r)"

subsection \<open>The matcher\<close>

fun match_times :: "(string \<Rightarrow> string list) \<Rightarrow> nat \<Rightarrow> string \<Rightarrow> string list" where
  "match_times f 0 s = [s]"
| "match_times f (Suc m) s = concat (map (match_times f m) (f s))"

fun match_upto :: "(string \<Rightarrow> string list) \<Rightarrow> nat \<Rightarrow> string \<Rightarrow> string list" where
  "match_upto f 0 s = [s]"
| "match_upto f (Suc k) s = concat (map (match_upto f k) (f s)) @ [s]"

text \<open>An iteration of an unbounded repetition that consumes nothing ends it.\<close>

definition progress :: "(string \<Rightarrow> string list) \<Rightarrow> string \<Rightarrow> string list" where
  "progress f s = filter (\<lambda>t. length t < length s) (f s)"

primrec rx_match :: "rx \<Rightarrow> string \<Rightarrow> string list" where
  "rx_match (Cls p) s = (case s of [] \<Rightarrow> [] | c # cs \<Rightarrow> if p c then [cs] else [])"
| "rx_match Eps s = [s]"
| "rx_match (Seq a b) s = concat (map (rx_match b) (rx_match a s))"
| "rx_match (Alt a b) s = rx_match a s @ rx_match b s"
| "rx_match (Rep r m k) s = concat (map (match_upto (rx_match r) k) (match_times (rx_match r) m s))"
| "rx_match (Star r) s = match_upto (progress (rx_match r)) (length s) s"

definition fullmatch :: "rx \<Rightarrow> string \<Rightarrow> bool" where
  "fullmatch r s \<longleftrightarrow> [] \<in> set (rx_match r s)"

subsection \<open>The language of an expression\<close>

primrec rx_lang :: "rx \<Rightarrow> string set" where
  "rx_lang (Cls p) = {[c] | c. p c}"
| "rx_lang Eps = {[]}"
| "rx_lang (Seq a b) = {u @ v | u v. u \<in> rx_lang a \<and> v \<in> rx_lang b}"
| "rx_lang (Alt a b) = rx_lang a \<union> rx_lang b"
| "rx_lang (Rep r m k) =
     {concat us | us. m \<le> length us \<and> length us \<le> m + k \<and> set us \<subseteq> rx_lang r}"
| "rx_lang (Star r) = {concat us | us. set us \<subseteq> rx_lang r}"

definition matches :: "(string \<Rightarrow> string list) \<Rightarrow> string set \<Rightarrow> bool" where
  "matches f L \<longleftrightarrow> (\<forall>s t. t \<in> set (f s) \<longleftrightarrow> (\<exists>u\<in>L. s = u @ t))"

lemma matchesI [intro?]: "(\<And>s t. t \<in> set (f s) \<longleftrightarrow> (\<exists>u\<in>L. s = u @ t)) \<Longrightarrow> matches f L"
  by (simp add: matches_def)

lemma matchesD: "matches f L \<Longrightarrow> t \<in> set (f s) \<longleftrightarrow> (\<exists>u\<in>L. s = u @ t)"
  by (simp add: matches_def)

lemma matches_bex:
  assumes "matches f L"
  shows "(\<exists>r\<in>set (f s). P r) \<longleftrightarrow> (\<exists>u\<in>L. \<exists>r. s = u @ r \<and> P r)"
  using matchesD [OF assms] by (auto simp: Bex_def)

lemma bex_Cons_concat:
  "(\<exists>u\<in>L. \<exists>r. s = u @ r \<and> (\<exists>us. Q (Suc (length us)) \<and> set us \<subseteq> L \<and> r = concat us @ t)) \<longleftrightarrow>
   (\<exists>us. us \<noteq> [] \<and> Q (length us) \<and> set us \<subseteq> L \<and> s = concat us @ t)" (is "?A \<longleftrightarrow> ?B")
proof
  assume ?A
  then obtain u us where "u \<in> L" "Q (Suc (length us))" "set us \<subseteq> L" "s = u @ concat us @ t"
    by blast
  then show ?B by (intro exI [of _ "u # us"]) simp
next
  assume ?B
  then obtain u us where "Q (Suc (length us))" "u \<in> L" "set us \<subseteq> L" "s = u @ concat us @ t"
    by (auto simp: neq_Nil_conv)
  then show ?A by blast
qed

lemma match_times_iff:
  assumes "matches f L"
  shows "t \<in> set (match_times f m s) \<longleftrightarrow> (\<exists>us. length us = m \<and> set us \<subseteq> L \<and> s = concat us @ t)"
proof (induction m arbitrary: s)
  case 0
  show ?case by auto
next
  case (Suc m)
  have "t \<in> set (match_times f (Suc m) s) \<longleftrightarrow>
      (\<exists>r\<in>set (f s). \<exists>us. Suc (length us) = Suc m \<and> set us \<subseteq> L \<and> r = concat us @ t)"
    by (simp add: Suc)
  then show ?case
    unfolding matches_bex [OF assms] bex_Cons_concat [where Q = "\<lambda>n. n = Suc m"] by fastforce
qed

lemma match_upto_iff:
  assumes "matches f L"
  shows "t \<in> set (match_upto f k s) \<longleftrightarrow> (\<exists>us. length us \<le> k \<and> set us \<subseteq> L \<and> s = concat us @ t)"
proof (induction k arbitrary: s)
  case 0
  show ?case by auto
next
  case (Suc k)
  have "t \<in> set (match_upto f (Suc k) s) \<longleftrightarrow> s = t \<or>
      (\<exists>r\<in>set (f s). \<exists>us. Suc (length us) \<le> Suc k \<and> set us \<subseteq> L \<and> r = concat us @ t)"
    by (auto simp: Suc)
  also have "\<dots> \<longleftrightarrow> s = t \<or>
      (\<exists>us. us \<noteq> [] \<and> length us \<le> Suc k \<and> set us \<subseteq> L \<and> s = concat us @ t)"
    unfolding matches_bex [OF assms] bex_Cons_concat [where Q = "\<lambda>n. n \<le> Suc k"] ..
  also have "\<dots> \<longleftrightarrow> (\<exists>us. length us \<le> Suc k \<and> set us \<subseteq> L \<and> s = concat us @ t)"
    by (metis concat.simps(1) empty_set empty_subsetI le0 length_0_conv self_append_conv2)
  finally show ?case .
qed

lemma progress_matches:
  assumes "matches f L"
  shows "matches (progress f) (L - {[]})"
proof
  fix s t
  have "t \<in> set (progress f s) \<longleftrightarrow> (\<exists>u\<in>L. s = u @ t) \<and> length t < length s"
    by (auto simp: progress_def matchesD [OF assms])
  also have "\<dots> \<longleftrightarrow> (\<exists>u\<in>L. s = u @ t \<and> length t < length s)"
    by blast
  also have "\<dots> \<longleftrightarrow> (\<exists>u\<in>L. s = u @ t \<and> u \<noteq> [])"
    by (rule bex_cong) auto
  finally show "t \<in> set (progress f s) \<longleftrightarrow> (\<exists>u\<in>L - {[]}. s = u @ t)"
    by blast
qed

lemma length_concat_nonempty: "[] \<notin> set us \<Longrightarrow> length us \<le> length (concat us)"
proof (induction us)
  case Nil
  show ?case by simp
next
  case (Cons u us)
  then show ?case by (cases u) auto
qed

lemma concat_remove_empty: "concat (filter (\<lambda>u. u \<noteq> []) us) = concat us"
  by (induction us) auto

lemma star_iff:
  assumes "matches f L"
  shows "t \<in> set (match_upto (progress f) (length s) s) \<longleftrightarrow>
    (\<exists>us. set us \<subseteq> L \<and> s = concat us @ t)"
proof
  assume "t \<in> set (match_upto (progress f) (length s) s)"
  then show "\<exists>us. set us \<subseteq> L \<and> s = concat us @ t"
    by (auto simp: match_upto_iff [OF progress_matches [OF assms]])
next
  assume "\<exists>us. set us \<subseteq> L \<and> s = concat us @ t"
  then obtain us where us: "set us \<subseteq> L" "s = concat us @ t" by blast
  let ?vs = "filter (\<lambda>u. u \<noteq> []) us"
  have "length ?vs \<le> length (concat ?vs)"
    by (rule length_concat_nonempty) simp
  then have "length ?vs \<le> length s"
    using us(2) by (simp add: concat_remove_empty)
  moreover have "set ?vs \<subseteq> L - {[]}" using us(1) by auto
  moreover have "s = concat ?vs @ t" using us(2) by (simp add: concat_remove_empty)
  ultimately show "t \<in> set (match_upto (progress f) (length s) s)"
    by (auto simp: match_upto_iff [OF progress_matches [OF assms]] intro!: exI [of _ ?vs])
qed

lemma rx_match_matches: "matches (rx_match r) (rx_lang r)"
proof (induction r)
  case (Cls p)
  show ?case by (rule matchesI) (auto split: list.splits)
next
  case Eps
  show ?case by (rule matchesI) auto
next
  case (Seq a b)
  show ?case
  proof
    fix s t
    have "t \<in> set (rx_match (Seq a b) s) \<longleftrightarrow> (\<exists>r\<in>set (rx_match a s). \<exists>v\<in>rx_lang b. r = v @ t)"
      by (simp add: matchesD [OF Seq.IH(2)])
    also have "\<dots> \<longleftrightarrow> (\<exists>u\<in>rx_lang a. \<exists>v\<in>rx_lang b. s = u @ v @ t)"
      unfolding matches_bex [OF Seq.IH(1)] by blast
    also have "\<dots> \<longleftrightarrow> (\<exists>u\<in>rx_lang (Seq a b). s = u @ t)"
      by (force simp del: append_assoc simp add: append_assoc [symmetric])
    finally show "t \<in> set (rx_match (Seq a b) s) \<longleftrightarrow> (\<exists>u\<in>rx_lang (Seq a b). s = u @ t)" .
  qed
next
  case (Alt a b)
  show ?case
    using matchesD [OF Alt.IH(1)] matchesD [OF Alt.IH(2)] by (intro matchesI) auto
next
  case (Rep r m k)
  show ?case
  proof
    fix s t
    have "t \<in> set (rx_match (Rep r m k) s) \<longleftrightarrow>
        (\<exists>q. (\<exists>us. length us = m \<and> set us \<subseteq> rx_lang r \<and> s = concat us @ q) \<and>
          (\<exists>vs. length vs \<le> k \<and> set vs \<subseteq> rx_lang r \<and> q = concat vs @ t))"
      by (simp add: Bex_def match_times_iff [OF Rep.IH] match_upto_iff [OF Rep.IH])
    also have "\<dots> \<longleftrightarrow>
        (\<exists>us vs. length us = m \<and> length vs \<le> k \<and> set us \<subseteq> rx_lang r \<and> set vs \<subseteq> rx_lang r \<and>
          s = concat us @ concat vs @ t)"
      by blast
    also have "\<dots> \<longleftrightarrow> (\<exists>us. m \<le> length us \<and> length us \<le> m + k \<and> set us \<subseteq> rx_lang r \<and>
          s = concat us @ t)" (is "?A \<longleftrightarrow> ?B")
    proof
      assume ?A
      then obtain us vs where "length us = m" "length vs \<le> k" "set us \<subseteq> rx_lang r"
        "set vs \<subseteq> rx_lang r" "s = concat us @ concat vs @ t" by blast
      then show ?B by (intro exI [of _ "us @ vs"]) auto
    next
      assume ?B
      then obtain us where us: "m \<le> length us" "length us \<le> m + k" "set us \<subseteq> rx_lang r"
        "s = concat us @ t" by blast
      have "set (take m us) \<subseteq> rx_lang r" "set (drop m us) \<subseteq> rx_lang r"
        using us(3) by (auto dest: in_set_takeD in_set_dropD)
      moreover have "concat us = concat (take m us) @ concat (drop m us)"
        by (metis append_take_drop_id concat_append)
      ultimately show ?A
        using us by (intro exI [of _ "take m us"] exI [of _ "drop m us"]) auto
    qed
    finally show "t \<in> set (rx_match (Rep r m k) s) \<longleftrightarrow> (\<exists>u\<in>rx_lang (Rep r m k). s = u @ t)"
      by auto
  qed
next
  case (Star r)
  show ?case
    using star_iff [OF Star.IH] by (intro matchesI) auto
qed

lemma fullmatch_iff_lang: "fullmatch r s \<longleftrightarrow> s \<in> rx_lang r"
  using matchesD [OF rx_match_matches, of "[]" r s] by (simp add: fullmatch_def)

subsection \<open>Reading off the program's patterns\<close>

lemma fullmatch_Cls [simp]: "fullmatch (Cls p) s \<longleftrightarrow> (\<exists>c. s = [c] \<and> p c)"
  by (auto simp: fullmatch_iff_lang)

lemma fullmatch_Eps [simp]: "fullmatch Eps s \<longleftrightarrow> s = []"
  by (simp add: fullmatch_iff_lang)

lemma fullmatch_Seq: "fullmatch (Seq a b) s \<longleftrightarrow> (\<exists>u v. s = u @ v \<and> fullmatch a u \<and> fullmatch b v)"
  by (auto simp: fullmatch_iff_lang)

lemma fullmatch_Alt [simp]: "fullmatch (Alt a b) s \<longleftrightarrow> fullmatch a s \<or> fullmatch b s"
  by (simp add: fullmatch_iff_lang)

lemma fullmatch_Seq_Cls [simp]:
  "fullmatch (Seq (Cls p) r) s \<longleftrightarrow> (\<exists>c cs. s = c # cs \<and> p c \<and> fullmatch r cs)"
proof
  assume "fullmatch (Seq (Cls p) r) s"
  then show "\<exists>c cs. s = c # cs \<and> p c \<and> fullmatch r cs" by (auto simp: fullmatch_Seq)
next
  assume "\<exists>c cs. s = c # cs \<and> p c \<and> fullmatch r cs"
  then obtain c cs where "s = [c] @ cs" "p c" "fullmatch r cs" by auto
  then show "fullmatch (Seq (Cls p) r) s" unfolding fullmatch_Seq by (metis fullmatch_Cls)
qed

lemma fullmatch_lit [simp]: "fullmatch (lit l) s \<longleftrightarrow> s = l"
  by (induction l arbitrary: s) auto

lemma concat_singletons: "(\<forall>u\<in>set us. \<exists>c. u = [c] \<and> p c) \<Longrightarrow>
    length (concat us) = length us \<and> list_all p (concat us)"
  by (induction us) auto

lemma list_all_singletons: "list_all p s \<Longrightarrow> (\<forall>u\<in>set (map (\<lambda>c. [c]) s). \<exists>c. u = [c] \<and> p c)"
  by (auto simp: list_all_iff)

lemma fullmatch_Rep_Cls [simp]:
  "fullmatch (Rep (Cls p) m k) s \<longleftrightarrow> m \<le> length s \<and> length s \<le> m + k \<and> list_all p s"
proof
  assume "fullmatch (Rep (Cls p) m k) s"
  then obtain us where us: "s = concat us" "m \<le> length us" "length us \<le> m + k"
    "\<forall>u\<in>set us. \<exists>c. u = [c] \<and> p c"
    by (auto simp: fullmatch_iff_lang)
  then show "m \<le> length s \<and> length s \<le> m + k \<and> list_all p s"
    using concat_singletons [OF us(4)] by simp
next
  assume s: "m \<le> length s \<and> length s \<le> m + k \<and> list_all p s"
  have "concat (map (\<lambda>c. [c]) s) = s" by (induction s) auto
  then show "fullmatch (Rep (Cls p) m k) s"
    using s list_all_singletons [of p s]
    by (auto simp: fullmatch_iff_lang subset_iff intro!: exI [of _ "map (\<lambda>c. [c]) s"])
qed

lemma fullmatch_Star_Cls [simp]: "fullmatch (Star (Cls p)) s \<longleftrightarrow> list_all p s"
proof
  assume "fullmatch (Star (Cls p)) s"
  then obtain us where "s = concat us" "\<forall>u\<in>set us. \<exists>c. u = [c] \<and> p c"
    by (auto simp: fullmatch_iff_lang)
  then show "list_all p s" using concat_singletons by blast
next
  assume "list_all p s"
  moreover have "concat (map (\<lambda>c. [c]) s) = s" by (induction s) auto
  ultimately show "fullmatch (Star (Cls p)) s"
    by (auto simp: fullmatch_iff_lang subset_iff list_all_iff intro!: exI [of _ "map (\<lambda>c. [c]) s"])
qed

lemma fullmatch_Opt: "fullmatch (Opt r) s \<longleftrightarrow> s = [] \<or> fullmatch r s"
proof
  assume "fullmatch (Opt r) s"
  then obtain us where "length us \<le> 1" "set us \<subseteq> rx_lang r" "s = concat us"
    by (auto simp: fullmatch_iff_lang)
  then show "s = [] \<or> fullmatch r s"
    by (cases us) (auto simp: fullmatch_iff_lang)
next
  assume "s = [] \<or> fullmatch r s"
  then show "fullmatch (Opt r) s"
  proof
    assume "s = []"
    then show ?thesis by (auto simp: fullmatch_iff_lang intro!: exI [of _ "[]"])
  next
    assume "fullmatch r s"
    then show ?thesis by (auto simp: fullmatch_iff_lang intro!: exI [of _ "[s]"])
  qed
qed

lemma fullmatch_Seq_lit:
  "fullmatch (Seq (lit l) r) s \<longleftrightarrow> (\<exists>v. s = l @ v \<and> fullmatch r v)"
  by (auto simp: fullmatch_Seq)

text \<open>A digest: a fixed number of lowercase hexadecimal digits after a prefix.\<close>

definition hex64 :: rx where
  "hex64 = Rep (Cls is_hex) 64 0"

definition sha256_ref :: rx where
  "sha256_ref = Seq (lit ''sha256:'') hex64"

lemma fullmatch_hex64 [simp]: "fullmatch hex64 s \<longleftrightarrow> length s = 64 \<and> list_all is_hex s"
  by (auto simp: hex64_def)

lemma fullmatch_sha256_ref:
  "fullmatch sha256_ref s \<longleftrightarrow> (\<exists>h. s = ''sha256:'' @ h \<and> length h = 64 \<and> list_all is_hex h)"
  unfolding sha256_ref_def fullmatch_Seq_lit fullmatch_hex64 ..

end
