(* ===== verification/Contracts.thy ===== *)
theory Contracts
  imports Regex
begin

section \<open>Runtime contracts\<close>

text \<open>
  Models \<^verbatim>\<open>src/tesserix_mcp_runtime/contracts.py\<close>: the enumerations, the immutable records
  (authenticated identity, trace context, call context, error response, invocation result, tool
  metadata) and, for each record, its \<open>__post_init__\<close> as a function that returns the
  \<open>ValueError\<close> the constructor raises. A field has the HOL type its annotation names, so the
  \<open>isinstance\<close> guards, which only refuse values of another type, have no counterpart.
\<close>

datatype value_error = ValueError string

type_synonym check = "(value_error, unit) result"

abbreviation okay :: check where "okay \<equiv> Inr ()"

subsection \<open>Text and deadlines\<close>

text \<open>\<open>_require_text\<close>.\<close>

definition text_valid :: "nat \<Rightarrow> string \<Rightarrow> bool" where
  "text_valid maximum value \<longleftrightarrow>
     value \<noteq> [] \<and> value = strip value \<and> length value \<le> maximum \<and>
     (\<forall>c\<in>set value. \<not> ord_of c < 32)"

definition require_text :: "string \<Rightarrow> string \<Rightarrow> nat \<Rightarrow> check" where
  "require_text name value maximum =
     raise_if (value = [] \<or> value \<noteq> strip value \<or> length value > maximum
               \<or> (\<exists>c\<in>set value. ord_of c < 32))
       (ValueError (name @ '' must be bounded, non-empty text'')) okay"

lemma require_text_ok [simp]: "require_text name value maximum = Inr u \<longleftrightarrow> text_valid maximum value"
  by (auto simp: require_text_def text_valid_def)

definition validate_deadline :: "pyfloat \<Rightarrow> check" where
  "validate_deadline value =
     raise_if (\<not> is_finite value \<or> value < Fin 0)
       (ValueError ''deadline must be a finite monotonic timestamp'') okay"

lemma validate_deadline_ok [simp]:
  "validate_deadline v = Inr u \<longleftrightarrow> (\<exists>q. v = Fin q \<and> 0 \<le> q)"
  by (cases v) (auto simp: validate_deadline_def)

subsection \<open>Patterns\<close>

definition tool_name_rx :: rx where
  "tool_name_rx = Seq (Cls is_alpha) (Rep (Cls (\<lambda>c. is_alnum c \<or> one_of ''_.-'' c)) 0 127)"

definition scope_name_rx :: rx where
  "scope_name_rx = Seq (Cls is_alnum) (Rep (Cls (\<lambda>c. is_alnum c \<or> one_of '':._/-'' c)) 0 255)"

definition capability_name_rx :: rx where
  "capability_name_rx = Seq (lit ''cap/'')
     (Seq (Cls is_lower_alnum) (Rep (Cls (\<lambda>c. is_lower_alnum c \<or> one_of ''._/-'' c)) 0 127))"

definition metadata_class_rx :: rx where
  "metadata_class_rx =
     Seq (Cls is_lower) (Rep (Cls (\<lambda>c. is_lower_alnum c \<or> one_of ''._-'' c)) 0 63)"

definition traceparent_v00_rx :: rx where
  "traceparent_v00_rx = Seq (lit ''00-'') (Seq (Rep (Cls is_hex) 32 0) (Seq (lit ''-'')
     (Seq (Rep (Cls is_hex) 16 0) (Seq (lit ''-'') (Rep (Cls is_hex) 2 0)))))"

definition tracestate_key_rx :: rx where
  "tracestate_key_rx =
     (let key_char = Cls (\<lambda>c. is_lower_alnum c \<or> one_of ''_*/-'' c) in
      Alt (Seq (Cls is_lower) (Rep key_char 0 255))
          (Seq (Cls is_lower) (Seq (Rep key_char 0 240)
            (Seq (lit ''@'') (Seq (Cls is_lower) (Rep key_char 0 13))))))"

definition max_metadata_labels :: nat where
  "max_metadata_labels = 32"

subsection \<open>Authenticated identity\<close>

record authenticated_identity =
  id_tenant :: string
  id_subject :: string
  id_issuer :: string
  id_scopes :: "string list"

definition check_identity :: "authenticated_identity \<Rightarrow> check" where
  "check_identity i =
     and_then (require_text ''tenant'' (id_tenant i) 256) (\<lambda>_.
     and_then (require_text ''subject'' (id_subject i) 512) (\<lambda>_.
     and_then (require_text ''issuer'' (id_issuer i) 2048) (\<lambda>_.
     and_then (for_each (\<lambda>scope. require_text ''scope'' scope 256) (id_scopes i)) (\<lambda>_.
     raise_if (\<not> distinct (id_scopes i))
       (ValueError ''scopes must not contain duplicates'') okay))))"

lemma check_identity_ok:
  "check_identity i = Inr u \<longleftrightarrow>
     text_valid 256 (id_tenant i) \<and> text_valid 512 (id_subject i) \<and> text_valid 2048 (id_issuer i) \<and>
     (\<forall>s\<in>set (id_scopes i). text_valid 256 s) \<and> distinct (id_scopes i)"
  by (simp add: check_identity_def)

subsection \<open>Trace context\<close>

record trace_context =
  traceparent :: "string option"
  tracestate :: "string option"

text \<open>
  The groups \<open>matched.group(1)\<close> and \<open>matched.group(2)\<close> of a traceparent: the pieces have fixed
  widths, so they are slices.
\<close>

definition trace_id :: "string \<Rightarrow> string" where
  "trace_id tp = take 32 (drop 3 tp)"

definition parent_id :: "string \<Rightarrow> string" where
  "parent_id tp = take 16 (drop 36 tp)"

text \<open>\<open>member.strip(" ")\<close> and \<open>partition("=")\<close>.\<close>

definition strip_blanks :: "string \<Rightarrow> string" where
  "strip_blanks s = (let blank = (\<lambda>c. c = CHR '' '') in rev (dropWhile blank (rev (dropWhile blank s))))"

definition partition_eq :: "string \<Rightarrow> string \<times> string \<times> string" where
  "partition_eq s = (let key = takeWhile (\<lambda>c. c \<noteq> CHR ''='') s; rest = dropWhile (\<lambda>c. c \<noteq> CHR ''='') s
     in (case rest of [] \<Rightarrow> (s, [], []) | c # cs \<Rightarrow> (key, [c], cs)))"

definition tracestate_value_ok :: "string \<Rightarrow> bool" where
  "tracestate_value_ok value \<longleftrightarrow>
     1 \<le> length value \<and> length value \<le> 256 \<and> last value \<noteq> CHR '' '' \<and>
     \<not> (\<exists>c\<in>set value. one_of '',='' c \<or> \<not> (32 \<le> ord_of c \<and> ord_of c \<le> 126))"

text \<open>The loop over the members, with the keys seen so far.\<close>

fun check_members :: "string list \<Rightarrow> string list \<Rightarrow> check" where
  "check_members keys [] = okay"
| "check_members keys (m # ms) =
     (case partition_eq (strip_blanks m) of (key, separator, value) \<Rightarrow>
        raise_if (separator \<noteq> ''='' \<or> \<not> fullmatch tracestate_key_rx key \<or>
                  \<not> tracestate_value_ok value \<or> key \<in> set keys)
          (ValueError ''tracestate must contain valid unique members'')
          (check_members (key # keys) ms))"

definition check_tracestate :: "string \<Rightarrow> check" where
  "check_tracestate ts =
     and_then (require_text ''tracestate'' ts 512) (\<lambda>_.
       let members = split_on CHR '','' ts in
       raise_if (length members > 32)
         (ValueError ''tracestate must contain at most 32 members'')
         (check_members [] members))"

definition check_trace_context :: "trace_context \<Rightarrow> check" where
  "check_trace_context t =
     (case traceparent t of
        None \<Rightarrow> raise_if (tracestate t \<noteq> None) (ValueError ''tracestate requires traceparent'') okay
      | Some tp \<Rightarrow>
          and_then (require_text ''traceparent'' tp 55) (\<lambda>_.
          raise_if (\<not> fullmatch traceparent_v00_rx tp)
            (ValueError ''traceparent must be a valid W3C version 00 value'')
          (raise_if (trace_id tp = replicate 32 CHR ''0'' \<or> parent_id tp = replicate 16 CHR ''0'')
            (ValueError ''traceparent identifiers must be non-zero'')
          (case tracestate t of None \<Rightarrow> okay | Some ts \<Rightarrow> check_tracestate ts))))"

definition trace_mapping :: "trace_context \<Rightarrow> (string \<times> string) list" where
  "trace_mapping t =
     concat (map (\<lambda>(name, value). case value of None \<Rightarrow> [] | Some v \<Rightarrow> [(name, v)])
       [(''traceparent'', traceparent t), (''tracestate'', tracestate t)])"

text \<open>The keys of the members of a tracestate, in order.\<close>

definition member_keys :: "string \<Rightarrow> string list" where
  "member_keys ts = map (\<lambda>m. fst (partition_eq (strip_blanks m))) (split_on CHR '','' ts)"

lemma check_members_ok:
  "check_members keys ms = Inr u \<Longrightarrow>
     distinct (map (\<lambda>m. fst (partition_eq (strip_blanks m))) ms) \<and>
     (\<forall>m\<in>set ms. fst (partition_eq (strip_blanks m)) \<notin> set keys) \<and>
     (\<forall>m\<in>set ms. fullmatch tracestate_key_rx (fst (partition_eq (strip_blanks m))) \<and>
        tracestate_value_ok (snd (snd (partition_eq (strip_blanks m)))))"
proof (induction keys ms rule: check_members.induct)
  case (1 keys)
  show ?case by simp
next
  case (2 keys m ms)
  obtain key sep val where p: "partition_eq (strip_blanks m) = (key, sep, val)"
    by (cases "partition_eq (strip_blanks m)") auto
  with "2.prems" have m: "fullmatch tracestate_key_rx key" "tracestate_value_ok val" "key \<notin> set keys"
    and rest: "check_members (key # keys) ms = Inr u"
    by (auto split: prod.splits)
  have "(\<forall>x\<in>set ms. fst (partition_eq (strip_blanks x)) \<notin> set (key # keys))"
    using "2.IH" [OF p [symmetric] refl rest] by blast
  then show ?case
    using "2.IH" [OF p [symmetric] refl rest] m p by auto
qed

lemma traceparent_shape:
  assumes "fullmatch traceparent_v00_rx tp"
  shows "length tp = 55" "length (trace_id tp) = 32" "length (parent_id tp) = 16"
    "list_all is_hex (trace_id tp)" "list_all is_hex (parent_id tp)"
proof -
  obtain a b c where tp: "tp = ''00-'' @ a @ ''-'' @ b @ ''-'' @ c"
    and l: "length a = 32" "list_all is_hex a" "length b = 16" "list_all is_hex b"
      "length c = 2" "list_all is_hex c"
    using assms unfolding traceparent_v00_rx_def fullmatch_Seq_lit fullmatch_Seq
    by (auto simp: fullmatch_Seq_lit simp del: lit.simps)
  then have id: "trace_id tp = a" "parent_id tp = b"
    by (simp_all add: trace_id_def parent_id_def)
  show "length tp = 55" using tp l by simp
  show "length (trace_id tp) = 32" "length (parent_id tp) = 16"
    "list_all is_hex (trace_id tp)" "list_all is_hex (parent_id tp)"
    using l by (simp_all add: id)
qed


subsection \<open>Call context\<close>

text \<open>
  A cancellation is a handle: the call carries \<open>_NEVER_CANCELLED\<close> or a token, and whether a token
  is cancelled is a fact about the moment at which it is asked. \<open>Linked\<close> is the
  \<open>_LinkedCancellation\<close> of the execution layer, with its parent and its own event.
\<close>

datatype cancellation = NeverCancelled | Token nat | Linked cancellation nat

primrec cancelled_now :: "(nat \<Rightarrow> bool) \<Rightarrow> cancellation \<Rightarrow> bool" where
  "cancelled_now events NeverCancelled = False"
| "cancelled_now events (Token n) = events n"
| "cancelled_now events (Linked parent n) = (events n \<or> cancelled_now events parent)"

record call_context =
  cc_identity :: authenticated_identity
  cc_request_id :: string
  cc_run_id :: string
  cc_trace :: trace_context
  cc_deadline :: "pyfloat option"
  cc_cancellation :: cancellation
  cc_idempotency_key :: "string option"
  cc_approval_id :: "string option"

definition check_optional :: "('a \<Rightarrow> check) \<Rightarrow> 'a option \<Rightarrow> check" where
  "check_optional f v = (case v of None \<Rightarrow> okay | Some x \<Rightarrow> f x)"

definition check_call_context :: "call_context \<Rightarrow> check" where
  "check_call_context c =
     and_then (require_text ''request_id'' (cc_request_id c) 256) (\<lambda>_.
     and_then (require_text ''run_id'' (cc_run_id c) 256) (\<lambda>_.
     and_then (check_optional validate_deadline (cc_deadline c)) (\<lambda>_.
     and_then (check_optional (\<lambda>k. require_text ''idempotency_key'' k 512) (cc_idempotency_key c)) (\<lambda>_.
     check_optional (\<lambda>a. require_text ''approval_id'' a 256) (cc_approval_id c)))))"

definition ctx_tenant :: "call_context \<Rightarrow> string" where
  "ctx_tenant c = id_tenant (cc_identity c)"

definition ctx_subject :: "call_context \<Rightarrow> string" where
  "ctx_subject c = id_subject (cc_identity c)"

definition ctx_issuer :: "call_context \<Rightarrow> string" where
  "ctx_issuer c = id_issuer (cc_identity c)"

definition ctx_scopes :: "call_context \<Rightarrow> string list" where
  "ctx_scopes c = id_scopes (cc_identity c)"

text \<open>A valid call, for the concrete instances of the theorems.\<close>

definition sample_identity :: authenticated_identity where
  "sample_identity = \<lparr>id_tenant = ''acme'', id_subject = ''agent'', id_issuer = ''idp'',
     id_scopes = [''docs:read'', ''docs:write'']\<rparr>"

definition sample_context :: call_context where
  "sample_context = \<lparr>cc_identity = sample_identity, cc_request_id = ''req-1'', cc_run_id = ''run-1'',
     cc_trace = \<lparr>traceparent = None, tracestate = None\<rparr>, cc_deadline = Some (Fin 100),
     cc_cancellation = Token 0, cc_idempotency_key = Some ''key-1'', cc_approval_id = None\<rparr>"

lemma check_call_context_ok:
  "check_call_context c = Inr u \<longleftrightarrow>
     text_valid 256 (cc_request_id c) \<and> text_valid 256 (cc_run_id c) \<and>
     (\<forall>d. cc_deadline c = Some d \<longrightarrow> (\<exists>q. d = Fin q \<and> 0 \<le> q)) \<and>
     (\<forall>k. cc_idempotency_key c = Some k \<longrightarrow> text_valid 512 k) \<and>
     (\<forall>a. cc_approval_id c = Some a \<longrightarrow> text_valid 256 a)"
  by (auto simp: check_call_context_def check_optional_def split: option.splits)

subsection \<open>Enumerations\<close>

datatype tool_effect = Effect_READ | Effect_WRITE | Effect_EXTERNAL_EFFECT

datatype approval_requirement = Approval_NOT_REQUIRED | Approval_REQUIRED

datatype idempotency_requirement = Idempotency_NOT_APPLICABLE | Idempotency_REQUIRED

datatype error_code =
    INVALID_INPUT
  | UNAUTHENTICATED
  | FORBIDDEN
  | APPROVAL_REQUIRED
  | CONFLICT
  | TIMEOUT
  | CANCELLED
  | OVERLOADED
  | UNAVAILABLE
  | RESULT_TOO_LARGE
  | INTERNAL_FAILURE

datatype retryability = Retry_NEVER | Retry_SAFE_OR_IDEMPOTENT

datatype invocation_status = Status_SUCCESS | Status_FAILURE

datatype lifecycle_state = STARTUP | READY | DRAINING | STOPPED

fun effect_value :: "tool_effect \<Rightarrow> string" where
  "effect_value Effect_READ = ''read''"
| "effect_value Effect_WRITE = ''write''"
| "effect_value Effect_EXTERNAL_EFFECT = ''external_effect''"

fun approval_value :: "approval_requirement \<Rightarrow> string" where
  "approval_value Approval_NOT_REQUIRED = ''not_required''"
| "approval_value Approval_REQUIRED = ''required''"

fun idempotency_value :: "idempotency_requirement \<Rightarrow> string" where
  "idempotency_value Idempotency_NOT_APPLICABLE = ''not_applicable''"
| "idempotency_value Idempotency_REQUIRED = ''required''"

fun error_value :: "error_code \<Rightarrow> string" where
  "error_value INVALID_INPUT = ''invalid_input''"
| "error_value UNAUTHENTICATED = ''unauthenticated''"
| "error_value FORBIDDEN = ''forbidden''"
| "error_value APPROVAL_REQUIRED = ''approval_required''"
| "error_value CONFLICT = ''conflict''"
| "error_value TIMEOUT = ''timeout''"
| "error_value CANCELLED = ''cancelled''"
| "error_value OVERLOADED = ''overloaded''"
| "error_value UNAVAILABLE = ''unavailable''"
| "error_value RESULT_TOO_LARGE = ''result_too_large''"
| "error_value INTERNAL_FAILURE = ''internal_failure''"

fun retry_value :: "retryability \<Rightarrow> string" where
  "retry_value Retry_NEVER = ''never''"
| "retry_value Retry_SAFE_OR_IDEMPOTENT = ''safe_or_idempotent''"

fun error_message :: "error_code \<Rightarrow> string" where
  "error_message INVALID_INPUT = ''The request is invalid.''"
| "error_message UNAUTHENTICATED = ''Authentication is required.''"
| "error_message FORBIDDEN = ''The operation is not permitted.''"
| "error_message APPROVAL_REQUIRED = ''Approval is required.''"
| "error_message CONFLICT = ''The operation conflicts with current state.''"
| "error_message TIMEOUT = ''The operation timed out.''"
| "error_message CANCELLED = ''The operation was cancelled.''"
| "error_message OVERLOADED = ''The runtime is at capacity.''"
| "error_message UNAVAILABLE = ''A required dependency is unavailable.''"
| "error_message RESULT_TOO_LARGE = ''The tool result exceeds the allowed size.''"
| "error_message INTERNAL_FAILURE = ''The operation failed.''"

definition error_retryability :: "error_code \<Rightarrow> retryability" where
  "error_retryability code =
     (if code \<in> {TIMEOUT, OVERLOADED, UNAVAILABLE} then Retry_SAFE_OR_IDEMPOTENT else Retry_NEVER)"

lemma error_value_inject: "error_value a = error_value b \<Longrightarrow> a = b"
  by (cases a; cases b) simp_all

lemma error_message_inject: "error_message a = error_message b \<Longrightarrow> a = b"
  by (cases a; cases b) simp_all

subsection \<open>Error responses and invocation results\<close>

record error_response =
  er_code :: error_code
  er_message :: string
  er_request_id :: string
  er_retryability :: retryability

definition check_error_response :: "error_response \<Rightarrow> check" where
  "check_error_response r =
     raise_if (er_message r \<noteq> error_message (er_code r))
       (ValueError ''message must use the stable public text'')
     (and_then (require_text ''request_id'' (er_request_id r) 256) (\<lambda>_.
      raise_if (er_retryability r \<noteq> error_retryability (er_code r))
        (ValueError ''retryability must match the stable error policy'') okay))"

definition make_error_response ::
    "error_code \<Rightarrow> string \<Rightarrow> string \<Rightarrow> retryability \<Rightarrow> (value_error, error_response) result" where
  "make_error_response code message rid retry =
     (let r = \<lparr>er_code = code, er_message = message, er_request_id = rid, er_retryability = retry\<rparr>
      in and_then (check_error_response r) (\<lambda>_. Inr r))"

definition error_from_code :: "error_code \<Rightarrow> string \<Rightarrow> (value_error, error_response) result" where
  "error_from_code code rid =
     and_then (require_text ''request_id'' rid 256) (\<lambda>_.
       make_error_response code (error_message code) rid (error_retryability code))"

definition error_to_dict :: "error_response \<Rightarrow> pyval" where
  "error_to_dict r = obj
     [(''code'', PStr (error_value (er_code r))),
      (''message'', PStr (er_message r)),
      (''request_id'', PStr (er_request_id r)),
      (''retryability'', PStr (retry_value (er_retryability r)))]"

lemma error_from_code_ok:
  "error_from_code code rid = Inr r \<longleftrightarrow>
     text_valid 256 rid \<and>
     r = \<lparr>er_code = code, er_message = error_message code, er_request_id = rid,
          er_retryability = error_retryability code\<rparr>"
  by (auto simp: error_from_code_def make_error_response_def check_error_response_def Let_def)

record invocation_result =
  ir_status :: invocation_status
  ir_value :: pyval
  ir_error :: "error_response option"

definition check_invocation_result :: "invocation_result \<Rightarrow> check" where
  "check_invocation_result r =
     raise_if (ir_status r = Status_SUCCESS \<and> ir_error r \<noteq> None)
       (ValueError ''a successful result cannot contain an error'')
     (raise_if (ir_status r = Status_FAILURE \<and> (ir_error r = None \<or> ir_value r \<noteq> PNone))
       (ValueError ''a failed result must contain only one public error'') okay)"

definition result_success :: "pyval \<Rightarrow> invocation_result" where
  "result_success v = \<lparr>ir_status = Status_SUCCESS, ir_value = v, ir_error = None\<rparr>"

definition result_failure :: "error_response \<Rightarrow> invocation_result" where
  "result_failure e = \<lparr>ir_status = Status_FAILURE, ir_value = PNone, ir_error = Some e\<rparr>"

lemma result_constructors_valid [simp]:
  "check_invocation_result (result_success v) = okay"
  "check_invocation_result (result_failure e) = okay"
  by (simp_all add: check_invocation_result_def result_success_def result_failure_def)

lemma invocation_result_cases:
  assumes "check_invocation_result r = okay"
  obtains (success) v where "r = result_success v"
  | (failure) e where "r = result_failure e"
proof (cases "ir_status r")
  case Status_SUCCESS
  with assms have "r = result_success (ir_value r)"
    by (cases r) (auto simp: check_invocation_result_def result_success_def)
  then show ?thesis by (rule success)
next
  case Status_FAILURE
  with assms obtain e where "r = result_failure e"
    by (cases r) (auto simp: check_invocation_result_def result_failure_def)
  then show ?thesis by (rule failure)
qed

subsection \<open>Tool metadata\<close>

record tool_discovery_metadata =
  td_summary :: string
  td_when_to_use :: string
  td_capabilities :: "string list"
  td_rate_class :: string
  td_lifecycle :: string
  td_examples :: "string list"

definition check_metadata_class :: "string \<Rightarrow> string \<Rightarrow> check" where
  "check_metadata_class name v =
     and_then (require_text name v 64) (\<lambda>_.
     raise_if (\<not> fullmatch metadata_class_rx v)
       (ValueError (name @ '' contains unsupported characters'')) okay)"

definition check_discovery_metadata :: "tool_discovery_metadata \<Rightarrow> check" where
  "check_discovery_metadata d =
     and_then (require_text ''summary'' (td_summary d) 200) (\<lambda>_.
     and_then (require_text ''when_to_use'' (td_when_to_use d) 1024) (\<lambda>_.
     raise_if (length (td_capabilities d) > max_metadata_labels)
       (ValueError ''capabilities must be a bounded immutable tuple'')
     (and_then (for_each (\<lambda>c. and_then (require_text ''capability'' c 132) (\<lambda>_.
         raise_if (\<not> fullmatch capability_name_rx c)
           (ValueError ''capability contains unsupported characters'') okay)) (td_capabilities d)) (\<lambda>_.
     raise_if (\<not> distinct (td_capabilities d))
       (ValueError ''capabilities must not contain duplicates'')
     (and_then (check_metadata_class ''rate_class'' (td_rate_class d)) (\<lambda>_.
     and_then (check_metadata_class ''lifecycle'' (td_lifecycle d)) (\<lambda>_.
     raise_if (length (td_examples d) > 16)
       (ValueError ''examples must be a bounded immutable tuple'')
     (and_then (for_each (\<lambda>e. require_text ''example'' e 1024) (td_examples d)) (\<lambda>_.
     raise_if (\<not> distinct (td_examples d))
       (ValueError ''examples must not contain duplicates'') okay)))))))))"

definition discovery_to_dict :: "tool_discovery_metadata \<Rightarrow> pyval" where
  "discovery_to_dict d = obj
     [(''summary'', PStr (td_summary d)),
      (''when_to_use'', PStr (td_when_to_use d)),
      (''capabilities'', pstrs (td_capabilities d)),
      (''rate_class'', PStr (td_rate_class d)),
      (''lifecycle'', PStr (td_lifecycle d)),
      (''examples'', pstrs (td_examples d))]"

record tool_metadata =
  tm_name :: string
  tm_title :: string
  tm_description :: string
  tm_effect :: tool_effect
  tm_approval :: approval_requirement
  tm_idempotency :: idempotency_requirement
  tm_required_scopes :: "string list"
  tm_discovery :: "tool_discovery_metadata option"

definition check_tool_metadata :: "tool_metadata \<Rightarrow> check" where
  "check_tool_metadata m =
     and_then (require_text ''name'' (tm_name m) 128) (\<lambda>_.
     raise_if (\<not> fullmatch tool_name_rx (tm_name m))
       (ValueError ''name contains unsupported characters'')
     (and_then (require_text ''title'' (tm_title m) 128) (\<lambda>_.
     and_then (require_text ''description'' (tm_description m) 2048) (\<lambda>_.
     raise_if (length (tm_required_scopes m) > max_metadata_labels)
       (ValueError ''required_scopes must be a bounded immutable tuple'')
     (and_then (for_each (\<lambda>s. and_then (require_text ''scope'' s 256) (\<lambda>_.
         raise_if (\<not> fullmatch scope_name_rx s)
           (ValueError ''scope contains unsupported characters'') okay)) (tm_required_scopes m)) (\<lambda>_.
     raise_if (\<not> distinct (tm_required_scopes m))
       (ValueError ''required_scopes must not contain duplicates'')
     (raise_if (tm_effect m \<noteq> Effect_READ \<and> tm_idempotency m \<noteq> Idempotency_REQUIRED)
       (ValueError ''write and external effects require idempotency'')
     (raise_if (tm_effect m = Effect_EXTERNAL_EFFECT \<and> tm_approval m \<noteq> Approval_REQUIRED)
       (ValueError ''external effects require per-call approval'') okay))))))))"

definition metadata_to_dict :: "tool_metadata \<Rightarrow> pyval" where
  "metadata_to_dict m = obj
     ([(''name'', PStr (tm_name m)),
       (''title'', PStr (tm_title m)),
       (''description'', PStr (tm_description m)),
       (''effect'', PStr (effect_value (tm_effect m))),
       (''approval'', PStr (approval_value (tm_approval m))),
       (''idempotency'', PStr (idempotency_value (tm_idempotency m))),
       (''required_scopes'', pstrs (tm_required_scopes m))] @
      (case tm_discovery m of None \<Rightarrow> [] | Some d \<Rightarrow> [(''discovery'', discovery_to_dict d)]))"

lemma check_tool_metadata_ok:
  "check_tool_metadata m = Inr u \<longleftrightarrow>
     text_valid 128 (tm_name m) \<and> fullmatch tool_name_rx (tm_name m) \<and>
     text_valid 128 (tm_title m) \<and> text_valid 2048 (tm_description m) \<and>
     length (tm_required_scopes m) \<le> max_metadata_labels \<and>
     (\<forall>s\<in>set (tm_required_scopes m). text_valid 256 s \<and> fullmatch scope_name_rx s) \<and>
     distinct (tm_required_scopes m) \<and>
     (tm_effect m \<noteq> Effect_READ \<longrightarrow> tm_idempotency m = Idempotency_REQUIRED) \<and>
     (tm_effect m = Effect_EXTERNAL_EFFECT \<longrightarrow> tm_approval m = Approval_REQUIRED)"
  by (auto simp: check_tool_metadata_def)

lemma check_tool_metadata_effects:
  assumes "check_tool_metadata m = okay"
  shows "tm_effect m \<noteq> Effect_READ \<Longrightarrow> tm_idempotency m = Idempotency_REQUIRED"
    and "tm_effect m = Effect_EXTERNAL_EFFECT \<Longrightarrow> tm_approval m = Approval_REQUIRED"
  using assms by (auto simp: check_tool_metadata_ok)

end
