(* ===== verification/Errors.thy ===== *)
theory Errors
  imports Contracts
begin

section \<open>Public error mapping and the terminal emitter\<close>

text \<open>
  Models \<^verbatim>\<open>src/tesserix_mcp_runtime/errors.py\<close>. An exception is its kind (the classes the
  runtime distinguishes with \<open>isinstance\<close> and \<open>except\<close>) together with the name of its type, which
  may be the name of a subclass. The emitter is a state with the single result slot and the
  ready event; its lock makes each \<open>emit\<close> one step.
\<close>

datatype exn_kind =
    RuntimeFailure error_code
  | TimeoutError
  | CancelledError
  | ConnectionError
  | ExecutionLimitExceeded
  | KeyError
  | TypeError
  | PyValueError
  | OtherException
  | OtherBaseException

record exn =
  exn_kind :: exn_kind
  exn_type :: string

text \<open>\<open>isinstance(error, Exception)\<close>: what \<open>except Exception\<close> catches.\<close>

definition is_exception :: "exn \<Rightarrow> bool" where
  "is_exception e \<longleftrightarrow> exn_kind e \<notin> {CancelledError, OtherBaseException}"

text \<open>\<open>isinstance(error, (KeyError, TypeError, ValueError))\<close>; a limit violation is a \<open>ValueError\<close>.\<close>

definition is_parse_error :: "exn \<Rightarrow> bool" where
  "is_parse_error e \<longleftrightarrow> exn_kind e \<in> {KeyError, TypeError, PyValueError, ExecutionLimitExceeded}"

definition runtime_failure :: "error_code \<Rightarrow> exn" where
  "runtime_failure c = \<lparr>exn_kind = RuntimeFailure c, exn_type = ''RuntimeFailure''\<rparr>"

definition exception_type_rx :: rx where
  "exception_type_rx =
     Seq (Cls (\<lambda>c. is_alpha c \<or> one_of ''_'' c)) (Rep (Cls (\<lambda>c. is_alnum c \<or> one_of ''_'' c)) 0 255)"

subsection \<open>Mapping exceptions to public failures\<close>

record scrubbed_error =
  se_code :: error_code
  se_exception_type :: string
  se_request_id :: string

definition check_scrubbed_error :: "scrubbed_error \<Rightarrow> check" where
  "check_scrubbed_error s =
     and_then (error_from_code (se_code s) (se_request_id s)) (\<lambda>_.
     raise_if (\<not> fullmatch exception_type_rx (se_exception_type s))
       (ValueError ''exception_type must be a bounded type name'') okay)"

definition scrubbed_to_dict :: "scrubbed_error \<Rightarrow> pyval" where
  "scrubbed_to_dict s = obj
     [(''code'', PStr (error_value (se_code s))),
      (''exception_type'', PStr (se_exception_type s)),
      (''request_id'', PStr (se_request_id s))]"

record mapped_error =
  me_response :: error_response
  me_audit :: scrubbed_error

definition check_mapped_error :: "mapped_error \<Rightarrow> check" where
  "check_mapped_error m =
     raise_if (er_code (me_response m) \<noteq> se_code (me_audit m) \<or>
               er_request_id (me_response m) \<noteq> se_request_id (me_audit m))
       (ValueError ''response and audit identities must match'') okay"

definition exception_code :: "exn \<Rightarrow> error_code" where
  "exception_code e = (case exn_kind e of
       RuntimeFailure c \<Rightarrow> c
     | TimeoutError \<Rightarrow> TIMEOUT
     | CancelledError \<Rightarrow> CANCELLED
     | _ \<Rightarrow> INTERNAL_FAILURE)"

definition safe_exception_type :: "string \<Rightarrow> string" where
  "safe_exception_type name = (if fullmatch exception_type_rx name then name else ''Exception'')"

definition map_exception :: "exn \<Rightarrow> string \<Rightarrow> (value_error, mapped_error) result" where
  "map_exception e rid =
     (let code = exception_code e; type_name = safe_exception_type (exn_type e) in
      and_then (error_from_code code rid) (\<lambda>response.
      let audit = \<lparr>se_code = code, se_exception_type = type_name, se_request_id = rid\<rparr> in
      and_then (check_scrubbed_error audit) (\<lambda>_.
      let m = \<lparr>me_response = response, me_audit = audit\<rparr> in
      and_then (check_mapped_error m) (\<lambda>_. Inr m))))"

lemma fullmatch_exception_type:
  "fullmatch exception_type_rx s \<longleftrightarrow>
     (\<exists>c cs. s = c # cs \<and> (is_alpha c \<or> c = CHR ''_'') \<and> length cs \<le> 255 \<and>
        (\<forall>x\<in>set cs. is_alnum x \<or> x = CHR ''_''))"
  by (auto simp: exception_type_rx_def one_of_def list_all_iff)

lemma fallback_type_valid [simp]: "fullmatch exception_type_rx ''Exception''"
  by (simp add: fullmatch_exception_type is_alpha_def is_alnum_def is_upper_def is_lower_def
      chr_range_def ord_of_def)

lemma safe_exception_type_valid [simp]: "fullmatch exception_type_rx (safe_exception_type name)"
  by (simp add: safe_exception_type_def)

lemma map_exception_eq:
  assumes "text_valid 256 rid"
  shows "map_exception e rid = Inr
    \<lparr>me_response = \<lparr>er_code = exception_code e, er_message = error_message (exception_code e),
        er_request_id = rid, er_retryability = error_retryability (exception_code e)\<rparr>,
     me_audit = \<lparr>se_code = exception_code e, se_exception_type = safe_exception_type (exn_type e),
        se_request_id = rid\<rparr>\<rparr>"
proof -
  have "error_from_code (exception_code e) rid = Inr \<lparr>er_code = exception_code e,
      er_message = error_message (exception_code e), er_request_id = rid,
      er_retryability = error_retryability (exception_code e)\<rparr>"
    using assms by (simp add: error_from_code_ok)
  then show ?thesis
    by (simp add: map_exception_def Let_def check_scrubbed_error_def check_mapped_error_def)
qed

text \<open>
  Every exception a tool or a dependency can raise is mapped to exactly one stable public
  failure with its fixed message and retry policy, and to an audit record with the same code and
  request id whose type name is a bounded identifier; nothing else of the exception reaches
  either. A runtime failure keeps its code, a timeout and a cancellation get theirs, anything
  else is an internal failure.
\<close>

theorem map_exception_total:
  assumes "text_valid 256 rid"
  shows "\<exists>m. map_exception e rid = Inr m \<and>
    check_error_response (me_response m) = okay \<and> check_scrubbed_error (me_audit m) = okay \<and>
    er_code (me_response m) = se_code (me_audit m) \<and>
    er_request_id (me_response m) = rid \<and> se_request_id (me_audit m) = rid \<and>
    er_message (me_response m) = error_message (er_code (me_response m)) \<and>
    (\<forall>c. exn_kind e = RuntimeFailure c \<longrightarrow> er_code (me_response m) = c) \<and>
    (exn_kind e = TimeoutError \<longrightarrow> er_code (me_response m) = TIMEOUT) \<and>
    (exn_kind e = CancelledError \<longrightarrow> er_code (me_response m) = CANCELLED) \<and>
    (exn_kind e \<notin> {TimeoutError, CancelledError} \<union> range RuntimeFailure \<longrightarrow>
       er_code (me_response m) = INTERNAL_FAILURE)"
  using assms
  by (auto simp: map_exception_eq check_error_response_def check_scrubbed_error_def
      error_from_code_ok exception_code_def split: exn_kind.splits)

theorem map_exception_total_witness:
  "text_valid 256 ''r1'' \<and>
   (\<exists>m. map_exception \<lparr>exn_kind = OtherException, exn_type = ''bad name''\<rparr> ''r1'' = Inr m \<and>
      er_code (me_response m) = INTERNAL_FAILURE \<and> se_exception_type (me_audit m) = ''Exception'')"
proof -
  have valid: "text_valid 256 ''r1''"
    by (simp add: text_valid_def strip_def is_space_def ord_of_def)
  have bad: "safe_exception_type ''bad name'' = ''Exception''"
    by (simp add: safe_exception_type_def fullmatch_exception_type is_alpha_def is_alnum_def
        is_upper_def is_lower_def is_digit_def chr_range_def ord_of_def)
  show ?thesis
    using valid map_exception_total [OF valid, of "\<lparr>exn_kind = OtherException, exn_type = ''bad name''\<rparr>"]
    by (auto simp: map_exception_eq bad)
qed

subsection \<open>The terminal emitter\<close>

record emitter =
  em_result :: "invocation_result option"
  em_ready :: bool

definition emitter_init :: emitter where
  "emitter_init = \<lparr>em_result = None, em_ready = False\<rparr>"

definition emit :: "invocation_result \<Rightarrow> emitter \<Rightarrow> bool \<times> emitter" where
  "emit r s = (if em_result s \<noteq> None then (False, s)
               else (True, s\<lparr>em_result := Some r, em_ready := True\<rparr>))"

text \<open>
  \<open>result()\<close> waits for the ready event: \<open>None\<close> while it waits, then the stored result or the
  \<open>RuntimeError\<close> of a violated invariant.
\<close>

definition emitter_result :: "emitter \<Rightarrow> (string, invocation_result) result option" where
  "emitter_result s =
     (if \<not> em_ready s then None
      else Some (case em_result s of
          None \<Rightarrow> Inl ''terminal result invariant violated''
        | Some r \<Rightarrow> Inr r))"

fun emit_all :: "invocation_result list \<Rightarrow> emitter \<Rightarrow> bool list \<times> emitter" where
  "emit_all [] s = ([], s)"
| "emit_all (r # rs) s =
     (let (accepted, s') = emit r s; (more, t) = emit_all rs s' in (accepted # more, t))"

definition emitter_inv :: "emitter \<Rightarrow> bool" where
  "emitter_inv s \<longleftrightarrow> (em_ready s \<longleftrightarrow> em_result s \<noteq> None)"

inductive emitter_step :: "emitter \<Rightarrow> emitter \<Rightarrow> bool" where
  emitter_stepI: "emitter_step s (snd (emit r s))"

inductive_cases emitter_stepE: "emitter_step s t"

interpretation terminal: invariant_machine "\<lambda>s. s = emitter_init" emitter_step emitter_inv
  by unfold_locales (auto simp: emitter_init_def emitter_inv_def emit_def elim!: emitter_stepE)

lemma emit_all_full: "em_result s = Some r \<Longrightarrow> emit_all rs s = (replicate (length rs) False, s)"
  by (induction rs) (simp_all add: emit_def)

lemma emit_all_empty:
  "em_result s = None \<Longrightarrow> emit_all (r # rs) s =
     (True # replicate (length rs) False, s\<lparr>em_result := Some r, em_ready := True\<rparr>)"
  by (simp add: emit_def emit_all_full)

text \<open>
  However many completions and cancellations race for one invocation, the first result to
  arrive is the terminal one: it alone is accepted, every later one is refused, and every waiter
  gets it.
\<close>

theorem emitter_first_wins:
  "emit_all (r # rs) emitter_init =
     (True # replicate (length rs) False, \<lparr>em_result = Some r, em_ready = True\<rparr>) \<and>
   emitter_result (snd (emit_all (r # rs) emitter_init)) = Some (Inr r)"
  by (simp only: emit_all_empty emitter_init_def emitter.simps snd_conv emitter_result_def) simp

lemma emitter_never_violated:
  "reachable (\<lambda>s. s = emitter_init) emitter_step s \<Longrightarrow> emitter_result s \<noteq> Some (Inl m)"
  by (drule terminal.reachable_inv) (auto simp: emitter_inv_def emitter_result_def split: option.splits)

end
