(* ===== verification/Lifecycle.thy ===== *)
theory Lifecycle
  imports Errors
begin

section \<open>Lifecycle hook ordering\<close>

text \<open>
  Models \<^verbatim>\<open>src/tesserix_mcp_runtime/lifecycle.py\<close>: \<open>LifecycleController\<close> starts its components
  in order, drains and stops the started ones in reverse order, and cleans up after a failed
  start. A hook belongs to a component the product supplies, so its outcome is an argument of
  the model: the environment says, for every history of hook calls and every next call, whether
  the hook returns, raises an \<open>Exception\<close> or is cancelled. The calls made so far are part of the
  state. The transition lock makes each of \<open>start\<close>, \<open>drain\<close> and \<open>stop\<close> one step.
\<close>

record component =
  comp_id :: nat
  comp_name :: string

datatype hook_call = HStart component | HDrain component pyfloat | HStop component

datatype hook_outcome = Returns | Raises | Cancels

type_synonym hook_env = "hook_call list \<Rightarrow> hook_call \<Rightarrow> hook_outcome"

record lifecycle =
  lc_components :: "component list"
  lc_started :: "component list"
  lc_state :: lifecycle_state
  lc_calls :: "hook_call list"

datatype lifecycle_error =
    LifecycleFailure lifecycle_state string nat
  | LifecycleTransitionError string lifecycle_state
  | LifecycleCancelled
  | LifecycleValueError

definition lifecycle_init :: "component list \<Rightarrow> lifecycle" where
  "lifecycle_init components =
     \<lparr>lc_components = components, lc_started = [], lc_state = STARTUP, lc_calls = []\<rparr>"

definition call_hook :: "hook_env \<Rightarrow> hook_call \<Rightarrow> lifecycle \<Rightarrow> hook_outcome \<times> lifecycle" where
  "call_hook env h s = (env (lc_calls s) h, s\<lparr>lc_calls := lc_calls s @ [h]\<rparr>)"

text \<open>The cleanup loop of a failed start: \<open>None\<close> when a hook is cancelled.\<close>

fun cleanup_hooks :: "hook_env \<Rightarrow> component list \<Rightarrow> nat \<Rightarrow> lifecycle \<Rightarrow> nat option \<times> lifecycle" where
  "cleanup_hooks env [] failures s = (Some failures, s)"
| "cleanup_hooks env (c # cs) failures s =
     (case call_hook env (HStop c) s of
        (Returns, s') \<Rightarrow> cleanup_hooks env cs failures s'
      | (Raises, s') \<Rightarrow> cleanup_hooks env cs (failures + 1) s'
      | (Cancels, s') \<Rightarrow> (None, s'))"

fun start_hooks :: "hook_env \<Rightarrow> component list \<Rightarrow> lifecycle \<Rightarrow> (lifecycle_error, unit) result \<times> lifecycle"
where
  "start_hooks env [] s = (Inr (), s\<lparr>lc_state := READY\<rparr>)"
| "start_hooks env (c # cs) s =
     (case call_hook env (HStart c) s of
        (Returns, s') \<Rightarrow> start_hooks env cs (s'\<lparr>lc_started := lc_started s' @ [c]\<rparr>)
      | (Cancels, s') \<Rightarrow> (Inl LifecycleCancelled, s')
      | (Raises, s') \<Rightarrow>
          (case cleanup_hooks env (c # rev (lc_started s')) 1 s' of
             (None, t) \<Rightarrow> (Inl LifecycleCancelled, t)
           | (Some failures, t) \<Rightarrow>
               (Inl (LifecycleFailure STARTUP (comp_name c) failures), t\<lparr>lc_state := STOPPED\<rparr>)))"

definition lifecycle_start :: "hook_env \<Rightarrow> lifecycle \<Rightarrow> (lifecycle_error, unit) result \<times> lifecycle"
where
  "lifecycle_start env s =
     (if lc_state s \<noteq> STARTUP then (Inl (LifecycleTransitionError ''start'' (lc_state s)), s)
      else start_hooks env (lc_components s) s)"

text \<open>
  The loop \<open>drain\<close> and \<open>stop\<close> share: every hook is called, the first failing component is
  remembered and the failures are counted.
\<close>

fun each_hook ::
  "hook_env \<Rightarrow> (component \<Rightarrow> hook_call) \<Rightarrow> component list \<Rightarrow> string option \<times> nat \<Rightarrow> lifecycle
     \<Rightarrow> (string option \<times> nat) option \<times> lifecycle" where
  "each_hook env h [] acc s = (Some acc, s)"
| "each_hook env h (c # cs) (failed, n) s =
     (case call_hook env (h c) s of
        (Returns, s') \<Rightarrow> each_hook env h cs (failed, n) s'
      | (Raises, s') \<Rightarrow>
          each_hook env h cs ((case failed of None \<Rightarrow> Some (comp_name c) | Some f \<Rightarrow> Some f), n + 1) s'
      | (Cancels, s') \<Rightarrow> (None, s'))"

definition lifecycle_drain ::
  "hook_env \<Rightarrow> pyfloat \<Rightarrow> lifecycle \<Rightarrow> (lifecycle_error, unit) result \<times> lifecycle" where
  "lifecycle_drain env deadline s =
     (case validate_deadline deadline of
        Inl e \<Rightarrow> (Inl LifecycleValueError, s)
      | Inr _ \<Rightarrow>
     if lc_state s = DRAINING \<or> lc_state s = STOPPED then (Inr (), s)
     else if lc_state s \<noteq> READY then (Inl (LifecycleTransitionError ''drain'' (lc_state s)), s)
     else
       (case each_hook env (\<lambda>c. HDrain c deadline) (rev (lc_started s)) (None, 0)
               (s\<lparr>lc_state := DRAINING\<rparr>) of
          (None, t) \<Rightarrow> (Inl LifecycleCancelled, t)
        | (Some (None, n), t) \<Rightarrow> (Inr (), t)
        | (Some (Some name, n), t) \<Rightarrow> (Inl (LifecycleFailure DRAINING name n), t)))"

definition lifecycle_stop :: "hook_env \<Rightarrow> lifecycle \<Rightarrow> (lifecycle_error, unit) result \<times> lifecycle"
where
  "lifecycle_stop env s =
     (if lc_state s = STOPPED then (Inr (), s)
      else
       (case each_hook env HStop (rev (lc_started s)) (None, 0) s of
          (None, t) \<Rightarrow> (Inl LifecycleCancelled, t)
        | (Some (None, n), t) \<Rightarrow> (Inr (), t\<lparr>lc_state := STOPPED\<rparr>)
        | (Some (Some name, n), t) \<Rightarrow>
            (Inl (LifecycleFailure STOPPED name n), t\<lparr>lc_state := STOPPED\<rparr>)))"

subsection \<open>What the loops call\<close>

lemma call_hook_simps [simp]:
  "fst (call_hook env h s) = env (lc_calls s) h"
  "snd (call_hook env h s) = s\<lparr>lc_calls := lc_calls s @ [h]\<rparr>"
  by (simp_all add: call_hook_def)

definition never_cancels :: "hook_env \<Rightarrow> bool" where
  "never_cancels env \<longleftrightarrow> (\<forall>hist h. env hist h \<noteq> Cancels)"

text \<open>Whatever happens, a loop over hooks only extends the calls, by a prefix of its hooks.\<close>

lemma cleanup_hooks_frame:
  "cleanup_hooks env cs n s = (r, t) \<Longrightarrow>
     \<exists>k. t = s\<lparr>lc_calls := lc_calls s @ map HStop (take k cs)\<rparr> \<and> (r \<noteq> None \<longrightarrow> take k cs = cs)"
proof (induction cs arbitrary: n s)
  case Nil
  then show ?case by simp
next
  case (Cons c cs)
  let ?s = "s\<lparr>lc_calls := lc_calls s @ [HStop c]\<rparr>"
  show ?case
  proof (cases "env (lc_calls s) (HStop c) = Cancels")
    case True
    with Cons.prems show ?thesis by (intro exI [of _ 1]) (auto simp: call_hook_def)
  next
    case False
    with Cons.prems obtain n' where "cleanup_hooks env cs n' ?s = (r, t)"
      by (auto simp: call_hook_def split: hook_outcome.splits)
    from Cons.IH [OF this] obtain k where
      "t = ?s\<lparr>lc_calls := lc_calls ?s @ map HStop (take k cs)\<rparr>" "r \<noteq> None \<longrightarrow> take k cs = cs"
      by blast
    then show ?thesis by (intro exI [of _ "Suc k"]) simp
  qed
qed

lemma each_hook_frame:
  "each_hook env h cs acc s = (r, t) \<Longrightarrow>
     \<exists>k. t = s\<lparr>lc_calls := lc_calls s @ map h (take k cs)\<rparr> \<and> (r \<noteq> None \<longrightarrow> take k cs = cs)"
proof (induction cs arbitrary: acc s)
  case Nil
  then show ?case by simp
next
  case (Cons c cs)
  obtain failed n where acc: "acc = (failed, n)" by (cases acc) auto
  let ?s = "s\<lparr>lc_calls := lc_calls s @ [h c]\<rparr>"
  show ?case
  proof (cases "env (lc_calls s) (h c) = Cancels")
    case True
    with Cons.prems acc show ?thesis by (intro exI [of _ 1]) (auto simp: call_hook_def)
  next
    case False
    with Cons.prems acc obtain acc' where "each_hook env h cs acc' ?s = (r, t)"
      by (auto simp: call_hook_def split: hook_outcome.splits)
    from Cons.IH [OF this] obtain k where
      "t = ?s\<lparr>lc_calls := lc_calls ?s @ map h (take k cs)\<rparr>" "r \<noteq> None \<longrightarrow> take k cs = cs"
      by blast
    then show ?thesis by (intro exI [of _ "Suc k"]) simp
  qed
qed

lemma each_hook_completes:
  "never_cancels env \<Longrightarrow> \<exists>acc'. each_hook env h cs acc s =
     (Some acc', s\<lparr>lc_calls := lc_calls s @ map h cs\<rparr>)"
proof (induction cs arbitrary: acc s)
  case Nil
  then show ?case by simp
next
  case (Cons c cs)
  obtain failed n where acc: "acc = (failed, n)" by (cases acc) auto
  have "env (lc_calls s) (h c) \<noteq> Cancels" using Cons.prems by (simp add: never_cancels_def)
  then show ?case
    using Cons.IH [OF Cons.prems, of _ "s\<lparr>lc_calls := lc_calls s @ [h c]\<rparr>"] acc
    by (cases "env (lc_calls s) (h c)") (auto simp: call_hook_def)
qed

lemma start_hooks_returns:
  "\<forall>c\<in>set cs. \<forall>hist. env hist (HStart c) = Returns \<Longrightarrow>
   start_hooks env cs s = (Inr (), s\<lparr>lc_state := READY, lc_started := lc_started s @ cs,
     lc_calls := lc_calls s @ map HStart cs\<rparr>)"
  by (induction cs arbitrary: s) (simp_all add: call_hook_def)

lemma start_hooks_append:
  "\<forall>c\<in>set pre. \<forall>hist. env hist (HStart c) = Returns \<Longrightarrow>
   start_hooks env (pre @ cs) s = start_hooks env cs (s\<lparr>lc_started := lc_started s @ pre,
     lc_calls := lc_calls s @ map HStart pre\<rparr>)"
  by (induction pre arbitrary: s) (simp_all add: call_hook_def)

lemma cleanup_hooks_count:
  "\<forall>c\<in>set cs. \<forall>hist. env hist (HStop c) = (if raises c then Raises else Returns) \<Longrightarrow>
   cleanup_hooks env cs n s =
     (Some (n + length (filter raises cs)), s\<lparr>lc_calls := lc_calls s @ map HStop cs\<rparr>)"
  by (induction cs arbitrary: n s) (simp_all add: call_hook_def)


subsection \<open>Reachable lifecycles\<close>

datatype lifecycle_op = Op_start | Op_drain pyfloat | Op_stop

fun lifecycle_apply ::
  "hook_env \<Rightarrow> lifecycle_op \<Rightarrow> lifecycle \<Rightarrow> (lifecycle_error, unit) result \<times> lifecycle" where
  "lifecycle_apply env Op_start s = lifecycle_start env s"
| "lifecycle_apply env (Op_drain d) s = lifecycle_drain env d s"
| "lifecycle_apply env Op_stop s = lifecycle_stop env s"

inductive lifecycle_step :: "hook_env \<Rightarrow> lifecycle \<Rightarrow> lifecycle \<Rightarrow> bool" for env where
  step_start: "lifecycle_step env s (snd (lifecycle_start env s))"
| step_drain: "lifecycle_step env s (snd (lifecycle_drain env d s))"
| step_stop: "lifecycle_step env s (snd (lifecycle_stop env s))"

inductive_cases lifecycle_stepE: "lifecycle_step env s t"

text \<open>The components whose drain hook has been called, in order.\<close>

definition drained :: "hook_call list \<Rightarrow> component list" where
  "drained calls = concat (map (\<lambda>h. case h of HDrain c d \<Rightarrow> [c] | _ \<Rightarrow> []) calls)"

lemma drained_simps [simp]:
  "drained [] = []"
  "drained (as @ bs) = drained as @ drained bs"
  "drained (HStart c # hs) = drained hs"
  "drained (HStop c # hs) = drained hs"
  "drained (HDrain c d # hs) = c # drained hs"
  "drained (map HStop cs) = []"
  "drained (map HStart cs) = []"
  "drained (map (\<lambda>c. HDrain c d) cs) = cs"
  by (induction cs) (simp_all add: drained_def)

definition drain_inv :: "lifecycle \<Rightarrow> bool" where
  "drain_inv s \<longleftrightarrow> (lc_state s \<in> {STARTUP, READY} \<longrightarrow> drained (lc_calls s) = []) \<and>
     (\<exists>k. drained (lc_calls s) = take k (rev (lc_started s)))"

fun state_rank :: "lifecycle_state \<Rightarrow> nat" where
  "state_rank STARTUP = 0"
| "state_rank READY = 1"
| "state_rank DRAINING = 2"
| "state_rank STOPPED = 3"

lemma start_hooks_drained:
  "start_hooks env cs s = (r, t) \<Longrightarrow> drained (lc_calls t) = drained (lc_calls s)"
proof (induction cs arbitrary: s)
  case Nil
  then show ?case by auto
next
  case (Cons c cs)
  let ?s = "s\<lparr>lc_calls := lc_calls s @ [HStart c]\<rparr>"
  show ?case
  proof (cases "env (lc_calls s) (HStart c)")
    case Returns
    with Cons.prems Cons.IH [of "?s\<lparr>lc_started := lc_started s @ [c]\<rparr>"] show ?thesis
      by (simp add: call_hook_def)
  next
    case Raises
    obtain q u where u: "cleanup_hooks env (c # rev (lc_started ?s)) 1 ?s = (q, u)"
      by fastforce
    from cleanup_hooks_frame [OF u] have "drained (lc_calls u) = drained (lc_calls s)" by auto
    with Raises Cons.prems u show ?thesis
      by (auto simp: call_hook_def simp del: cleanup_hooks.simps split: option.splits)
  next
    case Cancels
    with Cons.prems show ?thesis by (auto simp: call_hook_def)
  qed
qed

lemma drain_frame:
  assumes "lifecycle_drain env d s = (r, t)"
  shows "t = s \<or> (lc_state s = READY \<and>
    (\<exists>k. t = s\<lparr>lc_state := DRAINING, lc_calls := lc_calls s @ map (\<lambda>c. HDrain c d) (take k (rev (lc_started s)))\<rparr>))"
proof (cases "lc_state s = READY \<and> is_ok (validate_deadline d)")
  case False
  with assms show ?thesis
    by (auto simp: lifecycle_drain_def split: sum.splits if_splits)
next
  case True
  then obtain v where v: "validate_deadline d = Inr v" by (auto simp: is_ok_iff)
  obtain q u where u: "each_hook env (\<lambda>c. HDrain c d) (rev (lc_started s)) (None, 0)
      (s\<lparr>lc_state := DRAINING\<rparr>) = (q, u)" by fastforce
  have "t = u"
    using assms True v u by (auto simp: lifecycle_drain_def split: option.splits)
  with each_hook_frame [OF u] True show ?thesis by auto
qed

lemma stop_frame:
  assumes "lifecycle_stop env s = (r, t)"
  shows "\<exists>k. (let s' = s\<lparr>lc_calls := lc_calls s @ map HStop (take k (rev (lc_started s)))\<rparr>
     in t = s' \<or> t = s'\<lparr>lc_state := STOPPED\<rparr>) \<and> (lc_state s = STOPPED \<longrightarrow> t = s)"
proof (cases "lc_state s = STOPPED")
  case True
  with assms show ?thesis by (intro exI [of _ 0]) (simp add: lifecycle_stop_def)
next
  case False
  obtain q u where u: "each_hook env HStop (rev (lc_started s)) (None, 0) s = (q, u)" by fastforce
  have "t = u \<or> t = u\<lparr>lc_state := STOPPED\<rparr>"
    using assms False u by (auto simp: lifecycle_stop_def split: option.splits)
  with each_hook_frame [OF u] False show ?thesis by (auto simp: Let_def)
qed

lemma start_hooks_state:
  "start_hooks env cs s = (r, t) \<Longrightarrow> lc_state t \<in> {lc_state s, READY, STOPPED}"
proof (induction cs arbitrary: s)
  case Nil
  then show ?case by auto
next
  case (Cons c cs)
  let ?s = "s\<lparr>lc_calls := lc_calls s @ [HStart c]\<rparr>"
  show ?case
  proof (cases "env (lc_calls s) (HStart c)")
    case Returns
    with Cons.prems Cons.IH [of "?s\<lparr>lc_started := lc_started s @ [c]\<rparr>"] show ?thesis
      by (simp add: call_hook_def)
  next
    case Raises
    obtain q u where u: "cleanup_hooks env (c # rev (lc_started ?s)) 1 ?s = (q, u)"
      by fastforce
    from cleanup_hooks_frame [OF u] have "lc_state u = lc_state s" by auto
    with Raises Cons.prems u show ?thesis
      by (auto simp: call_hook_def simp del: cleanup_hooks.simps split: option.splits)
  next
    case Cancels
    with Cons.prems show ?thesis by (auto simp: call_hook_def)
  qed
qed

lemma drain_inv_start: "drain_inv s \<Longrightarrow> drain_inv (snd (lifecycle_start env s))"
proof (cases "lc_state s = STARTUP")
  case True
  assume inv: "drain_inv s"
  obtain r t where t: "start_hooks env (lc_components s) s = (r, t)" by fastforce
  then have "drained (lc_calls t) = []"
    using start_hooks_drained [OF t] inv True by (simp add: drain_inv_def)
  then show ?thesis
    using t True by (auto simp: lifecycle_start_def drain_inv_def intro: exI [of _ 0])
next
  case False
  assume "drain_inv s"
  with False show ?thesis by (simp add: lifecycle_start_def)
qed

lemma drain_inv_step: "drain_inv s \<Longrightarrow> lifecycle_step env s t \<Longrightarrow> drain_inv t"
proof (erule lifecycle_stepE)
  assume "drain_inv s" "t = snd (lifecycle_start env s)"
  then show "drain_inv t" by (simp add: drain_inv_start)
next
  fix d assume inv: "drain_inv s" and t: "t = snd (lifecycle_drain env d s)"
  then obtain r where "lifecycle_drain env d s = (r, t)" by (cases "lifecycle_drain env d s") auto
  from drain_frame [OF this] inv show "drain_inv t" by (auto simp: drain_inv_def)
next
  assume inv: "drain_inv s" and t: "t = snd (lifecycle_stop env s)"
  then obtain r where "lifecycle_stop env s = (r, t)" by (cases "lifecycle_stop env s") auto
  from stop_frame [OF this] inv show "drain_inv t" by (auto simp: drain_inv_def Let_def)
qed

interpretation lifecycle: invariant_machine
  "\<lambda>s. s = lifecycle_init components" "lifecycle_step env" drain_inv
  for components env
  by unfold_locales (simp add: lifecycle_init_def drain_inv_def, rule drain_inv_step)

lemma start_rank:
  "state_rank (lc_state s) \<le> state_rank (lc_state (snd (lifecycle_start env s))) \<and>
   (lc_state s = STOPPED \<longrightarrow> snd (lifecycle_start env s) = s)"
  by (cases "lc_state s = STARTUP") (simp_all add: lifecycle_start_def)

lemma drain_rank:
  "state_rank (lc_state s) \<le> state_rank (lc_state (snd (lifecycle_drain env d s))) \<and>
   (lc_state s = STOPPED \<longrightarrow> snd (lifecycle_drain env d s) = s)"
  using drain_frame [OF prod.collapse [symmetric], of env d s] by auto

lemma stop_rank:
  "state_rank (lc_state s) \<le> state_rank (lc_state (snd (lifecycle_stop env s))) \<and>
   (lc_state s = STOPPED \<longrightarrow> snd (lifecycle_stop env s) = s)"
  using stop_frame [OF prod.collapse [symmetric], of s env]
  by (cases "lc_state s") (auto simp: Let_def)

lemma lifecycle_step_rank:
  "lifecycle_step env s t \<Longrightarrow>
     state_rank (lc_state s) \<le> state_rank (lc_state t) \<and> (lc_state s = STOPPED \<longrightarrow> t = s)"
  by (erule lifecycle_stepE) (use start_rank drain_rank stop_rank in blast)+

lemma lifecycle_steps_rank:
  "(lifecycle_step env)\<^sup>*\<^sup>* s t \<Longrightarrow>
     state_rank (lc_state s) \<le> state_rank (lc_state t) \<and> (lc_state s = STOPPED \<longrightarrow> t = s)"
proof (induction rule: rtranclp_induct)
  case base
  show ?case by simp
next
  case (step u v)
  then show ?case using lifecycle_step_rank [OF step.hyps(2)] by (metis le_trans)
qed

subsection \<open>Properties\<close>

definition mk_comp :: "nat \<Rightarrow> string \<Rightarrow> component" where
  "mk_comp n name = \<lparr>comp_id = n, comp_name = name\<rparr>"

text \<open>
  When a start hook raises, the start fails closed: the components started so far, and the
  failing one first, are stopped in reverse order, every stop hook is called even when others
  raise, the reported count is the failed start plus the failed stops, and the lifecycle is
  stopped without ever having been ready.
\<close>

theorem start_failure_cleanup:
  assumes "\<forall>x\<in>set pre. \<forall>hist. env hist (HStart x) = Returns"
    and "\<forall>hist. env hist (HStart c) = Raises"
    and "\<forall>x hist. env hist (HStop x) = (if bad x then Raises else Returns)"
  shows "lifecycle_start env (lifecycle_init (pre @ c # post)) =
    (Inl (LifecycleFailure STARTUP (comp_name c) (1 + length (filter bad (c # rev pre)))),
     \<lparr>lc_components = pre @ c # post, lc_started = pre, lc_state = STOPPED,
      lc_calls = map HStart pre @ [HStart c] @ map HStop (c # rev pre)\<rparr>)"
proof -
  let ?s = "\<lparr>lc_components = pre @ c # post, lc_started = pre, lc_state = STARTUP,
      lc_calls = map HStart pre\<rparr>"
  have "lifecycle_start env (lifecycle_init (pre @ c # post)) = start_hooks env (c # post) ?s"
    by (simp add: lifecycle_start_def lifecycle_init_def start_hooks_append [OF assms(1)])
  moreover have "cleanup_hooks env (c # rev pre) 1 (?s\<lparr>lc_calls := map HStart pre @ [HStart c]\<rparr>) =
      (Some (1 + length (filter bad (c # rev pre))),
       ?s\<lparr>lc_calls := (map HStart pre @ [HStart c]) @ map HStop (c # rev pre)\<rparr>)"
    using assms(3) by (subst cleanup_hooks_count [where raises = bad]) auto
  ultimately show ?thesis
    using assms(2) by (simp add: call_hook_def del: cleanup_hooks.simps)
qed

theorem start_failure_cleanup_witness:
  "\<exists>env. fst (lifecycle_start env (lifecycle_init ([mk_comp 0 ''db''] @ mk_comp 1 ''http'' # [mk_comp 2 ''x'']))) =
     Inl (LifecycleFailure STARTUP ''http'' 2)"
proof -
  let ?env = "\<lambda>hist h. case h of HStart c \<Rightarrow> if comp_id c = 1 then Raises else Returns
     | HStop c \<Rightarrow> if comp_id c = 0 then Raises else Returns | HDrain c d \<Rightarrow> Returns"
  have "lifecycle_start ?env (lifecycle_init ([mk_comp 0 ''db''] @ mk_comp 1 ''http'' # [mk_comp 2 ''x''])) =
    (Inl (LifecycleFailure STARTUP (comp_name (mk_comp 1 ''http''))
       (1 + length (filter (\<lambda>c. comp_id c = 0) (mk_comp 1 ''http'' # rev [mk_comp 0 ''db''])))),
     \<lparr>lc_components = [mk_comp 0 ''db''] @ mk_comp 1 ''http'' # [mk_comp 2 ''x''],
      lc_started = [mk_comp 0 ''db''], lc_state = STOPPED,
      lc_calls = map HStart [mk_comp 0 ''db''] @ [HStart (mk_comp 1 ''http'')] @
        map HStop (mk_comp 1 ''http'' # rev [mk_comp 0 ''db''])\<rparr>)"
    by (rule start_failure_cleanup) (simp_all add: mk_comp_def)
  then show ?thesis by (intro exI [of _ ?env]) (simp add: mk_comp_def)
qed

text \<open>
  A full life of the runtime keeps the hook order whatever the hooks do, as long as none is
  cancelled: started in order, drained in reverse order, stopped in reverse order, each component
  once per phase, and the lifecycle ends stopped even when drain and stop hooks raise.
\<close>

theorem shutdown_order:
  assumes starts: "\<forall>c\<in>set components. \<forall>hist. env hist (HStart c) = Returns"
    and "never_cancels env" and "0 \<le> q"
    and "s1 = snd (lifecycle_start env (lifecycle_init components))"
    and "s2 = snd (lifecycle_drain env (Fin q) s1)" and "s3 = snd (lifecycle_stop env s2)"
  shows "lc_state s1 = READY \<and> lc_state s2 = DRAINING \<and> lc_state s3 = STOPPED \<and>
    lc_calls s3 = map HStart components @ map (\<lambda>c. HDrain c (Fin q)) (rev components) @
      map HStop (rev components)"
proof -
  have s1: "s1 = \<lparr>lc_components = components, lc_started = components, lc_state = READY,
      lc_calls = map HStart components\<rparr>"
    using assms(4) by (simp add: lifecycle_start_def lifecycle_init_def start_hooks_returns [OF starts])
  obtain acc where d: "each_hook env (\<lambda>c. HDrain c (Fin q)) (rev components) (None, 0)
      (s1\<lparr>lc_state := DRAINING\<rparr>) = (Some acc, s1\<lparr>lc_state := DRAINING,
        lc_calls := lc_calls s1 @ map (\<lambda>c. HDrain c (Fin q)) (rev components)\<rparr>)"
    using each_hook_completes [OF assms(2), of "\<lambda>c. HDrain c (Fin q)" "rev components" "(None, 0)"
        "s1\<lparr>lc_state := DRAINING\<rparr>"] by auto
  have ok: "validate_deadline (Fin q) = Inr ()" using assms(3) by simp
  have s2: "s2 = s1\<lparr>lc_state := DRAINING,
        lc_calls := lc_calls s1 @ map (\<lambda>c. HDrain c (Fin q)) (rev components)\<rparr>"
    using assms(5) d ok s1 by (simp add: lifecycle_drain_def split: prod.splits option.splits)
  obtain acc' where e: "each_hook env HStop (rev components) (None, 0) s2 = (Some acc',
      s2\<lparr>lc_calls := lc_calls s2 @ map HStop (rev components)\<rparr>)"
    using each_hook_completes [OF assms(2)] by blast
  have "s3 = s2\<lparr>lc_state := STOPPED, lc_calls := lc_calls s2 @ map HStop (rev components)\<rparr>"
    using assms(6) e s1 s2 by (simp add: lifecycle_stop_def split: prod.splits option.splits)
  with s1 s2 show ?thesis by simp
qed

theorem shutdown_order_witness:
  "\<exists>env s1 s2 s3. s1 = snd (lifecycle_start env (lifecycle_init [mk_comp 0 ''db''])) \<and>
     s2 = snd (lifecycle_drain env (Fin 5) s1) \<and> s3 = snd (lifecycle_stop env s2) \<and>
     lc_state s3 = STOPPED \<and>
     lc_calls s3 = [HStart (mk_comp 0 ''db''), HDrain (mk_comp 0 ''db'') (Fin 5), HStop (mk_comp 0 ''db'')]"
proof -
  let ?env = "\<lambda>hist h. case h of HStart c \<Rightarrow> Returns | _ \<Rightarrow> Raises"
  let ?s1 = "snd (lifecycle_start ?env (lifecycle_init [mk_comp 0 ''db'']))"
  let ?s2 = "snd (lifecycle_drain ?env (Fin 5) ?s1)"
  have "lc_state ?s1 = READY \<and> lc_state ?s2 = DRAINING \<and>
      lc_state (snd (lifecycle_stop ?env ?s2)) = STOPPED \<and>
      lc_calls (snd (lifecycle_stop ?env ?s2)) = map HStart [mk_comp 0 ''db''] @
        map (\<lambda>c. HDrain c (Fin 5)) (rev [mk_comp 0 ''db'']) @ map HStop (rev [mk_comp 0 ''db''])"
    by (rule shutdown_order [where env = ?env])
      (auto simp: never_cancels_def split: hook_call.splits)
  then show ?thesis by (intro exI [of _ ?env] exI) auto
qed

text \<open>
  In every state the controller can reach, under any sequence of start, drain and stop calls
  and any behaviour of the hooks, cancellation included, the drain hooks called so far are an
  initial part of the started components in reverse order: no component is drained twice, out of
  order, or without having started.
\<close>

theorem drained_in_reverse_once:
  assumes "reachable (\<lambda>s. s = lifecycle_init components) (lifecycle_step env) s"
  shows "\<exists>k. drained (lc_calls s) = take k (rev (lc_started s))"
  using lifecycle.reachable_inv [OF assms] by (simp add: drain_inv_def)

theorem drained_in_reverse_once_witness:
  "\<exists>env k. let s = snd (lifecycle_drain env (Fin 1) (snd (lifecycle_start env (lifecycle_init [mk_comp 0 ''db'']))))
     in drained (lc_calls s) = take k (rev (lc_started s)) \<and> drained (lc_calls s) = [mk_comp 0 ''db'']"
proof -
  let ?env = "\<lambda>hist h. Returns"
  let ?s1 = "snd (lifecycle_start ?env (lifecycle_init [mk_comp 0 ''db'']))"
  let ?s = "snd (lifecycle_drain ?env (Fin 1) ?s1)"
  let ?start = "\<lambda>s. s = lifecycle_init [mk_comp 0 ''db'']"
  have "reachable ?start (lifecycle_step ?env) ?s1"
    by (rule reach_step [where s = "lifecycle_init [mk_comp 0 ''db'']"])
      (rule reach_start, rule refl, rule step_start)
  then have r: "reachable ?start (lifecycle_step ?env) ?s"
    by (rule reach_step [where s = ?s1]) (rule step_drain)
  have "drained (lc_calls ?s) = [mk_comp 0 ''db'']"
    by (simp add: lifecycle_start_def lifecycle_init_def lifecycle_drain_def call_hook_def
        validate_deadline_def)
  with drained_in_reverse_once [OF r] show ?thesis unfolding Let_def by blast
qed

text \<open>
  The lifecycle only moves forward, from startup through ready and draining to stopped, and
  stopped is final: no later call runs a hook or changes anything.
\<close>

theorem lifecycle_moves_forward:
  assumes "(lifecycle_step env)\<^sup>*\<^sup>* s t"
  shows "state_rank (lc_state s) \<le> state_rank (lc_state t) \<and> (lc_state s = STOPPED \<longrightarrow> t = s)"
  by (rule lifecycle_steps_rank [OF assms])

theorem lifecycle_moves_forward_witness:
  "state_rank (lc_state (lifecycle_init [])) \<le>
   state_rank (lc_state (snd (lifecycle_start (\<lambda>hist h. Returns) (lifecycle_init []))))"
  using lifecycle_moves_forward [OF r_into_rtranclp [of "lifecycle_step (\<lambda>hist h. Returns)", OF step_start]]
  by blast

end
