(* ===== verification/Canonical_Json.thy ===== *)
theory Canonical_Json
  imports Contracts
begin

section \<open>Canonical JSON and tool manifests\<close>

text \<open>
  Models \<^verbatim>\<open>src/tesserix_mcp_runtime/tool_manifest.py\<close>: the JSON value checks, the canonical
  rendering (\<open>json.dumps\<close> with sorted keys, compact separators, no ASCII escaping and no NaN),
  the SHA-256 fingerprints and the immutable \<open>ToolManifest\<close>.

  Two functions of the standard library are arguments: \<open>frepr\<close>, the shortest decimal rendering
  of a finite float (\<open>float.__repr__\<close>), and \<open>sha\<close>, \<open>hashlib.sha256(...).hexdigest()\<close> of the
  UTF-8 encoding of a text.
\<close>

subsection \<open>JSON values\<close>

primrec is_json_value :: "pyval \<Rightarrow> bool" where
  "is_json_value PNone = True"
| "is_json_value (PBool b) = True"
| "is_json_value (PInt i) = True"
| "is_json_value (PFloat f) = is_finite f"
| "is_json_value (PStr s) = True"
| "is_json_value (PList xs) = list_all (\<lambda>b. b) (map is_json_value xs)"
| "is_json_value (PDict d) =
     (list_all (\<lambda>kv. is_kstr (fst kv)) d \<and> list_all snd (map (map_prod id is_json_value) d))"
| "is_json_value POther = False"

fun is_json_object :: "pyval \<Rightarrow> bool" where
  "is_json_object (PDict d) = is_json_value (PDict d)"
| "is_json_object _ = False"

lemma is_json_list [simp]: "is_json_value (PList xs) \<longleftrightarrow> (\<forall>x\<in>set xs. is_json_value x)"
  by (auto simp: list_all_iff is_json_value.simps)

lemma is_json_dict [simp]:
  "is_json_value (PDict d) \<longleftrightarrow> (\<forall>(k, v)\<in>set d. is_kstr k \<and> is_json_value v)"
  by (auto simp: list_all_iff is_json_value.simps)

declare is_json_value.simps(6,7) [simp del]

text \<open>A dictionary of the program has one entry per key.\<close>

primrec keys_distinct :: "pyval \<Rightarrow> bool" where
  "keys_distinct PNone = True"
| "keys_distinct (PBool b) = True"
| "keys_distinct (PInt i) = True"
| "keys_distinct (PFloat f) = True"
| "keys_distinct (PStr s) = True"
| "keys_distinct (PList xs) = list_all (\<lambda>b. b) (map keys_distinct xs)"
| "keys_distinct (PDict d) = (distinct (map fst d) \<and> list_all snd (map (map_prod id keys_distinct) d))"
| "keys_distinct POther = True"

subsection \<open>Rendering\<close>

fun nat_digits :: "nat \<Rightarrow> string" where
  "nat_digits n = (if n < 10 then [char_of (48 + n)] else nat_digits (n div 10) @ [char_of (48 + n mod 10)])"

declare nat_digits.simps [simp del]

definition int_str :: "int \<Rightarrow> string" where
  "int_str i = (if i < 0 then ''-'' @ nat_digits (nat (- i)) else nat_digits (nat i))"

definition hex_digit :: "nat \<Rightarrow> char" where
  "hex_digit n = (if n < 10 then char_of (48 + n) else char_of (87 + n))"

definition backslash :: char where "backslash = CHR 0x5C"
definition quote :: char where "quote = CHR 0x22"

definition escape_char :: "char \<Rightarrow> string" where
  "escape_char c =
     (if c = quote \<or> c = backslash then [backslash, c]
      else if ord_of c = 8 then [backslash, CHR ''b'']
      else if ord_of c = 9 then [backslash, CHR ''t'']
      else if ord_of c = 10 then [backslash, CHR ''n'']
      else if ord_of c = 12 then [backslash, CHR ''f'']
      else if ord_of c = 13 then [backslash, CHR ''r'']
      else if ord_of c < 32 then
        [backslash, CHR ''u'', CHR ''0'', CHR ''0'', hex_digit (ord_of c div 16), hex_digit (ord_of c mod 16)]
      else [c])"

definition json_string :: "string \<Rightarrow> string" where
  "json_string s = [quote] @ concat (map escape_char s) @ [quote]"

fun join :: "string \<Rightarrow> string list \<Rightarrow> string" where
  "join sep [] = []"
| "join sep [s] = s"
| "join sep (s # t # ss) = s @ sep @ join sep (t # ss)"

text \<open>
  \<open>dumps\<close> is \<open>None\<close> where \<open>json.dumps\<close> raises: a value of another type, a non-finite float, a
  key that is not a string.
\<close>

primrec dumps :: "(rat \<Rightarrow> string) \<Rightarrow> pyval \<Rightarrow> string option"
  and dumps_list :: "(rat \<Rightarrow> string) \<Rightarrow> pyval list \<Rightarrow> string list option"
  and dumps_items :: "(rat \<Rightarrow> string) \<Rightarrow> (pykey \<times> pyval) list \<Rightarrow> (string \<times> string) list option"
  and dumps_item :: "(rat \<Rightarrow> string) \<Rightarrow> pykey \<times> pyval \<Rightarrow> (string \<times> string) option"
where
  "dumps frepr PNone = Some ''null''"
| "dumps frepr (PBool b) = Some (if b then ''true'' else ''false'')"
| "dumps frepr (PInt i) = Some (int_str i)"
| "dumps frepr (PFloat f) = (case f of Fin q \<Rightarrow> Some (frepr q) | _ \<Rightarrow> None)"
| "dumps frepr (PStr s) = Some (json_string s)"
| "dumps frepr (PList xs) =
     map_option (\<lambda>items. ''['' @ join '','' items @ '']'') (dumps_list frepr xs)"
| "dumps frepr (PDict d) =
     map_option (\<lambda>items. ''{'' @ join '','' (map (\<lambda>(k, v). json_string k @ '':'' @ v) (sort_key fst items))
       @ ''}'') (dumps_items frepr d)"
| "dumps frepr POther = None"
| "dumps_list frepr [] = Some []"
| "dumps_list frepr (x # xs) =
     (case dumps frepr x of None \<Rightarrow> None | Some s \<Rightarrow> map_option ((#) s) (dumps_list frepr xs))"
| "dumps_items frepr [] = Some []"
| "dumps_items frepr (kv # d) =
     (case dumps_item frepr kv of None \<Rightarrow> None | Some p \<Rightarrow> map_option ((#) p) (dumps_items frepr d))"
| "dumps_item frepr (Pair k v) =
     (case k of KOther i \<Rightarrow> None | KStr s \<Rightarrow> map_option (Pair s) (dumps frepr v))"

definition canonical_json :: "(rat \<Rightarrow> string) \<Rightarrow> pyval \<Rightarrow> (value_error, string) result" where
  "canonical_json frepr v =
     (case dumps frepr v of
        None \<Rightarrow> Inl (ValueError ''manifest content must be bounded JSON'')
      | Some s \<Rightarrow> Inr s)"

lemma dumps_list_Some:
  "dumps_list frepr xs \<noteq> None \<longleftrightarrow> (\<forall>x\<in>set xs. dumps frepr x \<noteq> None)"
  by (induction xs) (auto split: option.splits)

lemma dumps_items_Some:
  "dumps_items frepr d \<noteq> None \<longleftrightarrow> (\<forall>(k, v)\<in>set d. is_kstr k \<and> dumps frepr v \<noteq> None)"
proof (induction d)
  case (Cons kv d)
  obtain k v where kv: "kv = (k, v)" by (cases kv) auto
  show ?case using Cons by (cases k) (auto simp: kv split: option.splits)
qed simp

lemma dumps_Some_iff: "dumps frepr v \<noteq> None \<longleftrightarrow> is_json_value v"
proof (induction v)
  case (PFloat f)
  show ?case by (cases f) simp_all
next
  case (PList xs)
  have "dumps frepr (PList xs) \<noteq> None \<longleftrightarrow> dumps_list frepr xs \<noteq> None" by simp
  also have "\<dots> \<longleftrightarrow> (\<forall>x\<in>set xs. is_json_value x)"
    unfolding dumps_list_Some using PList by blast
  finally show ?case by simp
next
  case (PDict d)
  have "dumps frepr (PDict d) \<noteq> None \<longleftrightarrow> dumps_items frepr d \<noteq> None" by simp
  also have "\<dots> \<longleftrightarrow> is_json_value (PDict d)"
    unfolding dumps_items_Some is_json_dict
    by (rule ball_cong [OF refl]) (auto dest: PDict)
  finally show ?case .
qed auto

subsection \<open>Order of the entries\<close>

text \<open>
  The canonical text does not depend on the order in which the entries of a dictionary were
  inserted, since they are sorted by their keys.
\<close>

lemma sort_key_perm_unique:
  assumes "mset xs = mset ys" and "distinct (map f xs)"
  shows "sort_key f xs = sort_key f ys"
  by (rule sort_key_inj_key_eq) (use assms in \<open>auto simp: distinct_map\<close>)

lemma dumps_items_eq:
  "dumps_items frepr d =
     (if \<forall>kv\<in>set d. dumps_item frepr kv \<noteq> None
      then Some (map (\<lambda>kv. the (dumps_item frepr kv)) d) else None)"
proof (induction d)
  case (Cons kv d)
  then show ?case by (cases "dumps_item frepr kv") auto
qed simp

lemma dumps_item_key:
  "dumps_item frepr kv = Some p \<Longrightarrow> fst kv = KStr (fst p)"
  by (cases kv) (auto split: pykey.splits)

lemma distinct_item_keys:
  assumes "distinct (map fst d)" and "\<forall>kv\<in>set d. dumps_item frepr kv \<noteq> None"
  shows "distinct (map fst (map (\<lambda>kv. the (dumps_item frepr kv)) d))"
proof -
  have "map KStr (map fst (map (\<lambda>kv. the (dumps_item frepr kv)) d)) = map fst d"
    using assms(2) dumps_item_key by (fastforce simp: o_def intro!: map_cong)
  with assms(1) have "distinct (map KStr (map fst (map (\<lambda>kv. the (dumps_item frepr kv)) d)))"
    by (simp only:)
  then show ?thesis unfolding distinct_map [of KStr] by (rule conjunct1)
qed

lemma dumps_dict_perm:
  assumes "mset d = mset d'" and "distinct (map fst d)"
  shows "dumps frepr (PDict d) = dumps frepr (PDict d')"
proof -
  have s: "set d = set d'" using assms(1) by (rule mset_eq_setD)
  show ?thesis
  proof (cases "\<forall>kv\<in>set d. dumps_item frepr kv \<noteq> None")
    case True
    have "sort_key fst (map (\<lambda>kv. the (dumps_item frepr kv)) d) =
        sort_key fst (map (\<lambda>kv. the (dumps_item frepr kv)) d')"
      by (rule sort_key_perm_unique)
        (use assms distinct_item_keys [OF assms(2) True] in \<open>simp_all add: mset_map\<close>)
    with True s show ?thesis by (simp add: dumps_items_eq)
  next
    case False
    with s have "dumps_items frepr d = None" "dumps_items frepr d' = None"
      unfolding dumps_items_eq by auto
    then show ?thesis by simp
  qed
qed

subsection \<open>Fingerprints and manifests\<close>

text \<open>
  \<open>json.loads\<close> of a canonical text gives the value back with its entries in sorted order.
\<close>

primrec sort_entries :: "pyval \<Rightarrow> pyval" where
  "sort_entries PNone = PNone"
| "sort_entries (PBool b) = PBool b"
| "sort_entries (PInt i) = PInt i"
| "sort_entries (PFloat f) = PFloat f"
| "sort_entries (PStr s) = PStr s"
| "sort_entries (PList xs) = PList (map sort_entries xs)"
| "sort_entries (PDict d) =
     PDict (sort_key (\<lambda>kv. case fst kv of KStr s \<Rightarrow> s | KOther i \<Rightarrow> [])
       (map (map_prod id sort_entries) d))"
| "sort_entries POther = POther"

definition digest_text :: "(string \<Rightarrow> string) \<Rightarrow> string \<Rightarrow> string" where
  "digest_text sha document = sha document"

definition schema_fingerprint ::
  "(rat \<Rightarrow> string) \<Rightarrow> (string \<Rightarrow> string) \<Rightarrow> pyval \<Rightarrow> (value_error, string) result" where
  "schema_fingerprint frepr sha schema =
     and_then (canonical_json frepr schema) (\<lambda>text. Inr (digest_text sha text))"

text \<open>
  \<open>_decode_object(_canonical_json(schema))\<close>: the schema must be a JSON object.
\<close>

definition decoded_object :: "pyval \<Rightarrow> (value_error, pyval) result" where
  "decoded_object schema =
     raise_if (\<not> is_json_object schema) (ValueError ''manifest schema must be a JSON object'')
       (Inr (sort_entries schema))"

record tool_manifest =
  mf_metadata :: tool_metadata
  mf_normalized_name :: string
  mf_input_fingerprint :: string
  mf_output_fingerprint :: string
  mf_contract_fingerprint :: string
  mf_input_schema :: pyval
  mf_output_schema :: pyval

text \<open>
  The constructor. The manifest keeps the canonical texts of the two schemas and decodes them on
  every access; the model keeps the decoded schemas.
\<close>

definition make_tool_manifest ::
  "(rat \<Rightarrow> string) \<Rightarrow> (string \<Rightarrow> string) \<Rightarrow> tool_metadata \<Rightarrow> string \<Rightarrow> pyval \<Rightarrow> pyval
     \<Rightarrow> (value_error, tool_manifest) result" where
  "make_tool_manifest frepr sha metadata normalized input_schema output_schema =
     and_then (canonical_json frepr input_schema) (\<lambda>input_document.
     and_then (canonical_json frepr output_schema) (\<lambda>output_document.
     and_then (decoded_object input_schema) (\<lambda>input_object.
     and_then (decoded_object output_schema) (\<lambda>output_object.
     and_then (canonical_json frepr (obj [(''input_schema'', input_object), (''output_schema'', output_object)]))
       (\<lambda>contract_document. Inr
        \<lparr>mf_metadata = metadata, mf_normalized_name = normalized,
         mf_input_fingerprint = digest_text sha input_document,
         mf_output_fingerprint = digest_text sha output_document,
         mf_contract_fingerprint = digest_text sha contract_document,
         mf_input_schema = input_object, mf_output_schema = output_object\<rparr>)))))"

definition manifest_to_dict :: "tool_manifest \<Rightarrow> pyval" where
  "manifest_to_dict m = obj
     [(''metadata'', metadata_to_dict (mf_metadata m)),
      (''normalized_name'', PStr (mf_normalized_name m)),
      (''input_schema'', mf_input_schema m),
      (''output_schema'', mf_output_schema m),
      (''fingerprints'', obj
         [(''input'', PStr (mf_input_fingerprint m)),
          (''output'', PStr (mf_output_fingerprint m)),
          (''contract'', PStr (mf_contract_fingerprint m))])]"

lemma canonical_json_ok: "is_ok (canonical_json frepr v) \<longleftrightarrow> is_json_value v"
  using dumps_Some_iff [of frepr v] by (auto simp: canonical_json_def is_ok_iff split: option.splits)

lemma schema_fingerprint_perm:
  "mset d = mset d' \<Longrightarrow> distinct (map fst d) \<Longrightarrow>
     schema_fingerprint frepr sha (PDict d) = schema_fingerprint frepr sha (PDict d')"
  by (simp add: schema_fingerprint_def canonical_json_def dumps_dict_perm del: dumps.simps)

end
