(* ===== verification/Observability.thy ===== *)
theory Observability
  imports Errors Canonical_Json "HOL-Library.Product_Lexorder"
begin

section \<open>Bounded observations\<close>

text \<open>
  Models \<^verbatim>\<open>src/tesserix_mcp_runtime/observability.py\<close>: the vocabularies of spans, outcomes and limits,
  the log event, and the metrics of one server, whose every series is bounded. An exporter is an
  environment: what it is called for is recorded, and it says for each call whether it raises. The
  lock makes each update one step.
\<close>

subsection \<open>Vocabularies\<close>

datatype runtime_operation =
    Operation_MCP_REQUEST | Operation_TOOL_CALL | Operation_AUTHORIZATION | Operation_TOOL_EXECUTION | Operation_DOWNSTREAM

datatype runtime_outcome =
    Outcome_SUCCESS | Outcome_POLICY_REFUSAL | Outcome_TIMEOUT | Outcome_CANCELLATION | Outcome_OVERLOAD
  | Outcome_DEPENDENCY_OUTAGE | Outcome_INVALID_INPUT | Outcome_LIMIT_EXCEEDED | Outcome_TOOL_FAILURE

datatype runtime_limit =
    Limit_GLOBAL | Limit_SERVER | Limit_TOOL | Limit_TENANT | Limit_INPUT | Limit_RESULT | Limit_DRAIN | Limit_CIRCUIT

datatype span_name = Span_MCP_REQUEST | Span_AUTHORIZATION | Span_TOOL_EXECUTION | Span_DOWNSTREAM

datatype log_name = Log_REQUEST_COMPLETED | Log_TRACE_CONTEXT_REJECTED | Log_LIFECYCLE | Log_READINESS_FAILED

datatype runtime_reason =
    Reason_MALFORMED_TRACE_CONTEXT | Reason_STARTUP_FAILURE | Reason_DRAIN_TIMEOUT | Reason_READINESS_DEPENDENCY

fun operation_value :: "runtime_operation \<Rightarrow> string" where
  "operation_value Operation_MCP_REQUEST = ''mcp_request''"
| "operation_value Operation_TOOL_CALL = ''tool_call''"
| "operation_value Operation_AUTHORIZATION = ''authorization''"
| "operation_value Operation_TOOL_EXECUTION = ''tool_execution''"
| "operation_value Operation_DOWNSTREAM = ''downstream''"

fun outcome_value :: "runtime_outcome \<Rightarrow> string" where
  "outcome_value Outcome_SUCCESS = ''success''"
| "outcome_value Outcome_POLICY_REFUSAL = ''policy_refusal''"
| "outcome_value Outcome_TOOL_FAILURE = ''tool_failure''"
| "outcome_value Outcome_TIMEOUT = ''timeout''"
| "outcome_value Outcome_CANCELLATION = ''cancellation''"
| "outcome_value Outcome_OVERLOAD = ''overload''"
| "outcome_value Outcome_DEPENDENCY_OUTAGE = ''dependency_outage''"
| "outcome_value Outcome_INVALID_INPUT = ''invalid_input''"
| "outcome_value Outcome_LIMIT_EXCEEDED = ''limit_exceeded''"

fun limit_value :: "runtime_limit \<Rightarrow> string" where
  "limit_value Limit_GLOBAL = ''global''"
| "limit_value Limit_SERVER = ''server''"
| "limit_value Limit_TOOL = ''tool''"
| "limit_value Limit_TENANT = ''tenant''"
| "limit_value Limit_INPUT = ''input''"
| "limit_value Limit_RESULT = ''result''"
| "limit_value Limit_DRAIN = ''drain''"
| "limit_value Limit_CIRCUIT = ''circuit''"

fun log_name_value :: "log_name \<Rightarrow> string" where
  "log_name_value Log_REQUEST_COMPLETED = ''request_completed''"
| "log_name_value Log_TRACE_CONTEXT_REJECTED = ''trace_context_rejected''"
| "log_name_value Log_LIFECYCLE = ''lifecycle''"
| "log_name_value Log_READINESS_FAILED = ''readiness_failed''"

fun reason_value :: "runtime_reason \<Rightarrow> string" where
  "reason_value Reason_MALFORMED_TRACE_CONTEXT = ''malformed_trace_context''"
| "reason_value Reason_STARTUP_FAILURE = ''startup_failure''"
| "reason_value Reason_DRAIN_TIMEOUT = ''drain_timeout''"
| "reason_value Reason_READINESS_DEPENDENCY = ''readiness_dependency''"

definition dimension_rx :: rx where
  "dimension_rx = Seq (Cls is_alnum) (Rep (Cls (\<lambda>c. is_alnum c \<or> one_of ''._/-'' c)) 0 127)"

definition dimension :: "string \<Rightarrow> string \<Rightarrow> check" where
  "dimension name s =
     raise_if (\<not> fullmatch dimension_rx s) (ValueError (name @ '' must be a bounded low-cardinality identifier'')) okay"

definition max_duration :: rat where "max_duration = 3600"

definition duration_ok :: "pyfloat \<Rightarrow> bool" where
  "duration_ok x \<longleftrightarrow> is_finite x \<and> 0 \<le> x \<and> x \<le> Fin max_duration"

subsection \<open>Spans and log events\<close>

record span_spec =
  sn_name :: span_name
  sn_server :: string
  sn_operation :: "runtime_operation option"
  sn_tool :: "string option"
  sn_fingerprint :: "string option"

definition check_span_spec :: "span_spec \<Rightarrow> check" where
  "check_span_spec s =
     and_then (dimension ''server_name'' (sn_server s)) (\<lambda>_.
     and_then (check_optional (dimension ''tool_name'') (sn_tool s)) (\<lambda>_.
     check_optional (\<lambda>d. raise_if (\<not> fullmatch hex64 d)
       (ValueError ''destination_fingerprint must be a SHA-256 digest'') okay) (sn_fingerprint s)))"

record log_event =
  le_name :: log_name
  le_server :: string
  le_request_id :: "string option"
  le_trace_id :: "string option"
  le_operation :: "runtime_operation option"
  le_tool :: "string option"
  le_outcome :: "runtime_outcome option"
  le_reason :: "runtime_reason option"
  le_duration :: "pyfloat option"

definition hex32 :: rx where
  "hex32 = Rep (Cls is_hex) 32 0"

text \<open>The server name is not checked; a completion needs the fields a reader counts on.\<close>

definition check_log_event :: "log_event \<Rightarrow> check" where
  "check_log_event e =
     raise_if (case le_request_id e of None \<Rightarrow> False
         | Some s \<Rightarrow> \<not> (1 \<le> length s \<and> length s \<le> 256) \<or> list_ex (\<lambda>c. ord_of c < 32 \<or> ord_of c = 127) s)
       (ValueError ''request_id must be bounded visible text'')
     (raise_if (case le_trace_id e of None \<Rightarrow> False | Some s \<Rightarrow> \<not> fullmatch hex32 s)
       (ValueError ''trace_id must be a lowercase W3C trace identifier'')
     (and_then (check_optional (dimension ''tool_name'') (le_tool e)) (\<lambda>_.
      raise_if (case le_duration e of None \<Rightarrow> False | Some x \<Rightarrow> \<not> duration_ok x)
        (ValueError ''duration_seconds must be finite and bounded'')
      (raise_if (le_name e = Log_REQUEST_COMPLETED \<and>
          (le_request_id e = None \<or> le_operation e = None \<or> le_outcome e = None \<or> le_duration e = None))
        (ValueError ''request completion logs require request, trace, operation, outcome, time'') okay))))"

definition log_event_to_dict :: "log_event \<Rightarrow> pyval" where
  "log_event_to_dict e = obj (filter (\<lambda>kv. snd kv \<noteq> PNone)
     [(''duration_seconds'', (case le_duration e of None \<Rightarrow> PNone | Some x \<Rightarrow> PFloat x)),
      (''event'', PStr (log_name_value (le_name e))),
      (''operation'', of_opt_str (map_option operation_value (le_operation e))),
      (''outcome'', of_opt_str (map_option outcome_value (le_outcome e))),
      (''reason'', of_opt_str (map_option reason_value (le_reason e))),
      (''request_id'', of_opt_str (le_request_id e)),
      (''server'', PStr (le_server e)),
      (''tool'', of_opt_str (le_tool e)),
      (''trace_id'', of_opt_str (le_trace_id e))])"

subsection \<open>Metrics\<close>

definition duration_buckets :: "rat list" where
  "duration_buckets = [5 / 1000, 1 / 100, 25 / 1000, 5 / 100, 1 / 10, 25 / 100, 5 / 10, 1, 25 / 10, 5, 10, 30]"

record histogram =
  hi_count :: nat
  hi_total :: rat
  hi_buckets :: "nat list"

definition empty_histogram :: histogram where
  "empty_histogram = \<lparr>hi_count = 0, hi_total = 0, hi_buckets = replicate (length duration_buckets) 0\<rparr>"

definition observe_duration :: "rat \<Rightarrow> histogram \<Rightarrow> histogram" where
  "observe_duration x h = \<lparr>hi_count = hi_count h + 1, hi_total = hi_total h + x,
     hi_buckets = map2 (\<lambda>boundary n. if x \<le> boundary then n + 1 else n) duration_buckets (hi_buckets h)\<rparr>"

datatype export =
    Export_call runtime_operation "string option" runtime_outcome rat
  | Export_in_flight string int int int
  | Export_retry string
  | Export_limit "string option" runtime_limit
  | Export_dropped nat
  | Export_log log_event

record metrics =
  me_server :: string
  me_requests :: "((runtime_operation \<times> string \<times> runtime_outcome) \<times> histogram) list"
  me_server_in_flight :: int
  me_server_capacity :: "int option"
  me_tool_in_flight :: "(string \<times> int) list"
  me_tool_capacity :: "(string \<times> int) list"
  me_retries :: "(string \<times> nat) list"
  me_limits :: "((runtime_limit \<times> string) \<times> nat) list"
  me_cancellations :: "(string \<times> nat) list"
  me_dropped :: nat
  me_pending :: nat
  me_exported :: "export list"

definition make_metrics :: "string \<Rightarrow> (value_error, metrics) result" where
  "make_metrics server =
     and_then (dimension ''server_name'' server) (\<lambda>_.
     Inr \<lparr>me_server = server, me_requests = [], me_server_in_flight = 0, me_server_capacity = None,
       me_tool_in_flight = [], me_tool_capacity = [], me_retries = [], me_limits = [], me_cancellations = [],
       me_dropped = 0, me_pending = 0, me_exported = []\<rparr>)"

definition max_request_series :: nat where "max_request_series = 2048"
definition max_tools :: nat where "max_tools = 128"

text \<open>\<open>d[k] = d.get(k, 0) + 1\<close>.\<close>

definition bump :: "'k \<Rightarrow> ('k \<times> nat) list \<Rightarrow> ('k \<times> nat) list" where
  "bump k d = dict_put k ((case map_of d k of None \<Rightarrow> 0 | Some n \<Rightarrow> n) + 1) d"

definition drop_event :: "metrics \<Rightarrow> metrics" where
  "drop_event s = s\<lparr>me_dropped := me_dropped s + 1\<rparr>"

text \<open>An exporter, if any, says for each call whether it raises.\<close>

type_synonym exporter = "(export \<Rightarrow> bool) option"

definition count_dropped :: "nat \<Rightarrow> metrics \<Rightarrow> metrics" where
  "count_dropped n s = s\<lparr>me_dropped := me_dropped s + n, me_pending := me_pending s + n\<rparr>"

definition record_dropped :: "int \<Rightarrow> metrics \<Rightarrow> (value_error, unit) result \<times> metrics" where
  "record_dropped n s =
     (if 1 \<le> n \<and> n \<le> 1000000 then (okay, count_dropped (nat n) s)
      else (Inl (ValueError ''dropped telemetry count must be a bounded positive integer''), s))"

definition export :: "exporter \<Rightarrow> export \<Rightarrow> metrics \<Rightarrow> metrics" where
  "export ex x s =
     (case ex of
        None \<Rightarrow> s
      | Some raises \<Rightarrow>
          (let pending = me_pending s;
               s1 = (if pending = 0 then s
                     else
                       (let told = s\<lparr>me_exported := me_exported s @ [Export_dropped pending]\<rparr> in
                        if raises (Export_dropped pending) then told else told\<lparr>me_pending := me_pending told - pending\<rparr>));
               s2 = s1\<lparr>me_exported := me_exported s1 @ [x]\<rparr> in
           if raises x then count_dropped 1 s2 else s2))"

definition tool_label :: "string option \<Rightarrow> string" where
  "tool_label tool = (case tool of None \<Rightarrow> ''none'' | Some t \<Rightarrow> t)"

definition record_call ::
  "exporter \<Rightarrow> runtime_operation \<Rightarrow> string option \<Rightarrow> runtime_outcome \<Rightarrow> pyfloat \<Rightarrow> metrics
     \<Rightarrow> (value_error, unit) result \<times> metrics" where
  "record_call ex operation tool outcome duration s =
     (case and_then (check_optional (dimension ''tool_name'') tool) (\<lambda>_.
           raise_if (\<not> duration_ok duration) (ValueError ''duration_seconds must be finite and bounded'') okay) of
        Inl e \<Rightarrow> (Inl e, s)
      | Inr _ \<Rightarrow>
          (let key = (operation, tool_label tool, outcome);
               x = (case duration of Fin q \<Rightarrow> q | _ \<Rightarrow> 0) in
           if map_of (me_requests s) key = None \<and> length (me_requests s) \<ge> max_request_series
           then (okay, drop_event s)
           else
             (let h = (case map_of (me_requests s) key of None \<Rightarrow> empty_histogram | Some h \<Rightarrow> h);
                  s1 = s\<lparr>me_requests := dict_put key (observe_duration x h) (me_requests s)\<rparr>;
                  s2 = (if outcome = Outcome_CANCELLATION
                        then s1\<lparr>me_cancellations := bump (tool_label tool) (me_cancellations s1)\<rparr> else s1) in
              (okay, export ex (Export_call operation tool outcome x) s2))))"

definition record_retry :: "exporter \<Rightarrow> string \<Rightarrow> metrics \<Rightarrow> (value_error, unit) result \<times> metrics" where
  "record_retry ex tool s =
     (case dimension ''tool_name'' tool of
        Inl e \<Rightarrow> (Inl e, s)
      | Inr _ \<Rightarrow>
          if map_of (me_retries s) tool = None \<and> length (me_retries s) \<ge> max_tools then (okay, drop_event s)
          else (okay, export ex (Export_retry tool) (s\<lparr>me_retries := bump tool (me_retries s)\<rparr>)))"

definition record_limit :: "exporter \<Rightarrow> string option \<Rightarrow> runtime_limit \<Rightarrow> metrics \<Rightarrow> (value_error, unit) result \<times> metrics" where
  "record_limit ex tool limit s =
     (case check_optional (dimension ''tool_name'') tool of
        Inl e \<Rightarrow> (Inl e, s)
      | Inr _ \<Rightarrow>
          (let key = (limit, tool_label tool) in
           if map_of (me_limits s) key = None \<and> length (me_limits s) \<ge> 8 * (max_tools + 1) then (okay, drop_event s)
           else (okay, export ex (Export_limit tool limit) (s\<lparr>me_limits := bump key (me_limits s)\<rparr>))))"

definition capacities_ok :: "int \<Rightarrow> int \<Rightarrow> bool" where
  "capacities_ok server tool \<longleftrightarrow> 1 \<le> server \<and> server \<le> 256 \<and> 1 \<le> tool \<and> tool \<le> 128"

text \<open>The capacity of a tool is remembered with its gauge, when there is room for one more tool.\<close>

definition remember_tool :: "string \<Rightarrow> int \<Rightarrow> metrics \<Rightarrow> metrics option" where
  "remember_tool tool capacity s =
     (case map_of (me_tool_capacity s) tool of
        Some c \<Rightarrow> if c \<noteq> capacity then None else Some s
      | None \<Rightarrow>
          if length (me_tool_capacity s) \<ge> max_tools then None
          else Some (s\<lparr>me_tool_capacity := dict_put tool capacity (me_tool_capacity s),
                       me_tool_in_flight := dict_put tool 0 (me_tool_in_flight s)\<rparr>))"

definition move_in_flight :: "exporter \<Rightarrow> string \<Rightarrow> int \<Rightarrow> int \<Rightarrow> int \<Rightarrow> metrics \<Rightarrow> metrics" where
  "move_in_flight ex tool delta server_capacity tool_capacity s =
     (let next_server = me_server_in_flight s + delta;
          next_tool = the (map_of (me_tool_in_flight s) tool) + delta in
      if \<not> (0 \<le> next_server \<and> next_server \<le> server_capacity) \<or> \<not> (0 \<le> next_tool \<and> next_tool \<le> tool_capacity)
      then drop_event s
      else export ex (Export_in_flight tool delta server_capacity tool_capacity)
        (s\<lparr>me_server_in_flight := next_server,
           me_tool_in_flight := dict_put tool next_tool (me_tool_in_flight s)\<rparr>))"

definition change_in_flight ::
  "exporter \<Rightarrow> string \<Rightarrow> int \<Rightarrow> int \<Rightarrow> int \<Rightarrow> metrics \<Rightarrow> (value_error, unit) result \<times> metrics" where
  "change_in_flight ex tool delta server_capacity tool_capacity s =
     (case and_then (dimension ''tool_name'' tool) (\<lambda>_.
           raise_if (delta \<notin> {-1, 1}) (ValueError ''delta must be exactly -1 or 1'')
           (raise_if (\<not> capacities_ok server_capacity tool_capacity)
             (ValueError ''concurrency capacities must satisfy runtime hard maxima'') okay)) of
        Inl e \<Rightarrow> (Inl e, s)
      | Inr _ \<Rightarrow>
          if me_server_capacity s \<notin> {None, Some server_capacity} then (okay, drop_event s)
          else
            (let s1 = s\<lparr>me_server_capacity := Some server_capacity\<rparr> in
             case remember_tool tool tool_capacity s1 of
               None \<Rightarrow> (okay, drop_event s1)
             | Some s2 \<Rightarrow> (okay, move_in_flight ex tool delta server_capacity tool_capacity s2)))"

definition emit_log :: "exporter \<Rightarrow> log_event \<Rightarrow> metrics \<Rightarrow> metrics" where
  "emit_log ex e s = export ex (Export_log e) s"

subsection \<open>Spans that never fail\<close>

text \<open>
  A \<open>_SafeSpan\<close> is a flag that says whether the inner span is still there. The environment says of each call of
  the inner span whether it raises; the first failure counts a dropped event and forgets the span.
\<close>

definition start_span ::
  "(span_spec \<Rightarrow> bool) option \<Rightarrow> span_spec \<Rightarrow> metrics \<Rightarrow> (value_error, bool) result \<times> metrics" where
  "start_span opens spec s =
     (if sn_server spec \<noteq> me_server s then (Inl (ValueError ''span must satisfy this runtime server contract''), s)
      else
        (case opens of
           None \<Rightarrow> (Inr False, s)
         | Some valid \<Rightarrow> if valid spec then (Inr True, s) else (Inr False, count_dropped 1 s)))"

definition span_lost :: "metrics \<Rightarrow> bool \<times> metrics" where
  "span_lost s = (False, count_dropped 1 s)"

definition span_trace_id :: "(unit, string option) result \<Rightarrow> bool \<Rightarrow> metrics \<Rightarrow> string option \<times> bool \<times> metrics" where
  "span_trace_id inner live s =
     (if \<not> live then (None, live, s)
      else
        (case inner of
           Inl _ \<Rightarrow> (None, span_lost s)
         | Inr None \<Rightarrow> (None, live, s)
         | Inr (Some t) \<Rightarrow> if fullmatch hex32 t then (Some t, live, s) else (None, span_lost s)))"

definition span_enter :: "bool \<Rightarrow> bool \<Rightarrow> metrics \<Rightarrow> bool \<times> metrics" where
  "span_enter raises live s = (if live \<and> raises then span_lost s else (live, s))"

definition span_set_outcome :: "bool \<Rightarrow> bool \<Rightarrow> metrics \<Rightarrow> bool \<times> metrics" where
  "span_set_outcome raises live s = (if live \<and> raises then span_lost s else (live, s))"

definition span_exit :: "bool \<Rightarrow> bool \<Rightarrow> metrics \<Rightarrow> bool \<times> metrics" where
  "span_exit raises live s = (if live \<and> raises then span_lost s else (False, s))"

subsection \<open>The exposition\<close>

text \<open>\<open>fnum\<close> is the \<^verbatim>\<open>.12g\<close> rendering of a float.\<close>

definition quoted :: "string \<Rightarrow> string" where
  "quoted s = quote # s @ [quote]"

definition metric_labels :: "string \<Rightarrow> string \<Rightarrow> string \<Rightarrow> string \<Rightarrow> string" where
  "metric_labels server operation tool outcome =
     ''operation='' @ quoted operation @ '',outcome='' @ quoted outcome @
     '',server='' @ quoted server @ '',tool='' @ quoted tool"

definition metric_line :: "string \<Rightarrow> string \<Rightarrow> string \<Rightarrow> string" where
  "metric_line name labels v = name @ ''{'' @ labels @ ''} '' @ v"

definition server_label :: "string \<Rightarrow> string" where
  "server_label server = ''server='' @ quoted server"

definition request_lines ::
  "(rat \<Rightarrow> string) \<Rightarrow> string \<Rightarrow> (runtime_operation \<times> string \<times> runtime_outcome) \<times> histogram \<Rightarrow> string list" where
  "request_lines fnum server = (\<lambda>((operation, tool, outcome), h).
     let labels = metric_labels server (operation_value operation) tool (outcome_value outcome);
         bucket = ''mcp_server_request_duration_seconds_bucket''
     in metric_line ''mcp_server_request_count_total'' labels (nat_digits (hi_count h)) #
        map2 (\<lambda>b n. metric_line bucket (labels @ '',le='' @ quoted (fnum b)) (nat_digits n))
          duration_buckets (hi_buckets h) @
        [metric_line bucket (labels @ '',le='' @ quoted ''+Inf'') (nat_digits (hi_count h)),
         metric_line ''mcp_server_request_duration_seconds_count'' labels (nat_digits (hi_count h)),
         metric_line ''mcp_server_request_duration_seconds_sum'' labels (fnum (hi_total h))])"

definition sorted_requests ::
  "metrics \<Rightarrow> ((runtime_operation \<times> string \<times> runtime_outcome) \<times> histogram) list" where
  "sorted_requests s =
     sort_key (\<lambda>((operation, tool, outcome), h). (operation_value operation, tool, outcome_value outcome)) (me_requests s)"

definition saturation_lines :: "metrics \<Rightarrow> string list" where
  "saturation_lines s =
     concat (map (\<lambda>(tool, capacity).
       (let labels = server_label (me_server s) @ '',tool='' @ quoted tool in
        [metric_line ''mcp_tool_in_flight'' labels (int_str (the (map_of (me_tool_in_flight s) tool))),
         metric_line ''mcp_tool_concurrency_limit'' labels (int_str capacity)]))
       (sort_key fst (me_tool_capacity s)))"

definition tool_counter_lines :: "string \<Rightarrow> string \<Rightarrow> (string \<times> nat) list \<Rightarrow> string list" where
  "tool_counter_lines server name d =
     map (\<lambda>(tool, n). metric_line name (server_label server @ '',tool='' @ quoted tool) (nat_digits n)) (sort_key fst d)"

definition limit_lines :: "metrics \<Rightarrow> string list" where
  "limit_lines s =
     map (\<lambda>((limit, tool), n). metric_line ''mcp_server_limit_count_total''
         (''limit='' @ quoted (limit_value limit) @ '','' @ server_label (me_server s) @ '',tool='' @ quoted tool) (nat_digits n))
       (sort_key (\<lambda>((limit, tool), n). (limit_value limit, tool)) (me_limits s))"

definition line_feed :: string where "line_feed = [CHR 0x0A]"

definition render_prometheus :: "(rat \<Rightarrow> string) \<Rightarrow> metrics \<Rightarrow> string" where
  "render_prometheus fnum s =
     (let server = me_server s;
          capacity = (case me_server_capacity s of None \<Rightarrow> 0 | Some c \<Rightarrow> c);
          gauge = (\<lambda>name v. metric_line name (server_label server) v)
      in join line_feed (
          [''# TYPE mcp_server_request_count_total counter'',
           ''# TYPE mcp_server_request_duration_seconds histogram''] @
          concat (map (request_lines fnum server) (sorted_requests s)) @
          [''# TYPE mcp_server_in_flight gauge'',
           gauge ''mcp_server_in_flight'' (int_str (me_server_in_flight s)),
           ''# TYPE mcp_server_concurrency_limit gauge'',
           gauge ''mcp_server_concurrency_limit'' (int_str capacity),
           ''# TYPE mcp_server_saturation_ratio gauge'',
           gauge ''mcp_server_saturation_ratio''
             (fnum (if capacity = 0 then 0 else of_int (me_server_in_flight s) / of_int capacity)),
           ''# TYPE mcp_server_queue_depth gauge'',
           gauge ''mcp_server_queue_depth'' ''0'',
           ''# TYPE mcp_tool_in_flight gauge'',
           ''# TYPE mcp_tool_concurrency_limit gauge''] @
          saturation_lines s @
          [''# TYPE mcp_tool_retry_count_total counter'',
           ''# TYPE mcp_server_limit_count_total counter'',
           ''# TYPE mcp_server_cancellation_count_total counter''] @
          tool_counter_lines server ''mcp_tool_retry_count_total'' (me_retries s) @
          limit_lines s @
          tool_counter_lines server ''mcp_server_cancellation_count_total'' (me_cancellations s) @
          [''# TYPE mcp_telemetry_dropped_count_total counter'',
           gauge ''mcp_telemetry_dropped_count_total'' (nat_digits (me_dropped s))]) @ line_feed)"

subsection \<open>Invariants\<close>

lemma length_dict_put: "length (dict_put k v d) = (if k \<in> fst ` set d then length d else length d + 1)"
  by (induction k v d rule: dict_put.induct) auto

lemma length_bump: "length (bump k d) = (if map_of d k = None then length d + 1 else length d)"
  by (auto simp: bump_def length_dict_put map_of_eq_None_iff dest: weak_map_of_SomeI split: option.splits)

lemma sum_dict_put:
  "distinct (map fst d) \<Longrightarrow>
     sum_list (map snd (dict_put k (v :: int) d)) = sum_list (map snd d) - (case map_of d k of None \<Rightarrow> 0 | Some w \<Rightarrow> w) + v"
  by (induction k v d rule: dict_put.induct) (auto split: option.splits dest: map_of_SomeD simp: rev_image_eqI)

definition histogram_ok :: "histogram \<Rightarrow> bool" where
  "histogram_ok h \<longleftrightarrow> length (hi_buckets h) = length duration_buckets \<and> sorted (hi_buckets h) \<and>
     list_all (\<lambda>n. n \<le> hi_count h) (hi_buckets h)"

definition gauges_ok :: "int \<Rightarrow> int option \<Rightarrow> (string \<times> int) list \<Rightarrow> (string \<times> int) list \<Rightarrow> bool" where
  "gauges_ok server capacity flight capacities \<longleftrightarrow>
     distinct (map fst flight) \<and> map fst flight = map fst capacities \<and> length capacities \<le> max_tools \<and>
     server = sum_list (map snd flight) \<and> 0 \<le> server \<and>
     (case capacity of None \<Rightarrow> flight = [] | Some c \<Rightarrow> server \<le> c) \<and>
     (\<forall>tool n. map_of flight tool = Some n \<longrightarrow> 0 \<le> n \<and> (\<exists>c. map_of capacities tool = Some c \<and> n \<le> c))"

definition metrics_inv :: "metrics \<Rightarrow> bool" where
  "metrics_inv s \<longleftrightarrow>
     length (me_requests s) \<le> max_request_series \<and> list_all (histogram_ok \<circ> snd) (me_requests s) \<and>
     length (me_retries s) \<le> max_tools \<and> length (me_limits s) \<le> 8 * (max_tools + 1) \<and>
     me_pending s \<le> me_dropped s \<and>
     gauges_ok (me_server_in_flight s) (me_server_capacity s) (me_tool_in_flight s) (me_tool_capacity s)"

text \<open>An observation of a histogram keeps its buckets cumulative.\<close>

lemma cumulative_map2:
  assumes "sorted bs" "sorted ns" "length ns = length bs"
  shows "sorted (map2 (\<lambda>(b :: rat) n. if x \<le> b then n + 1 else (n :: nat)) bs ns)"
  using assms
proof (induction bs ns rule: list_induct2')
  case (4 b bs n ns)
  have "(if x \<le> b then n + 1 else n) \<le> (if x \<le> b' then m + 1 else m)" if "(b', m) \<in> set (zip bs ns)" for b' m
  proof -
    have "b' \<in> set bs" "m \<in> set ns" using that by (rule set_zip_leftD, rule set_zip_rightD)
    then show ?thesis using 4(2,3) by auto
  qed
  then show ?case using 4 by auto
qed auto

lemma observe_duration_ok: "histogram_ok h \<Longrightarrow> histogram_ok (observe_duration x h)"
proof -
  assume h: "histogram_ok h"
  have "sorted duration_buckets" by (simp add: duration_buckets_def)
  moreover have "list_all (\<lambda>n. n \<le> hi_count h + 1)
      (map2 (\<lambda>b n. if x \<le> b then n + 1 else n) duration_buckets (hi_buckets h))"
    using h by (auto simp: histogram_ok_def list_all_iff dest!: set_zip_rightD)
  ultimately show ?thesis
    using h cumulative_map2 [of duration_buckets "hi_buckets h" x] by (simp add: histogram_ok_def observe_duration_def)
qed

lemma empty_histogram_ok: "histogram_ok empty_histogram"
  by (simp add: histogram_ok_def empty_histogram_def duration_buckets_def)

lemma list_all_dict_put: "list_all (P \<circ> snd) d \<Longrightarrow> P v \<Longrightarrow> list_all (P \<circ> snd) (dict_put k v d)"
  by (induction k v d rule: dict_put.induct) auto

lemma map_of_list_all: "list_all (P \<circ> snd) d \<Longrightarrow> map_of d k = Some v \<Longrightarrow> P v"
  by (force dest: map_of_SomeD simp: list_all_iff)

lemmas metrics_simps = metrics_inv_def drop_event_def count_dropped_def

lemma drop_event_inv: "metrics_inv s \<Longrightarrow> metrics_inv (drop_event s)"
  by (simp add: metrics_simps)

lemma count_dropped_inv: "metrics_inv s \<Longrightarrow> metrics_inv (count_dropped n s)"
  by (simp add: metrics_simps)

lemma export_inv: "metrics_inv s \<Longrightarrow> metrics_inv (export ex x s)"
  by (cases ex) (auto simp: export_def Let_def metrics_simps)

lemma span_lost_inv: "metrics_inv s \<Longrightarrow> metrics_inv (snd (span_lost s))"
  by (simp add: span_lost_def count_dropped_inv)

lemma record_call_inv: "metrics_inv s \<Longrightarrow> metrics_inv (snd (record_call ex operation tool outcome duration s))"
proof -
  assume s: "metrics_inv s"
  define key where "key = (operation, tool_label tool, outcome)"
  define h where "h = (case map_of (me_requests s) key of None \<Rightarrow> empty_histogram | Some h \<Rightarrow> h)"
  have h: "histogram_ok h"
    using s by (auto simp: h_def metrics_inv_def empty_histogram_ok split: option.split dest: map_of_list_all)
  have keep: "metrics_inv (s\<lparr>me_requests := dict_put key (observe_duration x h) (me_requests s), me_cancellations := cs\<rparr>)"
    if "\<not> (map_of (me_requests s) key = None \<and> length (me_requests s) \<ge> max_request_series)" for x cs
    using s that h
    by (auto simp: metrics_inv_def length_dict_put map_of_eq_None_iff intro!: list_all_dict_put observe_duration_ok)
  have "metrics_inv (s\<lparr>me_requests := dict_put key (observe_duration x h) (me_requests s)\<rparr>)"
    if "\<not> (map_of (me_requests s) key = None \<and> length (me_requests s) \<ge> max_request_series)" for x
    using keep [OF that, where cs = "me_cancellations s"] by simp
  then show ?thesis
    using s keep
    by (auto simp: record_call_def Let_def key_def [symmetric] h_def [symmetric] intro!: export_inv drop_event_inv split: sum.splits)
qed

lemma record_retry_inv: "metrics_inv s \<Longrightarrow> metrics_inv (snd (record_retry ex tool s))"
  by (auto simp: record_retry_def intro!: export_inv drop_event_inv split: sum.splits)
    (auto simp: metrics_inv_def length_bump)

lemma record_limit_inv: "metrics_inv s \<Longrightarrow> metrics_inv (snd (record_limit ex tool limit s))"
  by (auto simp: record_limit_def Let_def intro!: export_inv drop_event_inv split: sum.splits)
    (auto simp: metrics_inv_def length_bump)

lemma gauges_init: "gauges_ok 0 None [] []"
  by (simp add: gauges_ok_def)

lemma gauges_capacity: "gauges_ok n None flight capacities \<Longrightarrow> 0 \<le> c \<Longrightarrow> gauges_ok n (Some c) flight capacities"
  by (auto simp: gauges_ok_def)

lemma key_of_map_of: "map_of d k = Some v \<Longrightarrow> k \<in> fst ` set d"
  by (force dest: map_of_SomeD)

lemma gauges_keys: "gauges_ok n c flight capacities \<Longrightarrow> map_of flight tool = None \<longleftrightarrow> map_of capacities tool = None"
  by (metis gauges_ok_def map_of_eq_None_iff image_set)

lemma gauges_new_tool:
  assumes "gauges_ok n (Some c) flight capacities" "map_of capacities tool = None" "length capacities < max_tools" "0 \<le> k"
  shows "gauges_ok n (Some c) (dict_put tool 0 flight) (dict_put tool k capacities)"
proof -
  have none: "map_of flight tool = None" using assms(1,2) by (simp add: gauges_keys)
  then have "tool \<notin> fst ` set flight" "tool \<notin> fst ` set capacities"
    using assms(2) by (simp_all add: map_of_eq_None_iff)
  moreover have "distinct (map fst flight)" "distinct (map fst capacities)"
    using assms(1) unfolding gauges_ok_def by metis+
  ultimately show ?thesis using none assms
    by (auto simp: gauges_ok_def keys_dict_put length_dict_put sum_dict_put [where 'a = string])
qed

lemma gauges_move:
  assumes "gauges_ok n (Some c) flight capacities" "map_of flight tool = Some w" "map_of capacities tool = Some k"
    "0 \<le> n + delta" "n + delta \<le> c" "0 \<le> w + delta" "w + delta \<le> k"
  shows "gauges_ok (n + delta) (Some c) (dict_put tool (w + delta) flight) capacities"
  using assms key_of_map_of [OF assms(2)] by (auto simp: gauges_ok_def keys_dict_put sum_dict_put)

lemma remember_tool_gauges:
  assumes "remember_tool tool capacity s = Some t"
    and "gauges_ok (me_server_in_flight s) (Some c) (me_tool_in_flight s) (me_tool_capacity s)" "0 \<le> capacity"
  shows "gauges_ok (me_server_in_flight t) (Some c) (me_tool_in_flight t) (me_tool_capacity t) \<and>
    map_of (me_tool_capacity t) tool = Some capacity \<and> map_of (me_tool_in_flight t) tool \<noteq> None"
proof (cases "map_of (me_tool_capacity s) tool")
  case None
  with assms show ?thesis by (auto simp: remember_tool_def gauges_new_tool split: if_splits)
next
  case (Some d)
  then have "map_of (me_tool_in_flight s) tool \<noteq> None" using gauges_keys [OF assms(2)] by simp
  with Some assms show ?thesis by (auto simp: remember_tool_def split: if_splits)
qed

lemma remember_tool_rest:
  assumes "remember_tool tool capacity s = Some t"
  shows "t = s\<lparr>me_tool_capacity := me_tool_capacity t, me_tool_in_flight := me_tool_in_flight t\<rparr>"
  using assms by (auto simp: remember_tool_def split: option.splits if_splits)

lemma move_in_flight_inv:
  assumes "metrics_inv s" "me_server_capacity s = Some sc" "map_of (me_tool_capacity s) tool = Some tc"
    and "map_of (me_tool_in_flight s) tool = Some w"
  shows "metrics_inv (move_in_flight ex tool delta sc tc s)"
proof (cases "0 \<le> me_server_in_flight s + delta \<and> me_server_in_flight s + delta \<le> sc \<and> 0 \<le> w + delta \<and> w + delta \<le> tc")
  case True
  have "gauges_ok (me_server_in_flight s) (Some sc) (me_tool_in_flight s) (me_tool_capacity s)"
    using assms(1,2) by (simp add: metrics_inv_def)
  from gauges_move [OF this assms(4,3)] True
  have "gauges_ok (me_server_in_flight s + delta) (Some sc) (dict_put tool (w + delta) (me_tool_in_flight s)) (me_tool_capacity s)"
    by blast
  with assms(1,2) have "metrics_inv (s\<lparr>me_server_in_flight := me_server_in_flight s + delta,
      me_tool_in_flight := dict_put tool (w + delta) (me_tool_in_flight s)\<rparr>)"
    by (simp add: metrics_inv_def)
  with assms(4) True show ?thesis by (simp add: move_in_flight_def Let_def export_inv)
next
  case False
  with assms show ?thesis by (auto simp: move_in_flight_def Let_def drop_event_inv)
qed

lemma set_capacity_inv:
  assumes "metrics_inv s" "me_server_capacity s \<in> {None, Some c}" "0 \<le> c"
  shows "metrics_inv (s\<lparr>me_server_capacity := Some c\<rparr>)"
  using assms gauges_capacity [of "me_server_in_flight s" "me_tool_in_flight s" "me_tool_capacity s" c]
  by (auto simp: metrics_inv_def)

lemma remember_tool_inv:
  assumes "metrics_inv s" "me_server_capacity s = Some c" "0 \<le> capacity" "remember_tool tool capacity s = Some t"
  shows "metrics_inv t \<and> me_server_capacity t = Some c \<and> map_of (me_tool_capacity t) tool = Some capacity \<and>
    (\<exists>w. map_of (me_tool_in_flight t) tool = Some w)"
proof -
  obtain flight capacities
    where t: "t = s\<lparr>me_tool_capacity := capacities, me_tool_in_flight := flight\<rparr>"
    using remember_tool_rest [OF assms(4)] by blast
  have "gauges_ok (me_server_in_flight s) (Some c) (me_tool_in_flight s) (me_tool_capacity s)"
    using assms(1,2) by (simp add: metrics_inv_def)
  from remember_tool_gauges [OF assms(4) this assms(3)] assms(1,2) show ?thesis
    by (simp add: metrics_inv_def t)
qed

lemma change_in_flight_inv:
  assumes "metrics_inv s"
  shows "metrics_inv (snd (change_in_flight ex tool delta sc tc s))"
proof (cases "is_ok (dimension ''tool_name'' tool) \<and> delta \<in> {-1, 1} \<and> capacities_ok sc tc \<and>
    me_server_capacity s \<in> {None, Some sc}")
  case False
  with assms show ?thesis
    by (auto simp: change_in_flight_def raise_if_def and_then_def drop_event_inv split: sum.split)
next
  case True
  have caps: "0 \<le> sc" "0 \<le> tc" using True by (simp_all add: capacities_ok_def)
  define s1 where "s1 = s\<lparr>me_server_capacity := Some sc\<rparr>"
  have i1: "metrics_inv s1" unfolding s1_def using set_capacity_inv assms True caps by blast
  have eq: "snd (change_in_flight ex tool delta sc tc s) =
      (case remember_tool tool tc s1 of None \<Rightarrow> drop_event s1 | Some s2 \<Rightarrow> move_in_flight ex tool delta sc tc s2)"
    using True by (cases "dimension ''tool_name'' tool")
      (simp_all add: change_in_flight_def s1_def [symmetric] Let_def split: option.split)
  have c1: "me_server_capacity s1 = Some sc" by (simp add: s1_def)
  show ?thesis
  proof (cases "remember_tool tool tc s1")
    case None with eq i1 show ?thesis by (simp add: drop_event_inv)
  next
    case (Some s2)
    from remember_tool_inv [OF i1 c1 caps(2) Some] Some eq show ?thesis by (auto intro: move_in_flight_inv)
  qed
qed

subsection \<open>Sequences of observations\<close>

text \<open>
  What the runtime can report, one operation each. A lost span is what the operations of \<open>_SafeSpan\<close> do when the
  inner span raises.
\<close>

datatype observation =
    Observe_call runtime_operation "string option" runtime_outcome pyfloat
  | Observe_retry string
  | Observe_limit "string option" runtime_limit
  | Observe_in_flight string int int int
  | Observe_log log_event
  | Observe_dropped int
  | Observe_lost_span

fun record_observation :: "exporter \<Rightarrow> observation \<Rightarrow> metrics \<Rightarrow> (value_error, unit) result \<times> metrics" where
  "record_observation ex (Observe_call operation tool outcome duration) s = record_call ex operation tool outcome duration s"
| "record_observation ex (Observe_retry tool) s = record_retry ex tool s"
| "record_observation ex (Observe_limit tool limit) s = record_limit ex tool limit s"
| "record_observation ex (Observe_in_flight tool delta sc tc) s = change_in_flight ex tool delta sc tc s"
| "record_observation ex (Observe_log e) s = (okay, emit_log ex e s)"
| "record_observation ex (Observe_dropped n) s = record_dropped n s"
| "record_observation ex Observe_lost_span s = (okay, snd (span_lost s))"

fun observe_all :: "exporter \<Rightarrow> observation list \<Rightarrow> metrics \<Rightarrow> (value_error, unit) result list \<times> metrics" where
  "observe_all ex [] s = ([], s)"
| "observe_all ex (x # xs) s =
     (let (r, s1) = record_observation ex x s; (rs, s2) = observe_all ex xs s1 in (r # rs, s2))"

lemma record_dropped_inv: "metrics_inv s \<Longrightarrow> metrics_inv (snd (record_dropped n s))"
  by (simp add: record_dropped_def count_dropped_inv)

lemma observe_inv: "metrics_inv s \<Longrightarrow> metrics_inv (snd (record_observation ex x s))"
  by (cases x) (auto simp: emit_log_def intro: record_call_inv record_retry_inv record_limit_inv change_in_flight_inv
      export_inv record_dropped_inv span_lost_inv)

lemma make_metrics_inv: "make_metrics server = Inr s \<Longrightarrow> metrics_inv s"
  by (auto simp: make_metrics_def metrics_inv_def gauges_init)

interpretation observed: invariant_machine "\<lambda>s. make_metrics server = Inr s" "\<lambda>s t. \<exists>x. t = snd (record_observation ex x s)" metrics_inv
  for server ex
  by unfold_locales (auto intro: make_metrics_inv observe_inv)

text \<open>The metrics without what the exporter was told and what was lost on the way to it.\<close>

definition local_metrics :: "metrics \<Rightarrow> metrics" where
  "local_metrics s = s\<lparr>me_dropped := 0, me_pending := 0, me_exported := []\<rparr>"

definition same_local :: "('r \<times> metrics) \<Rightarrow> ('r \<times> metrics) \<Rightarrow> bool" where
  "same_local a b \<longleftrightarrow> fst a = fst b \<and> local_metrics (snd a) = local_metrics (snd b)"

lemma local_update [simp]:
  "local_metrics (drop_event s) = local_metrics s"
  "local_metrics (count_dropped n s) = local_metrics s"
  "local_metrics (export ex x s) = local_metrics s"
  "local_metrics (snd (span_lost s)) = local_metrics s"
  by (auto simp: local_metrics_def drop_event_def count_dropped_def span_lost_def export_def Let_def split: option.split)

lemma local_push [simp]:
  "local_metrics (s\<lparr>me_dropped := d\<rparr>) = local_metrics s"
  "local_metrics (s\<lparr>me_pending := d\<rparr>) = local_metrics s"
  "local_metrics (s\<lparr>me_exported := e\<rparr>) = local_metrics s"
  "local_metrics (s\<lparr>me_requests := r\<rparr>) = local_metrics s\<lparr>me_requests := r\<rparr>"
  "local_metrics (s\<lparr>me_server_in_flight := n\<rparr>) = local_metrics s\<lparr>me_server_in_flight := n\<rparr>"
  "local_metrics (s\<lparr>me_server_capacity := c\<rparr>) = local_metrics s\<lparr>me_server_capacity := c\<rparr>"
  "local_metrics (s\<lparr>me_tool_in_flight := f\<rparr>) = local_metrics s\<lparr>me_tool_in_flight := f\<rparr>"
  "local_metrics (s\<lparr>me_tool_capacity := k\<rparr>) = local_metrics s\<lparr>me_tool_capacity := k\<rparr>"
  "local_metrics (s\<lparr>me_retries := u\<rparr>) = local_metrics s\<lparr>me_retries := u\<rparr>"
  "local_metrics (s\<lparr>me_limits := l\<rparr>) = local_metrics s\<lparr>me_limits := l\<rparr>"
  "local_metrics (s\<lparr>me_cancellations := u\<rparr>) = local_metrics s\<lparr>me_cancellations := u\<rparr>"
  by (simp_all add: local_metrics_def)

text \<open>Two states with the same local metrics are equal up to the three fields.\<close>

lemma local_metricsE:
  assumes "local_metrics s = local_metrics t"
  obtains d p e where "t = s\<lparr>me_dropped := d, me_pending := p, me_exported := e\<rparr>"
  using assms by (cases s; cases t) (auto simp: local_metrics_def)

definition told :: "nat \<Rightarrow> nat \<Rightarrow> export list \<Rightarrow> metrics \<Rightarrow> metrics" where
  "told d p e s = s\<lparr>me_dropped := d, me_pending := p, me_exported := e\<rparr>"

lemma told_fields [simp]:
  "me_server (told d p e s) = me_server s" "me_requests (told d p e s) = me_requests s"
  "me_server_in_flight (told d p e s) = me_server_in_flight s" "me_server_capacity (told d p e s) = me_server_capacity s"
  "me_tool_in_flight (told d p e s) = me_tool_in_flight s" "me_tool_capacity (told d p e s) = me_tool_capacity s"
  "me_retries (told d p e s) = me_retries s" "me_limits (told d p e s) = me_limits s"
  "me_cancellations (told d p e s) = me_cancellations s" "local_metrics (told d p e s) = local_metrics s"
  by (simp_all add: told_def)

lemma record_call_local:
  "same_local (record_call ex operation tool outcome x s) (record_call ex' operation tool outcome x (told d p e s))"
  by (simp add: record_call_def same_local_def Let_def split: sum.split)

lemma record_retry_local: "same_local (record_retry ex tool s) (record_retry ex' tool (told d p e s))"
  by (simp add: record_retry_def same_local_def split: sum.split)

lemma record_limit_local: "same_local (record_limit ex tool l s) (record_limit ex' tool l (told d p e s))"
  by (simp add: record_limit_def same_local_def Let_def split: sum.split)

lemma move_in_flight_local:
  "local_metrics s = local_metrics t \<Longrightarrow>
     local_metrics (move_in_flight ex tool delta sc tc s) = local_metrics (move_in_flight ex' tool delta sc tc t)"
  by (erule local_metricsE) (simp add: move_in_flight_def Let_def)

lemma change_in_flight_local:
  "same_local (change_in_flight ex tool delta sc tc s) (change_in_flight ex' tool delta sc tc (told d p e s))"
proof -
  let ?s = "s\<lparr>me_server_capacity := Some sc\<rparr>" and ?t = "told d p e s\<lparr>me_server_capacity := Some sc\<rparr>"
  have "map_option local_metrics (remember_tool tool tc ?t) = map_option local_metrics (remember_tool tool tc ?s)"
    by (simp add: remember_tool_def split: option.split)
  moreover have caps: "local_metrics ?t = local_metrics ?s" by (simp add: local_metrics_def told_def)
  ultimately have "same_local
      (case remember_tool tool tc ?s of None \<Rightarrow> (okay, drop_event ?s) | Some u \<Rightarrow> (okay, move_in_flight ex tool delta sc tc u))
      (case remember_tool tool tc ?t of None \<Rightarrow> (okay, drop_event ?t) | Some u \<Rightarrow> (okay, move_in_flight ex' tool delta sc tc u))"
    by (cases "remember_tool tool tc ?s"; cases "remember_tool tool tc ?t")
      (auto simp: same_local_def caps intro: move_in_flight_local)
  then show ?thesis
    unfolding change_in_flight_def Let_def told_fields
    by (split sum.split) (simp add: same_local_def)
qed

lemma observe_local:
  assumes "local_metrics s = local_metrics t"
  shows "same_local (record_observation ex x s) (record_observation ex' x t)"
proof -
  obtain d p e where t: "t = told d p e s" unfolding told_def by (rule local_metricsE [OF assms])
  show ?thesis
    by (cases x) (simp_all add: t record_call_local record_retry_local record_limit_local change_in_flight_local,
      simp_all add: same_local_def emit_log_def record_dropped_def)
qed

lemma observe_all_local:
  "local_metrics s = local_metrics t \<Longrightarrow> same_local (observe_all ex xs s) (observe_all ex' xs t)"
proof (induction xs arbitrary: s t)
  case (Cons x xs)
  from observe_local [OF Cons.prems, of ex x ex'] have "fst (record_observation ex x s) = fst (record_observation ex' x t)"
    "local_metrics (snd (record_observation ex x s)) = local_metrics (snd (record_observation ex' x t))" by (simp_all add: same_local_def)
  with Cons.IH [OF this(2)] show ?case
    by (simp add: same_local_def Let_def case_prod_unfold)
qed (simp add: same_local_def)

lemma observe_all_steps: "(\<lambda>s t. \<exists>x. t = snd (record_observation ex x s))\<^sup>*\<^sup>* s (snd (observe_all ex xs s))"
proof (induction xs arbitrary: s)
  case (Cons x xs)
  have "(\<lambda>s t. \<exists>x. t = snd (record_observation ex x s))\<^sup>*\<^sup>* s (snd (record_observation ex x s))" by auto
  with Cons [of "snd (record_observation ex x s)"] show ?case by (simp add: Let_def case_prod_unfold)
qed simp

lemma observe_all_inv: "make_metrics server = Inr s \<Longrightarrow> metrics_inv (snd (observe_all ex xs s))"
  by (rule observed.reachable_from_inv [OF observe_all_steps make_metrics_inv])

definition sample_observations :: "observation list" where
  "sample_observations = [Observe_in_flight ''t'' 1 2 1, Observe_in_flight ''t'' 1 2 1, Observe_retry ''t'']"

lemma sample_metrics:
  "make_metrics ''s'' = Inr \<lparr>me_server = ''s'', me_requests = [], me_server_in_flight = 0, me_server_capacity = None,
       me_tool_in_flight = [], me_tool_capacity = [], me_retries = [], me_limits = [], me_cancellations = [],
       me_dropped = 0, me_pending = 0, me_exported = []\<rparr>"
  by code_simp

text \<open>
  C27. Whatever the runtime observes, and whatever the exporter does, the metrics stay bounded and consistent: at
  most 2048 request series, 128 tools with retries and 1032 limit counters; the buckets of each histogram are
  cumulative and bounded by its count; the in-flight gauge of the server is the sum of those of its tools, each
  within its capacity; and what is still to be told to the exporter was counted as dropped.
\<close>

theorem metrics_bounded:
  assumes "make_metrics server = Inr s"
  shows "length (me_requests (snd (observe_all ex xs s))) \<le> 2048 \<and>
    list_all (histogram_ok \<circ> snd) (me_requests (snd (observe_all ex xs s))) \<and>
    length (me_retries (snd (observe_all ex xs s))) \<le> 128 \<and>
    length (me_limits (snd (observe_all ex xs s))) \<le> 1032 \<and>
    gauges_ok (me_server_in_flight (snd (observe_all ex xs s))) (me_server_capacity (snd (observe_all ex xs s)))
      (me_tool_in_flight (snd (observe_all ex xs s))) (me_tool_capacity (snd (observe_all ex xs s))) \<and>
    me_pending (snd (observe_all ex xs s)) \<le> me_dropped (snd (observe_all ex xs s))"
  using observe_all_inv [OF assms, of ex xs] by (simp add: metrics_inv_def max_request_series_def max_tools_def)

theorem metrics_bounded_witness:
  "length (me_retries (snd (observe_all None sample_observations (projr (make_metrics ''s''))))) \<le> 128 \<and>
   me_server_in_flight (snd (observe_all None sample_observations (projr (make_metrics ''s'')))) = 1"
proof
  show "length (me_retries (snd (observe_all None sample_observations (projr (make_metrics ''s''))))) \<le> 128"
    using metrics_bounded [OF sample_metrics, of None sample_observations] by (simp add: sample_metrics)
  show "me_server_in_flight (snd (observe_all None sample_observations (projr (make_metrics ''s'')))) = 1"
    by code_simp
qed

text \<open>
  C28. The exporter cannot influence what the runtime does or counts: for any two exporters the observations
  return the same results and leave the same local metrics, so the exposition differs in the dropped count alone.
\<close>

theorem exporter_isolated:
  "fst (observe_all ex xs s) = fst (observe_all ex' xs s) \<and>
   local_metrics (snd (observe_all ex xs s)) = local_metrics (snd (observe_all ex' xs s)) \<and>
   render_prometheus fnum (snd (observe_all ex xs s)\<lparr>me_dropped := 0\<rparr>) =
     render_prometheus fnum (snd (observe_all ex' xs s)\<lparr>me_dropped := 0\<rparr>)"
proof -
  have same: "same_local (observe_all ex xs s) (observe_all ex' xs s)" by (rule observe_all_local) simp
  then have "local_metrics (snd (observe_all ex xs s)) = local_metrics (snd (observe_all ex' xs s))"
    by (simp add: same_local_def)
  from local_metricsE [OF this] obtain d p e
    where "snd (observe_all ex' xs s) = snd (observe_all ex xs s)\<lparr>me_dropped := d, me_pending := p, me_exported := e\<rparr>" .
  with same show ?thesis
    by (simp add: same_local_def render_prometheus_def sorted_requests_def saturation_lines_def limit_lines_def Let_def)
qed

end
