(* ===== verification/Execution.thy ===== *)
theory Execution
  imports Errors Canonical_Json Observability
begin

section \<open>Bounded execution\<close>

text \<open>
  Models \<^verbatim>\<open>src/tesserix_mcp_runtime/execution.py\<close>: the limits and their validation, the
  deadline of a call, the bounded retry, the bulkheads (\<open>admit\<close> and \<open>release\<close>), the race
  between a call, its cancellation and its deadline, and the validation of JSON values.

  The clock, the SHA-256 sample of the jitter, the tool call itself and the order in which the
  event loop finishes tasks belong to the environment and are arguments. The observability calls
  are the telemetry list of the state.
\<close>

subsection \<open>Limits\<close>

record execution_limits =
  max_input_bytes :: int
  max_result_bytes :: int
  max_json_depth :: int
  max_object_properties :: int
  max_array_items :: int
  max_json_nodes :: int
  max_tools :: int
  max_global_concurrency :: int
  max_server_concurrency :: int
  max_tool_concurrency :: int
  max_tenant_concurrency :: int
  max_call_seconds :: pyfloat
  max_tool_seconds :: pyfloat
  cancellation_grace_seconds :: pyfloat
  max_attempts :: int
  retry_base_delay_seconds :: pyfloat
  retry_max_delay_seconds :: pyfloat

definition default_limits :: execution_limits where
  "default_limits = \<lparr>max_input_bytes = 65536, max_result_bytes = 524288, max_json_depth = 16,
     max_object_properties = 128, max_array_items = 1024, max_json_nodes = 4096, max_tools = 128,
     max_global_concurrency = 64, max_server_concurrency = 64, max_tool_concurrency = 32,
     max_tenant_concurrency = 16, max_call_seconds = Fin 30, max_tool_seconds = Fin 30,
     cancellation_grace_seconds = Fin 1, max_attempts = 3,
     retry_base_delay_seconds = Fin (1/20), retry_max_delay_seconds = Fin (1/2)\<rparr>"

text \<open>\<open>_INTEGER_MAXIMA\<close> and \<open>_DURATION_MAXIMA\<close>, with the field each entry names.\<close>

definition integer_maxima :: "(string \<times> (execution_limits \<Rightarrow> int) \<times> int) list" where
  "integer_maxima =
     [(''max_input_bytes'', max_input_bytes, 65536),
      (''max_result_bytes'', max_result_bytes, 524288),
      (''max_json_depth'', max_json_depth, 32),
      (''max_object_properties'', max_object_properties, 256),
      (''max_array_items'', max_array_items, 4096),
      (''max_json_nodes'', max_json_nodes, 16384),
      (''max_tools'', max_tools, 128),
      (''max_global_concurrency'', max_global_concurrency, 256),
      (''max_server_concurrency'', max_server_concurrency, 256),
      (''max_tool_concurrency'', max_tool_concurrency, 128),
      (''max_tenant_concurrency'', max_tenant_concurrency, 64),
      (''max_attempts'', max_attempts, 5)]"

definition duration_maxima :: "(string \<times> (execution_limits \<Rightarrow> pyfloat) \<times> rat) list" where
  "duration_maxima =
     [(''max_call_seconds'', max_call_seconds, 300),
      (''max_tool_seconds'', max_tool_seconds, 300),
      (''cancellation_grace_seconds'', cancellation_grace_seconds, 5),
      (''retry_base_delay_seconds'', retry_base_delay_seconds, 1),
      (''retry_max_delay_seconds'', retry_max_delay_seconds, 5)]"

definition check_execution_limits :: "execution_limits \<Rightarrow> check" where
  "check_execution_limits l =
     and_then (for_each (\<lambda>(name, field, maximum).
         raise_if (\<not> (1 \<le> field l \<and> field l \<le> maximum))
           (ValueError (name @ '' must be a positive integer at most '' @ int_str maximum)) okay)
       integer_maxima) (\<lambda>_.
     and_then (for_each (\<lambda>(name, field, maximum).
         raise_if (\<not> is_finite (field l) \<or> \<not> (Fin 0 < field l \<and> field l \<le> Fin maximum))
           (ValueError (name @ '' must be finite, positive, and at most '' @ int_str \<lfloor>maximum\<rfloor> @ ''.0'')) okay)
       duration_maxima) (\<lambda>_.
     raise_if (retry_base_delay_seconds l > retry_max_delay_seconds l)
       (ValueError ''retry_base_delay_seconds must not exceed retry_max_delay_seconds'') okay))"

definition limits_ok :: "execution_limits \<Rightarrow> bool" where
  "limits_ok l \<longleftrightarrow> check_execution_limits l = okay"

text \<open>The seconds of a validated duration.\<close>

fun seconds :: "pyfloat \<Rightarrow> rat" where
  "seconds (Fin q) = q"
| "seconds _ = 0"

lemma limits_okD:
  assumes "limits_ok l"
  shows "1 \<le> max_attempts l" "max_attempts l \<le> 5"
    "1 \<le> max_json_depth l" "max_json_depth l \<le> 32"
    "1 \<le> max_global_concurrency l" "1 \<le> max_server_concurrency l"
    "1 \<le> max_tool_concurrency l" "1 \<le> max_tenant_concurrency l"
    "1 \<le> max_json_nodes l"
proof -
  have "\<forall>(name, field, maximum)\<in>set integer_maxima. 1 \<le> field l \<and> field l \<le> maximum"
    using assms by (auto simp: limits_ok_def check_execution_limits_def)
  then show "1 \<le> max_attempts l" "max_attempts l \<le> 5"
    "1 \<le> max_json_depth l" "max_json_depth l \<le> 32"
    "1 \<le> max_global_concurrency l" "1 \<le> max_server_concurrency l"
    "1 \<le> max_tool_concurrency l" "1 \<le> max_tenant_concurrency l"
    "1 \<le> max_json_nodes l"
    by (simp_all add: integer_maxima_def)
qed

lemma limits_ok_durations:
  assumes "limits_ok l"
  obtains c t g b m where "max_call_seconds l = Fin c" "0 < c" "c \<le> 300"
    and "max_tool_seconds l = Fin t" "0 < t" "t \<le> 300"
    and "cancellation_grace_seconds l = Fin g" "0 < g"
    and "retry_base_delay_seconds l = Fin b" "0 < b" "b \<le> m"
    and "retry_max_delay_seconds l = Fin m" "m \<le> 5"
proof -
  have "\<forall>(name, field, maximum)\<in>set duration_maxima.
      is_finite (field l) \<and> Fin 0 < field l \<and> field l \<le> Fin maximum"
    and base: "\<not> retry_base_delay_seconds l > retry_max_delay_seconds l"
    using assms by (auto simp: limits_ok_def check_execution_limits_def)
  then obtain c t g b m where f: "max_call_seconds l = Fin c" "0 < c" "c \<le> 300"
    "max_tool_seconds l = Fin t" "0 < t" "t \<le> 300" "cancellation_grace_seconds l = Fin g" "0 < g"
    "retry_base_delay_seconds l = Fin b" "0 < b" "retry_max_delay_seconds l = Fin m" "m \<le> 5"
    by (auto simp: duration_maxima_def is_finite_iff)
  with base have "b \<le> m" by simp
  with f show ?thesis by (intro that [of c t g b m])
qed

lemma default_limits_ok: "limits_ok default_limits"
  by (simp add: limits_ok_def check_execution_limits_def integer_maxima_def duration_maxima_def
      default_limits_def)

subsection \<open>Deadlines\<close>

definition bounded_context :: "execution_limits \<Rightarrow> pyfloat \<Rightarrow> call_context \<Rightarrow> call_context" where
  "bounded_context l now c =
     c\<lparr>cc_deadline := Some (py_min (py_min (now + max_call_seconds l) (now + max_tool_seconds l))
         (case cc_deadline c of Some d \<Rightarrow> d | None \<Rightarrow> PInf))\<rparr>"

lemma bounded_context_deadline:
  assumes "limits_ok l" and "check_call_context c = okay"
  shows "\<exists>q. cc_deadline (bounded_context l (Fin now) c) = Some (Fin q) \<and>
    q \<le> now + seconds (max_call_seconds l) \<and> q \<le> now + seconds (max_tool_seconds l) \<and>
    (\<forall>d. cc_deadline c = Some (Fin d) \<longrightarrow> q \<le> d)"
proof -
  obtain a b where "max_call_seconds l = Fin a" "max_tool_seconds l = Fin b"
    using limits_ok_durations [OF assms(1)] by metis
  then show ?thesis
    using assms(2) by (cases "cc_deadline c") (auto simp: bounded_context_def check_call_context_ok)
qed

subsection \<open>Retry\<close>

text \<open>
  The jittered delay. \<open>sample\<close> is the first byte of the SHA-256 digest of
  \<^verbatim>\<open>f"{request_id}:{attempt}"\<close>.
\<close>

definition retry_delay :: "execution_limits \<Rightarrow> (string \<Rightarrow> nat) \<Rightarrow> string \<Rightarrow> nat \<Rightarrow> rat" where
  "retry_delay l sample rid attempt =
     (let s = sample (rid @ '':'' @ nat_digits attempt);
          jitter = 1/2 + of_nat s / 255;
          exponential = seconds (retry_base_delay_seconds l) * 2 ^ (attempt - 1) * jitter
      in min (seconds (retry_max_delay_seconds l)) exponential)"

text \<open>
  What the environment decides in a retried call: the outcome of each attempt, the clock reading
  after a failed one, whether the sleep after it is interrupted, and whether the call is
  cancelled once it has slept.
\<close>

record 'r retry_env =
  attempt_outcome :: "nat \<Rightarrow> (exn, 'r) result"
  clock_now :: "nat \<Rightarrow> rat"
  sleep_interrupted :: "nat \<Rightarrow> exn option"
  cancelled_after :: "nat \<Rightarrow> bool"

datatype retry_event = Attempt nat | RecordRetry string | Sleep rat

definition is_retried :: "exn \<Rightarrow> bool" where
  "is_retried e \<longleftrightarrow> (case exn_kind e of
       ConnectionError \<Rightarrow> True | TimeoutError \<Rightarrow> True | RuntimeFailure c \<Rightarrow> True | _ \<Rightarrow> False)"

definition is_transient :: "exn \<Rightarrow> bool" where
  "is_transient e \<longleftrightarrow> (case exn_kind e of
       RuntimeFailure c \<Rightarrow> c \<in> {OVERLOADED, UNAVAILABLE} | _ \<Rightarrow> True)"

definition timeout_error :: exn where
  "timeout_error = \<lparr>exn_kind = TimeoutError, exn_type = ''TimeoutError''\<rparr>"

definition cancelled_error :: exn where
  "cancelled_error = \<lparr>exn_kind = CancelledError, exn_type = ''CancelledError''\<rparr>"

definition assertion_error :: exn where
  "assertion_error = \<lparr>exn_kind = OtherException, exn_type = ''AssertionError''\<rparr>"

definition attempts_allowed :: "execution_limits \<Rightarrow> bool \<Rightarrow> nat" where
  "attempts_allowed l safe = (if safe then nat (max_attempts l) else 1)"

text \<open>The loop \<^verbatim>\<open>for attempt in range(1, attempts + 1)\<close>: \<open>left\<close> attempts remain.\<close>

fun retry_loop ::
  "execution_limits \<Rightarrow> (string \<Rightarrow> nat) \<Rightarrow> 'r retry_env \<Rightarrow> call_context \<Rightarrow> string \<Rightarrow> nat \<Rightarrow> nat
     \<Rightarrow> (exn, 'r) result \<times> retry_event list" where
  "retry_loop l sample env c tool attempt 0 = (Inl assertion_error, [])"
| "retry_loop l sample env c tool attempt (Suc left) =
     (case attempt_outcome env attempt of
        Inr r \<Rightarrow> (Inr r, [Attempt attempt])
      | Inl e \<Rightarrow>
          if \<not> is_retried e then (Inl e, [Attempt attempt])
          else if \<not> is_transient e \<or> left = 0 then (Inl e, [Attempt attempt])
          else
            (let delay = retry_delay l sample (cc_request_id c) attempt;
                 now = clock_now env attempt in
             case cc_deadline c of
               None \<Rightarrow> (Inl timeout_error, [Attempt attempt])
             | Some d \<Rightarrow>
                 if Fin now + Fin delay \<ge> d then (Inl timeout_error, [Attempt attempt])
                 else
                   (let events = [Attempt attempt, RecordRetry tool, Sleep delay] in
                    case sleep_interrupted env attempt of
                      Some x \<Rightarrow> (Inl x, events)
                    | None \<Rightarrow>
                        if cancelled_after env attempt then (Inl cancelled_error, events)
                        else
                          (case retry_loop l sample env c tool (attempt + 1) left of
                             (r, rest) \<Rightarrow> (r, events @ rest)))))"

definition retry ::
  "execution_limits \<Rightarrow> (string \<Rightarrow> nat) \<Rightarrow> 'r retry_env \<Rightarrow> call_context \<Rightarrow> bool \<Rightarrow> string
     \<Rightarrow> (exn, 'r) result \<times> retry_event list" where
  "retry l sample env c safe tool = retry_loop l sample env c tool 1 (attempts_allowed l safe)"

fun attempts_of :: "retry_event list \<Rightarrow> nat list" where
  "attempts_of [] = []"
| "attempts_of (Attempt n # es) = n # attempts_of es"
| "attempts_of (RecordRetry t # es) = attempts_of es"
| "attempts_of (Sleep q # es) = attempts_of es"

lemma attempts_of_append [simp]: "attempts_of (xs @ ys) = attempts_of xs @ attempts_of ys"
  by (induction xs rule: attempts_of.induct) auto

lemma retry_delay_bounds:
  assumes "limits_ok l" and "\<forall>s. sample s < 256"
  shows "0 < retry_delay l sample rid attempt"
    "retry_delay l sample rid attempt \<le> seconds (retry_max_delay_seconds l)"
    "retry_delay l sample rid attempt \<le>
       seconds (retry_base_delay_seconds l) * 2 ^ (attempt - 1) * (3/2)"
proof -
  obtain b m where b: "retry_base_delay_seconds l = Fin b" "0 < b" "b \<le> m"
    and m: "retry_max_delay_seconds l = Fin m"
    using limits_ok_durations [OF assms(1)] by metis
  define s where "s = sample (rid @ '':'' @ nat_digits attempt)"
  have s: "of_nat s / (255::rat) \<le> 1"
  proof -
    have "s \<le> 255" using assms(2) by (auto simp: s_def less_Suc_eq_le [symmetric])
    then have "of_nat s \<le> (of_nat 255 :: rat)" by (subst of_nat_le_iff)
    then show ?thesis by simp
  qed
  have pos: "0 < b * 2 ^ (attempt - 1)" using b by simp
  have j: "0 < (1/2::rat) + of_nat s / 255" by (rule add_pos_nonneg) simp_all
  show "0 < retry_delay l sample rid attempt"
    using b m pos j by (simp add: retry_delay_def Let_def s_def)
  show "retry_delay l sample rid attempt \<le> seconds (retry_max_delay_seconds l)"
    by (simp add: retry_delay_def Let_def)
  have "b * 2 ^ (attempt - 1) * (1/2 + of_nat s / 255) \<le> b * 2 ^ (attempt - 1) * (3/2)"
    using pos s by (intro mult_left_mono) auto
  then have "min m (b * 2 ^ (attempt - 1) * (1/2 + of_nat s / 255)) \<le> b * 2 ^ (attempt - 1) * (3/2)"
    by (rule min.coboundedI2)
  then show "retry_delay l sample rid attempt \<le>
       seconds (retry_base_delay_seconds l) * 2 ^ (attempt - 1) * (3/2)"
    by (simp only: retry_delay_def Let_def s_def b(1) m seconds.simps)
qed

lemma retry_loop_attempts:
  assumes "retry_loop l sample env c tool attempt (Suc left) = (r, es)"
  shows "\<exists>n\<ge>1. n \<le> Suc left \<and> attempts_of es = [attempt..<attempt + n]"
  using assms
proof (induction left arbitrary: attempt r es)
  case 0
  then show ?case
    by (intro exI [of _ 1]) (auto simp: Let_def split: sum.splits if_splits option.splits)
next
  case (Suc left)
  consider (stop) "attempts_of es = [attempt]"
    | (again) rest where "retry_loop l sample env c tool (attempt + 1) (Suc left) = (r, rest)"
        "attempts_of es = attempt # attempts_of rest"
    using Suc.prems
    by (subst (asm) retry_loop.simps)
      (auto simp: Let_def simp del: retry_loop.simps
        split: sum.splits if_splits option.splits prod.splits)
  then show ?case
  proof cases
    case stop
    then show ?thesis by (intro exI [of _ 1]) simp
  next
    case again
    from Suc.IH [OF again(1)] obtain n where n: "1 \<le> n" "n \<le> Suc left"
      "attempts_of rest = [attempt + 1..<attempt + 1 + n]" by blast
    then have "attempts_of es = [attempt..<attempt + Suc n]"
      using again(2) by (simp add: upt_conv_Cons)
    with n show ?thesis by (intro exI [of _ "Suc n"]) simp
  qed
qed


text \<open>Every sleep of a retried call is a positive delay within the cap, and ends before the deadline.\<close>

lemma retry_loop_sleeps:
  assumes "retry_loop l sample env c tool attempt left = (r, es)" and "Sleep q \<in> set es"
  shows "\<exists>n\<ge>attempt. n < attempt + left - 1 \<and> q = retry_delay l sample (cc_request_id c) n \<and>
    (\<exists>d. cc_deadline c = Some d \<and> \<not> Fin (clock_now env n) + Fin q \<ge> d)"
  using assms
proof (induction left arbitrary: attempt r es)
  case 0
  then show ?case by simp
next
  case (Suc left)
  then have "left \<noteq> 0"
    by (auto simp: Let_def split: sum.splits if_splits option.splits prod.splits)
  with Suc.prems consider
      (here) d where "q = retry_delay l sample (cc_request_id c) attempt" "cc_deadline c = Some d"
        "\<not> Fin (clock_now env attempt) + Fin q \<ge> d"
    | (later) rest where "retry_loop l sample env c tool (attempt + 1) left = (r, rest)"
        "Sleep q \<in> set rest"
    by (subst (asm) retry_loop.simps)
      (auto simp: Let_def simp del: retry_loop.simps
        split: sum.splits if_splits option.splits prod.splits)
  then show ?case
  proof cases
    case here
    with \<open>left \<noteq> 0\<close> show ?thesis by (intro exI [of _ attempt]) auto
  next
    case later
    from Suc.IH [OF this] obtain n where n: "attempt + 1 \<le> n" "n < attempt + 1 + left - 1"
      "q = retry_delay l sample (cc_request_id c) n"
      "\<exists>d. cc_deadline c = Some d \<and> \<not> Fin (clock_now env n) + Fin q \<ge> d" by blast
    then show ?thesis by (intro exI [of _ n]) auto
  qed
qed

text \<open>Where the result of a retried call comes from.\<close>

lemma retry_loop_result:
  assumes "retry_loop l sample env c tool attempt left = (r, es)" and "0 < left"
  shows "(\<exists>n. attempt \<le> n \<and> n < attempt + left \<and> last (attempts_of es) = n \<and> attempts_of es \<noteq> [] \<and>
      (r = attempt_outcome env n \<or>
       (\<exists>e. attempt_outcome env n = Inl e \<and> is_retried e \<and> is_transient e \<and>
          (r = Inl timeout_error \<or> r = Inl cancelled_error \<or>
           (\<exists>x. r = Inl x \<and> sleep_interrupted env n = Some x)))) \<and>
      (\<forall>m. attempt \<le> m \<and> m < n \<longrightarrow>
         (\<exists>e. attempt_outcome env m = Inl e \<and> is_retried e \<and> is_transient e)))"
  using assms
proof (induction left arbitrary: attempt r es)
  case 0
  then show ?case by simp
next
  case (Suc left)
  let ?stop = "r = attempt_outcome env attempt \<or>
     (\<exists>e. attempt_outcome env attempt = Inl e \<and> is_retried e \<and> is_transient e \<and>
        (r = Inl timeout_error \<or> r = Inl cancelled_error \<or>
         (\<exists>x. r = Inl x \<and> sleep_interrupted env attempt = Some x)))"
  from Suc.prems(1) consider
      (stop) "attempts_of es = [attempt]" ?stop
    | (again) rest e where "left \<noteq> 0" "retry_loop l sample env c tool (attempt + 1) left = (r, rest)"
        "attempts_of es = attempt # attempts_of rest"
        "attempt_outcome env attempt = Inl e" "is_retried e" "is_transient e"
    by (subst (asm) retry_loop.simps)
      (auto simp: Let_def simp del: retry_loop.simps
        split: sum.splits if_splits option.splits prod.splits)
  then show ?case
  proof cases
    case stop
    then show ?thesis by (intro exI [of _ attempt]) auto
  next
    case again
    from Suc.IH [OF again(2)] again(1) obtain n where n: "attempt + 1 \<le> n" "n < attempt + 1 + left"
      "last (attempts_of rest) = n" "attempts_of rest \<noteq> []"
      "r = attempt_outcome env n \<or>
       (\<exists>e. attempt_outcome env n = Inl e \<and> is_retried e \<and> is_transient e \<and>
          (r = Inl timeout_error \<or> r = Inl cancelled_error \<or>
           (\<exists>x. r = Inl x \<and> sleep_interrupted env n = Some x)))"
      "\<forall>m. attempt + 1 \<le> m \<and> m < n \<longrightarrow>
         (\<exists>e. attempt_outcome env m = Inl e \<and> is_retried e \<and> is_transient e)" by auto
    have "\<exists>e. attempt_outcome env m = Inl e \<and> is_retried e \<and> is_transient e"
      if "attempt \<le> m" "m < n" for m
      using that n(6) again(4-6) by (cases "m = attempt") auto
    with n again(3) show ?thesis by (intro exI [of _ n]) auto
  qed
qed


definition flaky_env :: "string retry_env" where
  "flaky_env = \<lparr>attempt_outcome = (\<lambda>n. if n < 3 then Inl (runtime_failure UNAVAILABLE) else Inr ''done''),
     clock_now = (\<lambda>n. of_nat n), sleep_interrupted = (\<lambda>n. None), cancelled_after = (\<lambda>n. False)\<rparr>"


text \<open>
  The delays are safe. Every sleep between two attempts is positive, at most the configured
  cap and at most one and a half times the exponential backoff of its attempt, and it ends before
  the deadline of the call.
\<close>

theorem retry_sleeps_bounded:
  assumes "limits_ok l" and "\<forall>s. sample s < 256"
    and "retry l sample env c safe tool = (r, es)" and "Sleep q \<in> set es"
  shows "\<exists>n\<ge>1. int n < max_attempts l \<and> 0 < q \<and> q \<le> seconds (retry_max_delay_seconds l) \<and>
    q \<le> seconds (retry_base_delay_seconds l) * 2 ^ (n - 1) * (3/2) \<and>
    (\<exists>d. cc_deadline c = Some d \<and> \<not> Fin (clock_now env n + q) \<ge> d)"
proof -
  from retry_loop_sleeps [OF assms(3) [unfolded retry_def] assms(4)] obtain n where n: "1 \<le> n"
    "n < 1 + attempts_allowed l safe - 1" "q = retry_delay l sample (cc_request_id c) n"
    "\<exists>d. cc_deadline c = Some d \<and> \<not> Fin (clock_now env n) + Fin q \<ge> d" by blast
  then have "int n < max_attempts l"
    by (auto simp: attempts_allowed_def split: if_splits)
  with n retry_delay_bounds [OF assms(1,2)] show ?thesis
    by (intro exI [of _ n]) (simp add: n(3))
qed

theorem retry_sleeps_bounded_witness:
  "\<exists>es. retry default_limits (\<lambda>s. 0) flaky_env sample_context True ''search'' = (Inr ''done'', es) \<and>
     Sleep (1/40) \<in> set es \<and> (1/40 :: rat) \<le> seconds (retry_max_delay_seconds default_limits)"
proof -
  obtain r es where run: "retry default_limits (\<lambda>s. 0) flaky_env sample_context True ''search'' = (r, es)"
    by (cases "retry default_limits (\<lambda>s. 0) flaky_env sample_context True ''search''") auto
  then have "r = Inr ''done''" and s: "Sleep (1/40) \<in> set es"
    by (auto simp: retry_def attempts_allowed_def default_limits_def sample_context_def flaky_env_def
        numeral_eq_Suc is_retried_def is_transient_def runtime_failure_def retry_delay_def Let_def
        split: if_splits)
  with run retry_sleeps_bounded [OF default_limits_ok _ run s] show ?thesis by auto
qed

subsection \<open>Bulkheads\<close>

record lease =
  ls_tool :: string
  ls_tenant :: string

datatype telemetry = RecordLimit "string option" runtime_limit | ChangeInFlight string int

record execution =
  ex_limits :: execution_limits
  ex_active :: int
  ex_by_tool :: "string \<rightharpoonup> int"
  ex_by_tenant :: "string \<rightharpoonup> int"
  ex_telemetry :: "telemetry list"

definition execution_init :: "execution_limits \<Rightarrow> execution" where
  "execution_init l = \<lparr>ex_limits = l, ex_active = 0, ex_by_tool = Map.empty,
     ex_by_tenant = Map.empty, ex_telemetry = []\<rparr>"

definition count_of :: "(string \<rightharpoonup> int) \<Rightarrow> string \<Rightarrow> int" where
  "count_of counts k = (case counts k of None \<Rightarrow> 0 | Some n \<Rightarrow> n)"

definition admission_limit :: "string \<Rightarrow> string \<Rightarrow> execution \<Rightarrow> runtime_limit option" where
  "admission_limit tool tenant s =
     (if ex_active s \<ge> max_global_concurrency (ex_limits s) then Some Limit_GLOBAL
      else if ex_active s \<ge> max_server_concurrency (ex_limits s) then Some Limit_SERVER
      else if count_of (ex_by_tool s) tool \<ge> max_tool_concurrency (ex_limits s) then Some Limit_TOOL
      else if count_of (ex_by_tenant s) tenant \<ge> max_tenant_concurrency (ex_limits s) then Some Limit_TENANT
      else None)"

definition admit :: "string \<Rightarrow> string \<Rightarrow> execution \<Rightarrow> lease option \<times> execution" where
  "admit tool tenant s =
     (case admission_limit tool tenant s of
        Some limit \<Rightarrow>
          (None, s\<lparr>ex_telemetry := ex_telemetry s @ [RecordLimit (Some tool) limit]\<rparr>)
      | None \<Rightarrow>
          (Some \<lparr>ls_tool = tool, ls_tenant = tenant\<rparr>,
           s\<lparr>ex_active := ex_active s + 1,
             ex_by_tool := (ex_by_tool s)(tool \<mapsto> count_of (ex_by_tool s) tool + 1),
             ex_by_tenant := (ex_by_tenant s)(tenant \<mapsto> count_of (ex_by_tenant s) tenant + 1),
             ex_telemetry := ex_telemetry s @ [ChangeInFlight tool 1]\<rparr>))"

text \<open>\<open>_decrement\<close>: \<open>None\<close> is the \<open>KeyError\<close> of a key that is not counted.\<close>

definition decrement :: "string \<Rightarrow> (string \<rightharpoonup> int) \<Rightarrow> (string \<rightharpoonup> int) option" where
  "decrement k counts =
     (case counts k of
        None \<Rightarrow> None
      | Some n \<Rightarrow> Some (if n - 1 = 0 then counts(k := None) else counts(k \<mapsto> n - 1)))"

definition release :: "lease \<Rightarrow> execution \<Rightarrow> exn option \<times> execution" where
  "release lease s =
     (let key_error = \<lparr>exn_kind = KeyError, exn_type = ''KeyError''\<rparr>;
          s1 = s\<lparr>ex_active := ex_active s - 1\<rparr> in
      case decrement (ls_tool lease) (ex_by_tool s1) of
        None \<Rightarrow> (Some key_error, s1)
      | Some tools \<Rightarrow>
          (let s2 = s1\<lparr>ex_by_tool := tools\<rparr> in
           case decrement (ls_tenant lease) (ex_by_tenant s2) of
             None \<Rightarrow> (Some key_error, s2)
           | Some tenants \<Rightarrow>
               (None, s2\<lparr>ex_by_tenant := tenants,
                  ex_telemetry := ex_telemetry s2 @ [ChangeInFlight (ls_tool lease) (- 1)]\<rparr>)))"

text \<open>
  A bulkhead system is the controller with the leases its callers hold. Its steps are a call to
  \<open>admit\<close>, which may add a lease, and the release of a held lease.
\<close>

record bulkheads =
  bh_ctl :: execution
  bh_held :: "lease multiset"

definition bulkheads_admit :: "string \<times> string \<Rightarrow> bulkheads \<Rightarrow> lease option \<times> bulkheads" where
  "bulkheads_admit key b =
     (case admit (fst key) (snd key) (bh_ctl b) of
        (None, s) \<Rightarrow> (None, b\<lparr>bh_ctl := s\<rparr>)
      | (Some lease, s) \<Rightarrow> (Some lease, b\<lparr>bh_ctl := s, bh_held := add_mset lease (bh_held b)\<rparr>))"

definition bulkheads_release :: "lease \<Rightarrow> bulkheads \<Rightarrow> bulkheads" where
  "bulkheads_release lease b =
     b\<lparr>bh_ctl := snd (release lease (bh_ctl b)), bh_held := bh_held b - {#lease#}\<rparr>"

inductive bulkheads_step :: "bulkheads \<Rightarrow> bulkheads \<Rightarrow> bool" where
  step_admit: "bulkheads_step b (snd (bulkheads_admit (tool, tenant) b))"
| step_release: "lease \<in># bh_held b \<Longrightarrow> bulkheads_step b (bulkheads_release lease b)"

inductive_cases bulkheads_stepE: "bulkheads_step b b'"

text \<open>What the counters mean: each is the number of leases held for its key.\<close>

definition counts_ok :: "(string \<rightharpoonup> int) \<Rightarrow> string multiset \<Rightarrow> bool" where
  "counts_ok counts keys \<longleftrightarrow>
     (\<forall>k. counts k = (if count keys k = 0 then None else Some (int (count keys k))))"

definition held_tools :: "bulkheads \<Rightarrow> string multiset" where
  "held_tools b = image_mset ls_tool (bh_held b)"

definition held_tenants :: "bulkheads \<Rightarrow> string multiset" where
  "held_tenants b = image_mset ls_tenant (bh_held b)"

definition at_most :: "int \<Rightarrow> string multiset \<Rightarrow> bool" where
  "at_most maximum keys \<longleftrightarrow> (\<forall>k. int (count keys k) \<le> maximum)"

definition bulkheads_inv :: "execution_limits \<Rightarrow> bulkheads \<Rightarrow> bool" where
  "bulkheads_inv l b \<longleftrightarrow>
     limits_ok l \<and> ex_limits (bh_ctl b) = l \<and>
     ex_active (bh_ctl b) = int (size (bh_held b)) \<and>
     counts_ok (ex_by_tool (bh_ctl b)) (held_tools b) \<and>
     counts_ok (ex_by_tenant (bh_ctl b)) (held_tenants b) \<and>
     int (size (bh_held b)) \<le> max_global_concurrency l \<and>
     int (size (bh_held b)) \<le> max_server_concurrency l \<and>
     at_most (max_tool_concurrency l) (held_tools b) \<and>
     at_most (max_tenant_concurrency l) (held_tenants b)"

lemma counts_ok_count_of: "counts_ok counts keys \<Longrightarrow> count_of counts k = int (count keys k)"
  by (simp add: counts_ok_def count_of_def del: count_eq_zero_iff)

lemma counts_ok_add:
  assumes "counts_ok counts keys"
  shows "counts_ok (counts(k \<mapsto> count_of counts k + 1)) (add_mset k keys)"
  unfolding counts_ok_def counts_ok_count_of [OF assms]
  using assms by (auto simp: counts_ok_def not_in_iff simp del: count_eq_zero_iff)

lemma decrement_ok:
  assumes "counts_ok counts keys" and "k \<in># keys"
  obtains counts' where "decrement k counts = Some counts'"
    and "counts_ok counts' (keys - {#k#})"
proof -
  obtain n where n: "count keys k = Suc n"
    using assms(2) by (metis not0_implies_Suc count_eq_zero_iff)
  then have c: "counts k = Some (int (Suc n))"
    using assms(1) by (simp add: counts_ok_def del: count_eq_zero_iff)
  define counts' where "counts' = (if n = 0 then counts(k := None) else counts(k \<mapsto> int n))"
  have "decrement k counts = Some counts'"
    by (simp add: decrement_def c counts'_def)
  moreover have "counts_ok counts' (keys - {#k#})"
    unfolding counts_ok_def
  proof
    fix j
    show "counts' j = (if count (keys - {#k#}) j = 0 then None else Some (int (count (keys - {#k#}) j)))"
    proof (cases "j = k")
      case True
      then show ?thesis by (simp add: counts'_def n del: count_eq_zero_iff)
    next
      case False
      then show ?thesis
        using assms(1) by (simp add: counts'_def counts_ok_def not_in_iff del: count_eq_zero_iff)
    qed
  qed
  ultimately show ?thesis by (rule that)
qed

lemma at_most_diff: "at_most m keys \<Longrightarrow> at_most m (keys - {#k#})"
  unfolding at_most_def by (metis diff_le_self count_diff of_nat_mono order_trans)

lemma at_most_add:
  "at_most m keys \<Longrightarrow> int (count keys k) < m \<Longrightarrow> at_most m (add_mset k keys)"
  by (auto simp: at_most_def)

lemma held_release:
  assumes "lease \<in># bh_held b"
  shows "held_tools (bulkheads_release lease b) = held_tools b - {#ls_tool lease#}"
    "held_tenants (bulkheads_release lease b) = held_tenants b - {#ls_tenant lease#}"
    "bh_held b = add_mset lease (bh_held (bulkheads_release lease b))"
    "ls_tool lease \<in># held_tools b" "ls_tenant lease \<in># held_tenants b"
  using assms
  by (simp_all add: held_tools_def held_tenants_def bulkheads_release_def image_mset_Diff)

lemma release_held:
  assumes inv: "bulkheads_inv l b" and "lease \<in># bh_held b"
  shows "fst (release lease (bh_ctl b)) = None" "bulkheads_inv l (bulkheads_release lease b)"
proof -
  note h = held_release [OF assms(2)]
  from inv have ct: "counts_ok (ex_by_tool (bh_ctl b)) (held_tools b)"
    and cn: "counts_ok (ex_by_tenant (bh_ctl b)) (held_tenants b)"
    by (simp_all add: bulkheads_inv_def)
  obtain tools where tools: "decrement (ls_tool lease) (ex_by_tool (bh_ctl b)) = Some tools"
    "counts_ok tools (held_tools b - {#ls_tool lease#})"
    by (rule decrement_ok [OF ct h(4)])
  obtain tenants where tenants: "decrement (ls_tenant lease) (ex_by_tenant (bh_ctl b)) = Some tenants"
    "counts_ok tenants (held_tenants b - {#ls_tenant lease#})"
    by (rule decrement_ok [OF cn h(5)])
  show "fst (release lease (bh_ctl b)) = None"
    using tools tenants by (simp add: release_def Let_def)
  have ctl: "ex_limits (bh_ctl (bulkheads_release lease b)) = ex_limits (bh_ctl b)"
    "ex_active (bh_ctl (bulkheads_release lease b)) = ex_active (bh_ctl b) - 1"
    "ex_by_tool (bh_ctl (bulkheads_release lease b)) = tools"
    "ex_by_tenant (bh_ctl (bulkheads_release lease b)) = tenants"
    by (simp_all add: bulkheads_release_def release_def Let_def tools(1) tenants(1))
  have "int (size (bh_held b)) = int (size (bh_held (bulkheads_release lease b))) + 1"
    by (subst h(3)) simp
  with inv tools(2) tenants(2) show "bulkheads_inv l (bulkheads_release lease b)"
    unfolding bulkheads_inv_def ctl h(1) h(2) by (simp add: at_most_diff)
qed

lemma admit_held:
  assumes "bulkheads_inv l b"
  shows "bulkheads_inv l (snd (bulkheads_admit (tool, tenant) b))"
proof (cases "admission_limit tool tenant (bh_ctl b)")
  case (Some limit)
  with assms show ?thesis 
    by (simp add: bulkheads_admit_def admit_def bulkheads_inv_def held_tools_def held_tenants_def)
next
  case None
  define lease where "lease = \<lparr>ls_tool = tool, ls_tenant = tenant\<rparr>"
  define b' where "b' = snd (bulkheads_admit (tool, tenant) b)"
  from assms have ct: "counts_ok (ex_by_tool (bh_ctl b)) (held_tools b)"
    and cn: "counts_ok (ex_by_tenant (bh_ctl b)) (held_tenants b)"
    by (simp_all add: bulkheads_inv_def)
  have held: "bh_held b' = add_mset lease (bh_held b)" "held_tools b' = add_mset tool (held_tools b)"
    "held_tenants b' = add_mset tenant (held_tenants b)"
    using None by (simp_all add: b'_def bulkheads_admit_def admit_def held_tools_def
        held_tenants_def lease_def)
  have ctl: "ex_limits (bh_ctl b') = ex_limits (bh_ctl b)" "ex_active (bh_ctl b') = ex_active (bh_ctl b) + 1"
    "ex_by_tool (bh_ctl b') = (ex_by_tool (bh_ctl b))(tool \<mapsto> count_of (ex_by_tool (bh_ctl b)) tool + 1)"
    "ex_by_tenant (bh_ctl b') =
       (ex_by_tenant (bh_ctl b))(tenant \<mapsto> count_of (ex_by_tenant (bh_ctl b)) tenant + 1)"
    using None by (simp_all add: b'_def bulkheads_admit_def admit_def)
  from None have "ex_active (bh_ctl b) < max_global_concurrency (ex_limits (bh_ctl b))"
    "ex_active (bh_ctl b) < max_server_concurrency (ex_limits (bh_ctl b))"
    "int (count (held_tools b) tool) < max_tool_concurrency (ex_limits (bh_ctl b))"
    "int (count (held_tenants b) tenant) < max_tenant_concurrency (ex_limits (bh_ctl b))"
    unfolding counts_ok_count_of [OF ct, symmetric] counts_ok_count_of [OF cn, symmetric]
    by (auto simp: admission_limit_def split: if_splits)
  with assms counts_ok_add [OF ct, of tool] counts_ok_add [OF cn, of tenant]
  show ?thesis
    unfolding b'_def [symmetric] bulkheads_inv_def held ctl by (auto intro: at_most_add)
qed

definition bulkheads_init :: "execution_limits \<Rightarrow> bulkheads" where
  "bulkheads_init l = \<lparr>bh_ctl = execution_init l, bh_held = {#}\<rparr>"

lemma bulkheads_inv_init: "limits_ok l \<Longrightarrow> bulkheads_inv l (bulkheads_init l)"
  using limits_okD [of l]
  by (simp add: bulkheads_init_def bulkheads_inv_def execution_init_def counts_ok_def
      held_tools_def held_tenants_def at_most_def)

interpretation bulkheads: invariant_machine
  "\<lambda>b. limits_ok l \<and> b = bulkheads_init l" bulkheads_step "bulkheads_inv l" for l
  by unfold_locales (auto simp: bulkheads_inv_init admit_held release_held elim!: bulkheads_stepE)

text \<open>
  The interface its callers rely on: a granted lease is held until it is released, a refusal
  changes nothing that is held, and the component stays well formed. What a caller gets from it is
  the bracket: work that holds a lease and releases it, whatever happens in between, leaves
  exactly the leases that were there.
\<close>

locale admission_control =
  fixes grant :: "'key \<Rightarrow> 's \<Rightarrow> 'lease option \<times> 's"
    and give_back :: "'lease \<Rightarrow> 's \<Rightarrow> 's"
    and held :: "'s \<Rightarrow> 'lease multiset"
    and valid :: "'s \<Rightarrow> bool"
  assumes granted: "valid s \<Longrightarrow> grant k s = (Some x, t) \<Longrightarrow> valid t \<and> held t = add_mset x (held s)"
    and refused: "valid s \<Longrightarrow> grant k s = (None, t) \<Longrightarrow> valid t \<and> held t = held s"
    and given_back: "valid s \<Longrightarrow> x \<in># held s \<Longrightarrow>
      valid (give_back x s) \<and> held (give_back x s) = held s - {#x#}"
begin

lemma bracket:
  assumes "valid s" and "grant k s = (Some x, t)" and "valid u" and "held u = held t"
  shows "valid (give_back x u)" "held (give_back x u) = held s"
  using granted [OF assms(1,2)] given_back [OF assms(3), of x] assms(4) by simp_all

lemma give_back_all:
  assumes "valid s" and "mset xs \<subseteq># held s"
  shows "valid (fold give_back xs s) \<and> held (fold give_back xs s) = held s - mset xs"
  using assms
proof (induction xs arbitrary: s)
  case Nil
  then show ?case by simp
next
  case (Cons x xs)
  then have x: "x \<in># held s" "mset xs \<subseteq># held s - {#x#}"
    by (auto simp: insert_subset_eq_iff)
  from given_back [OF Cons.prems(1) x(1)] Cons.IH [of "give_back x s"] x(2) show ?case
    by (auto simp: ac_simps)
qed

end

lemma bulkheads_grant:
  assumes "bulkheads_inv l s" and "bulkheads_admit key s = (r, t)"
  shows "bulkheads_inv l t \<and>
    bh_held t = (case r of None \<Rightarrow> bh_held s | Some x \<Rightarrow> add_mset x (bh_held s))"
proof -
  have "bulkheads_inv l (snd (bulkheads_admit (fst key, snd key) s))"
    by (rule admit_held [OF assms(1)])
  with assms(2) have "bulkheads_inv l t" by simp
  moreover have "bh_held t = (case r of None \<Rightarrow> bh_held s | Some x \<Rightarrow> add_mset x (bh_held s))"
    using assms(2) by (auto simp: bulkheads_admit_def split: prod.splits option.splits)
  ultimately show ?thesis ..
qed

interpretation admission: admission_control bulkheads_admit bulkheads_release bh_held "bulkheads_inv l"
  for l
  by unfold_locales
    (auto simp: release_held dest: bulkheads_grant, simp add: bulkheads_release_def)

text \<open>A lease that is given back restores the counters it was taken from.\<close>

lemma counts_ok_unique: "counts_ok m keys \<Longrightarrow> counts_ok m' keys \<Longrightarrow> m = m'"
  by (rule ext) (simp add: counts_ok_def del: count_eq_zero_iff)

lemma bulkheads_inv_determined:
  assumes "bulkheads_inv l a" "bulkheads_inv l b" "bh_held a = bh_held b"
  shows "ex_active (bh_ctl a) = ex_active (bh_ctl b)"
    "ex_by_tool (bh_ctl a) = ex_by_tool (bh_ctl b)"
    "ex_by_tenant (bh_ctl a) = ex_by_tenant (bh_ctl b)"
  using assms counts_ok_unique
  by (auto simp: bulkheads_inv_def held_tools_def held_tenants_def)

lemma reachable_bulkheads:
  assumes "limits_ok l" and "reachable (\<lambda>b. b = bulkheads_init l) bulkheads_step b"
  shows "bulkheads_inv l b"
  using assms(2) by (rule bulkheads.reachable_inv [of l, simplified assms(1) simp_thms])

text \<open>
  C2. The bulkheads hold. In every state the controller reaches through admissions and releases
  of held leases, the leases out are never more than the global and the server limit, per tool
  and per tenant never more than theirs; a call is admitted exactly when it is below all four
  limits; and releasing a held lease never fails.
\<close>

theorem bulkheads_within_limits:
  assumes "limits_ok l" and "reachable (\<lambda>b. b = bulkheads_init l) bulkheads_step b"
  shows "int (size (bh_held b)) \<le> max_global_concurrency l \<and>
    int (size (bh_held b)) \<le> max_server_concurrency l \<and>
    (\<forall>k. int (count (held_tools b) k) \<le> max_tool_concurrency l) \<and>
    (\<forall>k. int (count (held_tenants b) k) \<le> max_tenant_concurrency l) \<and>
    (\<forall>tool tenant. fst (admit tool tenant (bh_ctl b)) \<noteq> None \<longleftrightarrow>
       int (size (bh_held b)) < max_global_concurrency l \<and>
       int (size (bh_held b)) < max_server_concurrency l \<and>
       int (count (held_tools b) tool) < max_tool_concurrency l \<and>
       int (count (held_tenants b) tenant) < max_tenant_concurrency l) \<and>
    (\<forall>lease\<in>#bh_held b. fst (release lease (bh_ctl b)) = None)"
proof -
  have inv: "bulkheads_inv l b" by (rule reachable_bulkheads [OF assms])
  then have c: "count_of (ex_by_tool (bh_ctl b)) k = int (count (held_tools b) k)"
    "count_of (ex_by_tenant (bh_ctl b)) k = int (count (held_tenants b) k)" for k
    by (simp_all add: bulkheads_inv_def counts_ok_count_of)
  have "fst (admit tool tenant (bh_ctl b)) \<noteq> None \<longleftrightarrow> admission_limit tool tenant (bh_ctl b) = None"
    for tool tenant
    by (simp add: admit_def split: option.splits)
  with inv show ?thesis
    by (auto simp: bulkheads_inv_def at_most_def release_held [OF inv] admission_limit_def c
        split: if_splits)
qed

theorem bulkheads_within_limits_witness:
  "let b = snd (bulkheads_admit (''search'', ''t1'') (bulkheads_init default_limits)) in
     size (bh_held b) = 1 \<and> fst (release \<lparr>ls_tool = ''search'', ls_tenant = ''t1''\<rparr> (bh_ctl b)) = None"
proof -
  define b where "b = snd (bulkheads_admit (''search'', ''t1'') (bulkheads_init default_limits))"
  have r: "reachable (\<lambda>b. b = bulkheads_init default_limits) bulkheads_step b"
    unfolding b_def
    by (rule reach_step [where s = "bulkheads_init default_limits"]) (auto intro: reach_start step_admit)
  have h: "bh_held b = {#\<lparr>ls_tool = ''search'', ls_tenant = ''t1''\<rparr>#}"
    by (simp add: b_def bulkheads_admit_def admit_def admission_limit_def bulkheads_init_def
        execution_init_def default_limits_def count_of_def)
  show ?thesis
    using bulkheads_within_limits [OF default_limits_ok r] unfolding b_def [symmetric] Let_def
    by (simp add: h)
qed

text \<open>
  A lease is a bracket: if a call is admitted in a reachable state, then releasing its lease
  after any admissions and releases that leave the same leases out restores the three counters
  exactly, so an admitted call leaves no trace in the admission state once it is released.
\<close>

theorem admit_release_restores:
  assumes "limits_ok l" and "reachable (\<lambda>b. b = bulkheads_init l) bulkheads_step b"
    and "bulkheads_admit (tool, tenant) b = (Some lease, b')"
    and "bulkheads_step\<^sup>*\<^sup>* b' u" and "bh_held u = bh_held b'"
  shows "bh_held (bulkheads_release lease u) = bh_held b \<and>
    ex_active (bh_ctl (bulkheads_release lease u)) = ex_active (bh_ctl b) \<and>
    ex_by_tool (bh_ctl (bulkheads_release lease u)) = ex_by_tool (bh_ctl b) \<and>
    ex_by_tenant (bh_ctl (bulkheads_release lease u)) = ex_by_tenant (bh_ctl b)"
proof -
  have inv: "bulkheads_inv l b" by (rule reachable_bulkheads [OF assms(1,2)])
  then have "bulkheads_inv l b'"
    using assms(3) by (rule bulkheads_grant [THEN conjunct1])
  with assms(4) have u: "bulkheads_inv l u"
    by (rule bulkheads.reachable_from_inv)
  have "bh_held (bulkheads_release lease u) = bh_held b"
    "bulkheads_inv l (bulkheads_release lease u)"
    using admission.bracket [OF inv assms(3) u assms(5)] by simp_all
  with bulkheads_inv_determined [OF _ inv] show ?thesis by simp
qed

theorem admit_release_restores_witness:
  "let b = bulkheads_init default_limits; r = bulkheads_admit (''search'', ''t1'') b in
     fst r = Some \<lparr>ls_tool = ''search'', ls_tenant = ''t1''\<rparr> \<and>
     ex_by_tool (bh_ctl (bulkheads_release (the (fst r)) (snd r))) = ex_by_tool (bh_ctl b)"
proof -
  define lease where "lease = \<lparr>ls_tool = ''search'', ls_tenant = ''t1''\<rparr>"
  define b' where "b' = snd (bulkheads_admit (''search'', ''t1'') (bulkheads_init default_limits))"
  have a: "bulkheads_admit (''search'', ''t1'') (bulkheads_init default_limits) = (Some lease, b')"
    by (simp add: lease_def b'_def bulkheads_admit_def admit_def admission_limit_def
        bulkheads_init_def execution_init_def default_limits_def count_of_def)
  show ?thesis
    using admit_release_restores [OF default_limits_ok reach_start a, of b']
    by (simp add: a lease_def)
qed

end
