(* ===== verification/Deadline_Race.thy ===== *)
theory Deadline_Race
  imports Execution
begin

section \<open>The race between a call, its cancellation and its deadline\<close>

text \<open>
  Models \<open>ExecutionController.execute\<close> and \<open>_stop\<close> of
  \<^verbatim>\<open>src/tesserix_mcp_runtime/execution.py\<close>. The event loop is the environment: it decides
  which of the three tasks are done when the wait returns, whether the caller's task is itself
  cancelled at one of the suspension points, and whether the stopped work ends in time. A state
  records what becomes of the work and of the linked cancellation. The awaits that only collect
  finished tasks are not suspension points of the model.
\<close>

datatype work_state =
    NotStarted      \<comment> \<open>no task was created\<close>
  | Running         \<comment> \<open>the task runs and nobody asked it to stop\<close>
  | CancelRequested \<comment> \<open>\<open>task.cancel()\<close> was called and the task still runs\<close>
  | Finished
  | Detached        \<comment> \<open>cancelled, still running, kept in the set of detached tasks\<close>

record run =
  run_context :: "call_context option"
  run_work :: work_state
  run_linked :: bool

text \<open>What happens while \<open>_stop\<close> waits.\<close>

datatype stop_yield = Yield_interrupted | Yield_done | Yield_running
datatype stop_grace = Grace_interrupted | Grace_done | Grace_expired

record stop_env =
  st_done :: bool
  st_yield :: stop_yield
  st_grace :: stop_grace

definition stop_work :: "stop_env \<Rightarrow> run \<Rightarrow> exn option \<times> run" where
  "stop_work env s =
     (if run_work s = Finished \<or> st_done env then (None, s\<lparr>run_work := Finished\<rparr>)
      else
        (case st_yield env of
           Yield_interrupted \<Rightarrow> (Some cancelled_error, s)
         | Yield_done \<Rightarrow> (None, s\<lparr>run_work := Finished\<rparr>)
         | Yield_running \<Rightarrow>
             (case st_grace env of
                Grace_interrupted \<Rightarrow> (Some cancelled_error, s\<lparr>run_work := CancelRequested\<rparr>)
              | Grace_done \<Rightarrow> (None, s\<lparr>run_work := Finished\<rparr>)
              | Grace_expired \<Rightarrow> (None, s\<lparr>run_work := Detached\<rparr>))))"

text \<open>
  How the wait ends: the caller's task is cancelled in it, or it returns with the tasks that are
  done, and the caller's cancellation flag as it is then.
\<close>

datatype wake =
    Interrupted bool
  | Woken (work_done: bool) (caller_done: bool) (deadline_done: bool) (caller_flag: bool)

record 'r race_env =
  rc_now :: rat
  rc_events :: "nat \<Rightarrow> bool"
  rc_local :: nat
  rc_wake :: wake
  rc_outcome :: "(exn, 'r) result"
  rc_stop_deadline :: stop_env
  rc_stop_cancel :: stop_env

text \<open>The handler \<^verbatim>\<open>except asyncio.CancelledError\<close>.\<close>

definition cancel_run :: "'r race_env \<Rightarrow> exn \<Rightarrow> run \<Rightarrow> (exn, 'r) result \<times> run" where
  "cancel_run env e s =
     (case stop_work (rc_stop_cancel env) (s\<lparr>run_linked := True\<rparr>) of
        (Some x, t) \<Rightarrow> (Inl x, t)
      | (None, t) \<Rightarrow> (Inl e, t))"

text \<open>From the creation of the three tasks on.\<close>

definition run_race :: "'r race_env \<Rightarrow> call_context \<Rightarrow> (exn, 'r) result \<times> run" where
  "run_race env bounded =
     (let started = (\<lambda>finished. \<lparr>run_context = Some bounded,
            run_work = (if finished then Finished else Running), run_linked = False\<rparr>) in
      case rc_wake env of
        Interrupted finished \<Rightarrow> cancel_run env cancelled_error (started finished)
      | Woken finished caller expired flag \<Rightarrow>
          if caller \<or> flag then
            cancel_run env cancelled_error ((started finished)\<lparr>run_linked := True\<rparr>)
          else if expired then
            (case stop_work (rc_stop_deadline env) ((started finished)\<lparr>run_linked := True\<rparr>) of
               (Some x, t) \<Rightarrow> cancel_run env x t
             | (None, t) \<Rightarrow> (Inl timeout_error, t))
          else
            (case rc_outcome env of
               Inr r \<Rightarrow> (Inr r, started finished)
             | Inl e \<Rightarrow>
                 if exn_kind e = CancelledError then cancel_run env e (started finished)
                 else (Inl e, started finished)))"

definition execute ::
  "execution_limits \<Rightarrow> 'r race_env \<Rightarrow> call_context \<Rightarrow> (exn, 'r) result \<times> run" where
  "execute l env c =
     (let now = Fin (rc_now env);
          linked = Linked (cc_cancellation c) (rc_local env);
          bounded = (bounded_context l now c)\<lparr>cc_cancellation := linked\<rparr>;
          idle = \<lparr>run_context = None, run_work = NotStarted, run_linked = False\<rparr> in
      if cancelled_now ((rc_events env)(rc_local env := False)) linked then (Inl cancelled_error, idle)
      else
        (case cc_deadline bounded of
           None \<Rightarrow> (Inl timeout_error, idle)
         | Some d \<Rightarrow> if d \<le> now then (Inl timeout_error, idle) else run_race env bounded))"

text \<open>
  The event loop wakes the waiter when at least one task is done, and an environment that does
  not cancel the caller's task a second time while it stops the work is \<open>calm\<close>.
\<close>

definition wakes :: "'r race_env \<Rightarrow> bool" where
  "wakes env \<longleftrightarrow> (case rc_wake env of Interrupted f \<Rightarrow> True | Woken w c d f \<Rightarrow> w \<or> c \<or> d)"

definition calm :: "stop_env \<Rightarrow> bool" where
  "calm env \<longleftrightarrow> st_yield env \<noteq> Yield_interrupted \<and> st_grace env \<noteq> Grace_interrupted"

text \<open>Every way \<open>_stop\<close> and the cancellation handler can end.\<close>

lemma stop_work_cases:
  obtains w x where "stop_work env s = (x, s\<lparr>run_work := w\<rparr>)" "x \<in> {None, Some cancelled_error}"
    "calm env \<longrightarrow> x = None \<and> w \<in> {Finished, Detached}"
proof -
  have "\<exists>w x. stop_work env s = (x, s\<lparr>run_work := w\<rparr>) \<and> x \<in> {None, Some cancelled_error} \<and>
      (calm env \<longrightarrow> x = None \<and> w \<in> {Finished, Detached})"
    by (cases s) (auto simp: stop_work_def calm_def split: stop_yield.splits stop_grace.splits)
  then show ?thesis using that by blast
qed

lemma cancel_run_cases:
  obtains w x where "cancel_run env e s = (Inl x, s\<lparr>run_linked := True, run_work := w\<rparr>)"
    "x \<in> {e, cancelled_error}" "calm (rc_stop_cancel env) \<longrightarrow> x = e \<and> w \<in> {Finished, Detached}"
  by (rule stop_work_cases [of "rc_stop_cancel env" "s\<lparr>run_linked := True\<rparr>"])
    (auto simp: cancel_run_def)

text \<open>
  What a started call can end as: the outcome of the finished work, or an error with the linked
  cancellation set. The context it was started with never changes.
\<close>

lemma run_race_cases:
  assumes "wakes env" and "run_race env b = (r, s)"
  obtains
    (returned) "rc_wake env = Woken True False False False" "r = rc_outcome env"
      "s = \<lparr>run_context = Some b, run_work = Finished, run_linked = False\<rparr>"
  | (ended) e where "r = Inl e" "exn_kind e \<in> {CancelledError, TimeoutError}"
      "run_context s = Some b" "run_linked s"
      "calm (rc_stop_deadline env) \<and> calm (rc_stop_cancel env) \<longrightarrow> run_work s \<in> {Finished, Detached}"
proof -
  define st where "st finished = \<lparr>run_context = Some b,
      run_work = (if finished then Finished else Running), run_linked = False\<rparr>" for finished
  have cancelled: thesis
    if "cancel_run env e u = (r, s)" "exn_kind e = CancelledError" "run_context u = Some b" for e u
  proof -
    obtain w x where "cancel_run env e u = (Inl x, u\<lparr>run_linked := True, run_work := w\<rparr>)"
      "x \<in> {e, cancelled_error}" "calm (rc_stop_cancel env) \<longrightarrow> x = e \<and> w \<in> {Finished, Detached}"
      by (rule cancel_run_cases)
    with that show thesis by (intro ended [of x]) (auto simp: cancelled_error_def)
  qed
  show thesis
  proof (cases "rc_wake env")
    case (Interrupted finished)
    then have "cancel_run env cancelled_error (st finished) = (r, s)"
      using assms(2) by (simp add: run_race_def st_def Let_def)
    then show thesis by (rule cancelled) (simp_all add: cancelled_error_def st_def)
  next
    case (Woken finished caller expired flag)
    consider (cancel) "caller \<or> flag" | (expired) "\<not> (caller \<or> flag)" expired
      | (work) "\<not> (caller \<or> flag)" "\<not> expired" by blast
    then show thesis
    proof cases
      case cancel
      then have "cancel_run env cancelled_error ((st finished)\<lparr>run_linked := True\<rparr>) = (r, s)"
        using assms(2) Woken by (simp add: run_race_def st_def Let_def)
      then show thesis by (rule cancelled) (simp_all add: cancelled_error_def st_def)
    next
      case expired
      obtain w x where x: "stop_work (rc_stop_deadline env) ((st finished)\<lparr>run_linked := True\<rparr>) =
          (x, (st finished)\<lparr>run_linked := True, run_work := w\<rparr>)" "x \<in> {None, Some cancelled_error}"
        "calm (rc_stop_deadline env) \<longrightarrow> x = None \<and> w \<in> {Finished, Detached}"
        by (rule stop_work_cases)
      show thesis
      proof (cases x)
        case None
        with assms(2) Woken expired x have "r = Inl timeout_error"
          "s = (st finished)\<lparr>run_linked := True, run_work := w\<rparr>"
          by (simp_all add: run_race_def st_def Let_def)
        then show thesis
          by (intro ended [of timeout_error]) (use x in \<open>auto simp: timeout_error_def st_def\<close>)
      next
        case (Some y)
        with x have "y = cancelled_error" by simp
        with assms(2) Woken expired x Some
        have "cancel_run env cancelled_error ((st finished)\<lparr>run_linked := True, run_work := w\<rparr>) = (r, s)"
          by (simp add: run_race_def st_def Let_def)
        then show thesis by (rule cancelled) (simp_all add: cancelled_error_def st_def)
      qed
    next
      case work
      with assms(1) Woken have f: "finished" by (simp add: wakes_def)
      show thesis
      proof (cases "\<exists>e. rc_outcome env = Inl e \<and> exn_kind e = CancelledError")
        case True
        then obtain e where e: "rc_outcome env = Inl e" "exn_kind e = CancelledError" by blast
        with assms(2) Woken work have "cancel_run env e (st finished) = (r, s)"
          by (simp add: run_race_def st_def Let_def)
        then show thesis using e(2) by (rule cancelled) (simp add: st_def)
      next
        case False
        with assms(2) Woken work f show thesis
          by (intro returned) (auto simp: run_race_def Let_def split: sum.splits)
      qed
    qed
  qed
qed

text \<open>How a call ends: refused before any work, or as the race decides.\<close>

lemma execute_cases:
  assumes "limits_ok l" and "check_call_context c = okay" and "execute l env c = (r, s)"
  obtains
    (cancelled) "cancelled_now ((rc_events env)(rc_local env := False)) (cc_cancellation c)"
      "r = Inl cancelled_error" "s = \<lparr>run_context = None, run_work = NotStarted, run_linked = False\<rparr>"
  | (late) d where "cc_deadline c = Some (Fin d)" "d \<le> rc_now env"
      "r = Inl timeout_error" "s = \<lparr>run_context = None, run_work = NotStarted, run_linked = False\<rparr>"
  | (started) b q where "run_race env b = (r, s)"
      "\<not> cancelled_now ((rc_events env)(rc_local env := False)) (cc_cancellation c)"
      "cc_cancellation b = Linked (cc_cancellation c) (rc_local env)"
      "cc_identity b = cc_identity c" "cc_deadline b = Some (Fin q)" "rc_now env < q"
      "q \<le> rc_now env + seconds (max_call_seconds l)" "q \<le> rc_now env + seconds (max_tool_seconds l)"
      "\<forall>d. cc_deadline c = Some (Fin d) \<longrightarrow> q \<le> d"
proof -
  define b where "b = (bounded_context l (Fin (rc_now env)) c)
      \<lparr>cc_cancellation := Linked (cc_cancellation c) (rc_local env)\<rparr>"
  obtain q where q: "cc_deadline b = Some (Fin q)" "q \<le> rc_now env + seconds (max_call_seconds l)"
    "q \<le> rc_now env + seconds (max_tool_seconds l)" "\<forall>d. cc_deadline c = Some (Fin d) \<longrightarrow> q \<le> d"
    using bounded_context_deadline [OF assms(1,2), of "rc_now env"] by (auto simp: b_def)
  obtain x y where lim: "max_call_seconds l = Fin x" "0 < x" "max_tool_seconds l = Fin y" "0 < y"
    using limits_ok_durations [OF assms(1)] by metis
  have d: "cc_deadline c = None \<or> (\<exists>d. cc_deadline c = Some (Fin d))"
    using assms(2) by (cases "cc_deadline c") (auto simp: check_call_context_ok)
  have q_eq: "cc_deadline b = Some (case cc_deadline c of None \<Rightarrow> Fin (rc_now env + min x y)
      | Some e \<Rightarrow> py_min (Fin (rc_now env + min x y)) e)"
    using d by (auto simp: b_def bounded_context_def lim min_add_distrib_right)
  show thesis
  proof (cases "cancelled_now ((rc_events env)(rc_local env := False)) (cc_cancellation c)")
    case True
    with assms(3) show thesis by (intro cancelled) (auto simp: execute_def Let_def)
  next
    case False
    show thesis
    proof (cases "q \<le> rc_now env")
      case True
      with q(1) q_eq lim d obtain d where "cc_deadline c = Some (Fin d)" "d \<le> rc_now env"
        by (auto simp: min_def split: if_splits)
      moreover from True False assms(3) q(1) have "r = Inl timeout_error"
        "s = \<lparr>run_context = None, run_work = NotStarted, run_linked = False\<rparr>"
        by (auto simp: execute_def Let_def b_def)
      ultimately show thesis by (rule late)
    next
      case False': False
      with False assms(3) q(1) have "run_race env b = (r, s)"
        by (simp add: execute_def Let_def b_def)
      with False False' q show thesis
        by (intro started [of b q]) (auto simp: b_def bounded_context_def)
    qed
  qed
qed


definition sample_race :: "string race_env" where
  "sample_race = \<lparr>rc_now = 90, rc_events = (\<lambda>n. False), rc_local = 7,
     rc_wake = Woken False False True False, rc_outcome = Inr ''late'',
     rc_stop_deadline = \<lparr>st_done = False, st_yield = Yield_running, st_grace = Grace_expired\<rparr>,
     rc_stop_cancel = \<lparr>st_done = False, st_yield = Yield_done, st_grace = Grace_done\<rparr>\<rparr>"

lemma sample_context_valid: "check_call_context sample_context = okay"
  by (simp add: check_call_context_ok sample_context_def text_valid_def strip_def is_space_def ord_of_def)




end
