(* ===== verification/Json_Bounds.thy ===== *)
theory Json_Bounds
  imports Execution
begin

section \<open>Bounded JSON values\<close>

text \<open>
  Models \<open>validate_json_value\<close> of \<^verbatim>\<open>src/tesserix_mcp_runtime/execution.py\<close>: the walk over an
  explicit stack that bounds nodes, depth and sizes, followed by the bound on the canonical
  encoding. The specification \<open>json_shape\<close> and \<open>json_nodes\<close> is by recursion on the value; the
  walk is proved equivalent to it for every value and every limit.
\<close>

subsection \<open>The specification\<close>

primrec json_nodes :: "pyval \<Rightarrow> nat" where
  "json_nodes PNone = 1"
| "json_nodes (PBool b) = 1"
| "json_nodes (PInt i) = 1"
| "json_nodes (PFloat f) = 1"
| "json_nodes (PStr s) = 1"
| "json_nodes (PList xs) = Suc (sum_list (map json_nodes xs))"
| "json_nodes (PDict d) = Suc (sum_list (map snd (map (map_prod id json_nodes) d)))"
| "json_nodes POther = 1"

primrec json_shape :: "execution_limits \<Rightarrow> int \<Rightarrow> pyval \<Rightarrow> bool" where
  "json_shape l depth PNone = True"
| "json_shape l depth (PBool b) = True"
| "json_shape l depth (PInt i) = True"
| "json_shape l depth (PFloat f) = is_finite f"
| "json_shape l depth (PStr s) = True"
| "json_shape l depth (PList xs) =
     (depth \<le> max_json_depth l \<and> int (length xs) \<le> max_array_items l \<and>
      list_all (\<lambda>shape. shape (depth + 1)) (map (\<lambda>x k. json_shape l k x) xs))"
| "json_shape l depth (PDict d) =
     (depth \<le> max_json_depth l \<and> int (length d) \<le> max_object_properties l \<and>
      list_all (\<lambda>kv. is_kstr (fst kv)) d \<and>
      list_all (\<lambda>kv. snd kv (depth + 1)) (map (map_prod id (\<lambda>x k. json_shape l k x)) d))"
| "json_shape l depth POther = False"

lemma json_nodes_dict [simp]: "json_nodes (PDict d) = Suc (sum_list (map (\<lambda>kv. json_nodes (snd kv)) d))"
  by (simp add: o_def)

lemma json_shape_list [simp]:
  "json_shape l depth (PList xs) \<longleftrightarrow>
     depth \<le> max_json_depth l \<and> int (length xs) \<le> max_array_items l \<and>
     (\<forall>x\<in>set xs. json_shape l (depth + 1) x)"
  by (auto simp: list_all_iff)

lemma json_shape_dict [simp]:
  "json_shape l depth (PDict d) \<longleftrightarrow>
     depth \<le> max_json_depth l \<and> int (length d) \<le> max_object_properties l \<and>
     (\<forall>kv\<in>set d. is_kstr (fst kv) \<and> json_shape l (depth + 1) (snd kv))"
  by (auto simp: list_all_iff)

declare json_nodes.simps(7) [simp del] json_shape.simps(6,7) [simp del]

text \<open>The nesting depth: a scalar has depth 0, a container one more than its deepest child.\<close>

primrec json_depth :: "pyval \<Rightarrow> nat" where
  "json_depth PNone = 0"
| "json_depth (PBool b) = 0"
| "json_depth (PInt i) = 0"
| "json_depth (PFloat f) = 0"
| "json_depth (PStr s) = 0"
| "json_depth (PList xs) = Suc (fold max (map json_depth xs) 0)"
| "json_depth (PDict d) = Suc (fold max (map snd (map (map_prod id json_depth) d)) 0)"
| "json_depth POther = 0"

lemma fold_max_le: "fold max xs (a::nat) \<le> n \<longleftrightarrow> a \<le> n \<and> (\<forall>x\<in>set xs. x \<le> n)"
  by (induction xs arbitrary: a) auto

lemma json_shape_value: "json_shape l depth v \<Longrightarrow> is_json_value v"
proof (induction v arbitrary: depth)
  case (PList xs)
  then show ?case by auto
next
  case (PDict d)
  show ?case
    unfolding is_json_dict
  proof (rule ballI, clarify)
    fix k v assume kv: "(k, v) \<in> set d"
    with PDict.prems have "is_kstr k" "json_shape l (depth + 1) v" by auto
    with PDict.IH [OF kv, of v "depth + 1"] show "is_kstr k \<and> is_json_value v" by simp
  qed
qed auto

lemma json_shape_depth:
  "json_shape l depth v \<Longrightarrow> depth \<le> max_json_depth l + 1 \<Longrightarrow>
     depth + int (json_depth v) \<le> max_json_depth l + 1"
proof (induction v arbitrary: depth)
  case (PList xs)
  have "json_depth x \<le> nat (max_json_depth l - depth)" if "x \<in> set xs" for x
    using PList.prems that PList.IH [OF that, of "depth + 1"] by fastforce
  then have "fold max (map json_depth xs) 0 \<le> nat (max_json_depth l - depth)"
    by (simp add: fold_max_le)
  with PList.prems show ?case by auto
next
  case (PDict d)
  have "json_depth v \<le> nat (max_json_depth l - depth)" if kv: "(k, v) \<in> set d" for k v
    using PDict.prems kv PDict.IH [OF kv, of v "depth + 1"] by fastforce
  then have "fold max (map snd (map (map_prod id json_depth) d)) 0 \<le> nat (max_json_depth l - depth)"
    by (auto simp: fold_max_le)
  with PDict.prems show ?case by auto
qed auto

subsection \<open>The walk\<close>

text \<open>The nodes still to be visited: the measure of the walk.\<close>

definition pending_nodes :: "(pyval \<times> int) list \<Rightarrow> nat" where
  "pending_nodes pending = sum_list (map (\<lambda>p. json_nodes (fst p)) pending)"

lemma pending_nodes_simps [simp]:
  "pending_nodes [] = 0"
  "pending_nodes ((v, k) # pending) = json_nodes v + pending_nodes pending"
  "pending_nodes (ps @ qs) = pending_nodes ps + pending_nodes qs"
  "pending_nodes (rev ps) = pending_nodes ps"
  "pending_nodes (map (\<lambda>x. (x, k)) xs) = sum_list (map json_nodes xs)"
  "pending_nodes (map (\<lambda>kv. (snd kv, k)) d) = sum_list (map (\<lambda>kv. json_nodes (snd kv)) d)"
  by (simp_all add: pending_nodes_def o_def rev_map [symmetric] sum_list_rev)

text \<open>
  The stack has its top at the head; the source extends its list at the end and pops there, so
  the children are pushed in reverse.
\<close>

function json_walk :: "execution_limits \<Rightarrow> int \<Rightarrow> (pyval \<times> int) list \<Rightarrow> bool" where
  "json_walk l n [] = True"
| "json_walk l n ((current, depth) # pending) =
     (let nodes = n + 1 in
      if nodes > max_json_nodes l then False
      else
        (case current of
           PDict d \<Rightarrow>
             if depth > max_json_depth l \<or> int (length d) > max_object_properties l then False
             else if \<exists>kv\<in>set d. \<not> is_kstr (fst kv) then False
             else json_walk l nodes (rev (map (\<lambda>kv. (snd kv, depth + 1)) d) @ pending)
         | PList xs \<Rightarrow>
             if depth > max_json_depth l \<or> int (length xs) > max_array_items l then False
             else json_walk l nodes (rev (map (\<lambda>x. (x, depth + 1)) xs) @ pending)
         | PFloat f \<Rightarrow> if is_finite f then json_walk l nodes pending else False
         | POther \<Rightarrow> False
         | _ \<Rightarrow> json_walk l nodes pending))"
  by pat_completeness auto

termination
  by (relation "measure (\<lambda>(l, n, pending). pending_nodes pending)") auto

lemma json_nodes_pos [simp]: "0 < json_nodes v"
  by (cases v) auto

text \<open>The walk accepts exactly the values of the specification, within the node budget.\<close>

lemma json_walk_iff:
  assumes "n \<le> max_json_nodes l"
  shows "json_walk l n pending \<longleftrightarrow>
    n + int (pending_nodes pending) \<le> max_json_nodes l \<and> (\<forall>(v, depth)\<in>set pending. json_shape l depth v)"
  using assms
proof (induction "pending_nodes pending" arbitrary: n pending rule: less_induct)
  case less
  show ?case
  proof (cases pending)
    case Nil
    with less.prems show ?thesis by simp
  next
    case (Cons p rest)
    obtain v k where p: "p = (v, k)" by (cases p) auto
    have IH: "json_walk l (n + 1) qs \<longleftrightarrow>
        n + 1 + int (pending_nodes qs) \<le> max_json_nodes l \<and> (\<forall>(v, depth)\<in>set qs. json_shape l depth v)"
      if "pending_nodes qs < json_nodes v + pending_nodes rest" "n + 1 \<le> max_json_nodes l" for qs
      using less.hyps [of qs "n + 1"] that by (simp add: Cons p)
    show ?thesis
    proof (cases "n + 1 > max_json_nodes l")
      case True
      then have "\<not> n + int (json_nodes v + pending_nodes rest) \<le> max_json_nodes l"
        using json_nodes_pos [of v] by linarith
      with True show ?thesis unfolding Cons p by (simp add: Let_def)
    next
      case False
      then show ?thesis
        unfolding Cons p by (cases v) (auto simp: IH Let_def)
    qed
  qed
qed

subsection \<open>The validation\<close>

definition limit_exceeded :: exn where
  "limit_exceeded = \<lparr>exn_kind = ExecutionLimitExceeded, exn_type = ''ExecutionLimitExceeded''\<rparr>"

definition validate_json_value ::
  "(rat \<Rightarrow> string) \<Rightarrow> execution_limits \<Rightarrow> int \<Rightarrow> pyval \<Rightarrow> (exn, unit) result" where
  "validate_json_value frepr l maximum_bytes v =
     (if \<not> json_walk l 0 [(v, 1)] then Inl limit_exceeded
      else
        (case dumps frepr v of
           None \<Rightarrow> Inl limit_exceeded
         | Some encoded \<Rightarrow>
             if int (utf8_length encoded) > maximum_bytes then Inl limit_exceeded else Inr ()))"


definition sample_value :: pyval where
  "sample_value = obj [(''q'', PStr ''hi''), (''ids'', PList [PInt 1, PNone])]"


end
