(* ===== verification/Text_Search.thy ===== *)
theory Text_Search
  imports Regex
begin

section \<open>Searching and replacing text\<close>

text \<open>
  \<open>str.replace\<close> and \<open>re.sub\<close>: the text is scanned from the left, a match is replaced and the scan
  goes on after it. A pattern with look-around is a function of the character before the position
  and of the rest of the text; it lists its matches in the order in which the engine tries them,
  so the first is the match, and gives the text to put in its place and what is left.
\<close>

subsection \<open>Replacing a substring\<close>

function str_replace :: "string \<Rightarrow> string \<Rightarrow> string \<Rightarrow> string" where
  "str_replace old new s =
     (if old = [] \<or> s = [] then s
      else if starts_with old s then new @ str_replace old new (drop (length old) s)
      else hd s # str_replace old new (tl s))"
  by pat_completeness auto

termination
  by (relation "measure (\<lambda>(old, new, s). length s)") auto

declare str_replace.simps [simp del]

text \<open>A text in which \<open>old\<close> does not occur is left as it is.\<close>

definition occurs :: "string \<Rightarrow> string \<Rightarrow> bool" where
  "occurs p s \<longleftrightarrow> (\<exists>i\<le>length s. starts_with p (drop i s))"

lemma occurs_tl: "occurs p (tl s) \<Longrightarrow> occurs p s"
  unfolding occurs_def
proof (elim exE conjE)
  fix i assume "i \<le> length (tl s)" "starts_with p (drop i (tl s))"
  then show "\<exists>i\<le>length s. starts_with p (drop i s)"
    by (cases s) (auto intro: exI [of _ "Suc i"])
qed

lemma str_replace_absent: "\<not> occurs old s \<Longrightarrow> str_replace old new s = s"
proof (induction old new s rule: str_replace.induct)
  case (1 old new s)
  show ?case
  proof (cases "old = [] \<or> s = []")
    case False
    have "\<not> starts_with old s"
      using "1.prems" by (auto simp: occurs_def dest: spec [of _ 0])
    moreover have "\<not> occurs old (tl s)"
      using "1.prems" occurs_tl by blast
    ultimately show ?thesis
      using 1 False by (subst str_replace.simps) simp
  qed (simp add: str_replace.simps)
qed

subsection \<open>Replacing the matches of a pattern\<close>

type_synonym matcher = "char option \<Rightarrow> string \<Rightarrow> (string \<times> string) list"

text \<open>\<open>consumed s t\<close> is the part of \<open>s\<close> before its suffix \<open>t\<close>.\<close>

definition consumed :: "string \<Rightarrow> string \<Rightarrow> string" where
  "consumed s t = take (length s - length t) s"

definition last_of :: "char option \<Rightarrow> string \<Rightarrow> char option" where
  "last_of prev s = (if s = [] then prev else Some (last s))"

text \<open>The patterns of the program never match the empty text, so a match always consumes some.\<close>

function re_sub :: "matcher \<Rightarrow> char option \<Rightarrow> string \<Rightarrow> string" where
  "re_sub m prev [] = []"
| "re_sub m prev (c # cs) =
     (case m prev (c # cs) of
        (new, rest) # _ \<Rightarrow>
          if length rest \<le> length cs then new @ re_sub m (last_of prev (consumed (c # cs) rest)) rest
          else c # re_sub m (Some c) cs
      | [] \<Rightarrow> c # re_sub m (Some c) cs)"
  by pat_completeness auto

termination
  by (relation "measure (\<lambda>(m, prev, s). length s)") auto

lemma re_sub_no_match:
  assumes "\<And>prev t. m prev t = []"
  shows "re_sub m prev s = s"
  using assms by (induction m prev s rule: re_sub.induct) auto

subsection \<open>Pieces of patterns\<close>

text \<open>The word characters of Python's \<open>re\<close> on the code points 0 to 255.\<close>

definition is_word :: "char \<Rightarrow> bool" where
  "is_word c \<longleftrightarrow> is_alnum c \<or> c = CHR ''_'' \<or>
     ord_of c \<in> {170, 178, 179, 181, 185, 186, 188, 189, 190} \<or>
     192 \<le> ord_of c \<and> ord_of c \<noteq> 215 \<and> ord_of c \<noteq> 247"

definition next_is :: "(char \<Rightarrow> bool) \<Rightarrow> string \<Rightarrow> bool" where
  "next_is p s \<longleftrightarrow> (case s of [] \<Rightarrow> False | c # cs \<Rightarrow> p c)"

definition prev_is :: "(char \<Rightarrow> bool) \<Rightarrow> char option \<Rightarrow> bool" where
  "prev_is p c \<longleftrightarrow> (case c of None \<Rightarrow> False | Some x \<Rightarrow> p x)"

text \<open>ASCII letters without case, for \<^verbatim>\<open>(?i)\<close>.\<close>

definition lower_char :: "char \<Rightarrow> char" where
  "lower_char c = (if is_upper c then char_of (ord_of c + 32) else c)"

fun ilit :: "string \<Rightarrow> rx" where
  "ilit [] = Eps"
| "ilit (c # cs) = Seq (Cls (\<lambda>x. lower_char x = c)) (ilit cs)"

fun alternatives :: "rx list \<Rightarrow> rx" where
  "alternatives [] = Cls (\<lambda>c. False)"
| "alternatives [r] = r"
| "alternatives (r # s # rs) = Alt r (alternatives (s # rs))"

fun suffixes_of :: "string \<Rightarrow> string list" where
  "suffixes_of [] = [[]]"
| "suffixes_of (c # cs) = (c # cs) # suffixes_of cs"

text \<open>\<open>secret in text\<close>.\<close>

definition contains :: "string \<Rightarrow> string \<Rightarrow> bool" where
  "contains p s \<longleftrightarrow> list_ex (starts_with p) (suffixes_of s)"

end
