(* ===== verification/Timestamps.thy ===== *)
theory Timestamps
  imports Regex
begin

section \<open>Canonical UTC timestamps\<close>

text \<open>
  \<open>_canonical_timestamp\<close> of \<^verbatim>\<open>gateway_reconciliation.py\<close> and \<open>_timestamp\<close> of
  \<^verbatim>\<open>activation.py\<close> accept exactly the strings that \<open>datetime.isoformat\<close> produces for a UTC
  time, with \<^verbatim>\<open>Z\<close> for the offset: the six fields in fixed positions and, when it is not zero, the
  microsecond with six digits. \<open>timestamp_fields\<close> reads the fields, whose lexicographic order is
  the order of the times, so a time is represented by its canonical text.
\<close>

definition days_in_month :: "nat \<Rightarrow> nat \<Rightarrow> nat" where
  "days_in_month y m =
     (if m = 2 then (if y mod 4 = 0 \<and> y mod 100 \<noteq> 0 \<or> y mod 400 = 0 then 29 else 28)
      else if m \<in> {4, 6, 9, 11} then 30 else 31)"

definition timestamp_fields :: "string \<Rightarrow> nat list" where
  "timestamp_fields v = map (\<lambda>(i, n). digits_value (take n (drop i v)))
     [(0, 4), (5, 2), (8, 2), (11, 2), (14, 2), (17, 2)] @
     [if drop 19 v = ''Z'' then 0 else digits_value (take 6 (drop 20 v))]"

definition canonical_timestamp :: "string \<Rightarrow> bool" where
  "canonical_timestamp v \<longleftrightarrow>
     (length v = 20 \<or> length v = 27) \<and> last v = CHR ''Z'' \<and>
     (\<forall>(i, c)\<in>set [(4, CHR ''-''), (7, CHR ''-''), (10, CHR ''T''), (13, CHR '':''), (16, CHR '':'')]. v ! i = c) \<and>
     (\<forall>(i, n)\<in>set [(0, 4), (5, 2), (8, 2), (11, 2), (14, 2), (17, 2)]. list_all is_digit (take n (drop i v))) \<and>
     (length v = 27 \<longrightarrow> v ! 19 = CHR ''.'' \<and> list_all is_digit (take 6 (drop 20 v)) \<and>
        digits_value (take 6 (drop 20 v)) \<noteq> 0) \<and>
     (case timestamp_fields v of y # mo # d # h # mi # s # us \<Rightarrow>
        1 \<le> y \<and> 1 \<le> mo \<and> mo \<le> 12 \<and> 1 \<le> d \<and> d \<le> days_in_month y mo \<and> h < 24 \<and> mi < 60 \<and> s < 60
      | _ \<Rightarrow> False)"

text \<open>\<open>earlier v w\<close> compares the times of two canonical texts.\<close>

definition earlier :: "string \<Rightarrow> string \<Rightarrow> bool" where
  "earlier v w \<longleftrightarrow> timestamp_fields v < timestamp_fields w"

end
