(* ===== verification/Redaction.thy ===== *)
theory Redaction
  imports Json_Bounds Text_Search Timestamps
begin

section \<open>Redaction at trust boundaries\<close>

text \<open>
  Models \<^verbatim>\<open>src/tesserix_mcp_runtime/redaction.py\<close>: the limits, secret values, the recognition
  of secret keys, the three patterns and the redactor over text and over JSON values. The locale
  \<open>redaction_policy\<close> is the protocol \<open>RedactionPolicy\<close> that the application relies on.
\<close>

subsection \<open>Limits and secrets\<close>

definition redacted_text :: string where
  "redacted_text = ''[REDACTED]''"

record redaction_limits =
  rl_max_depth :: int
  rl_max_nodes :: int
  rl_max_text_bytes :: int

definition default_redaction_limits :: redaction_limits where
  "default_redaction_limits = \<lparr>rl_max_depth = 64, rl_max_nodes = 65536, rl_max_text_bytes = 1048576\<rparr>"

definition check_redaction_limits :: "redaction_limits \<Rightarrow> check" where
  "check_redaction_limits l =
     for_each (\<lambda>(v, maximum).
       raise_if (\<not> (1 \<le> v \<and> v \<le> maximum))
         (ValueError ''redaction limit must be a positive integer within its hard maximum'') okay)
       [(rl_max_depth l, 64), (rl_max_nodes l, 65536), (rl_max_text_bytes l, 1048576 :: int)]"

text \<open>A \<open>SecretValue\<close> is its text; every rendering of it is \<open>redacted_text\<close>.\<close>

datatype secret_value = SecretValue string

fun reveal :: "secret_value \<Rightarrow> string" where
  "reveal (SecretValue v) = v"

definition secret_str :: "secret_value \<Rightarrow> string" where
  "secret_str v = redacted_text"

definition make_secret_value :: "string \<Rightarrow> (value_error, secret_value) result" where
  "make_secret_value v =
     raise_if (\<not> (4 \<le> length v \<and> length v \<le> 4096) \<or> v \<noteq> strip v \<or> v = redacted_text \<or>
         list_ex (\<lambda>c. ord_of c < 32 \<or> ord_of c = 127) v)
       (ValueError ''secret value must be bounded non-empty visible text'') (Inr (SecretValue v))"

subsection \<open>Secret keys\<close>

text \<open>
  \<open>_KEY_PARTS.sub("", value.casefold())\<close>: the ASCII letters and digits in lower case; the only
  other code point up to 255 whose case folding has some is the sharp s.
\<close>

definition normalized_key :: "string \<Rightarrow> string" where
  "normalized_key s = concat (map (\<lambda>c. if ord_of c = 223 then ''ss''
     else if is_alnum c then [lower_char c] else []) s)"

definition sensitive_exact :: "string list" where
  "sensitive_exact = [''authorization'', ''proxyauthorization'', ''token'', ''password'', ''passwd'',
     ''credential'', ''credentials'', ''secret'', ''clientsecret'', ''privatekey'', ''apikey'',
     ''accesskey'', ''accesskeyid'', ''secretaccesskey'', ''signingkey'', ''encryptionkey'',
     ''accesstoken'', ''refreshtoken'', ''authtoken'', ''idtoken'']"

definition sensitive_suffixes :: "string list" where
  "sensitive_suffixes = [''token'', ''password'', ''credential'', ''credentials'', ''secret'',
     ''privatekey'', ''apikey'', ''accesskeyid'', ''secretaccesskey'', ''signingkey'',
     ''encryptionkey'', ''accesstoken'', ''refreshtoken'', ''authtoken'', ''idtoken'']"

definition is_secret_key :: "string \<Rightarrow> bool" where
  "is_secret_key s \<longleftrightarrow>
     normalized_key s \<in> set sensitive_exact \<or> list_ex (\<lambda>e. ends_with e (normalized_key s)) sensitive_suffixes"

subsection \<open>The patterns\<close>

definition upper_or_digit :: "char \<Rightarrow> bool" where
  "upper_or_digit c \<longleftrightarrow> is_upper c \<or> is_digit c"

definition key_begin_rx :: rx where
  "key_begin_rx = Seq (lit ''-----BEGIN '') (Seq (Opt (Seq (Plus (Cls upper_or_digit)) (lit '' '')))
     (lit ''PRIVATE KEY-----''))"

definition key_end_rx :: rx where
  "key_end_rx = Seq (lit ''-----END '') (Seq (Opt (Seq (Plus (Cls upper_or_digit)) (lit '' '')))
     (lit ''PRIVATE KEY-----''))"

text \<open>The lazy \<^verbatim>\<open>[\s\S]*?\<close> tries the ends in the order of the text.\<close>

definition private_key_matcher :: matcher where
  "private_key_matcher prev s =
     map (\<lambda>rest. (redacted_text, rest))
       (concat (map (\<lambda>body. concat (map (rx_match key_end_rx) (suffixes_of body))) (rx_match key_begin_rx s)))"

definition token_char :: "char \<Rightarrow> bool" where
  "token_char c \<longleftrightarrow> is_alnum c \<or> c = CHR ''_'' \<or> c = CHR ''-''"

definition token_part_rx :: rx where
  "token_part_rx = Seq (Rep (Cls token_char) 8 0) (Star (Cls token_char))"

definition jwt_rx :: rx where
  "jwt_rx = Seq token_part_rx (Seq (lit ''.'') (Seq token_part_rx (Seq (lit ''.'') token_part_rx)))"

definition jwt_matcher :: matcher where
  "jwt_matcher prev s =
     (if prev_is token_char prev then []
      else map (\<lambda>rest. (redacted_text, rest)) (filter (\<lambda>rest. \<not> next_is token_char rest) (rx_match jwt_rx s)))"

definition sep_rx :: rx where
  "sep_rx = Opt (Cls (one_of ''-_ ''))"

definition keyword_rx :: rx where
  "keyword_rx = alternatives
     [ilit ''authorization'',
      Seq (ilit ''proxy'') (Seq sep_rx (ilit ''authorization'')),
      ilit ''token'',
      Seq (alternatives [ilit ''access'', ilit ''refresh'', ilit ''auth'', ilit ''id'']) (Seq sep_rx (ilit ''token'')),
      Seq (ilit ''api'') (Seq sep_rx (ilit ''key'')),
      ilit ''credential'',
      ilit ''password'',
      Seq (ilit ''client'') (Seq sep_rx (ilit ''secret'')),
      Seq (ilit ''private'') (Seq sep_rx (ilit ''key'')),
      Seq (alternatives [Seq (ilit ''secret'') (Seq sep_rx (ilit ''access'')), ilit ''access'', ilit ''signing'',
             ilit ''encryption''])
        (Seq sep_rx (Seq (ilit ''key'') (Opt (Seq sep_rx (ilit ''id'')))))]"

definition quote_char :: "char \<Rightarrow> bool" where
  "quote_char c \<longleftrightarrow> ord_of c = 34 \<or> ord_of c = 39"

definition after_keyword_rx :: rx where
  "after_keyword_rx = Seq (Opt (Cls quote_char)) (Seq (Star (Cls is_space))
     (Seq (Cls (one_of '':='')) (Star (Cls is_space))))"

definition bare_char :: "char \<Rightarrow> bool" where
  "bare_char c \<longleftrightarrow> \<not> is_space c \<and> \<not> one_of '',;}]'' c"

definition quoted_rx :: "nat \<Rightarrow> rx" where
  "quoted_rx q = Seq (Cls (\<lambda>c. ord_of c = q))
     (Seq (Star (Cls (\<lambda>c. ord_of c \<notin> {q, 10, 13}))) (Cls (\<lambda>c. ord_of c = q)))"

definition assigned_rx :: rx where
  "assigned_rx = alternatives
     [Seq (alternatives [ilit ''bearer'', ilit ''basic''])
        (Seq (Plus (Cls is_space)) (Plus (Cls bare_char))),
      quoted_rx 34, quoted_rx 39, Plus (Cls bare_char)]"

text \<open>
  The first word boundary is before a letter and the second after one, so they ask that the
  character before, and the one after, is no word character.
\<close>

definition replace_assignment :: "string \<Rightarrow> string" where
  "replace_assignment assigned =
     (if assigned \<noteq> [] \<and> quote_char (hd assigned) \<and> last assigned = hd assigned
      then [hd assigned] @ redacted_text @ [hd assigned] else redacted_text)"

definition assignment_matcher :: matcher where
  "assignment_matcher prev s =
     (if prev_is is_word prev then []
      else concat (map (\<lambda>k. concat (map (\<lambda>p.
          map (\<lambda>rest. (consumed s p @ replace_assignment (consumed p rest), rest)) (rx_match assigned_rx p))
        (rx_match after_keyword_rx k)))
      (filter (\<lambda>k. \<not> next_is is_word k) (rx_match keyword_rx s))))"

subsection \<open>The redactor\<close>

record secret_redactor =
  sr_known :: "string list"
  sr_limits :: redaction_limits

text \<open>\<open>sorted(values, key=len, reverse=True)\<close> is stable: texts of one length keep their order.\<close>

fun dedup :: "string list \<Rightarrow> string list \<Rightarrow> string list" where
  "dedup vs [] = vs"
| "dedup vs (x # xs) = dedup (if x \<in> set vs then vs else vs @ [x]) xs"

definition make_secret_redactor :: "secret_value list \<Rightarrow> redaction_limits \<Rightarrow> secret_redactor" where
  "make_secret_redactor secrets l =
     \<lparr>sr_known = sort_key (\<lambda>v. - int (length v)) (dedup [] (map reveal secrets)), sr_limits = l\<rparr>"

definition redaction_error :: exn where
  "redaction_error = \<lparr>exn_kind = OtherException, exn_type = ''RedactionError''\<rparr>"

definition check_text :: "secret_redactor \<Rightarrow> string \<Rightarrow> (exn, unit) result" where
  "check_text r v =
     raise_if (int (utf8_length v) > rl_max_text_bytes (sr_limits r)) redaction_error (Inr ())"

definition substitute_secrets :: "secret_redactor \<Rightarrow> string \<Rightarrow> string" where
  "substitute_secrets r v =
     re_sub assignment_matcher None (re_sub jwt_matcher None (re_sub private_key_matcher None
       (fold (\<lambda>secret text. str_replace secret redacted_text text) (sr_known r) v)))"

definition redact_text :: "secret_redactor \<Rightarrow> string \<Rightarrow> (exn, string) result" where
  "redact_text r v =
     and_then (check_text r v) (\<lambda>_.
     let redacted = substitute_secrets r v in
     and_then (check_text r redacted) (\<lambda>_. Inr redacted))"

text \<open>
  \<open>_validate\<close> with its budget (the nodes and the bytes of text seen so far) as state, and its two
  loops over the items of a list and of a dictionary.
\<close>

type_synonym budget = "int \<times> int"

definition consume_text :: "redaction_limits \<Rightarrow> string \<Rightarrow> budget \<Rightarrow> (exn, budget) result" where
  "consume_text l s b =
     (let bytes = snd b + int (utf8_length s) in
      raise_if (bytes > rl_max_text_bytes l) redaction_error (Inr (fst b, bytes)))"

definition visit_node :: "redaction_limits \<Rightarrow> int \<Rightarrow> budget \<Rightarrow> (exn, budget) result" where
  "visit_node l depth b =
     raise_if (depth > rl_max_depth l) redaction_error
     (raise_if (fst b + 1 > rl_max_nodes l) redaction_error (Inr (fst b + 1, snd b)))"

function (sequential) validate_node :: "redaction_limits \<Rightarrow> int \<Rightarrow> pyval \<Rightarrow> budget \<Rightarrow> (exn, budget) result"
  and validate_items :: "redaction_limits \<Rightarrow> int \<Rightarrow> pyval list \<Rightarrow> budget \<Rightarrow> (exn, budget) result"
  and validate_entries :: "redaction_limits \<Rightarrow> int \<Rightarrow> (pykey \<times> pyval) list \<Rightarrow> budget \<Rightarrow> (exn, budget) result"
where
  "validate_node l depth PNone b = visit_node l depth b"
| "validate_node l depth (PBool x) b = visit_node l depth b"
| "validate_node l depth (PInt i) b = visit_node l depth b"
| "validate_node l depth (PFloat x) b =
     and_then (visit_node l depth b) (raise_if (\<not> is_finite x) redaction_error \<circ> Inr)"
| "validate_node l depth (PStr s) b = and_then (visit_node l depth b) (consume_text l s)"
| "validate_node l depth (PList xs) b = and_then (visit_node l depth b) (validate_items l (depth + 1) xs)"
| "validate_node l depth (PDict d) b = and_then (visit_node l depth b) (validate_entries l (depth + 1) d)"
| "validate_node l depth POther b = and_then (visit_node l depth b) (\<lambda>b. Inl redaction_error)"
| "validate_items l depth [] b = Inr b"
| "validate_items l depth (x # xs) b = and_then (validate_node l depth x b) (validate_items l depth xs)"
| "validate_entries l depth [] b = Inr b"
| "validate_entries l depth ((k, v) # d) b =
     (case k of
        KOther i \<Rightarrow> Inl redaction_error
      | KStr s \<Rightarrow>
          and_then (consume_text l s b) (\<lambda>b'.
          and_then (validate_node l depth v b') (validate_entries l depth d)))"
  by pat_completeness auto

text \<open>The walk ends: every call is on a part of the value.\<close>

termination
  by (relation "measure (\<lambda>x. case x of
      Inl (l, depth, v, b) \<Rightarrow> size v
    | Inr (Inl (l, depth, xs, b)) \<Rightarrow> size_list size xs
    | Inr (Inr (l, depth, d, b)) \<Rightarrow> size_list (size_prod (\<lambda>k. 0) size) d)") auto

text \<open>
  The loop that looks for a free key: the candidate is the redacted key, then the key with the
  suffixes 2, 3 and so on.
\<close>

definition suffixed :: "string \<Rightarrow> nat \<Rightarrow> string" where
  "suffixed k n = k @ ''#'' @ nat_digits n"

definition taken_suffixes :: "string list \<Rightarrow> string \<Rightarrow> nat \<Rightarrow> nat set" where
  "taken_suffixes used k n = {m. n \<le> m \<and> suffixed k m \<in> set used}"

lemma digits_value_nat_digits: "digits_value (nat_digits n) = n"
proof (induction n rule: nat_digits.induct)
  case (1 n)
  have digit: "ord_of (char_of (48 + k :: nat)) - 48 = k" if "k < 10" for k
    using that by (simp add: ord_of_def)
  show ?case
  proof (cases "n < 10")
    case True
    then show ?thesis by (subst nat_digits.simps) (simp add: digits_value_def digit)
  next
    case False
    then have "digits_value (nat_digits n) = 10 * digits_value (nat_digits (n div 10)) + n mod 10"
      by (subst nat_digits.simps) (simp add: digits_value_def digit)
    with 1 False show ?thesis by simp
  qed
qed

lemma nat_digits_inject: "nat_digits m = nat_digits n \<Longrightarrow> m = n"
  by (metis digits_value_nat_digits)

lemma finite_taken_suffixes: "finite (taken_suffixes used k n)"
proof -
  have "inj_on (suffixed k) (taken_suffixes used k n)"
    by (auto simp: inj_on_def suffixed_def dest: nat_digits_inject)
  moreover have "suffixed k ` taken_suffixes used k n \<subseteq> set used"
    by (auto simp: taken_suffixes_def)
  ultimately show ?thesis
    using finite_subset [OF _ finite_set] finite_imageD by blast
qed

lemma taken_suffixes_Suc:
  "taken_suffixes used k n =
     (if suffixed k n \<in> set used then insert n (taken_suffixes used k (Suc n)) else taken_suffixes used k (Suc n))"
  by (auto simp: taken_suffixes_def Suc_le_eq le_less)

function free_key :: "string list \<Rightarrow> string \<Rightarrow> nat \<Rightarrow> string \<Rightarrow> string" where
  "free_key used k suffix candidate =
     (if candidate \<in> set used then free_key used k (suffix + 1) (suffixed k suffix) else candidate)"
  by pat_completeness auto

termination
proof (relation "measure (\<lambda>(used, k, suffix, candidate).
    card (taken_suffixes used k suffix) + (if candidate \<in> set used then 1 else 0))")
  fix used :: "string list" and k suffix candidate
  assume "candidate \<in> set used"
  moreover have "suffix \<notin> taken_suffixes used k (Suc suffix)"
    by (simp add: taken_suffixes_def)
  ultimately show "((used, k, suffix + 1, suffixed k suffix), used, k, suffix, candidate)
      \<in> measure (\<lambda>(used, k, suffix, candidate).
        card (taken_suffixes used k suffix) + (if candidate \<in> set used then 1 else 0))"
    using taken_suffixes_Suc [of used k suffix] finite_taken_suffixes [of used k "Suc suffix"]
    by auto
qed simp

declare free_key.simps [simp del]

text \<open>\<open>_transform\<close>, for the text function of a redactor.\<close>

fun key_text :: "pykey \<Rightarrow> string" where
  "key_text (KStr s) = s"
| "key_text (KOther i) = []"

fun transform :: "(string \<Rightarrow> string) \<Rightarrow> pyval \<Rightarrow> pyval"
  and transform_entries :: "(string \<Rightarrow> string) \<Rightarrow> (string \<times> pyval) list \<Rightarrow> (pykey \<times> pyval) list \<Rightarrow> (string \<times> pyval) list"
where
  "transform f (PStr s) = PStr (f s)"
| "transform f (PList xs) = PList (map (transform f) xs)"
| "transform f (PDict d) = obj (transform_entries f [] d)"
| "transform f v = v"
| "transform_entries f out [] = out"
| "transform_entries f out ((k, v) # d) =
     (let redacted = f (key_text k) in
      transform_entries f (out @
        [(free_key (map fst out) redacted 2 redacted,
          if is_secret_key (key_text k) then PStr redacted_text else transform f v)]) d)"

definition redact :: "secret_redactor \<Rightarrow> pyval \<Rightarrow> (exn, pyval) result" where
  "redact r v =
     and_then (validate_node (sr_limits r) 0 v (0, 0)) (\<lambda>_.
     let output = transform (substitute_secrets r) v in
     and_then (validate_node (sr_limits r) 0 output (0, 0)) (\<lambda>_. Inr output))"

subsection \<open>What the validation bounds\<close>

text \<open>The bytes of all texts and keys of a value.\<close>

fun text_bytes :: "pyval \<Rightarrow> nat" where
  "text_bytes (PStr s) = utf8_length s"
| "text_bytes (PList xs) = sum_list (map text_bytes xs)"
| "text_bytes (PDict d) = sum_list (map (\<lambda>kv. utf8_length (key_text (fst kv)) + text_bytes (snd kv)) d)"
| "text_bytes v = 0"

text \<open>What a successful walk adds to the budget, within the limits.\<close>

definition spends :: "redaction_limits \<Rightarrow> budget \<Rightarrow> nat \<Rightarrow> nat \<Rightarrow> budget \<Rightarrow> bool" where
  "spends l b nodes bytes b' \<longleftrightarrow> b' = (fst b + int nodes, snd b + int bytes) \<and>
     (fst b \<le> rl_max_nodes l \<longrightarrow> fst b' \<le> rl_max_nodes l) \<and>
     (snd b \<le> rl_max_text_bytes l \<longrightarrow> snd b' \<le> rl_max_text_bytes l)"

lemma consume_text_spends: "consume_text l s b = Inr b' \<Longrightarrow> spends l b 0 (utf8_length s) b'"
  by (auto simp: consume_text_def spends_def Let_def)

lemma spends_trans:
  "spends l a m p b \<Longrightarrow> spends l b n q c \<Longrightarrow> spends l a (m + n) (p + q) c"
  by (auto simp: spends_def)

lemma spends_refl [simp]: "spends l b 0 0 b"
  by (simp add: spends_def)

lemma visit_node_spends: "visit_node l depth b = Inr b' \<Longrightarrow> spends l b 1 0 b'"
  by (auto simp: visit_node_def spends_def)

lemma validate_spends:
  "validate_node l depth v b = Inr b' \<Longrightarrow> spends l b (json_nodes v) (text_bytes v) b'"
  "validate_items l depth xs b = Inr b' \<Longrightarrow>
     spends l b (sum_list (map json_nodes xs)) (sum_list (map text_bytes xs)) b'"
  "validate_entries l depth d b = Inr b' \<Longrightarrow> spends l b (sum_list (map (\<lambda>kv. json_nodes (snd kv)) d))
     (sum_list (map (\<lambda>kv. utf8_length (key_text (fst kv)) + text_bytes (snd kv)) d)) b'"
proof (induction l depth v b and l depth xs b and l depth d b arbitrary: b' and b' and b'
    rule: validate_node_validate_items_validate_entries.induct)
  case (5 l depth s b)
  then obtain b1 where "visit_node l depth b = Inr b1" "consume_text l s b1 = Inr b'"
    by auto
  from spends_trans [OF visit_node_spends [OF this(1)] consume_text_spends [OF this(2)]] show ?case
    by simp
next
  case (6 l depth xs b)
  then obtain b1 where "visit_node l depth b = Inr b1" "validate_items l (depth + 1) xs b1 = Inr b'"
    by auto
  from spends_trans [OF visit_node_spends [OF this(1)] "6.IH" [OF this(2)]] show ?case
    by simp
next
  case (7 l depth d b)
  then obtain b1 where "visit_node l depth b = Inr b1" "validate_entries l (depth + 1) d b1 = Inr b'"
    by auto
  from spends_trans [OF visit_node_spends [OF this(1)] "7.IH" [OF this(2)]] show ?case
    by simp
next
  case (10 l depth x xs b)
  then obtain b1 where "validate_node l depth x b = Inr b1" "validate_items l depth xs b1 = Inr b'"
    by auto
  from spends_trans [OF "10.IH"(1) [OF this(1)] "10.IH"(2) [OF this(2)]] show ?case
    by simp
next
  case (12 l depth k v d b)
  then obtain s b1 b2 where "k = KStr s" and c: "consume_text l s b = Inr b1"
    and n: "validate_node l depth v b1 = Inr b2" and e: "validate_entries l depth d b2 = Inr b'"
    by (auto split: pykey.splits)
  have "spends l b1 (json_nodes v) (text_bytes v) b2"
    "spends l b2 (sum_list (map (\<lambda>kv. json_nodes (snd kv)) d))
       (sum_list (map (\<lambda>kv. utf8_length (key_text (fst kv)) + text_bytes (snd kv)) d)) b'"
    using 12 n e \<open>k = KStr s\<close> by blast+
  from spends_trans [OF consume_text_spends [OF c] spends_trans [OF this]] show ?case
    using \<open>k = KStr s\<close> by (simp add: add.assoc)
qed (auto dest: visit_node_spends)

subsection \<open>What the transformation hides\<close>

text \<open>
  \<open>hides v w\<close>: \<open>w\<close> has the structure of \<open>v\<close>, with distinct keys in every dictionary and the
  redaction mark in the place of every value under a secret key.
\<close>

fun hides :: "pyval \<Rightarrow> pyval \<Rightarrow> bool"
  and hides_items :: "pyval list \<Rightarrow> pyval list \<Rightarrow> bool"
  and hides_entries :: "(pykey \<times> pyval) list \<Rightarrow> (pykey \<times> pyval) list \<Rightarrow> bool"
where
  "hides (PStr s) w = (case w of PStr t \<Rightarrow> True | _ \<Rightarrow> False)"
| "hides (PList xs) w = (case w of PList ys \<Rightarrow> hides_items xs ys | _ \<Rightarrow> False)"
| "hides (PDict d) w = (case w of PDict e \<Rightarrow> distinct (map fst e) \<and> hides_entries d e | _ \<Rightarrow> False)"
| "hides v w = (v = w)"
| "hides_items [] ys = (ys = [])"
| "hides_items (x # xs) ys = (case ys of [] \<Rightarrow> False | y # zs \<Rightarrow> hides x y \<and> hides_items xs zs)"
| "hides_entries [] e = (e = [])"
| "hides_entries ((k, v) # d) e = (case e of [] \<Rightarrow> False | (k', w) # e' \<Rightarrow>
     (if is_secret_key (key_text k) then w = PStr redacted_text else hides v w) \<and> hides_entries d e')"

lemma free_key_free: "free_key used k suffix candidate \<notin> set used"
  by (induction used k suffix candidate rule: free_key.induct) (subst free_key.simps, simp)

lemma transform_entries_prefix:
  "\<exists>e. transform_entries f out d = out @ e \<and> (distinct (map fst out) \<longrightarrow> distinct (map fst (out @ e)))"
proof (induction d arbitrary: out)
  case (Cons kv d)
  obtain k v where kv: "kv = (k, v)" by (cases kv) auto
  let ?new = "(free_key (map fst out) (f (key_text k)) 2 (f (key_text k)),
    if is_secret_key (key_text k) then PStr redacted_text else transform f v)"
  obtain e where e: "transform_entries f (out @ [?new]) d = (out @ [?new]) @ e"
    "distinct (map fst (out @ [?new])) \<Longrightarrow> distinct (map fst ((out @ [?new]) @ e))"
    using Cons.IH [of "out @ [?new]"] by auto
  have "fst ?new \<notin> set (map fst out)"
    unfolding fst_conv by (rule free_key_free)
  then have "distinct (map fst out) \<Longrightarrow> distinct (map fst (out @ [?new]))"
    by simp
  with e show ?case
    unfolding kv by (intro exI [of _ "?new # e"]) (auto simp: Let_def)
qed simp

lemma hides_items_map: "(\<And>x. x \<in> set xs \<Longrightarrow> hides x (f x)) \<Longrightarrow> hides_items xs (map f xs)"
  by (induction xs) auto

lemma transform_hides:
  "hides v (transform f v)"
  "transform_entries f out d = out @ e \<Longrightarrow> hides_entries d (map (\<lambda>(k, v). (KStr k, v)) e)"
proof (induction f v and f out d arbitrary: and e rule: transform_transform_entries.induct)
  case (3 f d)
  obtain e where e: "transform_entries f [] d = e" "distinct (map fst e)"
    using transform_entries_prefix [of f "[]" d] by auto
  have "map fst (map (\<lambda>(k, v). (KStr k, v)) e) = map KStr (map fst e)"
    by auto
  then have "distinct (map fst (map (\<lambda>(k, v). (KStr k, v)) e))"
    using e(2) by (simp only: distinct_map [of KStr]) (simp add: inj_on_def)
  with "3.IH" [of e] e show ?case
    by (simp add: obj_def)
next
  case (6 f out k v d)
  let ?new = "(free_key (map fst out) (f (key_text k)) 2 (f (key_text k)),
    if is_secret_key (key_text k) then PStr redacted_text else transform f v)"
  obtain e' where e': "transform_entries f (out @ [?new]) d = (out @ [?new]) @ e'"
    using transform_entries_prefix [of f "out @ [?new]" d] by auto
  with "6.prems" have "e = ?new # e'"
    by (simp add: Let_def)
  then show ?case
    using "6.IH"(1) [OF refl] "6.IH"(2) [OF refl e'] by (auto simp: case_prod_unfold)
qed (auto intro: hides_items_map)

subsection \<open>Independence of the secrets\<close>

text \<open>\<open>public_eq v w\<close>: the two values differ at most in what stands under secret keys.\<close>

fun public_eq :: "pyval \<Rightarrow> pyval \<Rightarrow> bool"
  and public_eq_items :: "pyval list \<Rightarrow> pyval list \<Rightarrow> bool"
  and public_eq_entries :: "(pykey \<times> pyval) list \<Rightarrow> (pykey \<times> pyval) list \<Rightarrow> bool"
where
  "public_eq (PList xs) w = (case w of PList ys \<Rightarrow> public_eq_items xs ys | _ \<Rightarrow> False)"
| "public_eq (PDict d) w = (case w of PDict e \<Rightarrow> public_eq_entries d e | _ \<Rightarrow> False)"
| "public_eq v w = (v = w)"
| "public_eq_items [] ys = (ys = [])"
| "public_eq_items (x # xs) ys = (case ys of [] \<Rightarrow> False | y # zs \<Rightarrow> public_eq x y \<and> public_eq_items xs zs)"
| "public_eq_entries [] e = (e = [])"
| "public_eq_entries ((k, v) # d) e = (case e of [] \<Rightarrow> False | (k', w) # e' \<Rightarrow>
     k = k' \<and> (is_secret_key (key_text k) \<or> public_eq v w) \<and> public_eq_entries d e')"

lemma transform_public_eq:
  "public_eq v w \<Longrightarrow> transform f v = transform f w"
  "public_eq_items xs ys \<Longrightarrow> map (transform f) xs = map (transform f) ys"
  "public_eq_entries d e \<Longrightarrow> transform_entries f out d = transform_entries f out e"
proof (induction v w and xs ys and d e arbitrary: and and out rule: public_eq_public_eq_items_public_eq_entries.induct)
qed (auto simp: Let_def split: pyval.splits list.splits if_splits)

subsection \<open>The redaction protocol\<close>

text \<open>
  What a client of a redaction policy relies on: whatever it raises is an \<open>Exception\<close>, which
  \<^verbatim>\<open>except Exception\<close> catches.
\<close>

locale redaction_policy =
  fixes text_of :: "string \<Rightarrow> (exn, string) result"
    and value_of :: "pyval \<Rightarrow> (exn, pyval) result"
  assumes text_exception: "text_of s = Inl e \<Longrightarrow> is_exception e"
    and value_exception: "value_of v = Inl e \<Longrightarrow> is_exception e"

lemma redaction_error_exception [simp]: "is_exception redaction_error"
  by (simp add: is_exception_def redaction_error_def)

definition raises_only :: "exn \<Rightarrow> (exn, 'a) result \<Rightarrow> bool" where
  "raises_only e r \<longleftrightarrow> (case r of Inl x \<Rightarrow> x = e | Inr a \<Rightarrow> True)"

lemma raises_only_simps [simp]:
  "raises_only e (Inr a)" "raises_only e (Inl x) \<longleftrightarrow> x = e"
  "raises_only e (raise_if c e k) \<longleftrightarrow> c \<or> raises_only e k"
  by (auto simp: raises_only_def raise_if_def)

lemma raises_only_then: "raises_only e m \<Longrightarrow> (\<And>a. m = Inr a \<Longrightarrow> raises_only e (k a)) \<Longrightarrow> raises_only e (and_then m k)"
  by (cases m) (auto simp: raises_only_def)

lemma consume_text_raises [simp]: "raises_only redaction_error (consume_text l s b)"
  by (simp add: consume_text_def Let_def)

lemma visit_node_raises [simp]: "raises_only redaction_error (visit_node l depth b)"
  by (simp add: visit_node_def)

lemma validate_raises:
  "raises_only redaction_error (validate_node l depth v b)"
  "raises_only redaction_error (validate_items l depth xs b)"
  "raises_only redaction_error (validate_entries l depth d b)"
  by (induction l depth v b and l depth xs b and l depth d b
      rule: validate_node_validate_items_validate_entries.induct)
    (auto intro!: raises_only_then split: pykey.splits)

lemma redact_raises: "raises_only redaction_error (redact r v)"
  unfolding redact_def Let_def by (intro raises_only_then) (simp_all add: validate_raises)

lemma redact_text_raises: "raises_only redaction_error (redact_text r s)"
  unfolding redact_text_def Let_def check_text_def by (intro raises_only_then) simp_all

interpretation secret_redactor: redaction_policy "redact_text r" "redact r" for r
proof
  show "is_exception e" if "redact_text r s = Inl e" for s e
    using that redact_text_raises [of r s] by simp
  show "is_exception e" if "redact r v = Inl e" for v e
    using that redact_raises [of r v] by simp
qed

subsection \<open>Properties\<close>

lemma redact_output:
  assumes "redact r v = Inr w"
  shows "w = transform (substitute_secrets r) v"
    and "\<exists>b. validate_node (sr_limits r) 0 w (0, 0) = Inr b"
  using assms by (auto simp: redact_def Let_def)

lemma check_redaction_limits_ok:
  "check_redaction_limits l = Inr u \<longleftrightarrow>
     1 \<le> rl_max_depth l \<and> rl_max_depth l \<le> 64 \<and> 1 \<le> rl_max_nodes l \<and> rl_max_nodes l \<le> 65536 \<and>
     1 \<le> rl_max_text_bytes l \<and> rl_max_text_bytes l \<le> 1048576"
  by (auto simp: check_redaction_limits_def simp del: for_each.simps)

lemma spends_from_zero:
  assumes "spends l (0, 0) nodes bytes b" "0 \<le> rl_max_nodes l" "0 \<le> rl_max_text_bytes l"
  shows "int nodes \<le> rl_max_nodes l \<and> int bytes \<le> rl_max_text_bytes l"
  using assms by (auto simp: spends_def)

text \<open>
  C18. Redaction of a JSON value hides what stands under secret keys and keeps the rest in place:
  the output has the structure of the input, every dictionary keeps all its entries under
  distinct keys, every value under a secret key is the redaction mark, and the output is within
  the limits on nodes and bytes of text.
\<close>

theorem redact_hides:
  assumes "redact r v = Inr w" and "check_redaction_limits (sr_limits r) = okay"
  shows "hides v w \<and> int (json_nodes w) \<le> rl_max_nodes (sr_limits r) \<and>
    int (text_bytes w) \<le> rl_max_text_bytes (sr_limits r)"
proof -
  obtain b where "validate_node (sr_limits r) 0 w (0, 0) = Inr b"
    using redact_output(2) [OF assms(1)] by auto
  from spends_from_zero [OF validate_spends(1) [OF this]] assms(2)
  have "int (json_nodes w) \<le> rl_max_nodes (sr_limits r) \<and> int (text_bytes w) \<le> rl_max_text_bytes (sr_limits r)"
    by (simp add: check_redaction_limits_ok)
  then show ?thesis
    using redact_output(1) [OF assms(1)] transform_hides(1) by simp
qed

definition sample_redactor :: secret_redactor where
  "sample_redactor = make_secret_redactor [SecretValue ''hunter2''] default_redaction_limits"

definition sample_record :: "string \<Rightarrow> pyval" where
  "sample_record secret = obj [(''token'', PStr secret), (''n'', PInt 1)]"

definition sample_redacted :: pyval where
  "sample_redacted = obj [(''token'', PStr redacted_text), (''n'', PInt 1)]"

lemma sample_redact: "redact sample_redactor (sample_record ''k1'') = Inr sample_redacted"
  by code_simp

theorem redact_hides_witness:
  "hides (sample_record ''k1'') sample_redacted \<and> int (json_nodes sample_redacted) \<le> 65536"
proof -
  have "check_redaction_limits (sr_limits sample_redactor) = okay"
    by (simp add: sample_redactor_def make_secret_redactor_def check_redaction_limits_ok
        default_redaction_limits_def)
  from redact_hides [OF sample_redact this] show ?thesis
    by (simp add: sample_redactor_def make_secret_redactor_def default_redaction_limits_def)
qed

text \<open>
  C19. Nothing of a value under a secret key reaches the output: two inputs that differ at most
  there, wherever the keys are nested, have the same redaction.
\<close>

theorem redact_independent:
  assumes "public_eq v w" and "redact r v = Inr v'" and "redact r w = Inr w'"
  shows "v' = w'"
  using redact_output(1) [OF assms(2)] redact_output(1) [OF assms(3)] transform_public_eq(1) [OF assms(1)] by simp

lemma sample_redact_other: "is_ok (redact sample_redactor (sample_record ''k2''))"
  by code_simp

theorem redact_independent_witness:
  "\<exists>w. redact sample_redactor (sample_record ''k1'') = Inr w \<and>
     redact sample_redactor (sample_record ''k2'') = Inr w"
proof -
  have "public_eq (sample_record ''k1'') (sample_record ''k2'')" by code_simp
  moreover obtain w where w: "redact sample_redactor (sample_record ''k2'') = Inr w"
    using sample_redact_other by (auto simp: is_ok_iff)
  ultimately have "sample_redacted = w"
    using redact_independent [OF _ sample_redact w] by blast
  with sample_redact w show ?thesis by blast
qed

end
