(* ===== verification/Tool_Policy.thy ===== *)
theory Tool_Policy
  imports Errors Canonical_Json
begin

section \<open>The tool policy\<close>

text \<open>
  Models \<^verbatim>\<open>src/tesserix_mcp_runtime/policy.py\<close>: reviews, rules and approval records with their
  validation, the configuration checks of \<open>ToolPolicy.__init__\<close>, and \<open>authorize\<close> with its guards
  in the order of the code, the audit event of every decision and the errors of the ports it
  calls.

  The approval store, the audit sink, the wall clock and the redactor are the record of ports;
  they answer or raise. The state is the audit log, the number of clock readings and the
  consumption requests made. The canonical text of a float and the SHA-256 digest are the two
  arguments \<open>frepr\<close> and \<open>sha\<close>.
\<close>

datatype policy_state = Policy_EXPERIMENTAL | Policy_ACTIVE | Policy_DISABLED

datatype approval_use = Use_ONE_TIME | Use_REUSABLE

datatype policy_decision =
    Decided_ALLOWED
  | Decided_APPROVAL_DENIED
  | Decided_APPROVAL_REQUIRED
  | Decided_IDEMPOTENCY_REQUIRED
  | Decided_POLICY_BACKEND_UNAVAILABLE
  | Decided_POLICY_DENIED
  | Decided_SCOPE_DENIED

fun decision_value :: "policy_decision \<Rightarrow> string" where
  "decision_value Decided_ALLOWED = ''allowed''"
| "decision_value Decided_APPROVAL_DENIED = ''approval_denied''"
| "decision_value Decided_APPROVAL_REQUIRED = ''approval_required''"
| "decision_value Decided_IDEMPOTENCY_REQUIRED = ''idempotency_required''"
| "decision_value Decided_POLICY_BACKEND_UNAVAILABLE = ''policy_backend_unavailable''"
| "decision_value Decided_POLICY_DENIED = ''policy_denied''"
| "decision_value Decided_SCOPE_DENIED = ''scope_denied''"

subsection \<open>Reviews, rules and approval records\<close>

definition require_text_tuple :: "string \<Rightarrow> string list \<Rightarrow> check" where
  "require_text_tuple name items =
     raise_if (length items > 32) (ValueError (name @ '' must be a bounded immutable tuple''))
     (and_then (for_each (\<lambda>v. require_text name v 256) items) (\<lambda>_.
      raise_if (\<not> distinct items) (ValueError (name @ '' must not contain duplicates'')) okay))"

definition check_digest :: "string \<Rightarrow> string \<Rightarrow> check" where
  "check_digest name v =
     raise_if (\<not> fullmatch hex64 v) (ValueError (name @ '' must be a lowercase SHA-256 digest'')) okay"

record tool_review =
  rv_id :: string
  rv_author :: string
  rv_reviewer :: string
  rv_fingerprint :: string

definition check_tool_review :: "tool_review \<Rightarrow> check" where
  "check_tool_review r =
     and_then (require_text ''review_id'' (rv_id r) 256) (\<lambda>_.
     and_then (require_text ''author_subject'' (rv_author r) 512) (\<lambda>_.
     and_then (require_text ''reviewer_subject'' (rv_reviewer r) 512) (\<lambda>_.
     raise_if (rv_author r = rv_reviewer r) (ValueError ''review must be independent'')
       (check_digest ''reviewed_fingerprint'' (rv_fingerprint r)))))"

definition canonical_fingerprint ::
  "(rat \<Rightarrow> string) \<Rightarrow> (string \<Rightarrow> string) \<Rightarrow> pyval \<Rightarrow> (value_error, string) result" where
  "canonical_fingerprint frepr sha v =
     and_then (canonical_json frepr v) (\<lambda>text. Inr (digest_text sha text))"

definition approval_action :: "string \<Rightarrow> string \<Rightarrow> string \<Rightarrow> string \<Rightarrow> string \<Rightarrow> pyval" where
  "approval_action tenant subject tool tool_fp args_fp = obj
     [(''tenant'', PStr tenant), (''subject'', PStr subject), (''tool_name'', PStr tool),
      (''tool_fingerprint'', PStr tool_fp), (''arguments_fingerprint'', PStr args_fp)]"

definition approval_action_fingerprint ::
  "(rat \<Rightarrow> string) \<Rightarrow> (string \<Rightarrow> string) \<Rightarrow> string \<Rightarrow> string \<Rightarrow> string \<Rightarrow> string \<Rightarrow> string
     \<Rightarrow> (value_error, string) result" where
  "approval_action_fingerprint frepr sha tenant subject tool tool_fp args_fp =
     canonical_fingerprint frepr sha (approval_action tenant subject tool tool_fp args_fp)"

record approval_record =
  ar_id :: string
  ar_action_fingerprint :: string
  ar_tenant :: string
  ar_subject :: string
  ar_tool_name :: string
  ar_tool_fingerprint :: string
  ar_arguments_fingerprint :: string
  ar_expires_at :: pyfloat
  ar_use :: approval_use

definition check_approval_record ::
  "(rat \<Rightarrow> string) \<Rightarrow> (string \<Rightarrow> string) \<Rightarrow> approval_record \<Rightarrow> check" where
  "check_approval_record frepr sha r =
     and_then (for_each (\<lambda>(name, v, maximum). require_text name v maximum)
       [(''approval_id'', ar_id r, 256), (''tenant'', ar_tenant r, 256),
        (''subject'', ar_subject r, 512), (''tool_name'', ar_tool_name r, 128)]) (\<lambda>_.
     and_then (for_each (\<lambda>(name, v). check_digest name v)
       [(''action_fingerprint'', ar_action_fingerprint r), (''tool_fingerprint'', ar_tool_fingerprint r),
        (''arguments_fingerprint'', ar_arguments_fingerprint r)]) (\<lambda>_.
     and_then (approval_action_fingerprint frepr sha (ar_tenant r) (ar_subject r) (ar_tool_name r)
         (ar_tool_fingerprint r) (ar_arguments_fingerprint r)) (\<lambda>expected.
     raise_if (ar_action_fingerprint r \<noteq> expected)
       (ValueError ''action_fingerprint must bind the exact approval fields'')
     (raise_if (\<not> is_finite (ar_expires_at r) \<or> ar_expires_at r < Fin 0)
       (ValueError ''expires_at must be a finite non-negative timestamp'') okay))))"

definition tool_policy_fingerprint ::
  "(rat \<Rightarrow> string) \<Rightarrow> (string \<Rightarrow> string) \<Rightarrow> tool_manifest \<Rightarrow> (value_error, string) result" where
  "tool_policy_fingerprint frepr sha m = canonical_fingerprint frepr sha (manifest_to_dict m)"

definition manifest_name :: "tool_manifest \<Rightarrow> string" where
  "manifest_name m = tm_name (mf_metadata m)"

definition approval_for_action ::
  "(rat \<Rightarrow> string) \<Rightarrow> (string \<Rightarrow> string) \<Rightarrow> string \<Rightarrow> string \<Rightarrow> string \<Rightarrow> tool_manifest \<Rightarrow> pyval
     \<Rightarrow> pyfloat \<Rightarrow> approval_use \<Rightarrow> (value_error, approval_record) result" where
  "approval_for_action frepr sha aid tenant subject m arguments expires_at use =
     and_then (tool_policy_fingerprint frepr sha m) (\<lambda>tool_fp.
     and_then (canonical_fingerprint frepr sha arguments) (\<lambda>args_fp.
     and_then (approval_action_fingerprint frepr sha tenant subject (manifest_name m) tool_fp args_fp)
       (\<lambda>action_fp.
     let r = \<lparr>ar_id = aid, ar_action_fingerprint = action_fp, ar_tenant = tenant, ar_subject = subject,
         ar_tool_name = manifest_name m, ar_tool_fingerprint = tool_fp,
         ar_arguments_fingerprint = args_fp, ar_expires_at = expires_at, ar_use = use\<rparr> in
     and_then (check_approval_record frepr sha r) (\<lambda>_. Inr r))))"

record policy_rule =
  ru_tool_name :: string
  ru_reviewed_fingerprint :: string
  ru_allowed_scopes :: "string list"
  ru_state :: policy_state
  ru_review :: "tool_review option"

definition check_policy_rule :: "policy_rule \<Rightarrow> check" where
  "check_policy_rule r =
     and_then (require_text ''tool_name'' (ru_tool_name r) 128) (\<lambda>_.
     and_then (check_digest ''reviewed_fingerprint'' (ru_reviewed_fingerprint r)) (\<lambda>_.
     require_text_tuple ''allowed_scopes'' (ru_allowed_scopes r)))"

record policy_audit =
  pa_decision :: policy_decision
  pa_request_id :: string
  pa_run_id :: string
  pa_tenant :: string
  pa_subject_hash :: string
  pa_tool_name :: string
  pa_tool_fingerprint :: string
  pa_effect :: tool_effect
  pa_scopes :: "string list"
  pa_approval_id :: "string option"
  pa_idempotency_key_hash :: "string option"
  pa_occurred_at :: pyfloat

definition policy_audit_to_dict :: "policy_audit \<Rightarrow> pyval" where
  "policy_audit_to_dict a = obj
     [(''decision'', PStr (decision_value (pa_decision a))),
      (''request_id'', PStr (pa_request_id a)),
      (''run_id'', PStr (pa_run_id a)),
      (''tenant'', PStr (pa_tenant a)),
      (''subject_hash'', PStr (pa_subject_hash a)),
      (''tool_name'', PStr (pa_tool_name a)),
      (''tool_fingerprint'', PStr (pa_tool_fingerprint a)),
      (''effect'', PStr (effect_value (pa_effect a))),
      (''scopes'', pstrs (pa_scopes a)),
      (''approval_id'', of_opt_str (pa_approval_id a)),
      (''idempotency_key_hash'', of_opt_str (pa_idempotency_key_hash a)),
      (''occurred_at'', PFloat (pa_occurred_at a))]"

subsection \<open>Configuration\<close>

text \<open>A registered tool: the identity of its definition object, its metadata and schemas.\<close>

record tool_definition =
  df_id :: nat
  df_metadata :: tool_metadata
  df_input_schema :: pyval
  df_output_schema :: pyval

record tool_policy =
  tp_server_scopes :: "string list"
  tp_rules :: "(string \<times> policy_rule) list"
  tp_fingerprints :: "(string \<times> string) list"
  tp_manifests :: "(nat \<times> tool_manifest) list"

datatype policy_error = PolicyValueError string | PolicyConfigurationError string string

fun policy_value_error :: "(value_error, 'a) result \<Rightarrow> (policy_error, 'a) result" where
  "policy_value_error (Inl (ValueError s)) = Inl (PolicyValueError s)"
| "policy_value_error (Inr a) = Inr a"

text \<open>A dictionary built from pairs: the last pair of a key wins.\<close>

definition dict_of :: "('k \<times> 'v) list \<Rightarrow> ('k \<times> 'v) list" where
  "dict_of kvs = fold (\<lambda>(k, v) d. dict_put k v d) kvs []"

definition rule_path :: "nat \<Rightarrow> string \<Rightarrow> string" where
  "rule_path i field = ''rules['' @ nat_digits i @ '']'' @ field"

definition check_active_rule ::
  "(string \<times> tool_manifest) list \<Rightarrow> (string \<times> string) list \<Rightarrow> bool \<Rightarrow> nat \<times> policy_rule
     \<Rightarrow> (policy_error, unit) result" where
  "check_active_rule manifests fingerprints has_store ir =
     (case ir of (i, rule) \<Rightarrow>
        if ru_state rule \<noteq> Policy_ACTIVE then Inr ()
        else
          (case map_of manifests (ru_tool_name rule) of
             None \<Rightarrow> Inl (PolicyConfigurationError ''unknown_tool'' (rule_path i ''.tool_name''))
           | Some m \<Rightarrow>
               raise_if (map_of fingerprints (ru_tool_name rule) \<noteq> Some (ru_reviewed_fingerprint rule))
                 (PolicyConfigurationError ''review_mismatch'' (rule_path i ''.reviewed_fingerprint''))
               (raise_if (tm_effect (mf_metadata m) \<noteq> Effect_READ \<and> ru_review rule = None)
                 (PolicyConfigurationError ''independent_review_required'' (rule_path i ''.review''))
               (raise_if (case ru_review rule of None \<Rightarrow> False
                    | Some review \<Rightarrow> rv_fingerprint review \<noteq> ru_reviewed_fingerprint rule)
                 (PolicyConfigurationError ''review_mismatch'' (rule_path i ''.review.reviewed_fingerprint''))
               (raise_if (tm_approval (mf_metadata m) = Approval_REQUIRED \<and> \<not> has_store)
                 (PolicyConfigurationError ''approval_store_required'' ''approval_store'')
                 (Inr ()))))))"

definition make_tool_policy ::
  "(rat \<Rightarrow> string) \<Rightarrow> (string \<Rightarrow> string) \<Rightarrow> (tool_definition \<times> tool_manifest) list \<Rightarrow> string list
     \<Rightarrow> policy_rule list \<Rightarrow> bool \<Rightarrow> (policy_error, tool_policy) result" where
  "make_tool_policy frepr sha catalog server_scopes rules has_store =
     and_then (policy_value_error (require_text_tuple ''server_scopes'' server_scopes)) (\<lambda>_.
     raise_if (\<not> distinct (map ru_tool_name rules))
       (PolicyValueError ''rules must not contain duplicate tool names'')
     (let manifests = dict_of (map (\<lambda>(d, m). (manifest_name m, m)) catalog) in
      and_then (policy_value_error (map_result (\<lambda>(name, m).
          and_then (tool_policy_fingerprint frepr sha m) (\<lambda>fp. Inr (name, fp))) manifests))
        (\<lambda>fingerprints.
      and_then (for_each (check_active_rule manifests fingerprints has_store) (List.enumerate 0 rules)) (\<lambda>_.
      Inr \<lparr>tp_server_scopes = server_scopes,
           tp_rules = dict_of (map (\<lambda>rule. (ru_tool_name rule, rule)) rules),
           tp_fingerprints = fingerprints,
           tp_manifests = dict_of (map (\<lambda>(d, m). (df_id d, m)) catalog)\<rparr>))))"

definition is_exported :: "tool_policy \<Rightarrow> string \<Rightarrow> bool" where
  "is_exported p name = (case map_of (tp_rules p) name of
     None \<Rightarrow> False | Some rule \<Rightarrow> ru_state rule = Policy_ACTIVE)"

subsection \<open>Ports and state\<close>

datatype fetch_outcome = Fetched approval_record | Fetched_other | Fetch_raises

datatype consume_outcome = Consume_returns bool | Consume_raises

record policy_ports =
  po_fetch :: "string \<Rightarrow> fetch_outcome"
  po_consume :: "string \<Rightarrow> string \<Rightarrow> consume_outcome"
  po_append :: "policy_audit \<Rightarrow> bool"
  po_clock :: "nat \<Rightarrow> pyfloat option"
  po_redact :: "string \<Rightarrow> string option"

record policy_run =
  pr_events :: "policy_audit list"
  pr_reads :: nat
  pr_consumed :: "(string \<times> string) list"

abbreviation unavailable :: exn where
  "unavailable \<equiv> runtime_failure UNAVAILABLE"

definition value_error_exn :: exn where
  "value_error_exn = \<lparr>exn_kind = PyValueError, exn_type = ''ValueError''\<rparr>"

fun lift_value_error :: "(value_error, 'a) result \<Rightarrow> (exn, 'a) result" where
  "lift_value_error (Inl e) = Inl value_error_exn"
| "lift_value_error (Inr a) = Inr a"

definition policy_now :: "policy_ports \<Rightarrow> policy_run \<Rightarrow> (exn, pyfloat) result \<times> policy_run" where
  "policy_now ports s =
     (let t = s\<lparr>pr_reads := pr_reads s + 1\<rparr> in
      case po_clock ports (pr_reads s) of
        None \<Rightarrow> (Inl unavailable, t)
      | Some now \<Rightarrow> if \<not> is_finite now \<or> now < Fin 0 then (Inl unavailable, t) else (Inr now, t))"

definition redact_audit_text :: "policy_ports \<Rightarrow> string \<Rightarrow> (exn, string) result" where
  "redact_audit_text ports v = (case po_redact ports v of None \<Rightarrow> Inl unavailable | Some r \<Rightarrow> Inr r)"

definition policy_append :: "policy_ports \<Rightarrow> policy_audit \<Rightarrow> policy_run \<Rightarrow> (exn, unit) result \<times> policy_run"
where
  "policy_append ports ev s =
     (if po_append ports ev then (Inr (), s\<lparr>pr_events := pr_events s @ [ev]\<rparr>)
      else (Inl unavailable, s))"

definition policy_event ::
  "(rat \<Rightarrow> string) \<Rightarrow> (string \<Rightarrow> string) \<Rightarrow> policy_ports \<Rightarrow> tool_policy \<Rightarrow> policy_decision
     \<Rightarrow> tool_manifest \<Rightarrow> call_context \<Rightarrow> policy_run \<Rightarrow> (exn, policy_audit) result \<times> policy_run" where
  "policy_event frepr sha ports p decision m c s =
     (let texts =
        and_then (case map_of (tp_fingerprints p) (manifest_name m) of
            Some fp \<Rightarrow> Inr fp
          | None \<Rightarrow> lift_value_error (tool_policy_fingerprint frepr sha m)) (\<lambda>fp.
        and_then (redact_audit_text ports (cc_request_id c)) (\<lambda>request.
        and_then (redact_audit_text ports (cc_run_id c)) (\<lambda>run.
        and_then (redact_audit_text ports (ctx_tenant c)) (\<lambda>tenant.
        and_then (redact_audit_text ports (manifest_name m)) (\<lambda>name.
        and_then (map_result (redact_audit_text ports) (sort (ctx_scopes c))) (\<lambda>scopes.
        and_then (case cc_approval_id c of None \<Rightarrow> Inr None
          | Some a \<Rightarrow> and_then (redact_audit_text ports a) (\<lambda>r. Inr (Some r))) (\<lambda>approval.
        Inr (\<lambda>now. \<lparr>pa_decision = decision, pa_request_id = request, pa_run_id = run,
          pa_tenant = tenant, pa_subject_hash = digest_text sha (ctx_subject c), pa_tool_name = name,
          pa_tool_fingerprint = fp, pa_effect = tm_effect (mf_metadata m), pa_scopes = scopes,
          pa_approval_id = approval,
          pa_idempotency_key_hash = map_option (digest_text sha) (cc_idempotency_key c),
          pa_occurred_at = now\<rparr>))))))))
      in run_then (texts, s) (\<lambda>make s.
         run_then (policy_now ports s) (\<lambda>now s. (Inr (make now), s))))"

definition policy_audit_decision ::
  "(rat \<Rightarrow> string) \<Rightarrow> (string \<Rightarrow> string) \<Rightarrow> policy_ports \<Rightarrow> tool_policy \<Rightarrow> policy_decision
     \<Rightarrow> tool_manifest \<Rightarrow> call_context \<Rightarrow> policy_run \<Rightarrow> (exn, unit) result \<times> policy_run" where
  "policy_audit_decision frepr sha ports p decision m c s =
     run_then (policy_event frepr sha ports p decision m c s) (\<lambda>ev s. policy_append ports ev s)"

text \<open>\<open>str.casefold\<close> on the ASCII names that tool metadata allows.\<close>

definition fold_case :: "string \<Rightarrow> string" where
  "fold_case s = map (\<lambda>c. if is_upper c then char_of (ord_of c + 32) else c) s"

text \<open>
  \<open>_deny\<close>: it always raises. A failure of the audit that is a \<open>RuntimeFailure\<close> is replaced by the
  denial itself.
\<close>

definition policy_deny ::
  "(rat \<Rightarrow> string) \<Rightarrow> (string \<Rightarrow> string) \<Rightarrow> policy_ports \<Rightarrow> tool_policy \<Rightarrow> policy_decision
     \<Rightarrow> error_code \<Rightarrow> tool_manifest option \<Rightarrow> tool_definition \<Rightarrow> call_context \<Rightarrow> policy_run
     \<Rightarrow> exn \<times> policy_run" where
  "policy_deny frepr sha ports p decision code m tool c s =
     (case (case m of Some m' \<Rightarrow> Inr m'
        | None \<Rightarrow> lift_value_error (make_tool_manifest frepr sha (df_metadata tool)
            (fold_case (tm_name (df_metadata tool))) (df_input_schema tool) (df_output_schema tool))) of
        Inl e \<Rightarrow> (e, s)
      | Inr resolved \<Rightarrow>
          (case policy_audit_decision frepr sha ports p decision resolved c s of
             (Inr _, t) \<Rightarrow> (runtime_failure code, t)
           | (Inl e, t) \<Rightarrow>
               (case exn_kind e of RuntimeFailure _ \<Rightarrow> (runtime_failure code, t) | _ \<Rightarrow> (e, t))))"

definition backend_unavailable ::
  "(rat \<Rightarrow> string) \<Rightarrow> (string \<Rightarrow> string) \<Rightarrow> policy_ports \<Rightarrow> tool_policy \<Rightarrow> tool_manifest
     \<Rightarrow> call_context \<Rightarrow> policy_run \<Rightarrow> exn \<times> policy_run" where
  "backend_unavailable frepr sha ports p m c s =
     (case policy_audit_decision frepr sha ports p Decided_POLICY_BACKEND_UNAVAILABLE m c s of
        (Inl e, t) \<Rightarrow> (e, t)
      | (Inr _, t) \<Rightarrow> (unavailable, t))"

text \<open>The comparison of the fetched record with the call; the clock is read last.\<close>

definition record_differs :: "approval_record \<Rightarrow> string \<Rightarrow> call_context \<Rightarrow> string \<Rightarrow> string \<Rightarrow> string \<Rightarrow> string \<Rightarrow> bool"
where
  "record_differs r aid c tool tool_fp args_fp action_fp \<longleftrightarrow>
     ar_id r \<noteq> aid \<or> ar_tenant r \<noteq> ctx_tenant c \<or> ar_subject r \<noteq> ctx_subject c \<or>
     ar_tool_name r \<noteq> tool \<or> ar_tool_fingerprint r \<noteq> tool_fp \<or>
     ar_arguments_fingerprint r \<noteq> args_fp \<or> ar_action_fingerprint r \<noteq> action_fp"

fun raising :: "exn \<times> policy_run \<Rightarrow> (exn, unit) result \<times> policy_run" where
  "raising (e, s) = (Inl e, s)"

definition key_error :: exn where
  "key_error = \<lparr>exn_kind = KeyError, exn_type = ''KeyError''\<rparr>"

definition consume_approval ::
  "(rat \<Rightarrow> string) \<Rightarrow> (string \<Rightarrow> string) \<Rightarrow> policy_ports \<Rightarrow> tool_policy \<Rightarrow> tool_definition
     \<Rightarrow> tool_manifest \<Rightarrow> call_context \<Rightarrow> string \<Rightarrow> string \<Rightarrow> policy_run
     \<Rightarrow> (exn, unit) result \<times> policy_run" where
  "consume_approval frepr sha ports p tool m c aid action_fp s =
     (let t = s\<lparr>pr_consumed := pr_consumed s @ [(aid, action_fp)]\<rparr> in
      case po_consume ports aid action_fp of
        Consume_raises \<Rightarrow> raising (backend_unavailable frepr sha ports p m c t)
      | Consume_returns ok \<Rightarrow>
          if \<not> ok then
            raising (policy_deny frepr sha ports p Decided_APPROVAL_DENIED APPROVAL_REQUIRED (Some m) tool c t)
          else (Inr (), t))"

text \<open>The checks of a fetched record, up to its consumption.\<close>

definition check_fetched ::
  "(rat \<Rightarrow> string) \<Rightarrow> (string \<Rightarrow> string) \<Rightarrow> policy_ports \<Rightarrow> tool_policy \<Rightarrow> tool_definition
     \<Rightarrow> tool_manifest \<Rightarrow> call_context \<Rightarrow> string \<Rightarrow> approval_record \<Rightarrow> string \<Rightarrow> string
     \<Rightarrow> policy_run \<Rightarrow> (exn, unit) result \<times> policy_run" where
  "check_fetched frepr sha ports p tool m c aid r tool_fp args_fp s =
     (let denied = (\<lambda>s. raising (policy_deny frepr sha ports p Decided_APPROVAL_DENIED APPROVAL_REQUIRED
          (Some m) tool c s)) in
      run_then (lift_value_error (approval_action_fingerprint frepr sha (ctx_tenant c)
          (ctx_subject c) (manifest_name m) tool_fp args_fp), s) (\<lambda>action_fp s.
      if record_differs r aid c (manifest_name m) tool_fp args_fp action_fp then denied s
      else
        run_then (policy_now ports s) (\<lambda>now s.
        if ar_expires_at r \<le> now then denied s
        else if ar_use r = Use_ONE_TIME then
          consume_approval frepr sha ports p tool m c aid action_fp s
        else (Inr (), s))))"

definition authorize_approval ::
  "(rat \<Rightarrow> string) \<Rightarrow> (string \<Rightarrow> string) \<Rightarrow> policy_ports \<Rightarrow> tool_policy \<Rightarrow> tool_definition
     \<Rightarrow> tool_manifest \<Rightarrow> pyval \<Rightarrow> call_context \<Rightarrow> policy_run \<Rightarrow> (exn, unit) result \<times> policy_run" where
  "authorize_approval frepr sha ports p tool m arguments c s =
     (let deny = (\<lambda>decision s.
          raising (policy_deny frepr sha ports p decision APPROVAL_REQUIRED (Some m) tool c s)) in
      case cc_approval_id c of
        None \<Rightarrow> deny Decided_APPROVAL_REQUIRED s
      | Some aid \<Rightarrow>
          (case po_fetch ports aid of
             Fetch_raises \<Rightarrow> raising (backend_unavailable frepr sha ports p m c s)
           | Fetched_other \<Rightarrow> deny Decided_APPROVAL_DENIED s
           | Fetched r \<Rightarrow>
               run_then (lift_value_error (canonical_fingerprint frepr sha arguments), s) (\<lambda>args_fp s.
               case map_of (tp_fingerprints p) (manifest_name m) of
                 None \<Rightarrow> (Inl key_error, s)
               | Some tool_fp \<Rightarrow>
                   check_fetched frepr sha ports p tool m c aid r tool_fp args_fp s)))"

definition authorize ::
  "(rat \<Rightarrow> string) \<Rightarrow> (string \<Rightarrow> string) \<Rightarrow> policy_ports \<Rightarrow> tool_policy \<Rightarrow> tool_definition
     \<Rightarrow> pyval \<Rightarrow> call_context \<Rightarrow> policy_run \<Rightarrow> (exn, unit) result \<times> policy_run" where
  "authorize frepr sha ports p tool arguments c s =
     (let m = map_of (tp_manifests p) (df_id tool);
          name = (case m of Some m' \<Rightarrow> manifest_name m' | None \<Rightarrow> tm_name (df_metadata tool));
          deny = (\<lambda>decision code. raising (policy_deny frepr sha ports p decision code m tool c s)) in
      case (m, map_of (tp_rules p) name) of
        (Some m', Some rule) \<Rightarrow>
          if ru_state rule \<noteq> Policy_ACTIVE then deny Decided_POLICY_DENIED INVALID_INPUT
          else if \<not> (\<forall>scope\<in>set (tm_required_scopes (mf_metadata m')).
              scope \<in> set (ctx_scopes c) \<and> scope \<in> set (tp_server_scopes p) \<and>
              scope \<in> set (ru_allowed_scopes rule)) then
            deny Decided_SCOPE_DENIED INVALID_INPUT
          else if tm_effect (mf_metadata m') \<noteq> Effect_READ \<and> cc_idempotency_key c = None then
            deny Decided_IDEMPOTENCY_REQUIRED CONFLICT
          else
            run_then (if tm_approval (mf_metadata m') = Approval_REQUIRED
                then authorize_approval frepr sha ports p tool m' arguments c s
                else (Inr (), s)) (\<lambda>_ s.
            policy_audit_decision frepr sha ports p Decided_ALLOWED m' c s)
      | _ \<Rightarrow> deny Decided_POLICY_DENIED INVALID_INPUT)"

subsection \<open>Dictionaries of the configuration\<close>

lemma dict_of_snoc: "dict_of (kvs @ [(k, v)]) = dict_put k v (dict_of kvs)"
  by (simp add: dict_of_def)

lemma map_of_dict_of: "map_of (dict_of kvs) k = map_of (rev kvs) k"
  by (induction kvs rule: rev_induct) (auto simp: dict_of_def)

lemma map_of_dict_of_distinct: "distinct (map fst kvs) \<Longrightarrow> map_of (dict_of kvs) k = map_of kvs k"
proof (cases "map_of kvs k")
  case None
  then have "k \<notin> fst ` set (rev kvs)" by (simp add: map_of_eq_None_iff)
  then show ?thesis unfolding map_of_dict_of None map_of_eq_None_iff .
next
  case (Some v)
  assume "distinct (map fst kvs)"
  moreover from Some have "(k, v) \<in> set (rev kvs)" by (auto dest: map_of_SomeD)
  ultimately show ?thesis
    unfolding map_of_dict_of Some by (intro map_of_is_SomeI) (simp_all add: rev_map [symmetric])
qed

lemma map_of_dict_of_SomeD: "map_of (dict_of kvs) k = Some v \<Longrightarrow> (k, v) \<in> set kvs"
  unfolding map_of_dict_of by (drule map_of_SomeD) simp

lemma policy_value_error_Inr [simp]: "policy_value_error r = Inr a \<longleftrightarrow> r = Inr a"
  by (cases r rule: policy_value_error.cases) auto

lemma lift_value_error_Inr [simp]: "lift_value_error r = Inr a \<longleftrightarrow> r = Inr a"
  by (cases r) auto

text \<open>What a constructed policy knows about an active rule.\<close>

lemma map_of_map_result_pairs:
  assumes "map_result (\<lambda>(k, v). and_then (f v) (\<lambda>y. Inr (k, y))) xs = Inr ys" "map_of xs k = Some v"
  shows "\<exists>y. map_of ys k = Some y \<and> f v = Inr y"
  using assms
  by (induction xs arbitrary: ys) (auto split: sum.splits if_splits)

lemma make_tool_policy_rules:
  assumes "make_tool_policy frepr sha catalog server_scopes rules has_store = Inr p"
    and "map_of (tp_rules p) name = Some rule"
  shows "rule \<in> set rules \<and> ru_tool_name rule = name"
  using assms by (auto simp: make_tool_policy_def Let_def dest!: map_of_dict_of_SomeD)

lemma make_tool_policy_manifest:
  assumes "make_tool_policy frepr sha catalog server_scopes rules has_store = Inr p"
    and "map_of (tp_manifests p) i = Some m"
  obtains d where "(d, m) \<in> set catalog" "df_id d = i"
  using assms by (auto simp: make_tool_policy_def Let_def dest!: map_of_dict_of_SomeD)

lemma make_tool_policy_active:
  assumes p: "make_tool_policy frepr sha catalog server_scopes rules has_store = Inr p"
    and names: "distinct (map (manifest_name \<circ> snd) catalog)"
    and m: "(d, m) \<in> set catalog" and rule: "map_of (tp_rules p) (manifest_name m) = Some rule"
    and active: "ru_state rule = Policy_ACTIVE"
  shows "map_of (tp_fingerprints p) (manifest_name m) = Some (ru_reviewed_fingerprint rule) \<and>
    tool_policy_fingerprint frepr sha m = Inr (ru_reviewed_fingerprint rule) \<and>
    (tm_effect (mf_metadata m) \<noteq> Effect_READ \<longrightarrow> ru_review rule \<noteq> None) \<and>
    (\<forall>review. ru_review rule = Some review \<longrightarrow> rv_fingerprint review = ru_reviewed_fingerprint rule) \<and>
    (tm_approval (mf_metadata m) = Approval_REQUIRED \<longrightarrow> has_store)"
proof -
  define manifests where "manifests = dict_of (map (\<lambda>(d, m). (manifest_name m, m)) catalog)"
  from p obtain fps where fps: "map_result (\<lambda>(name, m).
        and_then (tool_policy_fingerprint frepr sha m) (\<lambda>fp. Inr (name, fp))) manifests = Inr fps"
    and checks: "\<forall>ir\<in>set (List.enumerate 0 rules). check_active_rule manifests fps has_store ir = Inr ()"
    and fp: "tp_fingerprints p = fps"
    by (auto simp: make_tool_policy_def manifests_def Let_def)
  have "map fst (map (\<lambda>(d, m). (manifest_name m, m)) catalog) = map (manifest_name \<circ> snd) catalog"
    by (auto simp: o_def split_beta)
  with names have "distinct (map fst (map (\<lambda>(d, m). (manifest_name m, m)) catalog))" by (simp only:)
  with m have man: "map_of manifests (manifest_name m) = Some m"
    unfolding manifests_def by (subst map_of_dict_of_distinct) (auto intro!: map_of_is_SomeI)
  from make_tool_policy_rules [OF p rule] obtain i where
    "i < length rules" "rules ! i = rule" and name: "ru_tool_name rule = manifest_name m"
    by (auto simp: in_set_conv_nth)
  then have "(i, rule) \<in> set (List.enumerate 0 rules)" by (auto simp: in_set_enumerate_eq)
  with checks have "check_active_rule manifests fps has_store (i, rule) = Inr ()" by blast
  with active man name have c: "map_of fps (manifest_name m) = Some (ru_reviewed_fingerprint rule)"
    "tm_effect (mf_metadata m) \<noteq> Effect_READ \<longrightarrow> ru_review rule \<noteq> None"
    "\<forall>review. ru_review rule = Some review \<longrightarrow> rv_fingerprint review = ru_reviewed_fingerprint rule"
    "tm_approval (mf_metadata m) = Approval_REQUIRED \<longrightarrow> has_store"
    by (auto simp: check_active_rule_def)
  from map_of_map_result_pairs [OF fps man] c(1)
  have "tool_policy_fingerprint frepr sha m = Inr (ru_reviewed_fingerprint rule)" by auto
  with c fp show ?thesis by simp
qed

subsection \<open>A concrete policy\<close>

text \<open>One write tool that requires approval, its rule and an approval, for the instances.\<close>

definition sample_tool :: tool_definition where
  "sample_tool = \<lparr>df_id = 0, df_metadata = \<lparr>tm_name = ''docs.write'', tm_title = ''Write'',
     tm_description = ''Write a document'', tm_effect = Effect_WRITE, tm_approval = Approval_REQUIRED,
     tm_idempotency = Idempotency_REQUIRED, tm_required_scopes = [''docs:write''], tm_discovery = None\<rparr>,
     df_input_schema = PDict [], df_output_schema = PDict []\<rparr>"

definition sample_manifest :: tool_manifest where
  "sample_manifest = \<lparr>mf_metadata = df_metadata sample_tool, mf_normalized_name = ''docs.write'',
     mf_input_fingerprint = ''i'', mf_output_fingerprint = ''o'', mf_contract_fingerprint = ''c'',
     mf_input_schema = PDict [], mf_output_schema = PDict []\<rparr>"

definition sample_digest :: "string \<Rightarrow> string" where
  "sample_digest s = replicate 64 CHR ''a''"

definition sample_rule :: policy_rule where
  "sample_rule = \<lparr>ru_tool_name = ''docs.write'', ru_reviewed_fingerprint = sample_digest [],
     ru_allowed_scopes = [''docs:write''], ru_state = Policy_ACTIVE,
     ru_review = Some \<lparr>rv_id = ''r1'', rv_author = ''alice'', rv_reviewer = ''bob'',
       rv_fingerprint = sample_digest []\<rparr>\<rparr>"

definition sample_call :: call_context where
  "sample_call = sample_context\<lparr>cc_approval_id := Some ''a1''\<rparr>"

definition sample_arguments :: pyval where
  "sample_arguments = obj [(''title'', PStr ''x'')]"

definition approval_for :: "(string \<Rightarrow> string) \<Rightarrow> string \<Rightarrow> approval_record" where
  "approval_for sha tool_fp =
     (let args_fp = (case canonical_fingerprint (\<lambda>q. []) sha sample_arguments of Inr x \<Rightarrow> x | Inl e \<Rightarrow> []) in
      \<lparr>ar_id = ''a1'',
       ar_action_fingerprint = (case approval_action_fingerprint (\<lambda>q. []) sha ''acme'' ''agent'' ''docs.write''
          tool_fp args_fp of Inr x \<Rightarrow> x | Inl e \<Rightarrow> []),
       ar_tenant = ''acme'', ar_subject = ''agent'', ar_tool_name = ''docs.write'',
       ar_tool_fingerprint = tool_fp, ar_arguments_fingerprint = args_fp,
       ar_expires_at = Fin 50, ar_use = Use_ONE_TIME\<rparr>)"

definition sample_ports :: "(string \<Rightarrow> string) \<Rightarrow> string \<Rightarrow> policy_ports" where
  "sample_ports sha tool_fp = \<lparr>po_fetch = (\<lambda>a. if a = ''a1'' then Fetched (approval_for sha tool_fp) else Fetched_other),
     po_consume = (\<lambda>a f. Consume_returns True), po_append = (\<lambda>ev. True),
     po_clock = (\<lambda>i. Some (Fin 10)), po_redact = Some\<rparr>"

definition sample_run :: policy_run where
  "sample_run = \<lparr>pr_events = [], pr_reads = 0, pr_consumed = []\<rparr>"

definition sample_policy :: "string \<Rightarrow> tool_policy" where
  "sample_policy fp = \<lparr>tp_server_scopes = [''docs:write''], tp_rules = [(''docs.write'', sample_rule)],
     tp_fingerprints = [(''docs.write'', fp)], tp_manifests = [(0, sample_manifest)]\<rparr>"

lemma sample_policy_made:
  "make_tool_policy (\<lambda>q. []) sample_digest [(sample_tool, sample_manifest)] [''docs:write''] [sample_rule] True =
     Inr (sample_policy (sample_digest []))"
  by code_simp

lemma sample_authorized:
  "fst (authorize (\<lambda>q. []) sample_digest (sample_ports sample_digest (sample_digest []))
     (sample_policy (sample_digest [])) sample_tool sample_arguments sample_call sample_run) = Inr ()"
  by code_simp

lemma sample_authorized_id:
  "fst (authorize (\<lambda>q. []) id (sample_ports id ''fp'')
     (sample_policy ''fp'') sample_tool sample_arguments sample_call sample_run) = Inr ()"
  by code_simp

lemma sample_approval_made:
  "approval_for_action (\<lambda>q. []) sample_digest ''a1'' (ctx_tenant sample_call) (ctx_subject sample_call)
     sample_manifest sample_arguments (Fin 50) Use_ONE_TIME =
   Inr (approval_for sample_digest (sample_digest []))"
  by code_simp

subsection \<open>Audit\<close>

text \<open>The public error code of a denial; an allowed call has none.\<close>

fun decision_error :: "policy_decision \<Rightarrow> error_code option" where
  "decision_error Decided_ALLOWED = None"
| "decision_error Decided_APPROVAL_DENIED = Some APPROVAL_REQUIRED"
| "decision_error Decided_APPROVAL_REQUIRED = Some APPROVAL_REQUIRED"
| "decision_error Decided_IDEMPOTENCY_REQUIRED = Some CONFLICT"
| "decision_error Decided_POLICY_BACKEND_UNAVAILABLE = Some UNAVAILABLE"
| "decision_error Decided_POLICY_DENIED = Some INVALID_INPUT"
| "decision_error Decided_SCOPE_DENIED = Some INVALID_INPUT"

text \<open>
  A refusal that left the log alone, or logged the one decision its error code belongs to.
\<close>

definition refused_with_log :: "policy_run \<Rightarrow> exn \<Rightarrow> policy_run \<Rightarrow> bool" where
  "refused_with_log s e t \<longleftrightarrow> pr_events t = pr_events s \<or>
     (\<exists>ev code. pr_events t = pr_events s @ [ev] \<and> decision_error (pa_decision ev) = Some code \<and>
        e = runtime_failure code)"

lemma policy_now_events: "policy_now ports s = (r, t) \<Longrightarrow> pr_events t = pr_events s"
  by (auto simp: policy_now_def Let_def split: option.splits if_splits)

lemma policy_event_events:
  assumes "policy_event frepr sha ports p d m c s = (r, t)"
  shows "pr_events t = pr_events s \<and> (\<forall>ev. r = Inr ev \<longrightarrow> pa_decision ev = d)"
proof (cases r)
  case (Inl e)
  with assms show ?thesis
    unfolding policy_event_def Let_def run_then_def
    by (auto split: prod.splits sum.splits dest: policy_now_events)
next
  case (Inr ev)
  with assms show ?thesis
    unfolding policy_event_def Let_def by (auto dest!: policy_now_events)
qed

lemma policy_audit_decision_cases:
  assumes "policy_audit_decision frepr sha ports p d m c s = (r, t)"
  obtains (kept) ev where "r = Inr ()" "pr_events t = pr_events s @ [ev]" "pa_decision ev = d" "po_append ports ev"
  | (lost) e where "r = Inl e" "pr_events t = pr_events s"
proof -
  obtain q u where q: "policy_event frepr sha ports p d m c s = (q, u)"
    by (cases "policy_event frepr sha ports p d m c s") auto
  note ev = policy_event_events [OF q]
  show thesis
  proof (cases q)
    case (Inl e)
    with assms q ev show thesis by (intro lost [of e]) (auto simp: policy_audit_decision_def)
  next
    case (Inr x)
    show thesis
    proof (cases "po_append ports x")
      case True
      with assms q ev Inr show thesis
        by (intro kept [of x]) (auto simp: policy_audit_decision_def policy_append_def)
    next
      case False
      with assms q ev Inr show thesis
        by (intro lost [of unavailable]) (auto simp: policy_audit_decision_def policy_append_def)
    qed
  qed
qed

lemma policy_deny_logs:
  assumes "policy_deny frepr sha ports p d code m tool c s = (e, t)" and "decision_error d = Some code"
  shows "refused_with_log s e t"
proof (cases "case m of Some m' \<Rightarrow> Inr m'
    | None \<Rightarrow> lift_value_error (make_tool_manifest frepr sha (df_metadata tool)
        (fold_case (tm_name (df_metadata tool))) (df_input_schema tool) (df_output_schema tool))")
  case (Inl x)
  with assms(1) show ?thesis by (simp add: policy_deny_def refused_with_log_def)
next
  case (Inr m')
  obtain r u where r: "policy_audit_decision frepr sha ports p d m' c s = (r, u)"
    by (cases "policy_audit_decision frepr sha ports p d m' c s") auto
  from r show ?thesis
  proof (cases rule: policy_audit_decision_cases)
    case (kept ev)
    with assms Inr r show ?thesis by (auto simp: policy_deny_def refused_with_log_def)
  next
    case (lost x)
    with assms(1) Inr r show ?thesis
      by (auto simp: policy_deny_def refused_with_log_def split: exn_kind.splits)
  qed
qed

lemma backend_unavailable_logs:
  assumes "backend_unavailable frepr sha ports p m c s = (e, t)"
  shows "refused_with_log s e t"
proof -
  obtain r u where r: "policy_audit_decision frepr sha ports p Decided_POLICY_BACKEND_UNAVAILABLE m c s = (r, u)"
    by (cases "policy_audit_decision frepr sha ports p Decided_POLICY_BACKEND_UNAVAILABLE m c s") auto
  from r show ?thesis
    by (cases rule: policy_audit_decision_cases)
      (use assms r in \<open>auto simp: backend_unavailable_def refused_with_log_def\<close>)
qed

lemma raising_logs:
  "(\<And>e t. x = (e, t) \<Longrightarrow> refused_with_log s e t) \<Longrightarrow> raising x = (r, t) \<Longrightarrow>
     \<exists>e. r = Inl e \<and> refused_with_log s e t"
  by (cases x) auto

lemma refused_same: "pr_events t = pr_events s \<Longrightarrow> refused_with_log s e t"
  by (simp add: refused_with_log_def)

lemma refused_shift: "refused_with_log s e t \<Longrightarrow> pr_events s = pr_events s' \<Longrightarrow> refused_with_log s' e t"
  by (simp add: refused_with_log_def)

lemma consume_approval_cases:
  assumes "consume_approval frepr sha ports p tool m c aid action_fp s = (r, t)"
  shows "(r = Inr () \<and> pr_events t = pr_events s \<and> po_consume ports aid action_fp = Consume_returns True) \<or>
    (\<exists>e. r = Inl e \<and> refused_with_log s e t)"
proof (cases "po_consume ports aid action_fp")
  case (Consume_returns ok)
  let ?s = "s\<lparr>pr_consumed := pr_consumed s @ [(aid, action_fp)]\<rparr>"
  obtain e u where d: "policy_deny frepr sha ports p Decided_APPROVAL_DENIED APPROVAL_REQUIRED (Some m) tool c ?s
      = (e, u)" by (cases "policy_deny frepr sha ports p Decided_APPROVAL_DENIED APPROVAL_REQUIRED (Some m) tool c ?s")
  from refused_shift [OF policy_deny_logs [OF d], of s] assms Consume_returns d show ?thesis
    by (cases ok) (auto simp: consume_approval_def Let_def)
next
  case Consume_raises
  let ?s = "s\<lparr>pr_consumed := pr_consumed s @ [(aid, action_fp)]\<rparr>"
  obtain e u where d: "backend_unavailable frepr sha ports p m c ?s = (e, u)"
    by (cases "backend_unavailable frepr sha ports p m c ?s")
  from refused_shift [OF backend_unavailable_logs [OF d], of s] assms Consume_raises d show ?thesis
    by (auto simp: consume_approval_def Let_def)
qed

text \<open>
  The approval a call rests on: fetched for its id, bound to its tenant, subject, tool and
  arguments, not expired, and consumed when it is a one-time approval.
\<close>

definition approved_by ::
  "(rat \<Rightarrow> string) \<Rightarrow> (string \<Rightarrow> string) \<Rightarrow> policy_ports \<Rightarrow> string \<Rightarrow> string \<Rightarrow> pyval
     \<Rightarrow> call_context \<Rightarrow> nat \<Rightarrow> approval_record \<Rightarrow> bool" where
  "approved_by frepr sha ports tool tool_fp arguments c reading r \<longleftrightarrow>
     cc_approval_id c = Some (ar_id r) \<and> po_fetch ports (ar_id r) = Fetched r \<and>
     ar_tenant r = ctx_tenant c \<and> ar_subject r = ctx_subject c \<and> ar_tool_name r = tool \<and>
     ar_tool_fingerprint r = tool_fp \<and>
     canonical_fingerprint frepr sha arguments = Inr (ar_arguments_fingerprint r) \<and>
     (\<exists>now. po_clock ports reading = Some now \<and> is_finite now \<and> \<not> ar_expires_at r \<le> now) \<and>
     (ar_use r = Use_ONE_TIME \<longrightarrow> po_consume ports (ar_id r) (ar_action_fingerprint r) = Consume_returns True)"

lemma denied_cases:
  assumes "raising (policy_deny frepr sha ports p d code m tool c s) = (r, t)"
    and "decision_error d = Some code" and "pr_events s = pr_events s'"
  shows "\<exists>e. r = Inl e \<and> refused_with_log s' e t"
proof -
  have "\<exists>e. r = Inl e \<and> refused_with_log s e t"
    by (rule raising_logs [OF _ assms(1)]) (rule policy_deny_logs [OF _ assms(2)])
  with assms(3) show ?thesis by (auto intro: refused_shift)
qed

lemma check_fetched_cases:
  assumes "check_fetched frepr sha ports p tool m c aid a tool_fp args_fp s = (r, t)"
    and "cc_approval_id c = Some aid" and "po_fetch ports aid = Fetched a"
    and "canonical_fingerprint frepr sha arguments = Inr args_fp"
  shows "(r = Inr () \<and> pr_events t = pr_events s \<and>
      approved_by frepr sha ports (manifest_name m) tool_fp arguments c (pr_reads s) a) \<or>
    (\<exists>e. r = Inl e \<and> refused_with_log s e t)"
proof (cases "approval_action_fingerprint frepr sha (ctx_tenant c) (ctx_subject c) (manifest_name m) tool_fp args_fp")
  case (Inl e)
  with assms(1) show ?thesis by (auto simp: check_fetched_def Let_def intro: refused_same)
next
  case (Inr action_fp)
  note run = assms(1) [unfolded check_fetched_def Let_def Inr lift_value_error.simps run_then_simps]
  obtain q u where q: "policy_now ports s = (q, u)" by (cases "policy_now ports s") auto
  note u = policy_now_events [OF q]
  consider (differs) "record_differs a aid c (manifest_name m) tool_fp args_fp action_fp"
    | (clock) e where "\<not> record_differs a aid c (manifest_name m) tool_fp args_fp action_fp" "q = Inl e"
    | (bound) now where "\<not> record_differs a aid c (manifest_name m) tool_fp args_fp action_fp" "q = Inr now"
    by (cases q) auto
  then show ?thesis
  proof cases
    case differs
    with run show ?thesis using denied_cases [of frepr sha ports p Decided_APPROVAL_DENIED] by simp
  next
    case clock
    with run q u show ?thesis by (auto intro: refused_same)
  next
    case bound
    then have now: "po_clock ports (pr_reads s) = Some now" "is_finite now"
      using q by (auto simp: policy_now_def Let_def split: option.splits if_splits)
    have ok: "approved_by frepr sha ports (manifest_name m) tool_fp arguments c (pr_reads s) a"
      if "\<not> ar_expires_at a \<le> now" "ar_use a = Use_ONE_TIME \<longrightarrow> po_consume ports aid action_fp = Consume_returns True"
      using that bound(1) assms(2-4) now by (auto simp: approved_by_def record_differs_def)
    show ?thesis
    proof (cases "ar_expires_at a \<le> now")
      case True
      with run bound q u show ?thesis
        using denied_cases [of frepr sha ports p Decided_APPROVAL_DENIED APPROVAL_REQUIRED "Some m" tool c u r t s]
        by simp
    next
      case False
      show ?thesis
      proof (cases "ar_use a = Use_ONE_TIME")
        case True
        with run bound q False
        have "consume_approval frepr sha ports p tool m c aid action_fp u = (r, t)" by simp
        from consume_approval_cases [OF this] ok [OF False] u show ?thesis
          by (auto intro: refused_shift)
      next
        case reusable: False
        with run bound q False ok u show ?thesis by auto
      qed
    qed
  qed
qed

lemma authorize_approval_cases:
  assumes run: "authorize_approval frepr sha ports p tool m arguments c s = (r, t)"
  shows "(r = Inr () \<and> pr_events t = pr_events s \<and>
      (\<exists>a fp. map_of (tp_fingerprints p) (manifest_name m) = Some fp \<and>
         approved_by frepr sha ports (manifest_name m) fp arguments c (pr_reads s) a)) \<or>
    (\<exists>e. r = Inl e \<and> refused_with_log s e t)"
proof (cases "cc_approval_id c")
  case None
  with run show ?thesis
    using denied_cases [of frepr sha ports p Decided_APPROVAL_REQUIRED APPROVAL_REQUIRED "Some m" tool c s r t s]
    by (simp add: authorize_approval_def Let_def)
next
  case (Some aid)
  show ?thesis
  proof (cases "po_fetch ports aid")
    case (Fetched a)
    consider (args) e where "canonical_fingerprint frepr sha arguments = Inl e"
      | (tool) args_fp where "canonical_fingerprint frepr sha arguments = Inr args_fp"
          "map_of (tp_fingerprints p) (manifest_name m) = None"
      | (compare) args_fp tool_fp where "canonical_fingerprint frepr sha arguments = Inr args_fp"
          "map_of (tp_fingerprints p) (manifest_name m) = Some tool_fp"
      by (metis option.exhaust old.sum.exhaust)
    then show ?thesis
    proof cases
      case compare
      with run Some Fetched
      have "check_fetched frepr sha ports p tool m c aid a tool_fp args_fp s = (r, t)"
        by (simp add: authorize_approval_def Let_def)
      from check_fetched_cases [OF this Some Fetched compare(1)] compare(2) show ?thesis by auto
    qed (use run Some Fetched in \<open>auto simp: authorize_approval_def Let_def intro: refused_same\<close>)
  next
    case Fetched_other
    with run Some show ?thesis
      using denied_cases [of frepr sha ports p Decided_APPROVAL_DENIED APPROVAL_REQUIRED "Some m" tool c s r t s]
      by (simp add: authorize_approval_def Let_def)
  next
    case Fetch_raises
    with run Some have "raising (backend_unavailable frepr sha ports p m c s) = (r, t)"
      by (simp add: authorize_approval_def Let_def)
    then have "\<exists>e. r = Inl e \<and> refused_with_log s e t"
      by (rule raising_logs [rotated]) (rule backend_unavailable_logs)
    then show ?thesis ..
  qed
qed

lemma authorize_cases:
  assumes run: "authorize frepr sha ports p tool arguments c s = (r, t)"
  obtains
    (allowed) m rule ev where "r = Inr ()" "map_of (tp_manifests p) (df_id tool) = Some m"
      "map_of (tp_rules p) (manifest_name m) = Some rule" "ru_state rule = Policy_ACTIVE"
      "set (tm_required_scopes (mf_metadata m)) \<subseteq>
         set (ctx_scopes c) \<inter> set (tp_server_scopes p) \<inter> set (ru_allowed_scopes rule)"
      "tm_effect (mf_metadata m) \<noteq> Effect_READ \<longrightarrow> cc_idempotency_key c \<noteq> None"
      "tm_approval (mf_metadata m) = Approval_REQUIRED \<longrightarrow>
         (\<exists>a fp. map_of (tp_fingerprints p) (manifest_name m) = Some fp \<and>
            approved_by frepr sha ports (manifest_name m) fp arguments c (pr_reads s) a)"
      "pr_events t = pr_events s @ [ev]" "pa_decision ev = Decided_ALLOWED" "po_append ports ev"
  | (refused) e where "r = Inl e" "refused_with_log s e t"
proof (cases "map_of (tp_manifests p) (df_id tool)")
  case None
  with run have "raising (policy_deny frepr sha ports p Decided_POLICY_DENIED INVALID_INPUT None tool c s) = (r, t)"
    by (simp add: authorize_def Let_def)
  from denied_cases [OF this] refused show thesis by auto
next
  case (Some m)
  let ?deny = "\<lambda>d code. raising (policy_deny frepr sha ports p d code (Some m) tool c s)"
  show thesis
  proof (cases "map_of (tp_rules p) (manifest_name m)")
    case None
    with run Some have "?deny Decided_POLICY_DENIED INVALID_INPUT = (r, t)"
      by (simp add: authorize_def Let_def)
    from denied_cases [OF this] refused show thesis by auto
  next
    case rule: (Some rule)
    let ?scopes = "\<forall>scope\<in>set (tm_required_scopes (mf_metadata m)).
      scope \<in> set (ctx_scopes c) \<and> scope \<in> set (tp_server_scopes p) \<and> scope \<in> set (ru_allowed_scopes rule)"
    let ?idem = "tm_effect (mf_metadata m) \<noteq> Effect_READ \<and> cc_idempotency_key c = None"
    consider (inactive) "ru_state rule \<noteq> Policy_ACTIVE"
      | (scopes) "ru_state rule = Policy_ACTIVE" "\<not> ?scopes"
      | (idem) "ru_state rule = Policy_ACTIVE" ?scopes ?idem
      | (go) "ru_state rule = Policy_ACTIVE" ?scopes "\<not> ?idem" by blast
    then show thesis
    proof cases
      case inactive
      with run Some rule have "?deny Decided_POLICY_DENIED INVALID_INPUT = (r, t)"
        by (simp add: authorize_def Let_def)
      from denied_cases [OF this] refused show thesis by auto
    next
      case scopes
      with run Some rule have "?deny Decided_SCOPE_DENIED INVALID_INPUT = (r, t)"
        by (simp add: authorize_def Let_def)
      from denied_cases [OF this] refused show thesis by auto
    next
      case idem
      with run Some rule have "?deny Decided_IDEMPOTENCY_REQUIRED CONFLICT = (r, t)"
        by (simp add: authorize_def Let_def)
      from denied_cases [OF this] refused show thesis by auto
    next
      case go
      define a where "a = (if tm_approval (mf_metadata m) = Approval_REQUIRED
          then authorize_approval frepr sha ports p tool m arguments c s else (Inr (), s))"
      from run Some rule go
      have run': "run_then a (\<lambda>_ s. policy_audit_decision frepr sha ports p Decided_ALLOWED m c s) = (r, t)"
        by (simp add: authorize_def Let_def a_def)
      obtain q u where q: "a = (q, u)" by (cases a)
      have ok: "(q = Inr () \<and> pr_events u = pr_events s \<and> (tm_approval (mf_metadata m) = Approval_REQUIRED \<longrightarrow>
           (\<exists>a fp. map_of (tp_fingerprints p) (manifest_name m) = Some fp \<and>
              approved_by frepr sha ports (manifest_name m) fp arguments c (pr_reads s) a))) \<or>
          (\<exists>e. q = Inl e \<and> refused_with_log s e u)"
        using q authorize_approval_cases [of frepr sha ports p tool m arguments c s q u]
        by (auto simp: a_def split: if_splits)
      show thesis
      proof (cases q)
        case (Inl e)
        with run' q ok show thesis by (intro refused [of e]) auto
      next
        case (Inr x)
        with run' q have "policy_audit_decision frepr sha ports p Decided_ALLOWED m c u = (r, t)" by simp
        then show thesis
        proof (cases rule: policy_audit_decision_cases)
          case (kept ev)
          with Inr ok go show thesis by (intro allowed [OF _ Some rule]) auto
        next
          case (lost e)
          with Inr ok show thesis by (intro refused [of e]) (auto simp: refused_with_log_def)
        qed
      qed
    qed
  qed
qed



text \<open>
  C12. Every decision is accounted for in the audit log. An allowed call has appended exactly one
  event, with the decision \<open>allowed\<close>; a refused one has appended nothing, because the audit or
  an input failed, or exactly one event with a denial, and then the error it raises is the public code of that
  denial. No call is let through without its event being kept.
\<close>

theorem authorize_audited:
  "case authorize frepr sha ports p tool arguments c s of
      (Inr _, t) \<Rightarrow> \<exists>ev. pr_events t = pr_events s @ [ev] \<and> pa_decision ev = Decided_ALLOWED \<and> po_append ports ev
    | (Inl e, t) \<Rightarrow> pr_events t = pr_events s \<or>
        (\<exists>ev code. pr_events t = pr_events s @ [ev] \<and> decision_error (pa_decision ev) = Some code \<and>
           e = runtime_failure code)"
proof -
  obtain r t where run: "authorize frepr sha ports p tool arguments c s = (r, t)"
    by (cases "authorize frepr sha ports p tool arguments c s") auto
  then show ?thesis by (cases rule: authorize_cases) (auto simp: run refused_with_log_def)
qed

subsection \<open>Approvals\<close>

text \<open>
  C10. An approval cannot be moved. If two calls are let through on the same approval record by
  tools that require approval, then they are the same action: same tenant, same subject, same
  tool and manifest fingerprint, and arguments with the same canonical JSON text, provided that
  the digest does not collide on the two texts.
\<close>

theorem approval_binds_action:
  assumes "inj_on sha {x. Inr x \<in> {canonical_json frepr arguments, canonical_json frepr arguments'}}"
    and "map_of (tp_manifests p) (df_id tool) = Some m" "tm_approval (mf_metadata m) = Approval_REQUIRED"
    and "map_of (tp_manifests p') (df_id tool') = Some m'" "tm_approval (mf_metadata m') = Approval_REQUIRED"
    and "cc_approval_id c = Some aid" "cc_approval_id c' = Some aid"
    and "po_fetch ports aid = Fetched a" "po_fetch ports' aid = Fetched a"
    and "authorize frepr sha ports p tool arguments c s = (Inr (), t)"
    and "authorize frepr sha ports' p' tool' arguments' c' s' = (Inr (), t')"
  shows "ctx_tenant c = ctx_tenant c' \<and> ctx_subject c = ctx_subject c' \<and>
    manifest_name m = manifest_name m' \<and>
    map_of (tp_fingerprints p) (manifest_name m) = map_of (tp_fingerprints p') (manifest_name m') \<and>
    canonical_json frepr arguments = canonical_json frepr arguments'"
proof -
  from assms(10) obtain b where b: "approved_by frepr sha ports (manifest_name m)
      (the (map_of (tp_fingerprints p) (manifest_name m))) arguments c (pr_reads s) b"
    "map_of (tp_fingerprints p) (manifest_name m) \<noteq> None"
    by (cases rule: authorize_cases) (use assms(2,3) in auto)
  from assms(11) obtain b' where b': "approved_by frepr sha ports' (manifest_name m')
      (the (map_of (tp_fingerprints p') (manifest_name m'))) arguments' c' (pr_reads s') b'"
    "map_of (tp_fingerprints p') (manifest_name m') \<noteq> None"
    by (cases rule: authorize_cases) (use assms(4,5) in auto)
  have same: "b = a" "b' = a"
    using b(1) b'(1) assms(6-9) by (auto simp: approved_by_def)
  obtain x where x: "canonical_json frepr arguments = Inr x" "sha x = ar_arguments_fingerprint a"
    using b(1) unfolding same approved_by_def by (auto simp: canonical_fingerprint_def digest_text_def)
  obtain y where y: "canonical_json frepr arguments' = Inr y" "sha y = ar_arguments_fingerprint a"
    using b'(1) unfolding same approved_by_def by (auto simp: canonical_fingerprint_def digest_text_def)
  have "x = y" using assms(1) by (rule inj_onD) (simp_all add: x y)
  then have "canonical_json frepr arguments = canonical_json frepr arguments'" by (simp add: x y)
  moreover from b(1) have "ar_tenant a = ctx_tenant c \<and> ar_subject a = ctx_subject c \<and>
      ar_tool_name a = manifest_name m \<and>
      ar_tool_fingerprint a = the (map_of (tp_fingerprints p) (manifest_name m))"
    unfolding same approved_by_def by simp
  moreover from b'(1) have "ar_tenant a = ctx_tenant c' \<and> ar_subject a = ctx_subject c' \<and>
      ar_tool_name a = manifest_name m' \<and>
      ar_tool_fingerprint a = the (map_of (tp_fingerprints p') (manifest_name m'))"
    unfolding same approved_by_def by simp
  ultimately show ?thesis using b(2) b'(2) by (metis option.expand)
qed

theorem approval_binds_action_witness:
  "let run = authorize (\<lambda>q. []) id (sample_ports id ''fp'') (sample_policy ''fp'') sample_tool
     sample_arguments sample_call sample_run in
   fst run = Inr () \<and> ctx_tenant sample_call = ''acme'' \<and>
   canonical_json (\<lambda>q. []) sample_arguments = canonical_json (\<lambda>q. []) sample_arguments"
proof -
  have m: "map_of (tp_manifests (sample_policy ''fp'')) (df_id sample_tool) = Some sample_manifest"
    "tm_approval (mf_metadata sample_manifest) = Approval_REQUIRED"
    by (simp_all add: sample_policy_def sample_manifest_def sample_tool_def)
  have c: "cc_approval_id sample_call = Some ''a1''"
    "po_fetch (sample_ports id ''fp'') ''a1'' = Fetched (approval_for id ''fp'')"
    by (simp_all add: sample_call_def sample_ports_def)
  from sample_authorized_id obtain t where run: "authorize (\<lambda>q. []) id (sample_ports id ''fp'')
      (sample_policy ''fp'') sample_tool sample_arguments sample_call sample_run = (Inr (), t)"
    by (metis prod.collapse)
  from approval_binds_action [OF inj_on_id m m c(1) c(1) c(2) c(2) run run] run show ?thesis
    by (simp add: sample_call_def sample_context_def sample_identity_def ctx_tenant_def)
qed

text \<open>Ports that work: nothing raises, and the clock reads a fixed time.\<close>

definition ports_at :: "policy_ports \<Rightarrow> rat \<Rightarrow> bool" where
  "ports_at ports now \<longleftrightarrow> 0 \<le> now \<and> (\<forall>i. po_clock ports i = Some (Fin now)) \<and>
     (\<forall>v. po_redact ports v \<noteq> None) \<and> (\<forall>ev. po_append ports ev)"

lemma redact_ok: "ports_at ports now \<Longrightarrow> \<exists>w. redact_audit_text ports v = Inr w"
  by (auto simp: ports_at_def redact_audit_text_def split: option.splits)

lemma redact_all_ok: "ports_at ports now \<Longrightarrow> \<exists>ws. map_result (redact_audit_text ports) vs = Inr ws"
proof (induction vs)
  case (Cons v vs)
  with redact_ok [of ports now v] show ?case by auto
qed simp

lemma policy_now_ok: "ports_at ports now \<Longrightarrow> policy_now ports s = (Inr (Fin now), s\<lparr>pr_reads := pr_reads s + 1\<rparr>)"
  by (simp add: ports_at_def policy_now_def Let_def)

lemma policy_audit_decision_ok:
  assumes "ports_at ports now" and "map_of (tp_fingerprints p) (manifest_name m) = Some fp"
  shows "fst (policy_audit_decision frepr sha ports p d m c s) = Inr ()"
proof -
  note r = redact_ok [OF assms(1)]
  obtain w1 w2 w3 w4 ws where w: "redact_audit_text ports (cc_request_id c) = Inr w1"
    "redact_audit_text ports (cc_run_id c) = Inr w2" "redact_audit_text ports (ctx_tenant c) = Inr w3"
    "redact_audit_text ports (manifest_name m) = Inr w4"
    "map_result (redact_audit_text ports) (sort (ctx_scopes c)) = Inr ws"
    using r [of "cc_request_id c"] r [of "cc_run_id c"] r [of "ctx_tenant c"] r [of "manifest_name m"]
      redact_all_ok [OF assms(1), of "sort (ctx_scopes c)"] by blast
  have "\<exists>a. (case cc_approval_id c of None \<Rightarrow> Inr None
      | Some a \<Rightarrow> and_then (redact_audit_text ports a) (\<lambda>r. Inr (Some r))) = Inr a"
  proof (cases "cc_approval_id c")
    case (Some a)
    obtain w where "redact_audit_text ports a = Inr w" using r [of a] by blast
    with Some show ?thesis by simp
  qed simp
  then obtain a' where a': "(case cc_approval_id c of None \<Rightarrow> Inr None
      | Some a \<Rightarrow> and_then (redact_audit_text ports a) (\<lambda>r. Inr (Some r))) = Inr a'" by blast
  have "\<exists>ev t. policy_event frepr sha ports p d m c s = (Inr ev, t)"
    unfolding policy_event_def Let_def assms(2) option.case and_then_simps w a' run_then_simps
      policy_now_ok [OF assms(1)] by blast
  then obtain ev t where "policy_event frepr sha ports p d m c s = (Inr ev, t)" by blast
  moreover have "po_append ports ev" using assms(1) by (simp add: ports_at_def)
  ultimately show ?thesis by (simp add: policy_audit_decision_def policy_append_def)
qed

text \<open>
  C13. An approval made for an action is accepted for it. If \<open>ApprovalRecord.for_action\<close> made a
  record for the tenant, the subject, the manifest and the arguments of a call whose tool has an
  active rule granting its scopes, then \<open>authorize\<close> lets that call through as long as the record
  has not expired, the ports work and the store grants the consumption. Together with the
  converse (\<open>authorize_safe\<close>) the two sides of the approval agree on every fingerprint.
\<close>

theorem approval_for_action_accepted:
  assumes p: "make_tool_policy frepr sha catalog server_scopes rules has_store = Inr p"
    and names: "distinct (map (manifest_name \<circ> snd) catalog)"
    and m: "map_of (tp_manifests p) (df_id tool) = Some m"
    and rule: "map_of (tp_rules p) (manifest_name m) = Some rule" "ru_state rule = Policy_ACTIVE"
    and scopes: "set (tm_required_scopes (mf_metadata m)) \<subseteq>
      set (ctx_scopes c) \<inter> set server_scopes \<inter> set (ru_allowed_scopes rule)"
    and key: "cc_idempotency_key c \<noteq> None"
    and made: "approval_for_action frepr sha aid (ctx_tenant c) (ctx_subject c) m arguments (Fin expiry) use = Inr a"
    and call: "cc_approval_id c = Some aid" "po_fetch ports aid = Fetched a"
      "po_consume ports aid (ar_action_fingerprint a) = Consume_returns True"
    and ports: "ports_at ports now" and fresh: "now < expiry"
  shows "fst (authorize frepr sha ports p tool arguments c s) = Inr ()"
proof -
  obtain d where "(d, m) \<in> set catalog" by (rule make_tool_policy_manifest [OF p m])
  note active = make_tool_policy_active [OF p names this rule]
  define fp where "fp = ru_reviewed_fingerprint rule"
  from made active obtain args_fp action_fp where fps:
    "canonical_fingerprint frepr sha arguments = Inr args_fp"
    "approval_action_fingerprint frepr sha (ctx_tenant c) (ctx_subject c) (manifest_name m) fp args_fp = Inr action_fp"
    and a: "a = \<lparr>ar_id = aid, ar_action_fingerprint = action_fp, ar_tenant = ctx_tenant c,
      ar_subject = ctx_subject c, ar_tool_name = manifest_name m, ar_tool_fingerprint = fp,
      ar_arguments_fingerprint = args_fp, ar_expires_at = Fin expiry, ar_use = use\<rparr>"
    by (auto simp: approval_for_action_def Let_def fp_def)
  have server: "tp_server_scopes p = server_scopes"
    using p by (auto simp: make_tool_policy_def Let_def)
  have fetched: "\<exists>u. check_fetched frepr sha ports p tool m c aid a fp args_fp s = (Inr (), u)"
    using fps call fresh policy_now_ok [OF ports]
    by (auto simp: check_fetched_def Let_def record_differs_def a consume_approval_def)
  then obtain u where "authorize_approval frepr sha ports p tool m arguments c s = (Inr (), u)"
    using call fps active by (auto simp: authorize_approval_def Let_def fp_def)
  moreover have "fst (policy_audit_decision frepr sha ports p Decided_ALLOWED m c v) = Inr ()" for v
    using active by (intro policy_audit_decision_ok [OF ports, of p m fp]) (simp add: fp_def)
  ultimately show ?thesis
    using m rule scopes key server by (auto simp: authorize_def Let_def subset_iff)
qed

theorem approval_for_action_accepted_witness:
  "fst (authorize (\<lambda>q. []) sample_digest (sample_ports sample_digest (sample_digest []))
     (sample_policy (sample_digest [])) sample_tool sample_arguments sample_call sample_run) = Inr ()"
proof (rule approval_for_action_accepted [OF sample_policy_made _ _ _ _ _ _ sample_approval_made, where now = 10])
  show "map_of (tp_rules (sample_policy (sample_digest []))) (manifest_name sample_manifest) = Some sample_rule"
    by (simp add: sample_policy_def manifest_name_def sample_manifest_def sample_tool_def)
qed (simp_all add: sample_policy_def sample_manifest_def sample_tool_def sample_rule_def sample_call_def
    sample_context_def sample_identity_def ctx_scopes_def sample_ports_def ports_at_def)

end
