(* ===== verification/Application.thy ===== *)
theory Application
  imports Lifecycle Deadline_Race Redaction Tool_Policy Observability
begin

section \<open>One invocation of the application\<close>

text \<open>
  Models \<open>Application.invoke\<close>, \<open>_invoke\<close>, \<open>_mapped_failure\<close>, \<open>_redact_result\<close> and
  \<open>_safe_request_id\<close> of \<^verbatim>\<open>src/tesserix_mcp_runtime/application.py\<close>: the composition of the
  tool catalog, the bounded execution, the authoriser, the redaction policy and the error mapping.

  The tool handler, the authoriser, the telemetry sink and the event loop are an environment. The
  calls of the observability object and of the telemetry sink are recorded in the state, in their
  order. A task that is still running when the caller has its answer has entered: its lease is
  held, and what it does later is not part of the state the call leaves.
\<close>

subsection \<open>Configuration and state\<close>

record ('i, 'o) app_tool =
  tl_metadata :: tool_metadata
  tl_parse :: "pyval \<Rightarrow> (exn, 'i) result"
  tl_serialize :: "'o \<Rightarrow> (exn, pyval) result"

record ('i, 'o) app_config =
  ag_limits :: execution_limits
  ag_catalog :: "(string \<times> ('i, 'o) app_tool) list"
  ag_text_of :: "string \<Rightarrow> (exn, string) result"
  ag_value_of :: "pyval \<Rightarrow> (exn, pyval) result"
  ag_sha :: "string \<Rightarrow> string"
  ag_frepr :: "rat \<Rightarrow> string"
  ag_sample :: "string \<Rightarrow> nat"

datatype app_event =
    Span_outcome span_name runtime_outcome
  | Authorize_call string
  | Retry_call retry_event
  | Audit scrubbed_error
  | Record_call "string option" runtime_outcome rat
  | Request_log string "string option" runtime_outcome rat

record app =
  ap_lifecycle :: lifecycle
  ap_execution :: execution
  ap_tasks :: "nat set"
  ap_events :: "app_event list"
  ap_telemetry_failures :: nat

record ('i, 'o) invoke_env =
  ie_task :: nat
  ie_started_at :: rat
  ie_ended_at :: rat
  ie_race :: "invocation_result race_env"
  ie_entered :: bool
  ie_authorize :: "tool_metadata \<Rightarrow> pyval \<Rightarrow> call_context \<Rightarrow> (exn, unit) result"
  ie_handler :: "'i \<Rightarrow> call_context \<Rightarrow> nat \<Rightarrow> (exn, 'o) result"
  ie_retry :: "'o retry_env"
  ie_emit :: "scrubbed_error \<Rightarrow> exn option"

definition log_events :: "app_event list \<Rightarrow> app \<Rightarrow> app" where
  "log_events es s = s\<lparr>ap_events := ap_events s @ es\<rparr>"

definition log_limit :: "string option \<Rightarrow> runtime_limit \<Rightarrow> app \<Rightarrow> app" where
  "log_limit tool limit s = s\<lparr>ap_execution := (ap_execution s)\<lparr>ex_telemetry :=
     ex_telemetry (ap_execution s) @ [RecordLimit tool limit]\<rparr>\<rparr>"

subsection \<open>Outcomes\<close>

definition error_outcome :: "error_code \<Rightarrow> runtime_outcome" where
  "error_outcome c = (case c of
       FORBIDDEN \<Rightarrow> Outcome_POLICY_REFUSAL
     | TIMEOUT \<Rightarrow> Outcome_TIMEOUT
     | CANCELLED \<Rightarrow> Outcome_CANCELLATION
     | OVERLOADED \<Rightarrow> Outcome_OVERLOAD
     | UNAVAILABLE \<Rightarrow> Outcome_DEPENDENCY_OUTAGE
     | INVALID_INPUT \<Rightarrow> Outcome_INVALID_INPUT
     | RESULT_TOO_LARGE \<Rightarrow> Outcome_LIMIT_EXCEEDED
     | _ \<Rightarrow> Outcome_TOOL_FAILURE)"

definition result_outcome :: "invocation_result \<Rightarrow> runtime_outcome" where
  "result_outcome r = (case ir_error r of None \<Rightarrow> Outcome_SUCCESS | Some e \<Rightarrow> error_outcome (er_code e))"

definition exception_outcome :: "exn \<Rightarrow> runtime_outcome" where
  "exception_outcome e = (case exn_kind e of
       RuntimeFailure c \<Rightarrow> error_outcome c
     | CancelledError \<Rightarrow> Outcome_CANCELLATION
     | TimeoutError \<Rightarrow> Outcome_TIMEOUT
     | _ \<Rightarrow> Outcome_TOOL_FAILURE)"

subsection \<open>Public failures\<close>

text \<open>\<^verbatim>\<open>try: m except Exception: k\<close>.\<close>

definition except_exception :: "(exn, 'a) result \<Rightarrow> (exn \<Rightarrow> (exn, 'a) result) \<Rightarrow> (exn, 'a) result" where
  "except_exception m k = (case m of Inl e \<Rightarrow> if is_exception e then k e else Inl e | Inr a \<Rightarrow> Inr a)"

definition safe_request_id :: "('i, 'o) app_config \<Rightarrow> string \<Rightarrow> (exn, string) result" where
  "safe_request_id g rid =
     except_exception
       (and_then (ag_text_of g rid) (\<lambda>v.
        and_then (lift_value_error (error_from_code INTERNAL_FAILURE v)) (\<lambda>_. Inr v)))
       (\<lambda>_. Inr (''redaction-failed-'' @ take 16 (ag_sha g rid)))"

definition public_failure :: "error_code \<Rightarrow> string \<Rightarrow> (exn, invocation_result) result" where
  "public_failure code rid =
     and_then (lift_value_error (error_from_code code rid)) (\<lambda>e. Inr (result_failure e))"

definition make_scrubbed :: "error_code \<Rightarrow> string \<Rightarrow> string \<Rightarrow> (exn, scrubbed_error) result" where
  "make_scrubbed code type_name rid =
     (let a = \<lparr>se_code = code, se_exception_type = type_name, se_request_id = rid\<rparr> in
      and_then (lift_value_error (check_scrubbed_error a)) (\<lambda>_. Inr a))"

definition scrub_audit :: "('i, 'o) app_config \<Rightarrow> scrubbed_error \<Rightarrow> string \<Rightarrow> (exn, scrubbed_error) result" where
  "scrub_audit g audit rid =
     except_exception
       (and_then (ag_text_of g (se_exception_type audit)) (\<lambda>redacted.
        make_scrubbed (se_code audit)
          (if redacted \<noteq> se_exception_type audit then ''RedactedException'' else se_exception_type audit) rid))
       (\<lambda>_. make_scrubbed (se_code audit) ''RedactionError'' rid)"

definition emit_audit :: "('i, 'o) invoke_env \<Rightarrow> scrubbed_error \<Rightarrow> app \<Rightarrow> (exn, unit) result \<times> app" where
  "emit_audit env audit s =
     (case ie_emit env audit of
        None \<Rightarrow> (Inr (), log_events [Audit audit] s)
      | Some e \<Rightarrow>
          if is_exception e then (Inr (), s\<lparr>ap_telemetry_failures := ap_telemetry_failures s + 1\<rparr>)
          else (Inl e, s))"

definition mapped_failure ::
  "('i, 'o) app_config \<Rightarrow> ('i, 'o) invoke_env \<Rightarrow> exn \<Rightarrow> string \<Rightarrow> app
     \<Rightarrow> (exn, invocation_result) result \<times> app" where
  "mapped_failure g env e rid s =
     run_then (and_then (safe_request_id g rid) (\<lambda>safe.
         and_then (lift_value_error (map_exception e safe)) (\<lambda>m.
         and_then (scrub_audit g (me_audit m) safe) (\<lambda>audit. Inr (m, audit)))), s) (\<lambda>(m, audit) s.
     run_then (emit_audit env audit s) (\<lambda>_ s.
     (Inr (result_failure (me_response m)), s)))"

definition check_result_value :: "('i, 'o) app_config \<Rightarrow> pyval \<Rightarrow> (exn, unit) result" where
  "check_result_value g v =
     validate_json_value (ag_frepr g) (ag_limits g) (max_result_bytes (ag_limits g)) v"

definition redact_result ::
  "('i, 'o) app_config \<Rightarrow> ('i, 'o) invoke_env \<Rightarrow> invocation_result \<Rightarrow> string \<Rightarrow> app
     \<Rightarrow> (exn, invocation_result) result \<times> app" where
  "redact_result g env r rid s =
     (case ir_error r of
        Some e \<Rightarrow> (and_then (safe_request_id g rid) (public_failure (er_code e)), s)
      | None \<Rightarrow>
          (case and_then (ag_value_of g (ir_value r)) (\<lambda>v. and_then (check_result_value g v) (\<lambda>_. Inr v)) of
             Inr v \<Rightarrow> (Inr (result_success v), s)
           | Inl e \<Rightarrow>
               if exn_kind e = ExecutionLimitExceeded then
                 mapped_failure g env (runtime_failure RESULT_TOO_LARGE) rid s
               else if is_exception e then mapped_failure g env redaction_error rid s
               else (Inl e, s)))"

subsection \<open>The work of a call\<close>

definition tool_named :: "('i, 'o) app_config \<Rightarrow> string \<Rightarrow> ('i, 'o) app_tool option" where
  "tool_named g name = map_of (ag_catalog g) name"

definition known_name :: "('i, 'o) app_config \<Rightarrow> string \<Rightarrow> string option" where
  "known_name g name = map_option (\<lambda>t. tm_name (tl_metadata t)) (tool_named g name)"

text \<open>
  Up to the admission nothing waits: the work has either ended, or it has a tool, a parsed input
  and a lease.
\<close>

datatype ('i, 'o) entry =
    Ended "(exn, invocation_result) result"
  | Entered "('i, 'o) app_tool" 'i lease

definition enter_work ::
  "('i, 'o) app_config \<Rightarrow> ('i, 'o) invoke_env \<Rightarrow> string \<Rightarrow> pyval \<Rightarrow> call_context \<Rightarrow> app
     \<Rightarrow> ('i, 'o) entry \<times> app" where
  "enter_work g env name args c s =
     (case validate_json_value (ag_frepr g) (ag_limits g) (max_input_bytes (ag_limits g)) args of
        Inl e \<Rightarrow>
          if exn_kind e = ExecutionLimitExceeded then
            (Ended (public_failure INVALID_INPUT (cc_request_id c)), log_limit (known_name g name) Limit_INPUT s)
          else (Ended (Inl e), s)
      | Inr _ \<Rightarrow>
          (case tool_named g name of
             None \<Rightarrow> (Ended (public_failure INVALID_INPUT (cc_request_id c)), s)
           | Some tool \<Rightarrow>
               (case tl_parse tool args of
                  Inl e \<Rightarrow>
                    if is_parse_error e then (Ended (public_failure INVALID_INPUT (cc_request_id c)), s)
                    else (Ended (Inl e), s)
                | Inr input \<Rightarrow>
                    (case admit (tm_name (tl_metadata tool)) (ctx_tenant c) (ap_execution s) of
                       (Some lease, x) \<Rightarrow> (Entered tool input lease, s\<lparr>ap_execution := x\<rparr>)
                     | (None, x) \<Rightarrow>
                         (case mapped_failure g env (runtime_failure OVERLOADED) (cc_request_id c)
                             (s\<lparr>ap_execution := x\<rparr>) of
                            (r, t) \<Rightarrow> (Ended r, t))))))"

definition retry_safe :: "tool_metadata \<Rightarrow> call_context \<Rightarrow> bool" where
  "retry_safe m c \<longleftrightarrow> tm_effect m = Effect_READ \<or>
     tm_idempotency m = Idempotency_REQUIRED \<and> cc_idempotency_key c \<noteq> None"

definition run_tool ::
  "('i, 'o) app_config \<Rightarrow> ('i, 'o) invoke_env \<Rightarrow> ('i, 'o) app_tool \<Rightarrow> 'i \<Rightarrow> call_context \<Rightarrow> app
     \<Rightarrow> (exn, pyval) result \<times> app" where
  "run_tool g env tool input c s =
     (case retry (ag_limits g) (ag_sample g) ((ie_retry env)\<lparr>attempt_outcome := ie_handler env input c\<rparr>) c
         (retry_safe (tl_metadata tool) c) (tm_name (tl_metadata tool)) of
        (r, es) \<Rightarrow>
          (let s1 = log_events (map Retry_call es) s in
           case and_then r (\<lambda>out. and_then (tl_serialize tool out) (\<lambda>v.
               and_then (check_result_value g v) (\<lambda>_. Inr v))) of
             Inr v \<Rightarrow> (Inr v, log_events [Span_outcome Span_TOOL_EXECUTION Outcome_SUCCESS] s1)
           | Inl e \<Rightarrow>
               if exn_kind e = ExecutionLimitExceeded then
                 (Inl (runtime_failure RESULT_TOO_LARGE),
                  log_limit (Some (tm_name (tl_metadata tool))) Limit_RESULT s1)
               else (Inl e, log_events [Span_outcome Span_TOOL_EXECUTION (exception_outcome e)] s1)))"

definition authorized_run ::
  "('i, 'o) app_config \<Rightarrow> ('i, 'o) invoke_env \<Rightarrow> ('i, 'o) app_tool \<Rightarrow> 'i \<Rightarrow> pyval \<Rightarrow> call_context \<Rightarrow> app
     \<Rightarrow> (exn, pyval) result \<times> app" where
  "authorized_run g env tool input args c s =
     (let s1 = log_events [Authorize_call (tm_name (tl_metadata tool))] s in
      case ie_authorize env (tl_metadata tool) args c of
        Inl e \<Rightarrow> (Inl e, log_events [Span_outcome Span_AUTHORIZATION (exception_outcome e)] s1)
      | Inr _ \<Rightarrow> run_tool g env tool input c (log_events [Span_outcome Span_AUTHORIZATION Outcome_SUCCESS] s1))"

text \<open>The \<^verbatim>\<open>finally\<close> clause releases the lease; its own exception replaces the outcome.\<close>

definition release_lease :: "lease \<Rightarrow> (exn, 'a) result \<Rightarrow> app \<Rightarrow> (exn, 'a) result \<times> app" where
  "release_lease lease r s =
     (case release lease (ap_execution s) of
        (None, x) \<Rightarrow> (r, s\<lparr>ap_execution := x\<rparr>)
      | (Some e, x) \<Rightarrow> (Inl e, s\<lparr>ap_execution := x\<rparr>))"

definition finish_work ::
  "('i, 'o) app_config \<Rightarrow> ('i, 'o) invoke_env \<Rightarrow> ('i, 'o) app_tool \<Rightarrow> 'i \<Rightarrow> lease \<Rightarrow> pyval
     \<Rightarrow> call_context \<Rightarrow> app \<Rightarrow> (exn, invocation_result) result \<times> app" where
  "finish_work g env tool input lease args c s =
     (case authorized_run g env tool input args c s of
        (r, t) \<Rightarrow>
          (case release_lease lease r t of
             (Inr v, u) \<Rightarrow> (Inr (result_success v), u)
           | (Inl e, u) \<Rightarrow>
               if is_exception e then mapped_failure g env e (cc_request_id c) u else (Inl e, u)))"

definition complete_work ::
  "('i, 'o) app_config \<Rightarrow> ('i, 'o) invoke_env \<Rightarrow> pyval \<Rightarrow> call_context \<Rightarrow> ('i, 'o) entry \<times> app
     \<Rightarrow> (exn, invocation_result) result \<times> app" where
  "complete_work g env args c entered =
     (case entered of
        (Ended r, t) \<Rightarrow> (r, t)
      | (Entered tool input lease, t) \<Rightarrow> finish_work g env tool input lease args c t)"

subsection \<open>The call\<close>

text \<open>The context \<open>execute\<close> gives the work.\<close>

definition work_context :: "execution_limits \<Rightarrow> 'r race_env \<Rightarrow> call_context \<Rightarrow> call_context" where
  "work_context l env c =
     (bounded_context l (Fin (rc_now env)) c)\<lparr>cc_cancellation := Linked (cc_cancellation c) (rc_local env)\<rparr>"

definition after_work :: "('i, 'o) invoke_env \<Rightarrow> work_state \<Rightarrow> app \<Rightarrow> app \<Rightarrow> app \<Rightarrow> app" where
  "after_work env w before entered completed =
     (case w of
        NotStarted \<Rightarrow> before
      | Finished \<Rightarrow> if ie_entered env then completed else before
      | _ \<Rightarrow> entered)"

definition race_work ::
  "('i, 'o) app_config \<Rightarrow> ('i, 'o) invoke_env \<Rightarrow> string \<Rightarrow> pyval \<Rightarrow> call_context \<Rightarrow> app
     \<Rightarrow> (exn, invocation_result) result \<times> app" where
  "race_work g env name args c s =
     (let inner = work_context (ag_limits g) (ie_race env) c;
          entered = enter_work g env name args inner s;
          completed = complete_work g env args inner entered in
      case execute (ag_limits g) ((ie_race env)\<lparr>rc_outcome := fst completed\<rparr>) c of
        (r, run) \<Rightarrow> (r, after_work env (run_work run) s (snd entered) (snd completed)))"

text \<open>
  The \<^verbatim>\<open>try\<close> statement of \<open>invoke\<close>: a cancellation, a timeout or any other \<open>Exception\<close>, of the
  work or of the redaction, is mapped.
\<close>

definition is_mapped :: "exn \<Rightarrow> bool" where
  "is_mapped e \<longleftrightarrow> exn_kind e = CancelledError \<or> is_exception e"

definition attempt_call ::
  "('i, 'o) app_config \<Rightarrow> ('i, 'o) invoke_env \<Rightarrow> string \<Rightarrow> pyval \<Rightarrow> call_context \<Rightarrow> app
     \<Rightarrow> (exn, invocation_result) result \<times> app" where
  "attempt_call g env name args c s =
     (case run_then (race_work g env name args c s) (\<lambda>r. redact_result g env r (cc_request_id c)) of
        (Inr r, t) \<Rightarrow> (Inr r, t)
      | (Inl e, t) \<Rightarrow> if is_mapped e then mapped_failure g env e (cc_request_id c) t else (Inl e, t))"

definition answer_call ::
  "('i, 'o) app_config \<Rightarrow> ('i, 'o) invoke_env \<Rightarrow> string \<Rightarrow> pyval \<Rightarrow> call_context \<Rightarrow> app
     \<Rightarrow> (exn, invocation_result) result \<times> app" where
  "answer_call g env name args c s =
     (if lc_state (ap_lifecycle s) \<noteq> READY then
        (and_then (safe_request_id g (cc_request_id c)) (public_failure UNAVAILABLE),
         if lc_state (ap_lifecycle s) = DRAINING then log_limit (known_name g name) Limit_DRAIN s else s)
      else
        (case attempt_call g env name args c (s\<lparr>ap_tasks := insert (ie_task env) (ap_tasks s)\<rparr>) of
           (r, t) \<Rightarrow> (r, t\<lparr>ap_tasks := ap_tasks t - {ie_task env}\<rparr>)))"

definition invoke ::
  "('i, 'o) app_config \<Rightarrow> ('i, 'o) invoke_env \<Rightarrow> string \<Rightarrow> pyval \<Rightarrow> call_context \<Rightarrow> app
     \<Rightarrow> (exn, invocation_result) result \<times> app" where
  "invoke g env name args c s =
     run_then (answer_call g env name args c s) (\<lambda>r t.
     let outcome = result_outcome r;
         duration = max 0 (ie_ended_at env - ie_started_at env);
         u = log_events [Span_outcome Span_MCP_REQUEST outcome, Record_call (known_name g name) outcome duration] t in
     run_then (safe_request_id g (cc_request_id c), u) (\<lambda>safe u.
     (Inr r, log_events [Request_log safe (known_name g name) outcome duration] u)))"

subsection \<open>The answer of a call\<close>

text \<open>What the digest of an identifier gives: 64 lower-case hexadecimal digits.\<close>

definition digest_law :: "(string \<Rightarrow> string) \<Rightarrow> bool" where
  "digest_law sha \<longleftrightarrow> (\<forall>s. length (sha s) = 64 \<and> list_all is_hex (sha s))"

text \<open>
  A public answer carries a redacted, bounded value, or one of the stable failures with the safe
  form of the request identifier.
\<close>

definition public_answer :: "('i, 'o) app_config \<Rightarrow> string \<Rightarrow> invocation_result \<Rightarrow> bool" where
  "public_answer g rid r \<longleftrightarrow>
     (\<exists>v raw. r = result_success v \<and> ag_value_of g raw = Inr v \<and> check_result_value g v = Inr ()) \<or>
     (\<exists>e. r = result_failure e \<and> check_error_response e = okay \<and>
        safe_request_id g rid = Inr (er_request_id e))"

text \<open>The sink of the audit raises nothing but an \<open>Exception\<close>.\<close>

definition sink_law :: "('i, 'o) invoke_env \<Rightarrow> bool" where
  "sink_law env \<longleftrightarrow> (\<forall>a x. ie_emit env a = Some x \<longrightarrow> is_exception x)"

lemma public_failure_answer:
  assumes "safe_request_id g rid = Inr v" "text_valid 256 v"
  obtains r where "public_failure code v = Inr r" "public_answer g rid r"
proof
  let ?e = "\<lparr>er_code = code, er_message = error_message code, er_request_id = v,
    er_retryability = error_retryability code\<rparr>"
  show "public_failure code v = Inr (result_failure ?e)"
    using assms(2) by (simp add: public_failure_def error_from_code_ok)
  show "public_answer g rid (result_failure ?e)"
    unfolding public_answer_def using assms
    by (intro disjI2 exI [of _ ?e]) (simp add: check_error_response_def)
qed

lemma fallback_id_valid:
  assumes "digest_law sha"
  shows "text_valid 256 (''redaction-failed-'' @ take 16 (sha s))"
proof -
  have hex: "c \<in> set (take 16 (sha s)) \<Longrightarrow> is_hex c" for c
    using assms by (auto simp: digest_law_def list_all_iff dest: in_set_takeD)
  have ne: "take 16 (sha s) \<noteq> []"
    using assms by (auto simp: digest_law_def) (metis length_greater_0_conv zero_less_numeral)
  then have "last (take 16 (sha s)) \<in> set (take 16 (sha s))"
    by (rule last_in_set)
  from hex [OF this] have "\<not> is_space (last (take 16 (sha s)))"
    by (auto simp: is_hex_def is_digit_def chr_range_def is_space_def ord_of_def)
  then have "strip (''redaction-failed-'' @ take 16 (sha s)) = ''redaction-failed-'' @ take 16 (sha s)"
    using ne by (cases "take 16 (sha s)" rule: rev_cases)
      (simp_all add: strip_def is_space_def ord_of_def)
  moreover have "\<not> ord_of c < 32" if "c \<in> set (''redaction-failed-'' @ take 16 (sha s))" for c
  proof -
    have "\<not> ord_of c < 32" if "is_hex c" for c
      using that by (auto simp: is_hex_def is_digit_def chr_range_def ord_of_def)
    with that hex [of c] show ?thesis
      by (auto simp: ord_of_def)
  qed
  ultimately show ?thesis
    using assms unfolding text_valid_def digest_law_def by simp
qed

lemma value_error_exn_exception [simp]: "is_exception value_error_exn"
  by (simp add: is_exception_def value_error_exn_def)

lemma lift_value_error_Inl: "lift_value_error r = Inl e \<Longrightarrow> is_exception e"
  by (cases r) auto

context redaction_policy
begin

lemma safe_request_id_ok:
  assumes "ag_text_of g = text_of" "digest_law (ag_sha g)"
  obtains v where "safe_request_id g rid = Inr v" "text_valid 256 v"
proof (cases "and_then (text_of rid) (\<lambda>v.
    and_then (lift_value_error (error_from_code INTERNAL_FAILURE v)) (\<lambda>_. Inr v))")
  case (Inr v)
  then have "text_valid 256 v" by (auto simp: error_from_code_ok)
  moreover have "safe_request_id g rid = Inr v"
    unfolding safe_request_id_def assms(1) Inr except_exception_def by simp
  ultimately show thesis
    by (rule that [rotated])
next
  case (Inl e)
  have "is_exception e"
    using Inl text_exception lift_value_error_Inl
    by (cases "text_of rid") (auto simp: and_then_def split: sum.splits)
  then have "safe_request_id g rid = Inr (''redaction-failed-'' @ take 16 (ag_sha g rid))"
    unfolding safe_request_id_def assms(1) Inl except_exception_def by simp
  then show thesis
    using fallback_id_valid [OF assms(2)] by (rule that)
qed

lemma scrub_audit_ok:
  assumes "ag_text_of g = text_of" "text_valid 256 rid" "check_scrubbed_error audit = okay"
  obtains a where "scrub_audit g audit rid = Inr a"
proof -
  have valid: "make_scrubbed c t rid = Inr \<lparr>se_code = c, se_exception_type = t, se_request_id = rid\<rparr>"
    if "fullmatch exception_type_rx t" for c t
    using that assms(2) by (simp add: make_scrubbed_def Let_def check_scrubbed_error_def error_from_code_ok)
  have names: "fullmatch exception_type_rx ''RedactedException''" "fullmatch exception_type_rx ''RedactionError''"
    by (simp_all add: fullmatch_exception_type is_alpha_def is_alnum_def is_upper_def is_lower_def
        chr_range_def ord_of_def)
  have own: "fullmatch exception_type_rx (se_exception_type audit)"
    using assms(3) by (auto simp: check_scrubbed_error_def)
  show thesis
  proof (cases "text_of (se_exception_type audit)")
    case (Inl e)
    with text_exception [OF Inl] show thesis
      using that by (simp add: scrub_audit_def except_exception_def assms(1) valid names)
  next
    case (Inr t)
    with that show thesis
      by (simp add: scrub_audit_def except_exception_def assms(1) valid names own)
  qed
qed

lemma mapped_failure_answer:
  assumes "ag_text_of g = text_of" "digest_law (ag_sha g)" "sink_law env"
  obtains r t where "mapped_failure g env e rid s = (Inr r, t)" "public_answer g rid r"
proof -
  obtain v where v: "safe_request_id g rid = Inr v" "text_valid 256 v"
    using safe_request_id_ok [OF assms(1,2)] .
  note m = map_exception_eq [OF v(2), of e]
  have "check_scrubbed_error \<lparr>se_code = exception_code e,
      se_exception_type = safe_exception_type (exn_type e), se_request_id = v\<rparr> = okay"
    using v(2) by (simp add: check_scrubbed_error_def error_from_code_ok)
  then obtain a where a: "scrub_audit g \<lparr>se_code = exception_code e,
      se_exception_type = safe_exception_type (exn_type e), se_request_id = v\<rparr> v = Inr a"
    using scrub_audit_ok [OF assms(1) v(2)] by blast
  obtain t where t: "emit_audit env a s = (Inr (), t)"
    using assms(3) by (cases "ie_emit env a") (auto simp: emit_audit_def sink_law_def)
  show thesis
    by (rule that) (use v a t in \<open>auto simp: mapped_failure_def m public_answer_def check_error_response_def
        error_from_code_ok\<close>)
qed

end

subsection \<open>What a call leaves behind\<close>

text \<open>
  The counters of the bulkheads, without the telemetry. \<open>counts_live\<close> is an invariant of the
  bulkheads: a key that is counted has a call.
\<close>

definition counters :: "execution \<Rightarrow> execution_limits \<times> int \<times> (string \<rightharpoonup> int) \<times> (string \<rightharpoonup> int)" where
  "counters x = (ex_limits x, ex_active x, ex_by_tool x, ex_by_tenant x)"

definition counts_live :: "execution \<Rightarrow> bool" where
  "counts_live x \<longleftrightarrow> (\<forall>k. ex_by_tool x k \<noteq> Some 0 \<and> ex_by_tenant x k \<noteq> Some 0)"

fun is_retry_call :: "app_event \<Rightarrow> bool" where
  "is_retry_call (Retry_call e) = True"
| "is_retry_call _ = False"

text \<open>
  \<open>leaves p s t\<close>: from \<open>s\<close> to \<open>t\<close> the tasks and the lifecycle are the same and events were only
  added; if the handler was called, \<open>p\<close> holds. \<open>quiet\<close> asks for the same counters too, and no
  handler call.
\<close>

definition leaves :: "bool \<Rightarrow> app \<Rightarrow> app \<Rightarrow> bool" where
  "leaves p s t \<longleftrightarrow> ap_tasks t = ap_tasks s \<and> ap_lifecycle t = ap_lifecycle s \<and>
     (\<exists>es. ap_events t = ap_events s @ es \<and> ((\<exists>e\<in>set es. is_retry_call e) \<longrightarrow> p))"

definition quiet :: "app \<Rightarrow> app \<Rightarrow> bool" where
  "quiet s t \<longleftrightarrow> leaves False s t \<and> counters (ap_execution t) = counters (ap_execution s)"

lemma leaves_refl [simp]: "leaves p s s"
  by (auto simp: leaves_def)

lemma quiet_refl [simp]: "quiet s s"
  by (simp add: quiet_def)

lemma leaves_trans: "leaves p s t \<Longrightarrow> leaves p t u \<Longrightarrow> leaves p s u"
  by (auto simp: leaves_def)

lemma leaves_mono: "leaves p s t \<Longrightarrow> (p \<Longrightarrow> q) \<Longrightarrow> leaves q s t"
  by (auto simp: leaves_def)

lemma quiet_leaves: "quiet s t \<Longrightarrow> leaves p s t"
  by (auto simp: quiet_def leaves_def)

lemma quiet_trans: "quiet s t \<Longrightarrow> quiet t u \<Longrightarrow> quiet s u"
  by (auto simp: quiet_def intro: leaves_trans)

lemma quiet_counters: "quiet s t \<Longrightarrow> counters (ap_execution t) = counters (ap_execution s)"
  by (simp add: quiet_def)

lemma log_events_leaves: "((\<exists>e\<in>set es. is_retry_call e) \<Longrightarrow> p) \<Longrightarrow> leaves p s (log_events es s)"
  by (auto simp: leaves_def log_events_def)

lemma log_events_execution [simp]: "ap_execution (log_events es s) = ap_execution s"
  by (simp add: log_events_def)

lemma log_events_quiet: "(\<forall>e\<in>set es. \<not> is_retry_call e) \<Longrightarrow> quiet s (log_events es s)"
  by (auto simp: quiet_def intro: log_events_leaves)

lemma log_limit_quiet [simp]: "quiet s (log_limit tool limit s)"
  by (simp add: quiet_def log_limit_def leaves_def counters_def)

lemma emit_audit_quiet: "emit_audit env a s = (r, t) \<Longrightarrow> quiet s t"
  by (auto simp: emit_audit_def quiet_def leaves_def counters_def log_events_def split: option.splits if_splits)

lemma run_then_quiet:
  assumes "run_then (m, s) k = (r, t)" "\<And>a. m = Inr a \<Longrightarrow> k a s = (r, t) \<Longrightarrow> quiet s t"
  shows "quiet s t"
  using assms by (cases m) auto

lemma mapped_failure_quiet: "mapped_failure g env e rid s = (r, t) \<Longrightarrow> quiet s t"
  unfolding mapped_failure_def
  by (erule run_then_quiet) (auto simp: run_then_def dest: emit_audit_quiet split: prod.splits sum.splits)

lemma redact_result_quiet: "redact_result g env r rid s = (q, t) \<Longrightarrow> quiet s t"
  by (auto simp: redact_result_def dest: mapped_failure_quiet split: option.splits sum.splits if_splits)

lemma admit_counters:
  assumes "admit tool tenant x = (None, y)"
  shows "counters y = counters x"
  using assms by (auto simp: admit_def counters_def split: option.splits)

lemma enter_work_ended:
  "enter_work g env name args c s = (Ended r, t) \<Longrightarrow> quiet s t"
proof -
  have over: "quiet s u" if "admit tool tenant (ap_execution s) = (None, x)"
    "mapped_failure g env e rid (s\<lparr>ap_execution := x\<rparr>) = (q, u)" for tool tenant x e rid q u
  proof -
    have "quiet s (s\<lparr>ap_execution := x\<rparr>)"
      using admit_counters [OF that(1)] by (simp add: quiet_def leaves_def)
    with mapped_failure_quiet [OF that(2)] show ?thesis by (rule quiet_trans [rotated])
  qed
  assume "enter_work g env name args c s = (Ended r, t)"
  then show ?thesis
    by (auto simp: enter_work_def dest: over split: sum.splits option.splits if_splits prod.splits)
qed

text \<open>What holds when the work has entered: everything but the authorisation.\<close>

definition may_enter ::
  "('i, 'o) app_config \<Rightarrow> string \<Rightarrow> pyval \<Rightarrow> call_context \<Rightarrow> app \<Rightarrow> ('i, 'o) app_tool \<Rightarrow> 'i \<Rightarrow> bool" where
  "may_enter g name args c s tool input \<longleftrightarrow>
     tool_named g name = Some tool \<and>
     validate_json_value (ag_frepr g) (ag_limits g) (max_input_bytes (ag_limits g)) args = Inr () \<and>
     tl_parse tool args = Inr input \<and>
     admission_limit (tm_name (tl_metadata tool)) (ctx_tenant c) (ap_execution s) = None"

lemma enter_work_entered:
  assumes "enter_work g env name args c s = (Entered tool input lease, t)"
  shows "may_enter g name args c s tool input"
    and "admit (tm_name (tl_metadata tool)) (ctx_tenant c) (ap_execution s) = (Some lease, ap_execution t)"
    and "t = s\<lparr>ap_execution := ap_execution t\<rparr>"
  using assms
  by (auto simp: enter_work_def may_enter_def admit_def split: sum.splits option.splits if_splits prod.splits)

lemma run_tool_leaves: "run_tool g env tool input c s = (r, t) \<Longrightarrow> leaves True s t \<and> counters (ap_execution t) = counters (ap_execution s)"
  by (auto simp: run_tool_def Let_def leaves_def log_events_def log_limit_def counters_def
      split: prod.splits sum.splits if_splits)

lemma authorized_run_leaves:
  assumes "authorized_run g env tool input args c s = (r, t)"
  shows "leaves (ie_authorize env (tl_metadata tool) args c = Inr ()) s t"
    and "counters (ap_execution t) = counters (ap_execution s)"
proof -
  let ?s1 = "log_events [Authorize_call (tm_name (tl_metadata tool))] s"
  show "leaves (ie_authorize env (tl_metadata tool) args c = Inr ()) s t"
    "counters (ap_execution t) = counters (ap_execution s)"
  proof (atomize (full), cases "ie_authorize env (tl_metadata tool) args c")
    case (Inl e)
    with assms show "leaves (ie_authorize env (tl_metadata tool) args c = Inr ()) s t \<and>
        counters (ap_execution t) = counters (ap_execution s)"
      by (auto simp: authorized_run_def Let_def log_events_def leaves_def)
  next
    case (Inr u)
    have "leaves True s (log_events [Span_outcome Span_AUTHORIZATION Outcome_SUCCESS] ?s1)"
      by (simp add: log_events_def leaves_def)
    with Inr assms show "leaves (ie_authorize env (tl_metadata tool) args c = Inr ()) s t \<and>
        counters (ap_execution t) = counters (ap_execution s)"
      by (auto simp: authorized_run_def Let_def dest!: run_tool_leaves intro: leaves_trans)
  qed
qed

text \<open>A lease that was just granted is released without a trace in the counters.\<close>

lemma decrement_granted:
  assumes "counts k \<noteq> Some 0"
  shows "decrement k (counts(k \<mapsto> count_of counts k + 1)) = Some counts"
  using assms by (cases "counts k") (auto simp: decrement_def count_of_def fun_eq_iff)

lemma admit_release_counters:
  assumes "admit tool tenant x = (Some lease, y)" "counts_live x" "counters z = counters y"
  shows "\<exists>w. release lease z = (None, w) \<and> counters w = counters x"
proof -
  have "ex_by_tool x tool \<noteq> Some 0" "ex_by_tenant x tenant \<noteq> Some 0"
    using assms(2) by (auto simp: counts_live_def)
  with assms show ?thesis
    by (auto simp: admit_def release_def counters_def Let_def decrement_granted split: option.splits)
qed

lemma finish_work_leaves:
  assumes "finish_work g env tool input lease args c s = (r, t)"
    and "admit tname tenant x = (Some lease, ap_execution s)" "counts_live x"
  shows "leaves (ie_authorize env (tl_metadata tool) args c = Inr ()) s t"
    and "counters (ap_execution t) = counters x"
proof -
  obtain q u where run: "authorized_run g env tool input args c s = (q, u)"
    by (cases "authorized_run g env tool input args c s") auto
  note a = authorized_run_leaves [OF run]
  obtain w where w: "release lease (ap_execution u) = (None, w)" "counters w = counters x"
    using admit_release_counters [OF assms(2,3) a(2)] by blast
  define v where "v = u\<lparr>ap_execution := w\<rparr>"
  have rel: "release_lease lease q u = (q, v)"
    by (simp add: release_lease_def w(1) v_def)
  have v: "leaves (ie_authorize env (tl_metadata tool) args c = Inr ()) s v" "counters (ap_execution v) = counters x"
    using a(1) w(2) by (auto simp: leaves_def v_def)
  have "quiet v t"
    using assms(1) by (auto simp: finish_work_def run rel dest: mapped_failure_quiet split: sum.splits if_splits)
  with v show "leaves (ie_authorize env (tl_metadata tool) args c = Inr ()) s t"
    "counters (ap_execution t) = counters x"
    by (auto dest: quiet_leaves quiet_counters intro: leaves_trans)
qed

text \<open>The guard of a handler call.\<close>

definition properly_called ::
  "('i, 'o) app_config \<Rightarrow> ('i, 'o) invoke_env \<Rightarrow> string \<Rightarrow> pyval \<Rightarrow> call_context \<Rightarrow> app \<Rightarrow> bool" where
  "properly_called g env name args c s \<longleftrightarrow>
     (\<exists>tool input. may_enter g name args c s tool input \<and> ie_authorize env (tl_metadata tool) args c = Inr ())"

lemma complete_work_leaves:
  assumes "complete_work g env args c (enter_work g env name args c s) = (r, t)" "counts_live (ap_execution s)"
  shows "leaves (properly_called g env name args c s) s t \<and> counters (ap_execution t) = counters (ap_execution s)"
proof (cases "enter_work g env name args c s")
  case (Pair entry u)
  show ?thesis
  proof (cases entry)
    case (Ended q)
    with assms(1) Pair have "quiet s t"
      by (auto simp: complete_work_def dest: enter_work_ended)
    then show ?thesis by (simp add: quiet_leaves quiet_counters)
  next
    case (Entered tool input lease)
    note e = enter_work_entered [OF Pair [unfolded Entered]]
    have fin: "finish_work g env tool input lease args c u = (r, t)"
      using assms(1) Pair Entered by (simp add: complete_work_def)
    note f = finish_work_leaves [OF fin e(2) assms(2)]
    have "leaves False s u"
      by (subst e(3)) (simp add: leaves_def)
    moreover from f(1) have "leaves (properly_called g env name args c s) u t"
      by (rule leaves_mono) (use e(1) in \<open>auto simp: properly_called_def\<close>)
    ultimately show ?thesis
      using f(2) by (auto intro: leaves_trans leaves_mono)
  qed
qed

text \<open>
  \<open>settled s t\<close>: the counters of \<open>t\<close> are those of \<open>s\<close>, or those of \<open>s\<close> with the one lease of
  this call, whose work is still running.
\<close>

definition settled :: "work_state \<Rightarrow> app \<Rightarrow> app \<Rightarrow> bool" where
  "settled w s t \<longleftrightarrow> counters (ap_execution t) = counters (ap_execution s) \<or>
     w \<notin> {NotStarted, Finished} \<and>
     (\<exists>tool tenant lease x. admit tool tenant (ap_execution s) = (Some lease, x) \<and>
        counters (ap_execution t) = counters x)"

definition work_of :: "('i, 'o) app_config \<Rightarrow> ('i, 'o) invoke_env \<Rightarrow> string \<Rightarrow> pyval \<Rightarrow> call_context \<Rightarrow> app \<Rightarrow> work_state"
where
  "work_of g env name args c s =
     (let inner = work_context (ag_limits g) (ie_race env) c;
          completed = complete_work g env args inner (enter_work g env name args inner s) in
      run_work (snd (execute (ag_limits g) ((ie_race env)\<lparr>rc_outcome := fst completed\<rparr>) c)))"

lemma ctx_tenant_work [simp]: "ctx_tenant (work_context l env c) = ctx_tenant c"
  by (simp add: work_context_def bounded_context_def ctx_tenant_def)

lemma cc_request_id_work [simp]: "cc_request_id (work_context l env c) = cc_request_id c"
  by (simp add: work_context_def bounded_context_def)

lemma race_work_leaves:
  assumes "race_work g env name args c s = (r, t)" "counts_live (ap_execution s)"
  shows "leaves (properly_called g env name args (work_context (ag_limits g) (ie_race env) c) s) s t"
    and "settled (work_of g env name args c s) s t"
proof -
  define inner where "inner = work_context (ag_limits g) (ie_race env) c"
  define entered where "entered = enter_work g env name args inner s"
  define completed where "completed = complete_work g env args inner entered"
  define w where "w = work_of g env name args c s"
  have t: "t = after_work env w s (snd entered) (snd completed)"
    using assms(1) by (auto simp: race_work_def work_of_def Let_def inner_def entered_def completed_def w_def
        split: prod.splits)
  have done_state: "leaves (properly_called g env name args inner s) s (snd completed)"
    "counters (ap_execution (snd completed)) = counters (ap_execution s)"
    using complete_work_leaves [of g env args inner name s "fst completed" "snd completed"] assms(2)
    by (simp_all add: completed_def entered_def)
  have mid: "leaves p s (snd entered) \<and> (w \<notin> {NotStarted, Finished} \<longrightarrow> settled w s (snd entered))" for p
  proof (cases entered)
    case (Pair entry u)
    show ?thesis
    proof (cases entry)
      case (Ended q)
      with Pair have "quiet s u" by (auto simp: entered_def dest: enter_work_ended)
      with Pair show ?thesis by (simp add: quiet_leaves quiet_counters settled_def)
    next
      case (Entered tool input lease)
      note e = enter_work_entered [OF Pair [unfolded Entered entered_def]]
      have "leaves p s u"
        by (subst e(3)) (simp add: leaves_def)
      with e(2) Pair show ?thesis by (auto simp: settled_def)
    qed
  qed
  show "leaves (properly_called g env name args (work_context (ag_limits g) (ie_race env) c) s) s t"
    using done_state(1) mid by (cases w) (auto simp: t after_work_def inner_def [symmetric])
  show "settled (work_of g env name args c s) s t"
    using done_state(2) mid [of True] by (cases w) (auto simp: t after_work_def w_def [symmetric] settled_def)
qed

lemma settled_quiet: "settled w s t \<Longrightarrow> quiet t u \<Longrightarrow> settled w s u"
  by (auto simp: settled_def quiet_def)

lemma attempt_call_leaves:
  assumes "attempt_call g env name args c s = (r, t)" "counts_live (ap_execution s)"
  shows "leaves (properly_called g env name args (work_context (ag_limits g) (ie_race env) c) s) s t"
    and "settled (work_of g env name args c s) s t"
proof -
  obtain q u where race: "race_work g env name args c s = (q, u)"
    by (cases "race_work g env name args c s") auto
  obtain q' v where v: "run_then (race_work g env name args c s) (\<lambda>r. redact_result g env r (cc_request_id c)) = (q', v)"
    by (cases "run_then (race_work g env name args c s) (\<lambda>r. redact_result g env r (cc_request_id c))") auto
  have uv: "quiet u v"
    using v race by (cases q) (auto dest: redact_result_quiet)
  have vt: "quiet v t"
    using assms(1) v by (auto simp: attempt_call_def dest: mapped_failure_quiet split: sum.splits if_splits)
  note ut = quiet_trans [OF uv vt]
  note race = race_work_leaves [OF race assms(2)]
  show "leaves (properly_called g env name args (work_context (ag_limits g) (ie_race env) c) s) s t"
    using race(1) quiet_leaves [OF ut] by (rule leaves_trans)
  show "settled (work_of g env name args c s) s t"
    using race(2) ut by (rule settled_quiet)
qed

lemma answer_call_leaves:
  assumes "answer_call g env name args c s = (r, t)" "counts_live (ap_execution s)" "ie_task env \<notin> ap_tasks s"
  shows "leaves (lc_state (ap_lifecycle s) = READY \<and>
      properly_called g env name args (work_context (ag_limits g) (ie_race env) c) s) s t"
    and "settled (work_of g env name args c (s\<lparr>ap_tasks := insert (ie_task env) (ap_tasks s)\<rparr>)) s t"
proof -
  let ?s = "s\<lparr>ap_tasks := insert (ie_task env) (ap_tasks s)\<rparr>"
  have same: "properly_called g env name args c' ?s = properly_called g env name args c' s" for c'
    by (simp add: properly_called_def may_enter_def)
  obtain q u where u: "attempt_call g env name args c ?s = (q, u)"
    by (cases "attempt_call g env name args c ?s") auto
  note a = attempt_call_leaves [OF u, simplified, OF assms(2)]
  have closed: "quiet s t" if "lc_state (ap_lifecycle s) \<noteq> READY"
    using assms(1) that by (auto simp: answer_call_def split: if_splits)
  have opened: "t = u\<lparr>ap_tasks := ap_tasks u - {ie_task env}\<rparr>" if "lc_state (ap_lifecycle s) = READY"
    using assms(1) that u by (auto simp: answer_call_def)
  show "leaves (lc_state (ap_lifecycle s) = READY \<and>
      properly_called g env name args (work_context (ag_limits g) (ie_race env) c) s) s t"
  proof (cases "lc_state (ap_lifecycle s) = READY")
    case True
    with opened a(1) assms(3) show ?thesis
      by (auto simp: leaves_def same)
  qed (use closed quiet_leaves in blast)
  show "settled (work_of g env name args c ?s) s t"
    using closed opened a(2) by (cases "lc_state (ap_lifecycle s) = READY")
      (auto simp: settled_def quiet_counters)
qed

lemma invoke_quiet:
  assumes "invoke g env name args c s = (r, t)"
  obtains q u where "answer_call g env name args c s = (q, u)" "quiet u t" "r = q \<or> (\<exists>x. q = Inr x)"
proof -
  obtain q u where u: "answer_call g env name args c s = (q, u)"
    by (cases "answer_call g env name args c s") auto
  have log: "quiet a (log_events es a)" if "\<forall>e\<in>set es. \<not> is_retry_call e" for a es
    using that by (rule log_events_quiet)
  have "quiet u t"
  proof (cases q)
    case (Inl e)
    with assms u show ?thesis by (simp add: invoke_def)
  next
    case (Inr x)
    let ?u = "log_events [Span_outcome Span_MCP_REQUEST (result_outcome x),
      Record_call (known_name g name) (result_outcome x) (max 0 (ie_ended_at env - ie_started_at env))] u"
    from assms u Inr have "run_then (safe_request_id g (cc_request_id c), ?u) (\<lambda>safe u.
        (Inr x, log_events [Request_log safe (known_name g name) (result_outcome x)
          (max 0 (ie_ended_at env - ie_started_at env))] u)) = (r, t)"
      by (simp add: invoke_def Let_def)
    then have "quiet ?u t"
      by (rule run_then_quiet) (auto intro: log)
    moreover have "quiet u ?u"
      by (rule log) simp
    ultimately show ?thesis by (rule quiet_trans [rotated])
  qed
  moreover have "r = q \<or> (\<exists>x. q = Inr x)"
    using assms u by (cases q) (auto simp: invoke_def)
  ultimately show thesis
    using u that by blast
qed

lemma invoke_leaves:
  assumes "counts_live (ap_execution s)" "ie_task env \<notin> ap_tasks s"
  shows "leaves (lc_state (ap_lifecycle s) = READY \<and>
      properly_called g env name args (work_context (ag_limits g) (ie_race env) c) s) s
      (snd (invoke g env name args c s))"
    and "settled (work_of g env name args c (s\<lparr>ap_tasks := insert (ie_task env) (ap_tasks s)\<rparr>)) s
      (snd (invoke g env name args c s))"
proof -
  obtain r t where rt: "invoke g env name args c s = (r, t)"
    by (cases "invoke g env name args c s") auto
  from invoke_quiet [OF rt] obtain q u where u: "answer_call g env name args c s = (q, u)" "quiet u t"
    by blast
  note a = answer_call_leaves [OF u(1) assms]
  show "leaves (lc_state (ap_lifecycle s) = READY \<and>
      properly_called g env name args (work_context (ag_limits g) (ie_race env) c) s) s
      (snd (invoke g env name args c s))"
    using a(1) quiet_leaves [OF u(2)] by (auto simp: rt intro: leaves_trans)
  show "settled (work_of g env name args c (s\<lparr>ap_tasks := insert (ie_task env) (ap_tasks s)\<rparr>)) s
      (snd (invoke g env name args c s))"
    using settled_quiet [OF a(2) u(2)] by (simp add: rt)
qed

subsection \<open>The call always answers\<close>

context redaction_policy
begin

lemma redact_result_answer:
  assumes "ag_text_of g = text_of" "ag_value_of g = value_of" "digest_law (ag_sha g)"
    "sink_law env"
  obtains r t where "redact_result g env q rid s = (Inr r, t)" "public_answer g rid r"
proof (cases "ir_error q")
  case (Some e)
  obtain v where v: "safe_request_id g rid = Inr v" "text_valid 256 v"
    using safe_request_id_ok [OF assms(1,3)] .
  obtain r where "public_failure (er_code e) v = Inr r" "public_answer g rid r"
    using v by (rule public_failure_answer)
  with v Some show thesis
    by (intro that [of r s]) (simp_all add: redact_result_def)
next
  case None
  note mf = mapped_failure_answer [OF assms(1,3,4)]
  show thesis
  proof (cases "and_then (ag_value_of g (ir_value q)) (\<lambda>v. and_then (check_result_value g v) (\<lambda>_. Inr v))")
    case (Inr v)
    have "redact_result g env q rid s = (Inr (result_success v), s)"
      unfolding redact_result_def None option.case Inr sum.case ..
    moreover have "public_answer g rid (result_success v)"
      using Inr by (auto simp: public_answer_def)
    ultimately show thesis by (rule that)
  next
    case (Inl e)
    have e: "exn_kind e = ExecutionLimitExceeded \<or> is_exception e"
    proof (cases "value_of (ir_value q)")
      case (Inl x)
      with value_exception [OF Inl] \<open>and_then _ _ = Inl e\<close> show ?thesis by (simp add: assms(2))
    next
      case (Inr v)
      with \<open>and_then _ _ = Inl e\<close> show ?thesis
        by (auto simp: assms(2) check_result_value_def validate_json_value_def limit_exceeded_def
            split: if_splits option.splits)
    qed
    have red: "redact_result g env q rid s = (if exn_kind e = ExecutionLimitExceeded
        then mapped_failure g env (runtime_failure RESULT_TOO_LARGE) rid s
        else if is_exception e then mapped_failure g env redaction_error rid s else (Inl e, s))"
      unfolding redact_result_def None option.case Inl sum.case ..
    show thesis
    proof (cases "exn_kind e = ExecutionLimitExceeded")
      case True
      show thesis
        by (rule mf [of "runtime_failure RESULT_TOO_LARGE" rid s]) (use True red that in auto)
    next
      case False
      show thesis
        by (rule mf [of redaction_error rid s]) (use False e red that in auto)
    qed
  qed
qed

lemma answer_call_answers:
  assumes "ag_text_of g = text_of" "ag_value_of g = value_of" "digest_law (ag_sha g)"
    "sink_law env"
  shows "case fst (answer_call g env name args c s) of
      Inr r \<Rightarrow> public_answer g (cc_request_id c) r
    | Inl e \<Rightarrow> exn_kind e = OtherBaseException"
proof (cases "lc_state (ap_lifecycle s) = READY")
  case False
  obtain v where v: "safe_request_id g (cc_request_id c) = Inr v" "text_valid 256 v"
    using safe_request_id_ok [OF assms(1,3)] .
  then obtain r where "public_failure UNAVAILABLE v = Inr r" "public_answer g (cc_request_id c) r"
    by (rule public_failure_answer)
  with v False show ?thesis
    by (simp add: answer_call_def)
next
  case True
  let ?s = "s\<lparr>ap_tasks := insert (ie_task env) (ap_tasks s)\<rparr>"
  obtain q u where race: "race_work g env name args c ?s = (q, u)"
    by (cases "race_work g env name args c ?s") auto
  have "case fst (attempt_call g env name args c ?s) of
      Inr r \<Rightarrow> public_answer g (cc_request_id c) r | Inl e \<Rightarrow> exn_kind e = OtherBaseException"
  proof (cases q)
    case (Inr r)
    obtain r' t where "redact_result g env r (cc_request_id c) u = (Inr r', t)" "public_answer g (cc_request_id c) r'"
      using redact_result_answer [OF assms] .
    with race Inr show ?thesis by (simp add: attempt_call_def)
  next
    case (Inl e)
    obtain r' t where "mapped_failure g env e (cc_request_id c) u = (Inr r', t)" "public_answer g (cc_request_id c) r'"
      using mapped_failure_answer [OF assms(1,3,4)] .
    with race Inl show ?thesis
      by (cases "exn_kind e") (auto simp: attempt_call_def is_mapped_def is_exception_def)
  qed
  with True show ?thesis
    by (cases "attempt_call g env name args c ?s") (simp add: answer_call_def)
qed

lemma invoke_answers:
  assumes "ag_text_of g = text_of" "ag_value_of g = value_of" "digest_law (ag_sha g)"
    "sink_law env"
  shows "case fst (invoke g env name args c s) of
      Inr r \<Rightarrow> public_answer g (cc_request_id c) r
    | Inl e \<Rightarrow> exn_kind e = OtherBaseException"
proof -
  obtain v where v: "safe_request_id g (cc_request_id c) = Inr v"
    using safe_request_id_ok [OF assms(1,3)] .
  show ?thesis
    using answer_call_answers [OF assms, where name = name and args = args and c = c and s = s]
    by (cases "answer_call g env name args c s"; cases "fst (answer_call g env name args c s)")
      (simp_all add: invoke_def Let_def v)
qed

end

subsection \<open>Properties\<close>

text \<open>An application that redacts with the runtime's own redactor.\<close>

definition uses_redactor :: "secret_redactor \<Rightarrow> ('i, 'o) app_config \<Rightarrow> bool" where
  "uses_redactor r g \<longleftrightarrow> ag_text_of g = redact_text r \<and> ag_value_of g = redact r \<and> digest_law (ag_sha g)"



text \<open>
  C17. A call cleans up after itself. When it returns, its task is no longer among those in
  flight, the lifecycle is untouched, and the bulkheads count what they counted before, except
  for the one lease of a call whose work is still running after it was told to stop.
\<close>

theorem invoke_cleans_up:
  assumes "counts_live (ap_execution s)" "ie_task env \<notin> ap_tasks s"
  shows "ap_tasks (snd (invoke g env name args c s)) = ap_tasks s \<and>
    ap_lifecycle (snd (invoke g env name args c s)) = ap_lifecycle s \<and>
    settled (work_of g env name args c (s\<lparr>ap_tasks := insert (ie_task env) (ap_tasks s)\<rparr>)) s
      (snd (invoke g env name args c s))"
  using invoke_leaves [OF assms, of g name args c] by (simp add: leaves_def)

definition echo_tool :: "(pyval, pyval) app_tool" where
  "echo_tool = \<lparr>tl_metadata = \<lparr>tm_name = ''echo'', tm_title = ''Echo'', tm_description = ''Echo'',
     tm_effect = Effect_READ, tm_approval = Approval_NOT_REQUIRED, tm_idempotency = Idempotency_NOT_APPLICABLE,
     tm_required_scopes = [], tm_discovery = None\<rparr>, tl_parse = Inr, tl_serialize = Inr\<rparr>"

definition echo_config :: "(pyval, pyval) app_config" where
  "echo_config = \<lparr>ag_limits = default_limits, ag_catalog = [(''echo'', echo_tool)],
     ag_text_of = redact_text sample_redactor, ag_value_of = redact sample_redactor,
     ag_sha = (\<lambda>s. replicate 64 CHR ''0''), ag_frepr = (\<lambda>q. []), ag_sample = (\<lambda>s. 0)\<rparr>"

definition calm_stop :: stop_env where
  "calm_stop = \<lparr>st_done = True, st_yield = Yield_done, st_grace = Grace_done\<rparr>"

definition echo_race :: "invocation_result race_env" where
  "echo_race = \<lparr>rc_now = 0, rc_events = (\<lambda>i. False), rc_local = 1, rc_wake = Woken True False False False,
     rc_outcome = Inl cancelled_error, rc_stop_deadline = calm_stop, rc_stop_cancel = calm_stop\<rparr>"

definition echo_env :: "(pyval, pyval) invoke_env" where
  "echo_env = \<lparr>ie_task = 7, ie_started_at = 0, ie_ended_at = 1, ie_race = echo_race, ie_entered = True,
     ie_authorize = (\<lambda>m args c. Inr ()), ie_handler = (\<lambda>input c n. Inr input),
     ie_retry = \<lparr>attempt_outcome = (\<lambda>n. Inr PNone), clock_now = (\<lambda>n. 0), sleep_interrupted = (\<lambda>n. None),
       cancelled_after = (\<lambda>n. False)\<rparr>, ie_emit = (\<lambda>a. None)\<rparr>"

definition ready_app :: app where
  "ready_app = \<lparr>ap_lifecycle = \<lparr>lc_components = [], lc_started = [], lc_state = READY, lc_calls = []\<rparr>,
     ap_execution = execution_init default_limits, ap_tasks = {}, ap_events = [], ap_telemetry_failures = 0\<rparr>"

lemma ready_app_live: "counts_live (ap_execution ready_app)" "ie_task echo_env \<notin> ap_tasks ready_app"
  by (simp_all add: ready_app_def execution_init_def counts_live_def)


lemma echo_handled:
  "list_ex is_retry_call (ap_events (snd (invoke echo_config echo_env ''echo'' (PInt 4) sample_context ready_app)))"
  by code_simp


theorem invoke_cleans_up_witness:
  "ap_tasks (snd (invoke echo_config echo_env ''echo'' (PInt 4) sample_context ready_app)) = {}"
  using invoke_cleans_up [OF ready_app_live, of echo_config "''echo''" "PInt 4" sample_context]
  by (simp add: ready_app_def)

end
