(* ===== verification/Application_Run.thy ===== *)
theory Application_Run
  imports Application
begin

section \<open>Configuration, readiness and the run of an application\<close>

text \<open>
  Models the rest of \<^verbatim>\<open>src/tesserix_mcp_runtime/application.py\<close>: the limits, the validation of
  the configuration, the components the application hands to its lifecycle, the tool lists, the
  readiness of the application, and \<open>run\<close>: start, wait for a signal, drain and stop, each before
  its deadline. The hooks, the signal source, the readiness checks and which of the work and the
  deadline comes first are the environment.
\<close>

subsection \<open>Limits and configuration\<close>

record application_limits =
  al_drain_timeout :: pyfloat
  al_readiness_timeout :: pyfloat

definition check_application_limits :: "application_limits \<Rightarrow> check" where
  "check_application_limits l =
     for_each (\<lambda>(name, v, maximum, shown).
       raise_if (\<not> is_finite v \<or> \<not> (Fin 0 < v \<and> v \<le> Fin maximum))
         (ValueError (name @ '' must be a positive finite number at most '' @ shown)) okay)
       [(''drain_timeout'', al_drain_timeout l, 300, ''300''),
        (''readiness_timeout'', al_readiness_timeout l, 5, ''5'')]"

datatype configuration_error = ConfigurationError string string

definition component_name_rx :: rx where
  "component_name_rx = Seq (Cls is_alpha) (Rep (Cls (\<lambda>c. is_alnum c \<or> one_of ''_.-'' c)) 0 127)"

definition invocation_component :: string where
  "invocation_component = ''in_flight_invocations''"

text \<open>A component gives its name, or its attribute raises or is not a text.\<close>

definition validated_component_name :: "string option \<Rightarrow> string \<Rightarrow> (configuration_error, string) result" where
  "validated_component_name name path =
     (case name of
        None \<Rightarrow> Inl (ConfigurationError ''invalid_component_name'' path)
      | Some n \<Rightarrow>
          if fullmatch component_name_rx n then Inr n
          else Inl (ConfigurationError ''invalid_component_name'' path))"

definition indexed_path :: "string \<Rightarrow> nat \<Rightarrow> string" where
  "indexed_path base i = base @ ''['' @ nat_digits i @ ''].name''"

fun unique_names ::
  "string \<Rightarrow> string list \<Rightarrow> nat \<Rightarrow> string option list \<Rightarrow> (configuration_error, string list) result" where
  "unique_names base names i [] = Inr []"
| "unique_names base names i (c # cs) =
     and_then (validated_component_name c (indexed_path base i)) (\<lambda>n.
     raise_if (n \<in> set names) (ConfigurationError ''duplicate_component_name'' (indexed_path base i))
     (and_then (unique_names base (n # names) (i + 1) cs) (\<lambda>ns. Inr (n # ns))))"

definition validate_configuration ::
  "execution_limits \<Rightarrow> nat \<Rightarrow> string option \<Rightarrow> string option list \<Rightarrow> string option list
     \<Rightarrow> (configuration_error, string \<times> string list) result" where
  "validate_configuration l tools transport lifecycle checks =
     raise_if (int tools > max_tools l) (ConfigurationError ''tool_limit_exceeded'' ''catalog'')
     (and_then (validated_component_name transport ''transport.name'') (\<lambda>tn.
      raise_if (tn = invocation_component) (ConfigurationError ''duplicate_component_name'' ''transport.name'')
      (and_then (unique_names ''lifecycle'' [tn, invocation_component] 0 lifecycle) (\<lambda>names.
       and_then (unique_names ''readiness_checks'' [] 0 checks) (\<lambda>_.
       Inr (tn, names))))))"

text \<open>The lifecycle of the application: the product's components, the invocations, the transport.\<close>

definition application_lifecycle :: "string \<Rightarrow> string list \<Rightarrow> lifecycle" where
  "application_lifecycle tn names =
     lifecycle_init (map (\<lambda>(i, n). \<lparr>comp_id = i, comp_name = n\<rparr>)
       (List.enumerate 0 (names @ [invocation_component, tn])))"

lemma validated_component_name_ok:
  "validated_component_name c path = Inr n \<longleftrightarrow> c = Some n \<and> fullmatch component_name_rx n"
  by (auto simp: validated_component_name_def split: option.splits)

lemma unique_names_ok:
  "unique_names base names i cs = Inr ns \<Longrightarrow>
     cs = map Some ns \<and> distinct ns \<and> set ns \<inter> set names = {} \<and> (\<forall>n\<in>set ns. fullmatch component_name_rx n)"
  by (induction base names i cs arbitrary: ns rule: unique_names.induct)
    (fastforce simp: validated_component_name_ok)+

subsection \<open>Tool lists and health\<close>

text \<open>\<open>exported\<close> is the visibility policy; an authoriser without one exports everything.\<close>

definition exported_names :: "(string \<Rightarrow> bool) option \<Rightarrow> string list \<Rightarrow> string list" where
  "exported_names policy names = filter (\<lambda>n. case policy of None \<Rightarrow> True | Some f \<Rightarrow> f n) names"

definition list_tools :: "(string \<Rightarrow> bool) option \<Rightarrow> string list \<Rightarrow> lifecycle \<Rightarrow> string list" where
  "list_tools policy names s = (if lc_state s \<noteq> READY then [] else exported_names policy names)"

text \<open>\<open>list_tool_manifests\<close>, over the manifests with their names, in any state.\<close>

definition list_tool_manifests :: "(string \<Rightarrow> bool) option \<Rightarrow> (string \<times> 'm) list \<Rightarrow> (string \<times> 'm) list" where
  "list_tool_manifests policy manifests =
     filter (\<lambda>(n, m). case policy of None \<Rightarrow> True | Some f \<Rightarrow> f n) manifests"

lemma list_tools_manifests:
  "lc_state s = READY \<Longrightarrow>
     list_tools policy (map fst ms) s = map fst (list_tool_manifests policy ms)"
  by (simp add: list_tools_def exported_names_def list_tool_manifests_def filter_map o_def case_prod_unfold)

definition startup_status :: "lifecycle \<Rightarrow> bool" where
  "startup_status s \<longleftrightarrow> lc_state s \<in> {READY, DRAINING}"

datatype checks_end = Checks_done "bool list" | Checks_raise

text \<open>
  \<open>readiness_status\<close>: the answer and whether a failure is logged. The state is read before the
  checks and after them.
\<close>

definition readiness_status :: "lifecycle_state \<Rightarrow> checks_end \<Rightarrow> lifecycle_state \<Rightarrow> bool \<times> bool" where
  "readiness_status before checks after =
     (if before \<noteq> READY then (False, False)
      else
        (case checks of
           Checks_raise \<Rightarrow> (False, True)
         | Checks_done results \<Rightarrow>
             let ready = after = READY \<and> list_all (\<lambda>r. r) results in (ready, \<not> ready)))"

subsection \<open>Calls in flight\<close>

text \<open>
  \<^verbatim>\<open>_InvocationLifecycle\<close>: the tasks of the calls in flight and the event that is set when there are
  none. \<open>iv_cancelled\<close> collects the tasks that were asked to cancel.
\<close>

record invocations =
  iv_tasks :: "nat set"
  iv_empty :: bool
  iv_cancelled :: "nat set"

definition invocations_init :: invocations where
  "invocations_init = \<lparr>iv_tasks = {}, iv_empty = True, iv_cancelled = {}\<rparr>"

text \<open>\<open>begin\<close> in the current task; outside a task it raises \<^verbatim>\<open>RuntimeError\<close>.\<close>

definition begin_call :: "nat option \<Rightarrow> invocations \<Rightarrow> nat option \<times> invocations" where
  "begin_call current s =
     (case current of
        None \<Rightarrow> (None, s)
      | Some t \<Rightarrow> (Some t, s\<lparr>iv_tasks := insert t (iv_tasks s), iv_empty := False\<rparr>))"

definition finish_call :: "nat \<Rightarrow> invocations \<Rightarrow> invocations" where
  "finish_call t s =
     (let left = iv_tasks s - {t} in
      s\<lparr>iv_tasks := left, iv_empty := (if left = {} then True else iv_empty s)\<rparr>)"

definition cancel_calls :: "invocations \<Rightarrow> invocations" where
  "cancel_calls s = s\<lparr>iv_cancelled := iv_cancelled s \<union> iv_tasks s\<rparr>"

text \<open>
  \<open>drain\<close> waits for the event while calls are in flight: the wait sees \<open>later\<close>, the state once the
  calls have finished, or is cancelled, and then the calls are cancelled first. The answer says
  whether the cancellation is raised again.
\<close>

definition drain_calls :: "bool \<Rightarrow> invocations \<Rightarrow> invocations \<Rightarrow> bool \<times> invocations" where
  "drain_calls interrupted later s =
     (if iv_tasks s = {} then (False, s)
      else if interrupted then (True, cancel_calls s)
      else (False, later))"

definition in_flight_agree :: "invocations \<Rightarrow> bool" where
  "in_flight_agree s \<longleftrightarrow> (iv_empty s \<longleftrightarrow> iv_tasks s = {})"

lemma in_flight_agree_steps:
  "in_flight_agree invocations_init"
  "in_flight_agree s \<Longrightarrow> in_flight_agree (snd (begin_call current s))"
  "in_flight_agree s \<Longrightarrow> in_flight_agree (finish_call t s)"
  "in_flight_agree s \<Longrightarrow> in_flight_agree (cancel_calls s)"
  by (auto simp: in_flight_agree_def invocations_init_def begin_call_def finish_call_def cancel_calls_def
      Let_def split: option.splits)

text \<open>A drain that is interrupted leaves no call uncancelled; a drain of no calls changes nothing.\<close>

lemma drain_calls_interrupted:
  "fst (drain_calls interrupted later s) \<Longrightarrow>
     iv_tasks s \<noteq> {} \<and> iv_tasks s \<subseteq> iv_cancelled (snd (drain_calls interrupted later s))"
  by (auto simp: drain_calls_def cancel_calls_def split: if_splits)

lemma drain_calls_waits:
  "\<lbrakk>in_flight_agree s; in_flight_agree later; iv_empty later; drain_calls interrupted later s = (False, t)\<rbrakk>
     \<Longrightarrow> iv_tasks t = {}"
  by (auto simp: drain_calls_def in_flight_agree_def split: if_splits)

subsection \<open>The run\<close>

datatype run_error =
    Lifecycle_error lifecycle_error
  | Deadline_exceeded lifecycle_state
  | Invalid_signal
  | Signal_error string

text \<open>\<open>type(error).__name__\<close>.\<close>

fun run_error_type :: "run_error \<Rightarrow> string" where
  "run_error_type (Lifecycle_error (LifecycleFailure phase name n)) = ''LifecycleFailure''"
| "run_error_type (Lifecycle_error (LifecycleTransitionError op st)) = ''LifecycleTransitionError''"
| "run_error_type (Lifecycle_error LifecycleCancelled) = ''CancelledError''"
| "run_error_type (Lifecycle_error LifecycleValueError) = ''ValueError''"
| "run_error_type (Deadline_exceeded phase) = ''ApplicationDeadlineExceeded''"
| "run_error_type Invalid_signal = ''ApplicationConfigurationError''"
| "run_error_type (Signal_error name) = name"

text \<open>
  \<open>_run_before_deadline\<close>. When the deadline is first, the work is cancelled and awaited: only a
  cancellation is suppressed, any other exception of the work comes out.
\<close>

definition run_before_deadline ::
  "bool \<Rightarrow> lifecycle_state \<Rightarrow> (lifecycle_error, unit) result \<Rightarrow> (run_error, unit) result" where
  "run_before_deadline expired phase r =
     (if \<not> expired then (case r of Inl e \<Rightarrow> Inl (Lifecycle_error e) | Inr u \<Rightarrow> Inr ())
      else
        (case r of
           Inr u \<Rightarrow> Inl (Deadline_exceeded phase)
         | Inl e \<Rightarrow> if e = LifecycleCancelled then Inl (Deadline_exceeded phase) else Inl (Lifecycle_error e)))"

datatype signal_end = Signal_received | Signal_other | Signal_raises string | Signal_cancelled

record run_env =
  re_hooks :: hook_env
  re_signal :: signal_end
  re_drain_now :: rat
  re_drain_expired :: bool
  re_stop_expired :: bool

definition app_drain :: "application_limits \<Rightarrow> run_env \<Rightarrow> lifecycle \<Rightarrow> (run_error, unit) result \<times> lifecycle" where
  "app_drain l env s =
     (case lifecycle_drain (re_hooks env) (Fin (re_drain_now env) + al_drain_timeout l) s of
        (r, t) \<Rightarrow> (run_before_deadline (re_drain_expired env) DRAINING r, t))"

definition app_stop :: "run_env \<Rightarrow> lifecycle \<Rightarrow> (run_error, unit) result \<times> lifecycle" where
  "app_stop env s =
     (case lifecycle_stop (re_hooks env) s of
        (r, t) \<Rightarrow> (run_before_deadline (re_stop_expired env) STOPPED r, t))"

datatype diagnostic_code = STARTUP_FAILED | SIGNAL_FAILED | DRAIN_FAILED | STOP_FAILED

record app_diagnostic =
  ad_code :: diagnostic_code
  ad_phase :: lifecycle_state
  ad_exception_type :: string

definition diagnostic_from ::
  "diagnostic_code \<Rightarrow> lifecycle_state \<Rightarrow> run_error \<Rightarrow> app_diagnostic" where
  "diagnostic_from code phase e =
     \<lparr>ad_code = code, ad_phase = phase, ad_exception_type = safe_exception_type (run_error_type e)\<rparr>"

definition check_diagnostic :: "app_diagnostic \<Rightarrow> check" where
  "check_diagnostic d =
     raise_if (\<not> fullmatch exception_type_rx (ad_exception_type d))
       (ValueError ''exception_type must be a bounded type name'') okay"

fun diagnostic_code_value :: "diagnostic_code \<Rightarrow> string" where
  "diagnostic_code_value STARTUP_FAILED = ''startup_failed''"
| "diagnostic_code_value SIGNAL_FAILED = ''signal_failed''"
| "diagnostic_code_value DRAIN_FAILED = ''drain_failed''"
| "diagnostic_code_value STOP_FAILED = ''stop_failed''"

fun phase_value :: "lifecycle_state \<Rightarrow> string" where
  "phase_value STARTUP = ''startup''"
| "phase_value READY = ''ready''"
| "phase_value DRAINING = ''draining''"
| "phase_value STOPPED = ''stopped''"

definition diagnostic_to_dict :: "app_diagnostic \<Rightarrow> pyval" where
  "diagnostic_to_dict d =
     obj [(''code'', PStr (diagnostic_code_value (ad_code d))),
          (''phase'', PStr (phase_value (ad_phase d))),
          (''exception_type'', PStr (ad_exception_type d))]"

lemma diagnostic_from_valid: "check_diagnostic (diagnostic_from code phase e) = okay"
  by (simp add: check_diagnostic_def diagnostic_from_def safe_exception_type_valid)

record run_result =
  rr_exit_code :: int
  rr_diagnostic :: "app_diagnostic option"

definition check_run_result :: "run_result \<Rightarrow> check" where
  "check_run_result r =
     raise_if (rr_exit_code r \<notin> {0, 1}) (ValueError ''exit_code must be zero or one'')
     (raise_if ((rr_exit_code r = 0) = (rr_diagnostic r \<noteq> None))
       (ValueError ''exit_code and diagnostic must agree'') okay)"

definition run_success :: run_result where
  "run_success = \<lparr>rr_exit_code = 0, rr_diagnostic = None\<rparr>"

definition run_failure :: "app_diagnostic \<Rightarrow> run_result" where
  "run_failure d = \<lparr>rr_exit_code = 1, rr_diagnostic = Some d\<rparr>"

text \<open>A step that is cancelled ends the run with the cancellation, which no clause catches.\<close>

definition step_error :: "(run_error, unit) result \<Rightarrow> run_error option" where
  "step_error r = (case r of Inl e \<Rightarrow> Some e | Inr u \<Rightarrow> None)"

definition was_cancelled :: "(run_error, unit) result \<Rightarrow> bool" where
  "was_cancelled r \<longleftrightarrow> r = Inl (Lifecycle_error LifecycleCancelled)"

definition first_diagnostic :: "app_diagnostic option \<Rightarrow> diagnostic_code \<Rightarrow> lifecycle_state
    \<Rightarrow> (run_error, unit) result \<Rightarrow> app_diagnostic option" where
  "first_diagnostic d code phase r =
     (case d of Some x \<Rightarrow> Some x | None \<Rightarrow> map_option (diagnostic_from code phase) (step_error r))"

definition signal_result :: "signal_end \<Rightarrow> (run_error, unit) result" where
  "signal_result w = (case w of
       Signal_received \<Rightarrow> Inr ()
     | Signal_other \<Rightarrow> Inl Invalid_signal
     | Signal_raises name \<Rightarrow> Inl (Signal_error name)
     | Signal_cancelled \<Rightarrow> Inl (Lifecycle_error LifecycleCancelled))"

text \<open>\<open>None\<close> is the \<open>CancelledError\<close> that comes out of the run.\<close>

definition run_application ::
  "application_limits \<Rightarrow> run_env \<Rightarrow> lifecycle \<Rightarrow> run_result option \<times> lifecycle" where
  "run_application l env s =
     (case lifecycle_start (re_hooks env) s of
        (Inl LifecycleCancelled, t) \<Rightarrow> (None, t)
      | (Inl e, t) \<Rightarrow> (Some (run_failure (diagnostic_from STARTUP_FAILED STARTUP (Lifecycle_error e))), t)
      | (Inr _, t) \<Rightarrow>
          (let signalled = signal_result (re_signal env) in
           if was_cancelled signalled then (None, t)
           else
             (let d1 = first_diagnostic None SIGNAL_FAILED READY signalled;
                  (drain_end, u) = app_drain l env t in
              if was_cancelled drain_end then (None, u)
              else
                (let d2 = first_diagnostic d1 DRAIN_FAILED DRAINING drain_end;
                     (stop_end, v) = app_stop env u in
                 if was_cancelled stop_end then (None, v)
                 else
                   (case first_diagnostic d2 STOP_FAILED STOPPED stop_end of
                      None \<Rightarrow> (Some run_success, v)
                    | Some d \<Rightarrow> (Some (run_failure d), v))))))"

subsection \<open>How a run ends\<close>

lemma diagnostic_simps [simp]:
  "check_run_result run_success = okay"
  "check_run_result (run_failure d) = okay"
  by (simp_all add: check_run_result_def run_success_def run_failure_def)

lemma cleanup_hooks_complete:
  "never_cancels env \<Longrightarrow> \<exists>n. cleanup_hooks env cs k s = (Some n, s\<lparr>lc_calls := lc_calls s @ map HStop cs\<rparr>)"
proof (induction cs arbitrary: k s)
  case (Cons c cs)
  have "env (lc_calls s) (HStop c) \<noteq> Cancels"
    using Cons.prems by (simp add: never_cancels_def)
  with Cons.IH [of k "s\<lparr>lc_calls := lc_calls s @ [HStop c]\<rparr>", OF Cons.prems]
    Cons.IH [of "k + 1" "s\<lparr>lc_calls := lc_calls s @ [HStop c]\<rparr>", OF Cons.prems]
  show ?case
    by (cases "env (lc_calls s) (HStop c)") (auto simp: call_hook_def)
qed simp

text \<open>A start without cancellation is ready, or stopped with everything it started stopped.\<close>

lemma start_hooks_ends:
  assumes "never_cancels env"
  shows "(\<exists>t. start_hooks env cs s = (Inr (), t) \<and> lc_state t = READY) \<or>
    (\<exists>name n t. start_hooks env cs s = (Inl (LifecycleFailure STARTUP name n), t) \<and> lc_state t = STOPPED \<and>
       (\<forall>c\<in>set (lc_started t). HStop c \<in> set (lc_calls t)))"
proof (induction cs arbitrary: s)
  case (Cons c cs)
  let ?s = "s\<lparr>lc_calls := lc_calls s @ [HStart c]\<rparr>"
  obtain n where n: "cleanup_hooks env (c # rev (lc_started ?s)) 1 ?s =
      (Some n, ?s\<lparr>lc_calls := lc_calls ?s @ map HStop (c # rev (lc_started ?s))\<rparr>)"
    using cleanup_hooks_complete [OF assms] by blast
  show ?case
  proof (cases "env (lc_calls s) (HStart c)")
    case Returns
    then show ?thesis
      using Cons.IH [of "?s\<lparr>lc_started := lc_started ?s @ [c]\<rparr>"] by (simp add: call_hook_def)
  next
    case Raises
    with n show ?thesis by (simp add: call_hook_def del: cleanup_hooks.simps)
  next
    case Cancels
    with assms show ?thesis by (simp add: never_cancels_def)
  qed
qed simp

lemma drain_not_cancelled:
  assumes "never_cancels env"
  shows "fst (lifecycle_drain env d s) \<noteq> Inl LifecycleCancelled"
proof -
  obtain acc where "each_hook env (\<lambda>c. HDrain c d) (rev (lc_started s)) (None, 0) (s\<lparr>lc_state := DRAINING\<rparr>) =
      (Some acc, s\<lparr>lc_state := DRAINING, lc_calls := lc_calls s @ map (\<lambda>c. HDrain c d) (rev (lc_started s))\<rparr>)"
    using each_hook_completes [OF assms, of "\<lambda>c. HDrain c d" "rev (lc_started s)" "(None, 0)" "s\<lparr>lc_state := DRAINING\<rparr>"]
    by auto
  then show ?thesis
    by (cases acc) (auto simp: lifecycle_drain_def split: sum.splits option.splits)
qed

lemma stop_ends:
  assumes "never_cancels env"
  shows "fst (lifecycle_stop env s) \<noteq> Inl LifecycleCancelled" "lc_state (snd (lifecycle_stop env s)) = STOPPED"
    "lc_state s \<noteq> STOPPED \<Longrightarrow> \<forall>c\<in>set (lc_started (snd (lifecycle_stop env s))).
       HStop c \<in> set (lc_calls (snd (lifecycle_stop env s)))"
proof -
  obtain acc where acc: "each_hook env HStop (rev (lc_started s)) (None, 0) s =
      (Some acc, s\<lparr>lc_calls := lc_calls s @ map HStop (rev (lc_started s))\<rparr>)"
    using each_hook_completes [OF assms] by blast
  then show "fst (lifecycle_stop env s) \<noteq> Inl LifecycleCancelled" "lc_state (snd (lifecycle_stop env s)) = STOPPED"
    "lc_state s \<noteq> STOPPED \<Longrightarrow> \<forall>c\<in>set (lc_started (snd (lifecycle_stop env s))).
       HStop c \<in> set (lc_calls (snd (lifecycle_stop env s)))"
    by (cases acc; auto simp: lifecycle_stop_def split: option.splits)+
qed

lemma run_before_deadline_cancelled:
  "was_cancelled (run_before_deadline expired phase r) \<longleftrightarrow> \<not> expired \<and> r = Inl LifecycleCancelled"
  by (cases r) (auto simp: was_cancelled_def run_before_deadline_def)

lemma app_drain_running:
  assumes "never_cancels (re_hooks env)" "lc_state s = READY"
  shows "\<not> was_cancelled (fst (app_drain l env s))" "lc_state (snd (app_drain l env s)) \<noteq> STOPPED"
proof -
  obtain r t where t: "lifecycle_drain (re_hooks env) (Fin (re_drain_now env) + al_drain_timeout l) s = (r, t)"
    by fastforce
  then show "\<not> was_cancelled (fst (app_drain l env s))"
    using drain_not_cancelled [OF assms(1), of "Fin (re_drain_now env) + al_drain_timeout l" s]
    by (simp add: app_drain_def run_before_deadline_cancelled)
  show "lc_state (snd (app_drain l env s)) \<noteq> STOPPED"
    using drain_frame [OF t] assms(2) t by (auto simp: app_drain_def)
qed

lemma app_stop_ends:
  assumes "never_cancels (re_hooks env)"
  shows "\<not> was_cancelled (fst (app_stop env s))" "lc_state (snd (app_stop env s)) = STOPPED"
    "lc_state s \<noteq> STOPPED \<Longrightarrow> \<forall>c\<in>set (lc_started (snd (app_stop env s))). HStop c \<in> set (lc_calls (snd (app_stop env s)))"
  using stop_ends [OF assms, of s]
  by (auto simp: app_stop_def run_before_deadline_cancelled split: prod.splits)

lemma run_application_started:
  assumes "lifecycle_start (re_hooks env) s = (Inr u, t)" "\<not> was_cancelled (signal_result (re_signal env))"
    "\<not> was_cancelled (fst (app_drain l env t))" "\<not> was_cancelled (fst (app_stop env (snd (app_drain l env t))))"
  shows "run_application l env s =
    (Some (case first_diagnostic (first_diagnostic (first_diagnostic None SIGNAL_FAILED READY (signal_result (re_signal env)))
          DRAIN_FAILED DRAINING (fst (app_drain l env t))) STOP_FAILED STOPPED (fst (app_stop env (snd (app_drain l env t)))) of
        None \<Rightarrow> run_success | Some d \<Rightarrow> run_failure d),
     snd (app_stop env (snd (app_drain l env t))))"
  using assms
  by (cases "app_drain l env t"; cases "app_stop env (snd (app_drain l env t))")
    (auto simp: run_application_def Let_def split: option.splits)

subsection \<open>Properties\<close>


text \<open>
  The result of a run names the first failure: exit code 0 means that the signal arrived and
  the drain and the stop both succeeded; otherwise the diagnostic carries the code of the first of
  start, signal, drain and stop that failed and a bounded type name, and later failures do not
  replace it.
\<close>

theorem run_reports_first_failure:
  assumes "run_application l env s = (Some res, v)"
  shows "case lifecycle_start (re_hooks env) s of
      (Inl e, t) \<Rightarrow> v = t \<and> (\<exists>d. res = run_failure d \<and> ad_code d = STARTUP_FAILED)
    | (Inr _, t) \<Rightarrow>
        let (drain_end, u) = app_drain l env t; (stop_end, w) = app_stop env u in
        v = w \<and>
        (rr_exit_code res = 0 \<longleftrightarrow> re_signal env = Signal_received \<and> drain_end = Inr () \<and> stop_end = Inr ()) \<and>
        (\<forall>d. rr_diagnostic res = Some d \<longrightarrow> fullmatch exception_type_rx (ad_exception_type d) \<and>
           ad_code d = (if re_signal env \<noteq> Signal_received then SIGNAL_FAILED
             else if drain_end \<noteq> Inr () then DRAIN_FAILED else STOP_FAILED))"
proof -
  obtain r t where start: "lifecycle_start (re_hooks env) s = (r, t)" by fastforce
  show ?thesis
  proof (cases r)
    case (Inl e)
    with start assms show ?thesis
      by (cases e) (auto simp: run_application_def diagnostic_from_def)
  next
    case (Inr x)
    obtain drain_end u where drain: "app_drain l env t = (drain_end, u)" by fastforce
    obtain stop_end w where stop: "app_stop env u = (stop_end, w)" by fastforce
    have nc: "\<not> was_cancelled (signal_result (re_signal env))" "\<not> was_cancelled drain_end" "\<not> was_cancelled stop_end"
      using assms start Inr drain stop by (auto simp: run_application_def Let_def split: if_splits)
    have run: "run_application l env s = (Some (case first_diagnostic (first_diagnostic (first_diagnostic None
          SIGNAL_FAILED READY (signal_result (re_signal env))) DRAIN_FAILED DRAINING drain_end) STOP_FAILED STOPPED stop_end of
        None \<Rightarrow> run_success | Some d \<Rightarrow> run_failure d), w)"
      using run_application_started [of env s x t l] start Inr drain stop nc by simp
    show ?thesis
      using assms unfolding run
      by (cases "re_signal env"; cases drain_end; cases stop_end)
        (auto simp: start Inr drain stop first_diagnostic_def signal_result_def step_error_def diagnostic_from_def
          run_success_def run_failure_def)
  qed
qed

definition failing_drain :: run_env where
  "failing_drain = \<lparr>re_hooks = (\<lambda>hist h. case h of HDrain c d \<Rightarrow> Raises | _ \<Rightarrow> Returns),
     re_signal = Signal_received, re_drain_now = 0, re_drain_expired = False, re_stop_expired = False\<rparr>"

definition sample_app_limits :: application_limits where
  "sample_app_limits = \<lparr>al_drain_timeout = Fin 10, al_readiness_timeout = Fin 1\<rparr>"

lemma failing_drain_run:
  "run_application sample_app_limits failing_drain (lifecycle_init [\<lparr>comp_id = 0, comp_name = ''db''\<rparr>]) =
    (Some (run_failure \<lparr>ad_code = DRAIN_FAILED, ad_phase = DRAINING, ad_exception_type = ''LifecycleFailure''\<rparr>),
     \<lparr>lc_components = [\<lparr>comp_id = 0, comp_name = ''db''\<rparr>], lc_started = [\<lparr>comp_id = 0, comp_name = ''db''\<rparr>],
      lc_state = STOPPED, lc_calls = [HStart \<lparr>comp_id = 0, comp_name = ''db''\<rparr>,
        HDrain \<lparr>comp_id = 0, comp_name = ''db''\<rparr> (Fin 10), HStop \<lparr>comp_id = 0, comp_name = ''db''\<rparr>]\<rparr>)"
proof -
  have "safe_exception_type ''LifecycleFailure'' = ''LifecycleFailure''" by code_simp
  then show ?thesis
    by (simp add: run_application_def lifecycle_start_def lifecycle_init_def failing_drain_def call_hook_def
        sample_app_limits_def app_drain_def lifecycle_drain_def app_stop_def lifecycle_stop_def was_cancelled_def
        run_before_deadline_def signal_result_def first_diagnostic_def step_error_def diagnostic_from_def
        validate_deadline_def)
qed


theorem run_reports_first_failure_witness:
  "case app_drain sample_app_limits failing_drain
       (snd (lifecycle_start (re_hooks failing_drain) (lifecycle_init [\<lparr>comp_id = 0, comp_name = ''db''\<rparr>]))) of
     (drain_end, u) \<Rightarrow> drain_end \<noteq> Inr ()"
  using run_reports_first_failure [OF failing_drain_run]
  by (auto simp: Let_def run_failure_def lifecycle_start_def lifecycle_init_def failing_drain_def call_hook_def
      split: prod.splits)

end
