(* ===== verification/Urls.thy ===== *)
theory Urls
  imports Regex
begin

section \<open>URL splitting\<close>

text \<open>
  The part of \<^verbatim>\<open>urllib.parse\<close> the program uses: \<open>urlsplit\<close> and the attributes of its result. An
  argument \<open>netloc_ok\<close> stands for the two checks of the library that need its tables: the syntax of
  a bracketed address and the normalisation of a network location outside ASCII.
\<close>

record split_url =
  su_scheme :: string
  su_netloc :: string
  su_path :: string
  su_query :: string
  su_fragment :: string

text \<open>\<open>s.partition(c)\<close> and \<open>s.rpartition(c)\<close>; the Boolean says whether the separator occurs.\<close>

fun partition_at :: "char \<Rightarrow> string \<Rightarrow> string \<times> bool \<times> string" where
  "partition_at c [] = ([], False, [])"
| "partition_at c (x # xs) =
     (if x = c then ([], True, xs) else (let (a, found, b) = partition_at c xs in (x # a, found, b)))"

definition rpartition_at :: "char \<Rightarrow> string \<Rightarrow> string \<times> bool \<times> string" where
  "rpartition_at c s =
     (let (b, found, a) = partition_at c (rev s) in
      if found then (rev a, True, rev b) else ([], False, s))"

definition scheme_char :: "char \<Rightarrow> bool" where
  "scheme_char c \<longleftrightarrow> is_alnum c \<or> one_of ''+-.'' c"

definition lower_ascii :: "char \<Rightarrow> char" where
  "lower_ascii c = (if 65 \<le> ord_of c \<and> ord_of c \<le> 90 then char_of (ord_of c + 32) else c)"

text \<open>Leading control characters and spaces go, and so do tabs and line ends anywhere.\<close>

definition clean_url :: "string \<Rightarrow> string" where
  "clean_url s = filter (\<lambda>c. ord_of c \<notin> {9, 10, 13}) (dropWhile (\<lambda>c. ord_of c \<le> 32) s)"

definition split_scheme :: "string \<Rightarrow> string \<times> string" where
  "split_scheme url =
     (let (s, found, rest) = partition_at (CHR '':'') url in
      if found \<and> s \<noteq> [] \<and> is_alpha (hd s) \<and> list_all scheme_char s then (map lower_ascii s, rest)
      else ([], url))"

definition split_netloc :: "string \<Rightarrow> string \<times> string" where
  "split_netloc url =
     (if starts_with ''//'' url
      then (takeWhile (\<lambda>c. \<not> one_of ''/?#'' c) (drop 2 url), dropWhile (\<lambda>c. \<not> one_of ''/?#'' c) (drop 2 url))
      else ([], url))"

definition plain_netloc :: "string \<Rightarrow> bool" where
  "plain_netloc n \<longleftrightarrow> (\<forall>c\<in>set n. ord_of c < 128 \<and> \<not> one_of ''[]'' c)"

text \<open>\<open>urlsplit\<close>; \<open>None\<close> is its \<^verbatim>\<open>ValueError\<close>.\<close>

definition urlsplit :: "(string \<Rightarrow> bool) \<Rightarrow> string \<Rightarrow> split_url option" where
  "urlsplit netloc_ok url =
     (let (scheme, rest) = split_scheme (clean_url url);
          (netloc, rest) = split_netloc rest;
          (rest, _, fragment) = partition_at (CHR ''#'') rest;
          (path, _, query) = partition_at (CHR ''?'') rest in
      if plain_netloc netloc \<or> netloc_ok netloc
      then Some \<lparr>su_scheme = scheme, su_netloc = netloc, su_path = path, su_query = query, su_fragment = fragment\<rparr>
      else None)"

definition has_userinfo :: "split_url \<Rightarrow> bool" where
  "has_userinfo u = (CHR ''@'' \<in> set (su_netloc u))"

text \<open>The host of the network location, empty when \<open>hostname\<close> is \<^verbatim>\<open>None\<close>.\<close>

definition su_hostname :: "split_url \<Rightarrow> string" where
  "su_hostname u =
     (let (_, _, hostinfo) = rpartition_at (CHR ''@'') (su_netloc u);
          (_, bracket, inner) = partition_at (CHR ''['') hostinfo;
          host = (if bracket then fst (partition_at (CHR '']'') inner) else fst (partition_at (CHR '':'') hostinfo));
          (name, zoned, zone) = partition_at (CHR ''%'') host in
      map lower_ascii name @ (if zoned then ''%'' @ zone else []))"

definition hex_any :: "char \<Rightarrow> bool" where
  "hex_any c \<longleftrightarrow> is_digit c \<or> one_of ''abcdefABCDEF'' c"

fun invalid_percent :: "string \<Rightarrow> bool" where
  "invalid_percent [] = False"
| "invalid_percent (c # s) =
     ((c = CHR ''%'' \<and> \<not> (case s of a # b # _ \<Rightarrow> hex_any a \<and> hex_any b | _ \<Rightarrow> False)) \<or> invalid_percent s)"

text \<open>\<open>port\<close> of a split URL: \<open>None\<close> is its \<^verbatim>\<open>ValueError\<close>, and 443 stands for a missing port.\<close>

definition su_port_text :: "split_url \<Rightarrow> string" where
  "su_port_text u =
     (let (_, _, hostinfo) = rpartition_at (CHR ''@'') (su_netloc u);
          (_, bracket, inner) = partition_at (CHR ''['') hostinfo;
          rest = (if bracket then snd (snd (partition_at (CHR '']'') inner)) else hostinfo)
      in snd (snd (partition_at (CHR '':'') rest)))"

definition su_port :: "split_url \<Rightarrow> int option" where
  "su_port u =
     (let p = su_port_text u in
      if p = [] then Some 443
      else if \<not> list_all is_digit p \<or> digits_value p > 65535 then None
      else Some (int (digits_value p)))"

lemma partition_at_found: "partition_at c s = (a, True, b) \<Longrightarrow> s = a @ c # b"
  by (induction s arbitrary: a) (auto split: if_splits prod.splits)

lemma partition_at_missing: "c \<notin> set s \<Longrightarrow> partition_at c s = (s, False, [])"
  by (induction s) auto

lemma partition_at_append: "c \<notin> set a \<Longrightarrow> partition_at c (a @ c # b) = (a, True, b)"
  by (induction a) auto

end
