(* ===== verification/Egress.thy ===== *)
theory Egress
  imports Errors Urls Canonical_Json "HOL-Library.Word"
begin

unbundle bit_operations_syntax

section \<open>Outbound destinations and addresses\<close>

text \<open>
  Models \<^verbatim>\<open>src/tesserix_mcp_runtime/egress.py\<close> and the guarded backend of
  \<^verbatim>\<open>adapters/outbound_http.py\<close>: the canonical host, the declared destinations, the policy over the
  addresses a connection may use, and the connection itself, which is checked again at the peer.

  An address is an integer at its width. An \<open>ip_library\<close> holds what the standard library knows: how
  addresses and networks are written, the registries of special addresses, and the encoding of
  international names.
\<close>

subsection \<open>Addresses\<close>

datatype ip = V4 "32 word" | V6 "128 word"

datatype ip_network = Net4 "32 word" nat | Net6 "128 word" nat

record ip_facts =
  if_global :: bool
  if_private :: bool
  if_loopback :: bool
  if_link_local :: bool
  if_multicast :: bool
  if_reserved :: bool
  if_unspecified :: bool

record ip_library =
  il_address :: "string \<Rightarrow> ip option"
  il_network :: "string \<Rightarrow> ip_network option"
  il_compressed :: "ip \<Rightarrow> string"
  il_facts :: "ip \<Rightarrow> ip_facts"
  il_idna :: "string \<Rightarrow> string option"

text \<open>\<open>address in network\<close> of the same version, and \<open>subnet_of\<close>: the prefixes agree.\<close>

definition same_prefix :: "nat \<Rightarrow> nat \<Rightarrow> 'a::len word \<Rightarrow> 'a word \<Rightarrow> bool" where
  "same_prefix width n a b \<longleftrightarrow> drop_bit (width - n) a = drop_bit (width - n) b"

fun in_network :: "ip \<Rightarrow> ip_network \<Rightarrow> bool" where
  "in_network (V4 a) (Net4 b n) = same_prefix 32 n a b"
| "in_network (V6 a) (Net6 b n) = same_prefix 128 n a b"
| "in_network _ _ = False"

fun subnet_of :: "ip_network \<Rightarrow> ip_network \<Rightarrow> bool" where
  "subnet_of (Net4 a m) (Net4 b n) = (n \<le> m \<and> same_prefix 32 n a b)"
| "subnet_of (Net6 a m) (Net6 b n) = (n \<le> m \<and> same_prefix 128 n a b)"
| "subnet_of _ _ = False"

definition octets :: "nat \<Rightarrow> nat \<Rightarrow> nat \<Rightarrow> nat \<Rightarrow> 32 word" where
  "octets a b c d = of_nat (((a * 256 + b) * 256 + c) * 256 + d)"

definition internal_networks :: "ip_network list" where
  "internal_networks =
     [Net4 (octets 10 0 0 0) 8, Net4 (octets 100 64 0 0) 10, Net4 (octets 127 0 0 0) 8, Net4 (octets 169 254 0 0) 16,
      Net4 (octets 172 16 0 0) 12, Net4 (octets 192 168 0 0) 16,
      Net6 1 128, Net6 (push_bit 112 0xFC00) 7, Net6 (push_bit 112 0xFE80) 10]"

definition nat64_networks :: "ip_network list" where
  "nat64_networks = [Net6 (push_bit 96 0x64FF9B) 96, Net6 (push_bit 80 0x64FF9B0001) 48]"

definition ipv4_compatible :: ip_network where
  "ipv4_compatible = Net6 0 96"

definition low32 :: "128 word \<Rightarrow> 32 word" where
  "low32 a = ucast a"

text \<open>\<open>ipv4_mapped\<close>, \<open>sixtofour\<close>, \<open>teredo\<close>, and the two further forms of the code.\<close>

definition embedded_ipv4 :: "128 word \<Rightarrow> 32 word list" where
  "embedded_ipv4 a =
     (if drop_bit 32 a = 0xFFFF then [low32 a]
      else if drop_bit 112 a = 0x2002 then [low32 (drop_bit 80 a)]
      else if drop_bit 96 a = 0x20010000 then [low32 (drop_bit 64 a), low32 (NOT a)]
      else if in_network (V6 a) ipv4_compatible \<or> list_ex (in_network (V6 a)) nat64_networks then [low32 a]
      else [])"

definition is_public :: "ip_library \<Rightarrow> ip \<Rightarrow> bool" where
  "is_public lib a \<longleftrightarrow>
     (let f = il_facts lib a in
      if_global f \<and> \<not> if_private f \<and> \<not> if_loopback f \<and> \<not> if_link_local f \<and> \<not> if_multicast f \<and>
      \<not> if_reserved f \<and> \<not> if_unspecified f \<and>
      (case a of
         V4 x \<Rightarrow> True
       | V6 x \<Rightarrow> list_all (\<lambda>e. if_global (il_facts lib (V4 e))) (embedded_ipv4 x)))"

definition is_internal_network :: "ip_network \<Rightarrow> bool" where
  "is_internal_network n \<longleftrightarrow> list_ex (subnet_of n) internal_networks"

subsection \<open>Hosts and destinations\<close>

definition host_label_rx :: rx where
  "host_label_rx = Seq (Cls is_lower_alnum) (Opt (Seq (Rep (Cls (\<lambda>c. is_lower_alnum c \<or> c = CHR ''-'')) 0 61) (Cls is_lower_alnum)))"

definition numeric_part_rx :: rx where
  "numeric_part_rx = Alt (Seq (lit ''0'') (Seq (Cls (one_of ''xX'')) (Plus (Cls (\<lambda>c. is_digit c \<or> one_of ''abcdefABCDEF'' c)))))
     (Plus (Cls is_digit))"

definition numeric_host_rx :: rx where
  "numeric_host_rx = Seq numeric_part_rx (Star (Seq (lit ''.'') numeric_part_rx))"

definition bad_host :: value_error where
  "bad_host = ValueError ''host must be a canonical DNS name or IP address''"

definition canonical_host :: "ip_library \<Rightarrow> string \<Rightarrow> (value_error, string) result" where
  "canonical_host lib s =
     (if s = [] \<or> s \<noteq> strip s \<or> length s > 253 \<or> list_ex (one_of ''/@%?#'') s then Inl bad_host
      else
        (let candidate = (if ends_with ''.'' s then butlast s else s) in
         case il_address lib candidate of
           Some a \<Rightarrow> Inr (il_compressed lib a)
         | None \<Rightarrow>
             if fullmatch numeric_host_rx candidate
             then Inl (ValueError ''host must not use an alternate numeric IP representation'')
             else
               (case il_idna lib candidate of
                  None \<Rightarrow> Inl bad_host
                | Some ascii \<Rightarrow>
                    (let host = map lower_ascii ascii in
                     if list_all (fullmatch host_label_rx) (split_on CHR ''.'' host) then Inr host else Inl bad_host))))"

record destination =
  de_host :: string
  de_port :: int

definition make_destination :: "ip_library \<Rightarrow> string \<Rightarrow> int \<Rightarrow> (value_error, destination) result" where
  "make_destination lib host port =
     and_then (canonical_host lib host) (\<lambda>h.
     raise_if (\<not> (1 \<le> port \<and> port \<le> 65535)) (ValueError ''port must be an integer from 1 through 65535'')
       (Inr \<lparr>de_host = h, de_port = port\<rparr>))"

definition authority :: "destination \<Rightarrow> string" where
  "authority d =
     (if CHR '':'' \<in> set (de_host d) then ''['' @ de_host d @ '']'' else de_host d) @ '':'' @ int_str (de_port d)"

definition destination_key :: "destination \<Rightarrow> string \<times> int" where
  "destination_key d = (de_host d, de_port d)"

definition make_egress_manifest :: "destination list \<Rightarrow> (value_error, destination list) result" where
  "make_egress_manifest ds =
     raise_if (length ds > 256 \<or> \<not> distinct ds)
       (ValueError ''egress manifest must contain at most 256 unique destinations'')
       (Inr (sort_key de_host (sort_key de_port ds)))"

definition egress_manifest_to_dict :: "destination list \<Rightarrow> pyval" where
  "egress_manifest_to_dict ds = obj [(''destinations'', PList (map (\<lambda>d. obj
     [(''scheme'', PStr ''https''), (''host'', PStr (de_host d)), (''port'', PInt (de_port d))]) ds))]"

subsection \<open>The declared policy\<close>

datatype egress_exn = Egress_violation | Egress_value value_error | Egress_other

type_synonym 'a egress = "(egress_exn, 'a) result"

record egress_policy =
  ep_library :: ip_library
  ep_destinations :: "destination list"
  ep_networks :: "ip_network list"

fun parse_networks :: "ip_library \<Rightarrow> ip_network list \<Rightarrow> string list \<Rightarrow> (value_error, ip_network list) result" where
  "parse_networks lib parsed [] = Inr parsed"
| "parse_networks lib parsed (s # ss) =
     (case il_network lib s of
        None \<Rightarrow> Inl (ValueError ''internal networks must use canonical CIDR notation'')
      | Some n \<Rightarrow>
          if \<not> is_internal_network n then Inl (ValueError ''internal networks must be narrow private CIDR ranges'')
          else parse_networks lib (if n \<in> set parsed then parsed else parsed @ [n]) ss)"

definition make_egress_policy :: "ip_library \<Rightarrow> destination list \<Rightarrow> string list \<Rightarrow> (value_error, egress_policy) result" where
  "make_egress_policy lib manifest networks =
     raise_if (length networks > 32) (ValueError ''internal network policy exceeds its hard maximum'')
     (and_then (parse_networks lib [] networks) (\<lambda>parsed.
      Inr \<lparr>ep_library = lib, ep_destinations = manifest, ep_networks = parsed\<rparr>))"

definition authorize_destination :: "egress_policy \<Rightarrow> destination \<Rightarrow> unit egress" where
  "authorize_destination p d = raise_if (d \<notin> set (ep_destinations p)) Egress_violation (Inr ())"

definition address_allowed :: "egress_policy \<Rightarrow> string \<Rightarrow> bool" where
  "address_allowed p s =
     (case il_address (ep_library p) s of
        None \<Rightarrow> False
      | Some a \<Rightarrow> list_ex (in_network a) (ep_networks p) \<or> is_public (ep_library p) a)"

definition authorize_connection :: "egress_policy \<Rightarrow> destination \<Rightarrow> string list \<Rightarrow> unit egress" where
  "authorize_connection p d addresses =
     and_then (authorize_destination p d) (\<lambda>_.
     raise_if (addresses = [] \<or> length addresses > 16) Egress_violation
     (for_each (\<lambda>s. raise_if (\<not> address_allowed p s) Egress_violation (Inr ())) addresses))"

subsection \<open>The guarded connection\<close>

text \<open>
  \<open>connect_tcp\<close>: the resolver and the backend are the environment; a stream is the address its socket
  reports, \<open>None\<close> when it reports none. The result is the address connected to with the stream, and
  the Boolean says whether a stream was closed.
\<close>

record network_env =
  ne_resolve :: "string \<Rightarrow> int \<Rightarrow> string list egress"
  ne_connect :: "string \<Rightarrow> int \<Rightarrow> string option egress"

definition check_peer :: "egress_policy \<Rightarrow> destination \<Rightarrow> string \<Rightarrow> string option \<Rightarrow> unit egress" where
  "check_peer p d selected reported =
     (case reported of
        None \<Rightarrow> Inl Egress_violation
      | Some s \<Rightarrow>
          (case il_address (ep_library p) s of
             None \<Rightarrow> Inl (Egress_value (ValueError ''not an address''))
           | Some a \<Rightarrow>
               (let actual = il_compressed (ep_library p) a in
                and_then (authorize_connection p d [actual]) (\<lambda>_.
                raise_if (actual \<noteq> selected) Egress_violation (Inr ())))))"

definition connect_tcp :: "egress_policy \<Rightarrow> network_env \<Rightarrow> string \<Rightarrow> int \<Rightarrow> (string \<times> string option) egress \<times> bool" where
  "connect_tcp p env host port =
     (case make_destination (ep_library p) host port of
        Inl e \<Rightarrow> (Inl (Egress_value e), False)
      | Inr d \<Rightarrow>
          (case and_then (authorize_destination p d) (\<lambda>_.
                and_then (ne_resolve env (de_host d) (de_port d)) (\<lambda>addresses.
                and_then (authorize_connection p d addresses) (\<lambda>_. Inr (hd addresses)))) of
             Inl e \<Rightarrow> (Inl e, False)
           | Inr s \<Rightarrow>
               (case il_address (ep_library p) s of
                  None \<Rightarrow> (Inl (Egress_value (ValueError ''not an address'')), False)
                | Some a \<Rightarrow>
                    (let selected = il_compressed (ep_library p) a in
                     case ne_connect env selected port of
                       Inl e \<Rightarrow> (Inl e, False)
                     | Inr stream \<Rightarrow>
                         (case check_peer p d selected stream of
                            Inl e \<Rightarrow> (Inl e, True)
                          | Inr u \<Rightarrow> (Inr (selected, stream), False))))))"

subsection \<open>What the policy confines\<close>

lemma same_prefix_trans: "same_prefix w n a b \<Longrightarrow> same_prefix w n b c \<Longrightarrow> same_prefix w n a c"
  by (simp add: same_prefix_def)

lemma same_prefix_shorter:
  assumes "same_prefix w m a b" "n \<le> m"
  shows "same_prefix w n a b"
proof -
  have "w - n = (w - n - (w - m)) + (w - m)" using assms(2) by arith
  then have e: "drop_bit (w - n) x = drop_bit (w - n - (w - m)) (drop_bit (w - m) x)" for x :: "'a word"
    by (metis drop_bit_drop_bit)
  show ?thesis
    unfolding same_prefix_def e [of a] e [of b] using assms(1) by (simp only: same_prefix_def)
qed

text \<open>An address of a subnet is an address of the network.\<close>

lemma in_subnet: "in_network a n \<Longrightarrow> subnet_of n m \<Longrightarrow> in_network a m"
  by (cases a; cases n; cases m) (auto intro: same_prefix_trans same_prefix_shorter)

lemma parse_networks_internal:
  assumes "parse_networks lib parsed ss = Inr ns" "\<forall>n\<in>set parsed. is_internal_network n"
  shows "\<forall>n\<in>set ns. is_internal_network n"
  using assms
proof (induction ss arbitrary: parsed)
  case (Cons s ss)
  from Cons.prems(1) obtain n where n: "is_internal_network n"
    and rest: "parse_networks lib (if n \<in> set parsed then parsed else parsed @ [n]) ss = Inr ns"
    by (simp split: option.splits if_splits)
  show ?case by (rule Cons.IH [OF rest]) (use n Cons.prems(2) in simp)
qed simp

definition internal_address :: "ip \<Rightarrow> bool" where
  "internal_address a \<longleftrightarrow> list_ex (in_network a) internal_networks"

definition confined :: "ip_library \<Rightarrow> ip \<Rightarrow> bool" where
  "confined lib a \<longleftrightarrow> internal_address a \<or> is_public lib a"

lemma address_allowed_confined:
  assumes "make_egress_policy lib ds networks = Inr p" "address_allowed p s"
  shows "\<exists>a. il_address lib s = Some a \<and> confined lib a \<and> (networks = [] \<longrightarrow> is_public lib a)"
proof -
  from assms(1) obtain parsed where p: "parse_networks lib [] networks = Inr parsed"
    "p = \<lparr>ep_library = lib, ep_destinations = ds, ep_networks = parsed\<rparr>"
    by (auto simp: make_egress_policy_def)
  have "\<forall>n\<in>set parsed. is_internal_network n" using parse_networks_internal [OF p(1)] by simp
  with assms(2) p show ?thesis
    by (auto simp: address_allowed_def confined_def internal_address_def is_internal_network_def list_ex_iff
        split: option.splits dest: in_subnet)
qed

text \<open>A library that knows one public address, and a destination resolved to it.\<close>

definition sample_library :: ip_library where
  "sample_library = \<lparr>il_address = (\<lambda>s. if s = ''8.8.8.8'' then Some (V4 (octets 8 8 8 8)) else None),
     il_network = (\<lambda>s. None), il_compressed = (\<lambda>a. ''8.8.8.8''),
     il_facts = (\<lambda>a. \<lparr>if_global = True, if_private = False, if_loopback = False, if_link_local = False,
       if_multicast = False, if_reserved = False, if_unspecified = False\<rparr>),
     il_idna = Some\<rparr>"

definition sample_destination :: destination where
  "sample_destination = \<lparr>de_host = ''api.example'', de_port = 443\<rparr>"

definition sample_egress_policy :: egress_policy where
  "sample_egress_policy = \<lparr>ep_library = sample_library, ep_destinations = [sample_destination], ep_networks = []\<rparr>"

definition sample_network :: network_env where
  "sample_network = \<lparr>ne_resolve = (\<lambda>host port. Inr [''8.8.8.8'']), ne_connect = (\<lambda>address port. Inr (Some address))\<rparr>"

lemma sample_egress_made: "make_egress_policy sample_library [sample_destination] [] = Inr sample_egress_policy"
  by (simp add: make_egress_policy_def sample_egress_policy_def)

lemma sample_destination_made: "make_destination sample_library ''api.example'' 443 = Inr sample_destination"
  by code_simp

lemma sample_address: "il_address sample_library s = (if s = ''8.8.8.8'' then Some (V4 (octets 8 8 8 8)) else None)"
  "il_compressed sample_library a = ''8.8.8.8''" "is_public sample_library (V4 w)"
  by (simp_all add: sample_library_def is_public_def)

lemma sample_connection:
  "connect_tcp sample_egress_policy sample_network ''api.example'' 443 = (Inr (''8.8.8.8'', Some ''8.8.8.8''), False)"
  using sample_destination_made
  by (simp add: connect_tcp_def sample_egress_policy_def authorize_connection_def authorize_destination_def
      address_allowed_def check_peer_def sample_network_def sample_address Let_def)



end
