(* ===== verification/Schema_Compatibility.thy ===== *)
theory Schema_Compatibility
  imports Canonical_Json
begin

section \<open>Compatibility of tool schemas\<close>

text \<open>
  Models \<^verbatim>\<open>src/tesserix_mcp_runtime/schema_compatibility.py\<close>: whether every value the previous
  schema accepts is still accepted by the current one (or the other way round for an output),
  decided by a structural comparison with a budget of 10,000 comparisons.

  A schema is a decoded JSON object. The comparison threads the budget as the code's
  \<open>_ComparisonState\<close> does; its recursion is bounded by a fuel, and a fuel above the budget is
  never used up. Python's own limit on the depth of the stack is not modelled.

  \<open>Schema_Meaning\<close> gives the meaning of a schema, as a relation between a schema and a value, and
  shows that a compatible change keeps the accepted values.
\<close>

subsection \<open>Equality of decoded values\<close>

text \<open>
  Python's \<open>==\<close> on decoded values: numbers and Booleans compare by their value, lists by their
  items, dictionaries as maps. \<open>plain\<close> gives equal values one form; a NaN and a value outside JSON
  equal nothing.
\<close>

instantiation pykey :: linorder
begin

fun less_eq_pykey :: "pykey \<Rightarrow> pykey \<Rightarrow> bool" where
  "less_eq_pykey (KStr s) (KStr t) = (s \<le> t)"
| "less_eq_pykey (KStr s) (KOther j) = True"
| "less_eq_pykey (KOther i) (KStr t) = False"
| "less_eq_pykey (KOther i) (KOther j) = (i \<le> j)"

definition less_pykey :: "pykey \<Rightarrow> pykey \<Rightarrow> bool" where
  "less_pykey k l \<longleftrightarrow> k \<le> l \<and> \<not> l \<le> k"

instance
proof
  fix x y z :: pykey
  show "(x < y) = (x \<le> y \<and> \<not> y \<le> x)" by (rule less_pykey_def)
  show "x \<le> x" by (cases x) auto
  show "x \<le> y \<Longrightarrow> y \<le> z \<Longrightarrow> x \<le> z" by (cases x; cases y; cases z) auto
  show "x \<le> y \<Longrightarrow> y \<le> x \<Longrightarrow> x = y" by (cases x; cases y) auto
  show "x \<le> y \<or> y \<le> x" by (cases x; cases y) auto
qed

end

datatype nval = NNone | NNum rat | NPInf | NNInf | NStr string | NList "nval list" | NDict "(pykey \<times> nval) list" | NBad

fun plain_float :: "pyfloat \<Rightarrow> nval" where
  "plain_float (Fin q) = NNum q"
| "plain_float PInf = NPInf"
| "plain_float NInf = NNInf"
| "plain_float NaN = NBad"

primrec plain :: "pyval \<Rightarrow> nval" where
  "plain PNone = NNone"
| "plain (PBool b) = NNum (if b then 1 else 0)"
| "plain (PInt i) = NNum (of_int i)"
| "plain (PFloat f) = plain_float f"
| "plain (PStr s) = NStr s"
| "plain (PList xs) = NList (map plain xs)"
| "plain (PDict d) = NDict (sort_key fst (map (map_prod id plain) d))"
| "plain POther = NBad"

primrec comparable :: "pyval \<Rightarrow> bool" where
  "comparable PNone = True"
| "comparable (PBool b) = True"
| "comparable (PInt i) = True"
| "comparable (PFloat f) = (f \<noteq> NaN)"
| "comparable (PStr s) = True"
| "comparable (PList xs) = list_all (\<lambda>b. b) (map comparable xs)"
| "comparable (PDict d) = list_all snd (map (map_prod id comparable) d)"
| "comparable POther = False"

definition py_eq :: "pyval \<Rightarrow> pyval \<Rightarrow> bool" where
  "py_eq v w \<longleftrightarrow> comparable v \<and> comparable w \<and> plain v = plain w"

lemma py_eq_sym: "py_eq v w \<Longrightarrow> py_eq w v"
  by (auto simp: py_eq_def)

lemma py_eq_trans: "py_eq u v \<Longrightarrow> py_eq v w \<Longrightarrow> py_eq u w"
  by (auto simp: py_eq_def)

lemma plain_float_not [simp]: "plain_float f \<noteq> NStr s" "plain_float f \<noteq> NNone"
    "NStr s \<noteq> plain_float f" "NNone \<noteq> plain_float f"
  by (cases f; simp)+

lemma plain_eq_simps [simp]:
  "plain v = NStr s \<longleftrightarrow> v = PStr s"
  "plain v = NNone \<longleftrightarrow> v = PNone"
  "NStr s = plain v \<longleftrightarrow> v = PStr s"
  "NNone = plain v \<longleftrightarrow> v = PNone"
  by (cases v; auto split: if_splits)+

lemma py_eq_PStr [simp]: "py_eq (PStr s) v \<longleftrightarrow> v = PStr s" "py_eq v (PStr s) \<longleftrightarrow> v = PStr s"
  by (auto simp: py_eq_def)

lemma py_eq_PNone [simp]: "py_eq PNone v \<longleftrightarrow> v = PNone" "py_eq v PNone \<longleftrightarrow> v = PNone"
  by (auto simp: py_eq_def)

subsection \<open>References and variants\<close>

type_synonym schema = "(pykey \<times> pyval) list"

definition annotation_keys :: "string list" where
  "annotation_keys = [''$comment'', ''$defs'', ''$id'', ''$schema'', ''default'', ''description'', ''examples'', ''title'']"

definition known_keys :: "string list" where
  "known_keys =
     [''$ref'', ''additionalProperties'', ''anyOf'', ''const'', ''enum'', ''exclusiveMaximum'',
      ''exclusiveMinimum'', ''format'', ''items'', ''maxItems'', ''maxLength'', ''maxProperties'',
      ''maximum'', ''minItems'', ''minLength'', ''minProperties'', ''minimum'', ''multipleOf'',
      ''properties'', ''propertyNames'', ''required'', ''type'', ''uniqueItems'']"

definition local_definition_prefix :: string where
  "local_definition_prefix = ''#/$defs/''"

datatype schema_change = Change_IDENTICAL | Change_NON_BREAKING | Change_BREAKING

datatype schema_direction = Direction_INPUT | Direction_OUTPUT

fun schema_of :: "pyval \<Rightarrow> schema option" where
  "schema_of (PDict d) = (if list_all (\<lambda>kv. is_kstr (fst kv)) d then Some d else None)"
| "schema_of _ = None"

definition has_key :: "string \<Rightarrow> schema \<Rightarrow> bool" where
  "has_key k d \<longleftrightarrow> KStr k \<in> fst ` set d"

definition only_keys :: "string list \<Rightarrow> schema \<Rightarrow> bool" where
  "only_keys ks d \<longleftrightarrow> list_all (\<lambda>kv. fst kv \<in> KStr ` set ks) d"

definition definition_names :: "schema \<Rightarrow> pykey set" where
  "definition_names doc = (case get_none ''$defs'' doc of PDict d \<Rightarrow> fst ` set d | _ \<Rightarrow> {})"

definition definition_of :: "schema \<Rightarrow> string \<Rightarrow> schema option" where
  "definition_of doc name =
     (case schema_of (get_none ''$defs'' doc) of
        None \<Rightarrow> None
      | Some defs \<Rightarrow> schema_of (get_none name defs))"

text \<open>The name a local reference gives, when the schema holds nothing else but annotations.\<close>

definition reference_name :: "schema \<Rightarrow> string option" where
  "reference_name schema =
     (case get_none ''$ref'' schema of
        PStr r \<Rightarrow>
          if starts_with local_definition_prefix r \<and> only_keys (''$ref'' # annotation_keys) schema
          then Some (remove_prefix local_definition_prefix r) else None
      | _ \<Rightarrow> None)"

lemma finite_definition_names [simp]: "finite (definition_names doc)"
  by (auto simp: definition_names_def split: pyval.split)

lemma schema_of_Some: "schema_of v = Some d \<longleftrightarrow> v = PDict d \<and> (\<forall>kv\<in>set d. is_kstr (fst kv))"
  by (cases v) (auto simp: list_all_iff)

lemma definition_of_name: "definition_of doc name = Some d \<Longrightarrow> KStr name \<in> definition_names doc"
  by (auto simp: definition_of_def definition_names_def schema_of_Some get_or_def dict_get_def
      dest!: map_of_SomeD split: option.splits intro: rev_image_eqI)

function resolve :: "schema \<Rightarrow> string list \<Rightarrow> schema \<Rightarrow> schema option" where
  "resolve doc stack schema =
     (if get_none ''$ref'' schema = PNone then Some schema
      else
        (case reference_name schema of
           None \<Rightarrow> None
         | Some name \<Rightarrow>
             if name \<in> set stack then None
             else
               (case definition_of doc name of
                  None \<Rightarrow> None
                | Some target \<Rightarrow> resolve doc (stack @ [name]) target)))"
  by pat_completeness auto

termination
proof (relation "measure (\<lambda>(doc, stack, schema). card (definition_names doc - KStr ` set stack))", goal_cases)
  case 1
  show ?case by simp
next
  case (2 doc stack schema name target)
  have "KStr name \<in> definition_names doc - KStr ` set stack"
    using 2 by (auto dest: definition_of_name)
  moreover have "definition_names doc - KStr ` set (stack @ [name]) =
      (definition_names doc - KStr ` set stack) - {KStr name}" by auto
  ultimately show ?case by (simp only: in_measure split_conv) (rule psubset_card_mono; auto)
qed

declare resolve.simps [simp del]

definition variant_list :: "schema \<Rightarrow> schema list option" where
  "variant_list schema =
     (case get_none ''anyOf'' schema of
        PNone \<Rightarrow> Some [schema]
      | PList vs \<Rightarrow>
          if vs = [] \<or> \<not> list_all (\<lambda>v. schema_of v \<noteq> None) vs then None
          else Some (map (\<lambda>v. the (schema_of v)) vs)
      | _ \<Rightarrow> None)"

subsection \<open>Keywords of one schema\<close>

definition allowed_values :: "schema \<Rightarrow> pyval list option" where
  "allowed_values schema =
     (case dict_get ''const'' schema of
        Some v \<Rightarrow> Some [v]
      | None \<Rightarrow>
          (case get_none ''enum'' schema of
             PNone \<Rightarrow> None
           | PList vs \<Rightarrow> Some vs
           | _ \<Rightarrow> Some []))"

definition allows_every_value :: "schema \<Rightarrow> schema \<Rightarrow> bool" where
  "allows_every_value candidate baseline =
     (case allowed_values candidate of
        None \<Rightarrow> True
      | Some cs \<Rightarrow>
          (case allowed_values baseline of
             None \<Rightarrow> False
           | Some bs \<Rightarrow> list_all (\<lambda>v. list_ex (\<lambda>a. py_eq v a) cs) bs))"

fun numeric :: "pyval \<Rightarrow> rat option" where
  "numeric (PInt i) = Some (of_int i)"
| "numeric (PFloat (Fin q)) = Some q"
| "numeric _ = None"

text \<open>A bound and whether it is inclusive; of two bounds the tighter one.\<close>

type_synonym bound = "(rat \<times> bool) option"

definition lower_bound :: "schema \<Rightarrow> bound" where
  "lower_bound schema =
     (case (numeric (get_none ''minimum'' schema), numeric (get_none ''exclusiveMinimum'' schema)) of
        (None, None) \<Rightarrow> None
      | (Some i, None) \<Rightarrow> Some (i, True)
      | (None, Some e) \<Rightarrow> Some (e, False)
      | (Some i, Some e) \<Rightarrow> Some (if e \<ge> i then (e, False) else (i, True)))"

definition upper_bound :: "schema \<Rightarrow> bound" where
  "upper_bound schema =
     (case (numeric (get_none ''maximum'' schema), numeric (get_none ''exclusiveMaximum'' schema)) of
        (None, None) \<Rightarrow> None
      | (Some i, None) \<Rightarrow> Some (i, True)
      | (None, Some e) \<Rightarrow> Some (e, False)
      | (Some i, Some e) \<Rightarrow> Some (if e \<le> i then (e, False) else (i, True)))"

fun lower_is_wider :: "bound \<Rightarrow> bound \<Rightarrow> bool" where
  "lower_is_wider None b = True"
| "lower_is_wider (Some c) None = False"
| "lower_is_wider (Some (c, ci)) (Some (b, bi)) = (c < b \<or> c = b \<and> (ci \<or> \<not> bi))"

fun upper_is_wider :: "bound \<Rightarrow> bound \<Rightarrow> bool" where
  "upper_is_wider None b = True"
| "upper_is_wider (Some c) None = False"
| "upper_is_wider (Some (c, ci)) (Some (b, bi)) = (c > b \<or> c = b \<and> (ci \<or> \<not> bi))"

definition minimum_is_wider :: "schema \<Rightarrow> schema \<Rightarrow> string \<Rightarrow> bool" where
  "minimum_is_wider candidate baseline key =
     (case numeric (get_none key candidate) of
        None \<Rightarrow> True
      | Some c \<Rightarrow> (case numeric (get_none key baseline) of None \<Rightarrow> False | Some b \<Rightarrow> c \<le> b))"

definition maximum_is_wider :: "schema \<Rightarrow> schema \<Rightarrow> string \<Rightarrow> bool" where
  "maximum_is_wider candidate baseline key =
     (case numeric (get_none key candidate) of
        None \<Rightarrow> True
      | Some c \<Rightarrow> (case numeric (get_none key baseline) of None \<Rightarrow> False | Some b \<Rightarrow> c \<ge> b))"

definition is_unknown :: "pykey \<Rightarrow> bool" where
  "is_unknown k \<longleftrightarrow> k \<notin> KStr ` set annotation_keys \<and> k \<notin> KStr ` set known_keys"

definition get_key :: "pykey \<Rightarrow> schema \<Rightarrow> pyval" where
  "get_key k d = (case map_of d k of None \<Rightarrow> PNone | Some v \<Rightarrow> v)"

definition same_unknown_constraints :: "schema \<Rightarrow> schema \<Rightarrow> bool" where
  "same_unknown_constraints candidate baseline =
     list_all (\<lambda>k. is_unknown k \<longrightarrow> py_eq (get_key k candidate) (get_key k baseline))
       (map fst candidate @ map fst baseline)"

definition property_schema :: "schema \<Rightarrow> string \<Rightarrow> schema option" where
  "property_schema schema name =
     (case Option.bind (schema_of (get_none ''properties'' schema)) (\<lambda>ps. schema_of (get_none name ps)) of
        Some p \<Rightarrow> Some p
      | None \<Rightarrow> schema_of (get_none ''additionalProperties'' schema))"


text \<open>The names of a list of distinct texts; the mapping from names to schemas.\<close>

fun text_of :: "pyval \<Rightarrow> string option" where
  "text_of (PStr s) = Some s"
| "text_of _ = None"

definition required_names :: "pyval \<Rightarrow> string list option" where
  "required_names v =
     (case v of
        PList vs \<Rightarrow>
          if list_all (\<lambda>v. text_of v \<noteq> None) vs \<and> distinct (map (\<lambda>v. the (text_of v)) vs)
          then Some (map (\<lambda>v. the (text_of v)) vs) else None
      | _ \<Rightarrow> None)"

fun key_name :: "pykey \<Rightarrow> string" where
  "key_name (KStr s) = s"
| "key_name (KOther i) = []"

definition schema_map :: "pyval \<Rightarrow> (string \<times> schema) list option" where
  "schema_map v =
     (case schema_of v of
        None \<Rightarrow> None
      | Some d \<Rightarrow>
          if list_all (\<lambda>kv. schema_of (snd kv) \<noteq> None) d
          then Some (map (\<lambda>kv. (key_name (fst kv), the (schema_of (snd kv)))) d) else None)"

definition property_names_are_wider :: "schema \<Rightarrow> schema \<Rightarrow> bool" where
  "property_names_are_wider candidate baseline =
     (if get_none ''propertyNames'' candidate = PNone then True
      else
        (case (schema_of (get_none ''propertyNames'' candidate), schema_of (get_none ''propertyNames'' baseline)) of
           (Some c, Some b) \<Rightarrow> minimum_is_wider c b ''minLength'' \<and> maximum_is_wider c b ''maxLength''
         | _ \<Rightarrow> False))"

subsection \<open>The comparison\<close>

text \<open>
  A comparison takes the budget that remains and returns its answer with what is left. \<open>all_of\<close>
  and \<open>any_of\<close> are the short-circuiting \<open>all\<close> and \<open>any\<close> over a generator.
\<close>

type_synonym verdict = "bool \<times> int"

fun all_of :: "('a \<Rightarrow> int \<Rightarrow> verdict) \<Rightarrow> 'a list \<Rightarrow> int \<Rightarrow> verdict" where
  "all_of f [] r = (True, r)"
| "all_of f (x # xs) r = (let (ok, s) = f x r in if ok then all_of f xs s else (False, s))"

fun any_of :: "('a \<Rightarrow> int \<Rightarrow> verdict) \<Rightarrow> 'a list \<Rightarrow> int \<Rightarrow> verdict" where
  "any_of f [] r = (False, r)"
| "any_of f (x # xs) r = (let (ok, s) = f x r in if ok then (True, s) else any_of f xs s)"

type_synonym compare = "schema \<Rightarrow> schema \<Rightarrow> int \<Rightarrow> verdict"

definition additional_superset :: "compare \<Rightarrow> schema \<Rightarrow> schema \<Rightarrow> int \<Rightarrow> verdict" where
  "additional_superset sub candidate baseline r =
     (let b = get_none ''additionalProperties'' baseline; c = get_none ''additionalProperties'' candidate in
      if b = PBool False then (True, r)
      else if c = PBool False then (False, r)
      else
        (case (schema_of b, schema_of c) of
           (Some bs, Some cs) \<Rightarrow> sub cs bs r
         | (Some bs, None) \<Rightarrow> (c = PNone, r)
         | (None, Some cs) \<Rightarrow> (False, r)
         | (None, None) \<Rightarrow> (True, r)))"

definition property_superset :: "compare \<Rightarrow> schema \<Rightarrow> string \<times> schema \<Rightarrow> int \<Rightarrow> verdict" where
  "property_superset sub candidate p r =
     (case property_schema candidate (fst p) of
        None \<Rightarrow> (False, r)
      | Some c \<Rightarrow> sub c (snd p) r)"

definition object_superset :: "compare \<Rightarrow> schema \<Rightarrow> schema \<Rightarrow> int \<Rightarrow> verdict" where
  "object_superset sub candidate baseline r =
     (case (required_names (get_or (PList []) ''required'' candidate),
            required_names (get_or (PList []) ''required'' baseline)) of
        (Some cr, Some br) \<Rightarrow>
          if \<not> set cr \<subseteq> set br then (False, r)
          else
            (case (schema_map (get_or (PDict []) ''properties'' candidate),
                   schema_map (get_or (PDict []) ''properties'' baseline)) of
               (Some cp, Some bp) \<Rightarrow>
                 (let (ok, s) = all_of (property_superset sub candidate) bp r in
                  if \<not> ok then (False, s)
                  else
                    (let (ok, t) = additional_superset sub candidate baseline s in
                     if \<not> ok then (False, t)
                     else (minimum_is_wider candidate baseline ''minProperties'' \<and>
                           maximum_is_wider candidate baseline ''maxProperties'' \<and>
                           property_names_are_wider candidate baseline, t)))
             | _ \<Rightarrow> (False, r))
      | _ \<Rightarrow> (False, r))"

definition string_superset :: "schema \<Rightarrow> schema \<Rightarrow> bool" where
  "string_superset c b \<longleftrightarrow>
     minimum_is_wider c b ''minLength'' \<and> maximum_is_wider c b ''maxLength'' \<and>
     (get_none ''format'' c = PNone \<or> py_eq (get_none ''format'' c) (get_none ''format'' b))"

definition number_superset :: "schema \<Rightarrow> schema \<Rightarrow> bool" where
  "number_superset c b \<longleftrightarrow>
     lower_is_wider (lower_bound c) (lower_bound b) \<and> upper_is_wider (upper_bound c) (upper_bound b) \<and>
     (numeric (get_none ''multipleOf'' c) = None \<or>
      numeric (get_none ''multipleOf'' b) = numeric (get_none ''multipleOf'' c))"

definition array_superset :: "compare \<Rightarrow> schema \<Rightarrow> schema \<Rightarrow> int \<Rightarrow> verdict" where
  "array_superset sub c b r =
     (case (schema_of (get_none ''items'' c), schema_of (get_none ''items'' b)) of
        (Some ci, Some bi) \<Rightarrow>
          if minimum_is_wider c b ''minItems'' \<and> maximum_is_wider c b ''maxItems'' \<and>
             \<not> (get_none ''uniqueItems'' c = PBool True \<and> get_none ''uniqueItems'' b \<noteq> PBool True)
          then sub ci bi r else (False, r)
      | _ \<Rightarrow> (False, r))"

definition same_type :: "schema \<Rightarrow> schema \<Rightarrow> bool" where
  "same_type c b \<longleftrightarrow>
     py_eq (get_none ''type'' c) (get_none ''type'' b) \<or>
     get_none ''type'' c = PStr ''number'' \<and> get_none ''type'' b = PStr ''integer''"

definition typed_superset :: "compare \<Rightarrow> schema \<Rightarrow> schema \<Rightarrow> int \<Rightarrow> verdict" where
  "typed_superset sub c b r =
     (if \<not> same_type c b then (False, r)
      else
        (case text_of (get_none ''type'' c) of
           None \<Rightarrow> (False, r)
         | Some ty \<Rightarrow>
             if \<not> allows_every_value c b \<or> \<not> same_unknown_constraints c b then (False, r)
             else if ty = ''string'' then (string_superset c b, r)
             else if ty = ''integer'' \<or> ty = ''number'' then (number_superset c b, r)
             else if ty = ''array'' then array_superset sub c b r
             else if ty = ''object'' then object_superset sub c b r
             else (True, r)))"

definition resolved_superset :: "compare \<Rightarrow> schema \<Rightarrow> schema \<Rightarrow> int \<Rightarrow> verdict" where
  "resolved_superset sub c b r =
     (case (variant_list c, variant_list b) of
        (Some cs, Some bs) \<Rightarrow>
          if has_key ''anyOf'' c \<or> has_key ''anyOf'' b
          then all_of (\<lambda>bv. any_of (\<lambda>cv. sub cv bv) cs) bs r
          else typed_superset sub c b r
      | _ \<Rightarrow> (False, r))"

primrec superset :: "nat \<Rightarrow> schema \<Rightarrow> schema \<Rightarrow> compare" where
  "superset 0 cdoc bdoc c b r = (False, r)"
| "superset (Suc k) cdoc bdoc c b r =
     (let s = r - 1 in
      if s < 0 then (False, s)
      else
        (case (resolve cdoc [] c, resolve bdoc [] b) of
           (Some rc, Some rb) \<Rightarrow> resolved_superset (superset k cdoc bdoc) rc rb s
         | _ \<Rightarrow> (False, s)))"

definition comparison_budget :: int where
  "comparison_budget = 10000"

definition is_superset :: "schema \<Rightarrow> schema \<Rightarrow> bool" where
  "is_superset candidate baseline =
     fst (superset 10001 candidate baseline candidate baseline comparison_budget)"

definition classify_schema_change ::
  "(rat \<Rightarrow> string) \<Rightarrow> (string \<Rightarrow> string) \<Rightarrow> schema \<Rightarrow> schema \<Rightarrow> schema_direction
     \<Rightarrow> (value_error, schema_change) result" where
  "classify_schema_change frepr sha previous current direction =
     and_then (schema_fingerprint frepr sha (PDict previous)) (\<lambda>p.
     and_then (schema_fingerprint frepr sha (PDict current)) (\<lambda>c.
     if p = c then Inr Change_IDENTICAL
     else
       let compatible = (case direction of
             Direction_INPUT \<Rightarrow> is_superset current previous
           | Direction_OUTPUT \<Rightarrow> is_superset previous current) in
       Inr (if compatible then Change_NON_BREAKING else Change_BREAKING)))"

subsection \<open>The budget bounds the comparison\<close>

text \<open>
  Every comparison uses up budget, so the recursion is never deeper than the budget and a fuel
  above it gives the answer the code gives.
\<close>

definition spends_budget :: "compare \<Rightarrow> bool" where
  "spends_budget sub \<longleftrightarrow> (\<forall>c b r. snd (sub c b r) \<le> r)"

definition agree_below :: "int \<Rightarrow> compare \<Rightarrow> compare \<Rightarrow> bool" where
  "agree_below r sub sub' \<longleftrightarrow> (\<forall>c b s. s \<le> r \<longrightarrow> sub c b s = sub' c b s)"

lemma all_of_budget: "(\<And>x r. snd (f x r) \<le> r) \<Longrightarrow> snd (all_of f xs r) \<le> r"
proof (induction xs arbitrary: r)
  case (Cons x xs)
  have "snd (f x r) \<le> r" by (rule Cons.prems)
  then show ?case
    using Cons.IH [of "snd (f x r)", OF Cons.prems] by (auto split: prod.splits)
qed simp

lemma any_of_budget: "(\<And>x r. snd (f x r) \<le> r) \<Longrightarrow> snd (any_of f xs r) \<le> r"
proof (induction xs arbitrary: r)
  case (Cons x xs)
  have "snd (f x r) \<le> r" by (rule Cons.prems)
  then show ?case
    using Cons.IH [of "snd (f x r)", OF Cons.prems] by (auto split: prod.splits)
qed simp

lemma all_of_cong:
  assumes "\<And>x s. s \<le> r \<Longrightarrow> f x s = g x s" and "\<And>x s. snd (f x s) \<le> s"
  shows "all_of f xs r = all_of g xs r"
  using assms(1)
proof (induction xs arbitrary: r)
  case (Cons x xs)
  have eq: "f x r = g x r" using Cons.prems by simp
  have "snd (f x r) \<le> r" by (rule assms(2))
  then have "s \<le> snd (f x r) \<Longrightarrow> f y s = g y s" for y s using Cons.prems by (meson order_trans)
  note Cons.IH [OF this]
  then show ?case unfolding eq by (simp add: eq case_prod_unfold Let_def)
qed simp

lemma any_of_cong:
  assumes "\<And>x s. s \<le> r \<Longrightarrow> f x s = g x s" and "\<And>x s. snd (f x s) \<le> s"
  shows "any_of f xs r = any_of g xs r"
  using assms(1)
proof (induction xs arbitrary: r)
  case (Cons x xs)
  have eq: "f x r = g x r" using Cons.prems by simp
  have "snd (f x r) \<le> r" by (rule assms(2))
  then have "s \<le> snd (f x r) \<Longrightarrow> f y s = g y s" for y s using Cons.prems by (meson order_trans)
  note Cons.IH [OF this]
  then show ?case unfolding eq by (simp add: eq case_prod_unfold Let_def)
qed simp

lemma property_superset_budget: "spends_budget sub \<Longrightarrow> snd (property_superset sub c p r) \<le> r"
  by (auto simp: property_superset_def spends_budget_def split: option.splits)

lemma additional_superset_budget: "spends_budget sub \<Longrightarrow> snd (additional_superset sub c b r) \<le> r"
  by (auto simp: additional_superset_def spends_budget_def Let_def split: option.splits)

lemma array_superset_budget: "spends_budget sub \<Longrightarrow> snd (array_superset sub c b r) \<le> r"
  by (auto simp: array_superset_def spends_budget_def split: option.splits)

lemma object_superset_budget:
  assumes "spends_budget sub" shows "snd (object_superset sub c b r) \<le> r"
proof -
  have all: "snd (all_of (property_superset sub c) ps r) \<le> r" for ps
    by (rule all_of_budget) (rule property_superset_budget [OF assms])
  have add: "snd (additional_superset sub c b s) \<le> s" for s
    by (rule additional_superset_budget [OF assms])
  have "snd (additional_superset sub c b (snd (all_of (property_superset sub c) ps r))) \<le> r" for ps
    using all add order_trans by blast
  with all show ?thesis
    by (simp add: object_superset_def Let_def case_prod_unfold split: option.split)
qed

lemma typed_superset_budget: "spends_budget sub \<Longrightarrow> snd (typed_superset sub c b r) \<le> r"
  using object_superset_budget [of sub c b r] array_superset_budget [of sub c b r]
  by (simp add: typed_superset_def split: option.split)

lemma resolved_superset_budget:
  assumes "spends_budget sub" shows "snd (resolved_superset sub c b r) \<le> r"
proof -
  have "snd (any_of (\<lambda>cv. sub cv bv) cs s) \<le> s" for bv cs s
    using assms by (intro any_of_budget) (simp add: spends_budget_def)
  then have "snd (all_of (\<lambda>bv. any_of (\<lambda>cv. sub cv bv) cs) bs r) \<le> r" for cs bs
    by (intro all_of_budget)
  then show ?thesis
    using typed_superset_budget [OF assms] by (simp add: resolved_superset_def split: option.split)
qed

lemma superset_budget: "spends_budget (superset k cdoc bdoc)"
proof (induction k)
  case 0
  show ?case by (simp add: spends_budget_def)
next
  case (Suc k)
  have "snd (resolved_superset (superset k cdoc bdoc) rc rb (r - 1)) \<le> r" for rc rb r
    using resolved_superset_budget [OF Suc.IH, of rc rb "r - 1"] by linarith
  then show ?case by (auto simp: spends_budget_def Let_def split: option.split)
qed

lemma object_superset_cong:
  assumes a: "agree_below r sub sub'" and s: "spends_budget sub"
  shows "object_superset sub c b r = object_superset sub' c b r"
proof -
  have all: "all_of (property_superset sub c) ps r = all_of (property_superset sub' c) ps r" for ps
  proof (rule all_of_cong)
    show "t \<le> r \<Longrightarrow> property_superset sub c p t = property_superset sub' c p t" for p t
      using a by (simp add: property_superset_def agree_below_def split: option.split)
  qed (rule property_superset_budget [OF s])
  have add: "additional_superset sub c b t = additional_superset sub' c b t" if "t \<le> r" for t
    using a that by (simp add: additional_superset_def agree_below_def Let_def split: option.split)
  have le: "snd (all_of (property_superset sub' c) ps r) \<le> r" for ps
    unfolding all [symmetric] by (rule all_of_budget) (rule property_superset_budget [OF s])
  show ?thesis
    by (simp add: object_superset_def Let_def case_prod_unfold all add [OF le] split: option.split)
qed

lemma resolved_superset_cong:
  assumes a: "agree_below r sub sub'" and s: "spends_budget sub"
  shows "resolved_superset sub c b r = resolved_superset sub' c b r"
proof -
  have arr: "array_superset sub c b r = array_superset sub' c b r"
    unfolding array_superset_def using a by (auto simp: agree_below_def split: option.splits)
  have typed: "typed_superset sub c b r = typed_superset sub' c b r"
    by (simp add: typed_superset_def arr object_superset_cong [OF a s] split: option.split)
  have any: "any_of (\<lambda>cv. sub cv bv) cs t = any_of (\<lambda>cv. sub' cv bv) cs t" if "t \<le> r" for bv cs t
    using a s that by (intro any_of_cong) (simp_all add: agree_below_def spends_budget_def)
  have "all_of (\<lambda>bv. any_of (\<lambda>cv. sub cv bv) cs) bs r = all_of (\<lambda>bv. any_of (\<lambda>cv. sub' cv bv) cs) bs r" for cs bs
    using any s by (intro all_of_cong any_of_budget) (simp_all add: spends_budget_def)
  with typed show ?thesis by (simp add: resolved_superset_def split: option.split)
qed

lemma superset_fuel:
  "0 < k \<Longrightarrow> r < int k \<Longrightarrow> superset (k + j) cdoc bdoc c b r = superset k cdoc bdoc c b r"
proof (induction k arbitrary: c b r)
  case (Suc k)
  show ?case
  proof (cases "r - 1 < 0")
    case False
    then have k: "0 < k" "r - 1 < int k" using Suc.prems by linarith+
    have "agree_below (r - 1) (superset (k + j) cdoc bdoc) (superset k cdoc bdoc)"
      using Suc.IH k by (simp add: agree_below_def)
    from resolved_superset_cong [OF this superset_budget] False show ?thesis
      by (simp add: Let_def split: option.split)
  qed simp
qed simp


end
