(* ===== verification/Schema_Meaning.thy ===== *)
theory Schema_Meaning
  imports Schema_Compatibility
begin

section \<open>What a compatible schema change preserves\<close>

text \<open>
  The meaning of the schemas the comparison of \<^verbatim>\<open>schema_compatibility.py\<close> reads, as JSON Schema
  gives it: \<open>accepts other doc s v\<close> holds when the value \<open>v\<close> satisfies the schema \<open>s\<close> of the
  document \<open>doc\<close>. Formats and the keywords the comparison does not know are the parameter \<open>other\<close>.

  The comparison is sound for the schemas that are \<open>tidy\<close>, the form the tool catalog asks for: an
  \<open>anyOf\<close> stands alone, an object is closed or a plain map, its \<open>propertyNames\<close> bound the length
  only, and no schema has both \<open>const\<close> and \<open>enum\<close>. Outside that form it is not: the comparison
  does not look at the keywords beside an \<open>anyOf\<close>, for example.
\<close>

subsection \<open>The meaning of a schema\<close>

definition has_type :: "string \<Rightarrow> pyval \<Rightarrow> bool" where
  "has_type ty v =
     (case v of
        PNone \<Rightarrow> ty = ''null''
      | PBool b \<Rightarrow> ty = ''boolean''
      | PInt i \<Rightarrow> ty = ''integer'' \<or> ty = ''number''
      | PFloat f \<Rightarrow> (case f of Fin q \<Rightarrow> ty = ''number'' \<or> ty = ''integer'' \<and> of_int \<lfloor>q\<rfloor> = q | _ \<Rightarrow> False)
      | PStr s \<Rightarrow> ty = ''string''
      | PList xs \<Rightarrow> ty = ''array''
      | PDict d \<Rightarrow> ty = ''object''
      | POther \<Rightarrow> False)"

definition type_ok :: "schema \<Rightarrow> pyval \<Rightarrow> bool" where
  "type_ok t v =
     (case get_none ''type'' t of
        PNone \<Rightarrow> True
      | PStr ty \<Rightarrow> has_type ty v
      | PList tys \<Rightarrow> \<exists>w\<in>set tys. case w of PStr ty \<Rightarrow> has_type ty v | _ \<Rightarrow> False
      | _ \<Rightarrow> False)"

definition value_ok :: "schema \<Rightarrow> pyval \<Rightarrow> bool" where
  "value_ok t v \<longleftrightarrow>
     (case dict_get ''const'' t of None \<Rightarrow> True | Some w \<Rightarrow> py_eq v w) \<and>
     (case get_none ''enum'' t of
        PNone \<Rightarrow> True
      | PList ws \<Rightarrow> \<exists>w\<in>set ws. py_eq v w
      | _ \<Rightarrow> False)"

definition count_ok :: "string \<Rightarrow> string \<Rightarrow> schema \<Rightarrow> nat \<Rightarrow> bool" where
  "count_ok lo hi t n \<longleftrightarrow>
     (case numeric (get_none lo t) of None \<Rightarrow> True | Some m \<Rightarrow> m \<le> of_nat n) \<and>
     (case numeric (get_none hi t) of None \<Rightarrow> True | Some m \<Rightarrow> of_nat n \<le> m)"

definition number_ok :: "schema \<Rightarrow> rat \<Rightarrow> bool" where
  "number_ok t q \<longleftrightarrow>
     (case numeric (get_none ''minimum'' t) of None \<Rightarrow> True | Some m \<Rightarrow> m \<le> q) \<and>
     (case numeric (get_none ''exclusiveMinimum'' t) of None \<Rightarrow> True | Some m \<Rightarrow> m < q) \<and>
     (case numeric (get_none ''maximum'' t) of None \<Rightarrow> True | Some m \<Rightarrow> q \<le> m) \<and>
     (case numeric (get_none ''exclusiveMaximum'' t) of None \<Rightarrow> True | Some m \<Rightarrow> q < m) \<and>
     (case numeric (get_none ''multipleOf'' t) of None \<Rightarrow> True
        | Some m \<Rightarrow> of_int \<lfloor>q / m\<rfloor> * m = q)"

type_synonym keyword_meaning = "string \<Rightarrow> pyval \<Rightarrow> pyval \<Rightarrow> bool"

definition string_ok :: "keyword_meaning \<Rightarrow> schema \<Rightarrow> string \<Rightarrow> bool" where
  "string_ok other t s \<longleftrightarrow>
     count_ok ''minLength'' ''maxLength'' t (length s) \<and>
     (get_none ''format'' t \<noteq> PNone \<longrightarrow> other ''format'' (get_none ''format'' t) (PStr s))"

definition array_ok :: "schema \<Rightarrow> pyval list \<Rightarrow> bool" where
  "array_ok t xs \<longleftrightarrow>
     count_ok ''minItems'' ''maxItems'' t (length xs) \<and>
     (get_none ''uniqueItems'' t = PBool True \<longrightarrow> sorted_wrt (\<lambda>x y. \<not> py_eq x y) xs)"

definition listed_property :: "schema \<Rightarrow> string \<Rightarrow> bool" where
  "listed_property t k \<longleftrightarrow>
     (case schema_of (get_none ''properties'' t) of None \<Rightarrow> False | Some ps \<Rightarrow> has_key k ps)"

definition object_ok :: "schema \<Rightarrow> schema \<Rightarrow> bool" where
  "object_ok t d \<longleftrightarrow>
     count_ok ''minProperties'' ''maxProperties'' t (length d) \<and>
     (case get_none ''required'' t of
        PList ns \<Rightarrow> \<forall>n\<in>set ns. (case n of PStr k \<Rightarrow> has_key k d | _ \<Rightarrow> True)
      | _ \<Rightarrow> True) \<and>
     (\<forall>kv\<in>set d. is_kstr (fst kv)) \<and>
     (get_none ''additionalProperties'' t = PBool False \<longrightarrow>
        (\<forall>kv\<in>set d. listed_property t (key_name (fst kv))))"

definition shape_ok :: "keyword_meaning \<Rightarrow> schema \<Rightarrow> pyval \<Rightarrow> bool" where
  "shape_ok other t v \<longleftrightarrow>
     (case numeric v of None \<Rightarrow> True | Some q \<Rightarrow> number_ok t q) \<and>
     (case v of
        PStr s \<Rightarrow> string_ok other t s
      | PList xs \<Rightarrow> array_ok t xs
      | PDict d \<Rightarrow> object_ok t d
      | _ \<Rightarrow> True)"

definition unknown_ok :: "keyword_meaning \<Rightarrow> schema \<Rightarrow> pyval \<Rightarrow> bool" where
  "unknown_ok other t v \<longleftrightarrow>
     (\<forall>k\<in>fst ` set t. is_unknown k \<longrightarrow> other (key_name k) (get_key k t) v)"

definition local_ok :: "keyword_meaning \<Rightarrow> schema \<Rightarrow> pyval \<Rightarrow> bool" where
  "local_ok other t v \<longleftrightarrow> type_ok t v \<and> value_ok t v \<and> shape_ok other t v \<and> unknown_ok other t v"

text \<open>The parts of a value with the schemas they have to satisfy.\<close>

definition entry_parts :: "schema \<Rightarrow> pykey \<times> pyval \<Rightarrow> (schema \<times> pyval) set" where
  "entry_parts t kv =
     (\<lambda>p. (p, snd kv)) ` set_option (property_schema t (key_name (fst kv))) \<union>
     (\<lambda>p. (p, PStr (key_name (fst kv)))) ` set_option (schema_of (get_none ''propertyNames'' t))"

definition parts :: "schema \<Rightarrow> pyval \<Rightarrow> (schema \<times> pyval) set" where
  "parts t v =
     (case v of
        PList xs \<Rightarrow> (case schema_of (get_none ''items'' t) of None \<Rightarrow> {} | Some i \<Rightarrow> Pair i ` set xs)
      | PDict d \<Rightarrow> \<Union> (entry_parts t ` set d)
      | _ \<Rightarrow> {})"

inductive accepts :: "keyword_meaning \<Rightarrow> schema \<Rightarrow> schema \<Rightarrow> pyval \<Rightarrow> bool"
  for other :: keyword_meaning and doc :: schema where
  acceptsI: "\<lbrakk>resolve doc [] s = Some t; local_ok other t v;
    \<And>p x. (p, x) \<in> parts t v \<Longrightarrow> accepts other doc p x;
    has_key ''anyOf'' t \<Longrightarrow> variant_list t = Some vs;
    has_key ''anyOf'' t \<Longrightarrow> w \<in> set vs;
    has_key ''anyOf'' t \<Longrightarrow> accepts other doc w v\<rbrakk> \<Longrightarrow> accepts other doc s v"

lemma acceptsE:
  assumes "accepts other doc s v" and "resolve doc [] s = Some t"
  shows "local_ok other t v" and "(p, x) \<in> parts t v \<Longrightarrow> accepts other doc p x"
    and "has_key ''anyOf'' t \<Longrightarrow> \<exists>vs w. variant_list t = Some vs \<and> w \<in> set vs \<and> accepts other doc w v"
proof -
  show "local_ok other t v" using assms by (auto elim: accepts.cases)
  show "(p, x) \<in> parts t v \<Longrightarrow> accepts other doc p x" using assms by (auto elim: accepts.cases)
  show "has_key ''anyOf'' t \<Longrightarrow> \<exists>vs w. variant_list t = Some vs \<and> w \<in> set vs \<and> accepts other doc w v"
    using assms by (cases rule: accepts.cases) auto
qed

text \<open>What the parameter has to respect: equal keyword values mean the same, an absent one nothing.\<close>

definition keyword_law :: "keyword_meaning \<Rightarrow> bool" where
  "keyword_law other \<longleftrightarrow>
     (\<forall>k x y v. py_eq x y \<longrightarrow> other k x v = other k y v) \<and> (\<forall>k v. other k PNone v)"

subsection \<open>Tidy schemas\<close>

definition tidy_here :: "schema \<Rightarrow> bool" where
  "tidy_here d \<longleftrightarrow>
     (has_key ''anyOf'' d \<longrightarrow> only_keys (''anyOf'' # annotation_keys) d) \<and>
     \<not> (dict_get ''const'' d \<noteq> None \<and> get_none ''enum'' d \<noteq> PNone) \<and>
     (get_none ''propertyNames'' d = PNone \<or>
        (case schema_of (get_none ''propertyNames'' d) of
           None \<Rightarrow> False | Some pn \<Rightarrow> only_keys [''minLength'', ''maxLength''] pn)) \<and>
     (get_none ''type'' d = PStr ''object'' \<longrightarrow>
        get_none ''additionalProperties'' d = PBool False \<or>
        get_none ''properties'' d = PNone \<and> schema_of (get_none ''additionalProperties'' d) \<noteq> None)"

primrec tidy :: "pyval \<Rightarrow> bool" where
  "tidy PNone = True"
| "tidy (PBool b) = True"
| "tidy (PInt i) = True"
| "tidy (PFloat f) = True"
| "tidy (PStr s) = True"
| "tidy (PList xs) = list_all (\<lambda>b. b) (map tidy xs)"
| "tidy (PDict d) = (tidy_here d \<and> list_all snd (map (map_prod id tidy) d))"
| "tidy POther = True"

lemma tidy_list [simp]: "tidy (PList xs) \<longleftrightarrow> (\<forall>x\<in>set xs. tidy x)"
  by (auto simp: list_all_iff)

lemma tidy_dict [simp]: "tidy (PDict d) \<longleftrightarrow> tidy_here d \<and> (\<forall>kv\<in>set d. tidy (snd kv))"
  by (force simp: list_all_iff)

declare tidy.simps(6,7) [simp del]

lemma get_none_cases: "get_none k d = PNone \<or> (KStr k, get_none k d) \<in> set d"
  by (auto simp: get_or_def dict_get_def dest: map_of_SomeD split: option.splits)

lemma tidy_get: "tidy (PDict d) \<Longrightarrow> tidy (get_none k d)"
  using get_none_cases [of k d] by fastforce

lemma tidy_schema_of: "tidy v \<Longrightarrow> schema_of v = Some d \<Longrightarrow> tidy (PDict d)"
  by (simp add: schema_of_Some)

lemma tidy_sub: "tidy (PDict d) \<Longrightarrow> schema_of (get_none k d) = Some e \<Longrightarrow> tidy (PDict e)"
  by (rule tidy_schema_of [OF tidy_get])

lemma tidy_definition: "tidy (PDict doc) \<Longrightarrow> definition_of doc n = Some t \<Longrightarrow> tidy (PDict t)"
  by (auto simp only: definition_of_def split: option.splits dest: tidy_sub)

lemma tidy_property: "tidy (PDict t) \<Longrightarrow> property_schema t k = Some p \<Longrightarrow> tidy (PDict p)"
  by (auto simp: property_schema_def bind_eq_Some_conv simp del: tidy_dict split: option.splits
      dest: tidy_sub intro: tidy_sub [OF tidy_sub])

lemma tidy_resolve:
  assumes "resolve doc st s = Some t" "tidy (PDict doc)" "tidy (PDict s)"
  shows "tidy (PDict t)"
  using assms
proof (induction doc st s arbitrary: t rule: resolve.induct)
  case (1 doc st s)
  show ?case
    using 1 tidy_definition [OF "1.prems"(2)]
    by (subst (asm) resolve.simps) (auto simp del: tidy_dict split: if_splits option.splits)
qed

lemma tidy_variant:
  assumes "tidy (PDict t)" "variant_list t = Some vs" "w \<in> set vs"
  shows "tidy (PDict w)"
proof (cases "get_none ''anyOf'' t")
  case (PList xs)
  with assms(2,3) obtain x where "x \<in> set xs" "schema_of x = Some w"
    by (auto simp: variant_list_def list_all_iff split: if_splits)
  moreover have "\<forall>x\<in>set xs. tidy x" using tidy_get [OF assms(1), of "''anyOf''"] PList by simp
  ultimately show ?thesis by (blast intro: tidy_schema_of)
qed (use assms in \<open>auto simp: variant_list_def simp del: tidy_dict\<close>)

lemma resolve_done: "get_none ''$ref'' t = PNone \<Longrightarrow> resolve doc [] t = Some t"
  by (simp add: resolve.simps)

lemma resolve_no_ref: "resolve doc st s = Some t \<Longrightarrow> get_none ''$ref'' t = PNone"
proof (induction doc st s arbitrary: t rule: resolve.induct)
  case (1 doc st s)
  show ?case
    using 1 by (subst (asm) resolve.simps) (auto split: if_splits option.splits)
qed

text \<open>A resolved schema accepts what the schema it was resolved from accepts.\<close>

lemma accepts_resolved:
  assumes "resolve doc [] s = Some t"
  shows "accepts other doc s v \<longleftrightarrow> accepts other doc t v"
proof -
  have r: "resolve doc [] t = Some t" by (rule resolve_done [OF resolve_no_ref [OF assms]])
  show ?thesis
    by (rule iffI; erule accepts.cases; rule acceptsI) (use assms r in auto)
qed

lemma only_keys_get: "only_keys ks d \<Longrightarrow> k \<notin> set ks \<Longrightarrow> dict_get k d = None"
  by (auto simp: only_keys_def list_all_iff dict_get_def map_of_eq_None_iff)

lemma dict_get_none: "dict_get k d = None \<Longrightarrow> get_none k d = PNone"
  by (simp add: get_or_def)

subsection \<open>Soundness of the checks of one schema\<close>

lemma same_type_sound:
  "\<lbrakk>same_type c b; text_of (get_none ''type'' c) = Some ty; type_ok b v\<rbrakk> \<Longrightarrow> has_type ty v"
  by (cases "get_none ''type'' c")
    (auto simp: same_type_def type_ok_def has_type_def split: pyval.splits pyfloat.splits)

lemma allowed_values_sound:
  assumes "allows_every_value c b" "value_ok b v" "tidy_here c"
  shows "value_ok c v"
proof (cases "allowed_values c")
  case None
  then show ?thesis
    by (auto simp: allowed_values_def value_ok_def split: option.splits pyval.splits)
next
  case (Some cs)
  with assms(1) obtain bs where bs: "allowed_values b = Some bs"
    and all: "\<forall>w\<in>set bs. \<exists>a\<in>set cs. py_eq w a"
    by (auto simp: allows_every_value_def list_all_iff list_ex_iff split: option.splits)
  from assms(2) bs obtain w where "w \<in> set bs" "py_eq v w"
    by (auto simp: allowed_values_def value_ok_def split: option.splits pyval.splits)
  with all obtain a where "a \<in> set cs" "py_eq v a" by (blast intro: py_eq_trans)
  with Some assms(3) show ?thesis
    by (auto simp: allowed_values_def value_ok_def tidy_here_def split: option.splits pyval.splits)
qed

lemma get_key_known: "k \<in> fst ` set d \<Longrightarrow> map_of d k \<noteq> None"
  by (simp add: map_of_eq_None_iff)

lemma unknown_sound:
  assumes "same_unknown_constraints c b" "unknown_ok other b v" "keyword_law other"
  shows "unknown_ok other c v"
  unfolding unknown_ok_def
proof (intro ballI impI)
  fix k assume k: "k \<in> fst ` set c" "is_unknown k"
  with assms(1) have eq: "py_eq (get_key k c) (get_key k b)"
    by (auto simp: same_unknown_constraints_def list_all_iff)
  have "other (key_name k) (get_key k b) v"
  proof (cases "k \<in> fst ` set b")
    case True
    with assms(2) k(2) show ?thesis by (auto simp: unknown_ok_def)
  next
    case False
    then have "get_key k b = PNone" by (simp add: get_key_def map_of_eq_None_iff [THEN iffD2])
    with assms(3) show ?thesis by (simp add: keyword_law_def)
  qed
  with assms(3) eq show "other (key_name k) (get_key k c) v" by (auto simp: keyword_law_def)
qed

lemma count_sound:
  assumes "minimum_is_wider c b lo" "maximum_is_wider c b hi" "count_ok lo hi b n"
  shows "count_ok lo hi c n"
  using assms
  by (auto simp: count_ok_def minimum_is_wider_def maximum_is_wider_def split: option.splits)

lemma string_sound:
  assumes "string_superset c b" "string_ok other b s" "keyword_law other"
  shows "string_ok other c s"
proof -
  have "other ''format'' (get_none ''format'' c) (PStr s)" if "get_none ''format'' c \<noteq> PNone"
  proof -
    have eq: "py_eq (get_none ''format'' c) (get_none ''format'' b)"
      using assms(1) that by (simp add: string_superset_def)
    with that have "get_none ''format'' b \<noteq> PNone" by auto
    with assms(2) have "other ''format'' (get_none ''format'' b) (PStr s)" by (simp add: string_ok_def)
    with eq assms(3) show ?thesis by (auto simp: keyword_law_def)
  qed
  with assms show ?thesis by (auto simp: string_superset_def string_ok_def intro: count_sound)
qed

lemma lower_ok_iff:
  "(case numeric (get_none ''minimum'' t) of None \<Rightarrow> True | Some m \<Rightarrow> m \<le> q) \<and>
   (case numeric (get_none ''exclusiveMinimum'' t) of None \<Rightarrow> True | Some m \<Rightarrow> m < q) \<longleftrightarrow>
   (case lower_bound t of None \<Rightarrow> True | Some (m, incl) \<Rightarrow> if incl then m \<le> q else m < q)"
  by (auto simp: lower_bound_def split: option.splits)

lemma upper_ok_iff:
  "(case numeric (get_none ''maximum'' t) of None \<Rightarrow> True | Some m \<Rightarrow> q \<le> m) \<and>
   (case numeric (get_none ''exclusiveMaximum'' t) of None \<Rightarrow> True | Some m \<Rightarrow> q < m) \<longleftrightarrow>
   (case upper_bound t of None \<Rightarrow> True | Some (m, incl) \<Rightarrow> if incl then q \<le> m else q < m)"
  by (auto simp: upper_bound_def split: option.splits)

lemma lower_wider_sound:
  "\<lbrakk>lower_is_wider c b; case b of None \<Rightarrow> True | Some (m, incl) \<Rightarrow> if incl then m \<le> q else m < q\<rbrakk>
     \<Longrightarrow> case c of None \<Rightarrow> True | Some (m, incl) \<Rightarrow> if incl then m \<le> (q :: rat) else m < q"
  by (cases "(c, b)" rule: lower_is_wider.cases) (auto split: if_splits)

lemma upper_wider_sound:
  "\<lbrakk>upper_is_wider c b; case b of None \<Rightarrow> True | Some (m, incl) \<Rightarrow> if incl then q \<le> m else q < m\<rbrakk>
     \<Longrightarrow> case c of None \<Rightarrow> True | Some (m, incl) \<Rightarrow> if incl then (q :: rat) \<le> m else q < m"
  by (cases "(c, b)" rule: upper_is_wider.cases) (auto split: if_splits)

lemma number_ok_iff:
  "number_ok t q \<longleftrightarrow>
     (case lower_bound t of None \<Rightarrow> True | Some (m, incl) \<Rightarrow> if incl then m \<le> q else m < q) \<and>
     (case upper_bound t of None \<Rightarrow> True | Some (m, incl) \<Rightarrow> if incl then q \<le> m else q < m) \<and>
     (case numeric (get_none ''multipleOf'' t) of None \<Rightarrow> True | Some m \<Rightarrow> of_int \<lfloor>q / m\<rfloor> * m = q)"
  unfolding number_ok_def lower_ok_iff [symmetric] upper_ok_iff [symmetric] by blast

lemma number_sound:
  assumes "number_superset c b" "number_ok b q"
  shows "number_ok c q"
  using assms lower_wider_sound [of "lower_bound c" "lower_bound b" q]
    upper_wider_sound [of "upper_bound c" "upper_bound b" q]
  unfolding number_ok_iff number_superset_def by (auto split: option.splits)

text \<open>A schema that only bounds the length of a name.\<close>

lemma name_schema_accepts:
  assumes "only_keys [''minLength'', ''maxLength''] p"
  shows "accepts other doc p (PStr s) \<longleftrightarrow> count_ok ''minLength'' ''maxLength'' p (length s)"
proof -
  have none [simp]: "k \<notin> {''minLength'', ''maxLength''} \<Longrightarrow> dict_get k p = None" for k
    using only_keys_get [OF assms] by simp
  then have [simp]: "k \<notin> {''minLength'', ''maxLength''} \<Longrightarrow> get_none k p = PNone" for k
    by (simp add: get_or_def)
  have r: "resolve doc [] p = Some p" by (simp add: resolve_done)
  have anyOf: "\<not> has_key ''anyOf'' p"
    using assms by (auto simp: has_key_def only_keys_def list_all_iff)
  have "unknown_ok other p (PStr s)"
    using assms by (auto simp: unknown_ok_def only_keys_def list_all_iff is_unknown_def known_keys_def)
  then have l: "local_ok other p (PStr s) \<longleftrightarrow> count_ok ''minLength'' ''maxLength'' p (length s)"
    by (simp add: local_ok_def type_ok_def value_ok_def shape_ok_def string_ok_def)
  show ?thesis
  proof
    assume "accepts other doc p (PStr s)"
    then show "count_ok ''minLength'' ''maxLength'' p (length s)" using acceptsE(1) [OF _ r] l by blast
  next
    assume "count_ok ''minLength'' ''maxLength'' p (length s)"
    then show "accepts other doc p (PStr s)"
      by (intro acceptsI [OF r]) (use l anyOf in \<open>auto simp: parts_def\<close>)
  qed
qed

subsection \<open>Soundness of the comparison\<close>

lemma all_of_True: "all_of f xs r = (True, r') \<Longrightarrow> x \<in> set xs \<Longrightarrow> \<exists>s s'. f x s = (True, s')"
  by (induction f xs r rule: all_of.induct) (auto split: if_splits prod.splits)

lemma any_of_True: "any_of f xs r = (True, r') \<Longrightarrow> \<exists>x\<in>set xs. \<exists>s s'. f x s = (True, s')"
  by (induction f xs r rule: any_of.induct) (auto split: if_splits prod.splits)

definition keeps :: "keyword_meaning \<Rightarrow> schema \<Rightarrow> schema \<Rightarrow> schema \<Rightarrow> schema \<Rightarrow> bool" where
  "keeps other cdoc bdoc c b \<longleftrightarrow> (\<forall>v. accepts other bdoc b v \<longrightarrow> accepts other cdoc c v)"

definition sub_sound :: "keyword_meaning \<Rightarrow> schema \<Rightarrow> schema \<Rightarrow> compare \<Rightarrow> bool" where
  "sub_sound other cdoc bdoc sub \<longleftrightarrow>
     (\<forall>c b r r'. sub c b r = (True, r') \<longrightarrow> tidy (PDict c) \<longrightarrow> tidy (PDict b) \<longrightarrow> keeps other cdoc bdoc c b)"

lemma sub_soundD:
  "\<lbrakk>sub_sound other cdoc bdoc sub; sub c b r = (True, r'); tidy (PDict c); tidy (PDict b);
    accepts other bdoc b v\<rbrakk> \<Longrightarrow> accepts other cdoc c v"
  unfolding sub_sound_def keeps_def by blast

lemma array_sound:
  assumes "array_superset sub c b r = (True, r')" "sub_sound other cdoc bdoc sub"
    and "tidy (PDict c)" "tidy (PDict b)"
    and "array_ok b xs" "\<And>p x. (p, x) \<in> parts b (PList xs) \<Longrightarrow> accepts other bdoc p x"
  shows "array_ok c xs" and "(p, x) \<in> parts c (PList xs) \<Longrightarrow> accepts other cdoc p x"
proof -
  from assms(1) obtain ci bi where i: "schema_of (get_none ''items'' c) = Some ci"
    "schema_of (get_none ''items'' b) = Some bi" and sub: "sub ci bi r = (True, r')"
    and w: "minimum_is_wider c b ''minItems''" "maximum_is_wider c b ''maxItems''"
      "\<not> (get_none ''uniqueItems'' c = PBool True \<and> get_none ''uniqueItems'' b \<noteq> PBool True)"
    by (auto simp: array_superset_def split: option.splits if_splits)
  show "array_ok c xs" using assms(5) w by (auto simp: array_ok_def intro: count_sound)
  have t: "tidy (PDict ci)" "tidy (PDict bi)"
    using tidy_sub [OF assms(3) i(1)] tidy_sub [OF assms(4) i(2)] by blast+
  show "accepts other cdoc p x" if p: "(p, x) \<in> parts c (PList xs)"
  proof -
    have "p = ci" "(bi, x) \<in> parts b (PList xs)" using p i by (auto simp: parts_def)
    with assms(6) show ?thesis using sub_soundD [OF assms(2) sub t] by blast
  qed
qed

lemma required_sound:
  assumes "required_names (get_or (PList []) ''required'' c) = Some cr"
    and "required_names (get_or (PList []) ''required'' b) = Some br" and "set cr \<subseteq> set br"
    and "object_ok b d"
  shows "case get_none ''required'' c of
        PList ns \<Rightarrow> \<forall>n\<in>set ns. (case n of PStr k \<Rightarrow> has_key k d | _ \<Rightarrow> True)
      | _ \<Rightarrow> True"
proof -
  have b: "k \<in> set br \<Longrightarrow> has_key k d" for k
    using assms(2,4)
    by (force simp: required_names_def object_ok_def get_or_def list_all_iff
        split: option.splits pyval.splits if_splits elim!: text_of.elims)
  have "PStr k \<in> set ns \<Longrightarrow> k \<in> set cr" if "get_none ''required'' c = PList ns" for k ns
    using assms(1) that
    by (force simp: required_names_def get_or_def split: option.splits if_splits)
  with b assms(3) have "PStr k \<in> set ns \<Longrightarrow> has_key k d" if "get_none ''required'' c = PList ns" for k ns
    using that by blast
  then show ?thesis by (auto split: pyval.split)
qed

lemma schema_map_entry:
  assumes "schema_map v = Some m" "v = PDict d" "has_key k d"
  obtains p where "(k, p) \<in> set m" and "schema_of (get_none k d) = Some p"
proof -
  from assms(3) obtain v where v: "map_of d (KStr k) = Some v"
    using get_key_known [of "KStr k" d] by (auto simp: has_key_def)
  then have "(KStr k, v) \<in> set d" by (rule map_of_SomeD)
  with assms(1,2) v have "(k, the (schema_of v)) \<in> set m" "schema_of v \<noteq> None"
    by (force simp: schema_map_def list_all_iff split: option.splits if_splits)+
  with v show ?thesis by (intro that [of "the (schema_of v)"]) (auto simp: get_or_def dict_get_def)
qed

lemma schema_map_schema_of: "schema_map v = Some m \<Longrightarrow> \<exists>d. v = PDict d \<and> schema_of v = Some d"
  by (auto simp: schema_map_def schema_of_Some split: option.splits if_splits)

text \<open>The checks of two object schemas, one keyword at a time.\<close>

lemma object_supersetD:
  assumes "object_superset sub c b r = (True, r')"
  obtains cr br cp bp s where
    "required_names (get_or (PList []) ''required'' c) = Some cr"
    "required_names (get_or (PList []) ''required'' b) = Some br" "set cr \<subseteq> set br"
    "schema_map (get_or (PDict []) ''properties'' c) = Some cp"
    "schema_map (get_or (PDict []) ''properties'' b) = Some bp"
    "all_of (property_superset sub c) bp r = (True, s)"
    "additional_superset sub c b s = (True, r')"
    "minimum_is_wider c b ''minProperties''" "maximum_is_wider c b ''maxProperties''"
    "property_names_are_wider c b"
proof -
  from assms obtain cr br where 1: "required_names (get_or (PList []) ''required'' c) = Some cr"
      "required_names (get_or (PList []) ''required'' b) = Some br" "set cr \<subseteq> set br"
    by (simp add: object_superset_def split: option.splits if_splits)
  with assms obtain cp bp where 2: "schema_map (get_or (PDict []) ''properties'' c) = Some cp"
      "schema_map (get_or (PDict []) ''properties'' b) = Some bp"
    by (simp add: object_superset_def split: option.splits)
  obtain ok s where 3: "all_of (property_superset sub c) bp r = (ok, s)" by fastforce
  obtain ok' t where 4: "additional_superset sub c b s = (ok', t)" by fastforce
  have "\<not> \<not> set cr \<subseteq> set br" using 1(3) by simp
  then have "object_superset sub c b r =
      (if \<not> ok then (False, s) else if \<not> ok' then (False, t)
       else (minimum_is_wider c b ''minProperties'' \<and> maximum_is_wider c b ''maxProperties'' \<and>
             property_names_are_wider c b, t))"
    unfolding object_superset_def 1(1,2) 2 3 4 Let_def prod.case option.case by (simp only: if_False 3 4 prod.case)
  with assms have "ok" "ok'" "t = r'" and w: "minimum_is_wider c b ''minProperties''"
      "maximum_is_wider c b ''maxProperties''" "property_names_are_wider c b"
    by (simp_all split: if_splits)
  then show ?thesis using 3 4 by (intro that [OF 1 2 _ _ w, of s]) simp_all
qed

lemma tidy_names:
  assumes "tidy_here d" "schema_of (get_none ''propertyNames'' d) = Some pn"
  shows "only_keys [''minLength'', ''maxLength''] pn"
proof -
  from assms(2) have "get_none ''propertyNames'' d \<noteq> PNone" by (intro notI) simp
  with assms show ?thesis unfolding tidy_here_def by (elim conjE disjE) (simp_all only: option.case simp_thms)
qed

lemma names_sound:
  assumes "property_names_are_wider c b" "tidy_here c" "tidy_here b"
    and "schema_of (get_none ''propertyNames'' c) = Some p"
    and "\<And>pb. schema_of (get_none ''propertyNames'' b) = Some pb \<Longrightarrow> accepts other bdoc pb (PStr k)"
  shows "accepts other cdoc p (PStr k)"
proof -
  from assms(1,4) obtain pb where pb: "schema_of (get_none ''propertyNames'' b) = Some pb"
    and w: "minimum_is_wider p pb ''minLength''" "maximum_is_wider p pb ''maxLength''"
    by (auto simp: property_names_are_wider_def split: option.splits if_splits)
  from name_schema_accepts [OF tidy_names [OF assms(2,4)], of other cdoc k]
    name_schema_accepts [OF tidy_names [OF assms(3) pb], of other bdoc k]
  show ?thesis using assms(5) [OF pb] count_sound [OF w, of "length k"] by simp
qed

lemma listed_schema:
  assumes "listed_property b k" "schema_map (get_or (PDict []) ''properties'' b) = Some bp"
  obtains p where "(k, p) \<in> set bp" "property_schema b k = Some p"
proof -
  from assms(1) obtain ps where ps: "schema_of (get_none ''properties'' b) = Some ps" "has_key k ps"
    by (auto simp: listed_property_def split: option.splits)
  then have "get_none ''properties'' b = PDict ps" "get_or (PDict []) ''properties'' b = PDict ps"
    by (auto simp: schema_of_Some get_or_def split: option.splits)
  with assms(2) ps(2) obtain p where "(k, p) \<in> set bp" "schema_of (get_none k ps) = Some p"
    by (auto elim: schema_map_entry)
  with ps(1) show ?thesis by (intro that) (auto simp: property_schema_def)
qed

text \<open>The schema of an entry of a value the baseline accepts, in both schemas.\<close>

lemma entry_schema_sound:
  assumes o: "object_superset sub c b r = (True, r')" and sound: "sub_sound other cdoc bdoc sub"
    and tc: "tidy (PDict c)" and tb: "tidy (PDict b)"
    and ty: "get_none ''type'' c = PStr ''object''" "get_none ''type'' b = PStr ''object''"
    and ok: "object_ok b d" and k: "kv \<in> set d" "key_name (fst kv) = k"
    and p: "property_schema c k = Some p"
  obtains pb where "property_schema b k = Some pb" "keeps other cdoc bdoc p pb"
proof -
  obtain cr br cp bp s where props: "schema_map (get_or (PDict []) ''properties'' c) = Some cp"
      "schema_map (get_or (PDict []) ''properties'' b) = Some bp"
    and all: "all_of (property_superset sub c) bp r = (True, s)"
    and add: "additional_superset sub c b s = (True, r')"
    using o by (rule object_supersetD)
  have keeps: "keeps other cdoc bdoc p pb"
    if "sub p pb u = (True, u')" "property_schema b k = Some pb" for pb u u'
    using sound that tidy_property [OF tc p] tidy_property [OF tb that(2)]
    unfolding sub_sound_def by blast
  consider "get_none ''additionalProperties'' b = PBool False"
    | ba where "get_none ''properties'' b = PNone" "schema_of (get_none ''additionalProperties'' b) = Some ba"
    using tb ty(2) by (auto simp: tidy_here_def)
  then show ?thesis
  proof cases
    case 1
    with ok k have "listed_property b k" by (auto simp: object_ok_def)
    then obtain pb where pb: "(k, pb) \<in> set bp" "property_schema b k = Some pb"
      using props(2) by (rule listed_schema)
    from all_of_True [OF all pb(1)] p obtain u u' where "sub p pb u = (True, u')"
      by (auto simp: property_superset_def)
    with pb(2) show ?thesis by (intro that [OF pb(2)] keeps)
  next
    case (2 ba)
    have b_add: "property_schema b k = Some ba" using 2 by (simp add: property_schema_def)
    from 2(2) have "get_none ''additionalProperties'' b \<noteq> PBool False" by auto
    with add 2(2) have c_add: "get_none ''additionalProperties'' c \<noteq> PBool False"
      by (auto simp: additional_superset_def Let_def split: if_splits)
    with tc ty(1) obtain cs where cs: "get_none ''properties'' c = PNone"
        "schema_of (get_none ''additionalProperties'' c) = Some cs"
      by (auto simp: tidy_here_def)
    with p have "p = cs" by (simp add: property_schema_def)
    with add 2(2) cs c_add \<open>get_none _ b \<noteq> _\<close> have "sub p ba s = (True, r')"
      by (simp add: additional_superset_def)
    with b_add show ?thesis by (intro that [OF b_add] keeps)
  qed
qed

lemma closed_sound:
  assumes o: "object_superset sub c b r = (True, r')"
    and closed: "get_none ''additionalProperties'' c = PBool False"
    and ok: "object_ok b d" and k: "kv \<in> set d"
  shows "listed_property c (key_name (fst kv))"
proof -
  obtain cr br cp bp s where props: "schema_map (get_or (PDict []) ''properties'' b) = Some bp"
    and all: "all_of (property_superset sub c) bp r = (True, s)"
    and add: "additional_superset sub c b s = (True, r')"
    using o by (rule object_supersetD)
  from add closed have "get_none ''additionalProperties'' b = PBool False"
    by (auto simp: additional_superset_def Let_def split: if_splits)
  with ok k have "listed_property b (key_name (fst kv))" by (auto simp: object_ok_def)
  then obtain pb where "(key_name (fst kv), pb) \<in> set bp"
    using props by (rule listed_schema)
  from all_of_True [OF all this] have "property_schema c (key_name (fst kv)) \<noteq> None"
    by (auto simp: property_superset_def split: option.splits)
  with closed obtain ps y where ps: "schema_of (get_none ''properties'' c) = Some ps"
      "schema_of (get_none (key_name (fst kv)) ps) = Some y"
    by (auto simp: property_schema_def bind_eq_Some_conv split: option.splits)
  then have "has_key (key_name (fst kv)) ps"
    using get_none_cases [of "key_name (fst kv)" ps] by (force simp: has_key_def)
  with ps(1) show ?thesis by (simp add: listed_property_def)
qed

lemma object_sound:
  assumes o: "object_superset sub c b r = (True, r')" and sound: "sub_sound other cdoc bdoc sub"
    and tc: "tidy (PDict c)" and tb: "tidy (PDict b)"
    and ty: "get_none ''type'' c = PStr ''object''" "get_none ''type'' b = PStr ''object''"
    and ok: "object_ok b d" and acc: "\<And>p x. (p, x) \<in> parts b (PDict d) \<Longrightarrow> accepts other bdoc p x"
  shows "object_ok c d" and "(p, x) \<in> parts c (PDict d) \<Longrightarrow> accepts other cdoc p x"
proof -
  obtain cr br where req: "required_names (get_or (PList []) ''required'' c) = Some cr"
      "required_names (get_or (PList []) ''required'' b) = Some br" "set cr \<subseteq> set br"
    and w: "minimum_is_wider c b ''minProperties''" "maximum_is_wider c b ''maxProperties''"
      "property_names_are_wider c b"
    using o by (rule object_supersetD)
  show "object_ok c d"
    using count_sound [OF w(1,2)] required_sound [OF req ok] closed_sound [OF o _ ok] ok
    by (simp add: object_ok_def)
  assume "(p, x) \<in> parts c (PDict d)"
  then obtain kv where kv: "kv \<in> set d" "(p, x) \<in> entry_parts c kv" by (auto simp: parts_def)
  define k where "k = key_name (fst kv)"
  have b_part: "q \<in> entry_parts b kv \<Longrightarrow> q \<in> parts b (PDict d)" for q using kv(1) by (auto simp: parts_def)
  from kv(2) consider "property_schema c k = Some p" "x = snd kv"
    | "schema_of (get_none ''propertyNames'' c) = Some p" "x = PStr k"
    by (auto simp: entry_parts_def k_def)
  then show "accepts other cdoc p x"
  proof cases
    case 1
    from entry_schema_sound [OF o sound tc tb ty ok kv(1) k_def [symmetric] 1(1)]
    obtain pb where "property_schema b k = Some pb" "keeps other cdoc bdoc p pb" by blast
    with 1(2) b_part acc show ?thesis by (force simp: keeps_def entry_parts_def k_def)
  next
    case 2
    show ?thesis unfolding 2(2)
      by (rule names_sound [OF w(3) _ _ 2(1)])
        (use tc tb b_part acc in \<open>force simp: entry_parts_def k_def\<close>)+
  qed
qed

lemma same_type_object:
  "same_type c b \<Longrightarrow> get_none ''type'' c = PStr ty \<Longrightarrow> ty \<noteq> ''number'' \<Longrightarrow> get_none ''type'' b = PStr ty"
  by (auto simp: same_type_def)

lemma typed_sound:
  assumes s: "typed_superset sub c b r = (True, r')" and sound: "sub_sound other cdoc bdoc sub"
    and tc: "tidy (PDict c)" and tb: "tidy (PDict b)" and law: "keyword_law other"
    and ok: "local_ok other b v" and acc: "\<And>p x. (p, x) \<in> parts b v \<Longrightarrow> accepts other bdoc p x"
  shows "local_ok other c v" and "(p, x) \<in> parts c v \<Longrightarrow> accepts other cdoc p x"
proof -
  from s obtain ty where ty: "get_none ''type'' c = PStr ty" and st: "same_type c b"
    and av: "allows_every_value c b" and un: "same_unknown_constraints c b"
    by (auto simp: typed_superset_def split: if_splits option.splits elim: text_of.elims)
  have t: "has_type ty v" using same_type_sound [OF st _ ] ty ok by (simp add: local_ok_def)
  have shape: "shape_ok other b v" using ok by (simp add: local_ok_def)
  have rest: "type_ok c v" "value_ok c v" "unknown_ok other c v"
    using t ty allowed_values_sound [OF av] unknown_sound [OF un _ law] ok tc
    by (auto simp: type_ok_def local_ok_def)
  have "shape_ok other c v \<and> (\<forall>(p, x)\<in>parts c v. accepts other cdoc p x)"
  proof (cases v)
    case (PStr str)
    with t have "ty = ''string''" by (simp add: has_type_def)
    with s ty st av un have "string_superset c b" by (simp add: typed_superset_def)
    with shape PStr show ?thesis using string_sound [OF _ _ law] by (simp add: shape_ok_def parts_def)
  next
    case (PList xs)
    with t have "ty = ''array''" by (simp add: has_type_def)
    with s ty st av un have a: "array_superset sub c b r = (True, r')" by (simp add: typed_superset_def)
    have "array_ok b xs" using shape PList by (simp add: shape_ok_def)
    with array_sound [OF a sound tc tb this] acc PList show ?thesis by (auto simp: shape_ok_def)
  next
    case (PDict d)
    with t have "ty = ''object''" by (simp add: has_type_def)
    with s ty st av un have o: "object_superset sub c b r = (True, r')" by (simp add: typed_superset_def)
    have tys: "get_none ''type'' c = PStr ''object''" "get_none ''type'' b = PStr ''object''"
      using ty st \<open>ty = _\<close> same_type_object by auto
    have "object_ok b d" using shape PDict by (simp add: shape_ok_def)
    with object_sound [OF o sound tc tb tys this] acc PDict show ?thesis by (auto simp: shape_ok_def)
  next
    case (PInt i)
    with t have "ty = ''integer'' \<or> ty = ''number''" by (simp add: has_type_def)
    with s ty st av un have "number_superset c b" by (auto simp: typed_superset_def split: if_splits)
    with shape PInt show ?thesis using number_sound by (simp add: shape_ok_def parts_def)
  next
    case (PFloat f)
    with t obtain q where "f = Fin q" "ty = ''integer'' \<or> ty = ''number''"
      by (auto simp: has_type_def split: pyfloat.splits)
    with s ty st av un have "number_superset c b" by (auto simp: typed_superset_def split: if_splits)
    with shape PFloat \<open>f = _\<close> show ?thesis using number_sound by (simp add: shape_ok_def parts_def)
  qed (simp_all add: shape_ok_def parts_def)
  with rest show "local_ok other c v" "(p, x) \<in> parts c v \<Longrightarrow> accepts other cdoc p x"
    by (auto simp: local_ok_def)
qed

text \<open>A union accepts what one of its variants accepts.\<close>

lemma accepts_keys:
  assumes "accepts other doc s (PDict d)"
  shows "\<forall>kv\<in>set d. is_kstr (fst kv)"
proof -
  from assms obtain t where "local_ok other t (PDict d)" by (rule accepts.cases) blast
  then show ?thesis by (simp add: local_ok_def shape_ok_def object_ok_def)
qed

lemma alone_anyOf:
  assumes "tidy_here c" "has_key ''anyOf'' c"
  shows "parts c v = {}"
    and "(\<And>d. v = PDict d \<Longrightarrow> \<forall>kv\<in>set d. is_kstr (fst kv)) \<Longrightarrow> local_ok other c v"
proof -
  have only: "only_keys (''anyOf'' # annotation_keys) c" using assms by (simp add: tidy_here_def)
  have [simp]: "dict_get k c = None" "get_none k c = PNone"
    if "k \<notin> set (''anyOf'' # annotation_keys)" for k
    using only_keys_get [OF only that] by (simp_all add: get_or_def)
  have un: "unknown_ok other c v"
    using only by (auto simp: unknown_ok_def only_keys_def list_all_iff is_unknown_def known_keys_def)
  show "parts c v = {}"
    by (auto simp: parts_def entry_parts_def property_schema_def annotation_keys_def split: pyval.split)
  show "local_ok other c v" if "\<And>d. v = PDict d \<Longrightarrow> \<forall>kv\<in>set d. is_kstr (fst kv)"
  proof -
    have "count_ok lo hi c n" if "lo \<notin> set (''anyOf'' # annotation_keys)" "hi \<notin> set (''anyOf'' # annotation_keys)" for lo hi n
      using that by (simp add: count_ok_def)
    then have "number_ok c q" "string_ok other c s" "array_ok c xs" for q s xs
      by (simp_all add: number_ok_def string_ok_def array_ok_def annotation_keys_def)
    moreover have "object_ok c d" if "v = PDict d" for d
      using \<open>\<And>d. v = PDict d \<Longrightarrow> _\<close> [OF that] \<open>\<And>lo hi n. _ \<Longrightarrow> _ \<Longrightarrow> count_ok lo hi c n\<close>
      by (simp add: object_ok_def annotation_keys_def)
    ultimately have "shape_ok other c v" by (simp add: shape_ok_def split: pyval.split option.split)
    then show ?thesis using un by (simp add: local_ok_def type_ok_def value_ok_def annotation_keys_def)
  qed
qed

lemma variant_accepts:
  assumes "accepts other doc b v" "resolve doc [] b = Some b" "variant_list b = Some bs"
  shows "\<exists>w\<in>set bs. accepts other doc w v"
proof (cases "has_key ''anyOf'' b")
  case True
  with acceptsE(3) [OF assms(1,2)] assms(3) show ?thesis by auto
next
  case False
  then have "dict_get ''anyOf'' b = None" by (simp add: has_key_def dict_get_def map_of_eq_None_iff)
  with assms(3) have "bs = [b]" by (simp add: variant_list_def get_or_def)
  with assms(1) show ?thesis by simp
qed

lemma accepts_variant:
  assumes "accepts other doc w v" "w \<in> set cs" "variant_list c = Some cs"
    and "resolve doc [] c = Some c" "tidy_here c"
  shows "accepts other doc c v"
proof (cases "has_key ''anyOf'' c")
  case True
  have "local_ok other c v"
    by (rule alone_anyOf(2) [OF assms(5) True]) (use assms(1) accepts_keys in blast)
  then show ?thesis
    by (rule acceptsI [OF assms(4)]) (use assms(1-3) alone_anyOf(1) [OF assms(5) True] in simp_all)
next
  case False
  then have "dict_get ''anyOf'' c = None" by (simp add: has_key_def dict_get_def map_of_eq_None_iff)
  with assms(3) have "cs = [c]" by (simp add: variant_list_def get_or_def)
  with assms(2) have "w = c" by simp
  with assms(1) show ?thesis by simp
qed

lemma resolved_sound:
  assumes s: "resolved_superset sub c b r = (True, r')" and sound: "sub_sound other cdoc bdoc sub"
    and tc: "tidy (PDict c)" and tb: "tidy (PDict b)" and law: "keyword_law other"
    and rc: "resolve cdoc [] c = Some c" and rb: "resolve bdoc [] b = Some b"
    and acc: "accepts other bdoc b v"
  shows "accepts other cdoc c v"
proof -
  from s obtain cs bs where vs: "variant_list c = Some cs" "variant_list b = Some bs"
    by (auto simp: resolved_superset_def split: option.splits)
  show ?thesis
  proof (cases "has_key ''anyOf'' c \<or> has_key ''anyOf'' b")
    case True
    with s vs have all: "all_of (\<lambda>bv. any_of (\<lambda>cv. sub cv bv) cs) bs r = (True, r')"
      by (simp add: resolved_superset_def)
    from variant_accepts [OF acc rb vs(2)] obtain bv where bv: "bv \<in> set bs" "accepts other bdoc bv v" ..
    from all_of_True [OF all bv(1)] any_of_True obtain cv u u' where cv: "cv \<in> set cs" "sub cv bv u = (True, u')"
      by blast
    have "accepts other cdoc cv v"
      by (rule sub_soundD [OF sound cv(2) tidy_variant [OF tc vs(1) cv(1)] tidy_variant [OF tb vs(2) bv(1)] bv(2)])
    then show ?thesis by (rule accepts_variant) (use cv(1) vs(1) rc tc in simp_all)
  next
    case False
    with s vs have t: "typed_superset sub c b r = (True, r')" by (simp add: resolved_superset_def)
    note t = typed_sound [OF t sound tc tb law acceptsE(1) [OF acc rb]]
    show ?thesis
      by (rule acceptsI [OF rc]) (use t acceptsE(2) [OF acc rb] False in blast)+
  qed
qed

lemma superset_sound:
  assumes law: "keyword_law other" and tc: "tidy (PDict cdoc)" and tb: "tidy (PDict bdoc)"
  shows "sub_sound other cdoc bdoc (superset k cdoc bdoc)"
proof (induction k)
  case 0
  show ?case by (simp add: sub_sound_def)
next
  case (Suc k)
  show ?case unfolding sub_sound_def keeps_def
  proof (intro allI impI)
    fix c b r r' v
    assume s: "superset (Suc k) cdoc bdoc c b r = (True, r')"
      and t: "tidy (PDict c)" "tidy (PDict b)" and acc: "accepts other bdoc b v"
    from s obtain rc rb where r: "resolve cdoc [] c = Some rc" "resolve bdoc [] b = Some rb"
      and res: "resolved_superset (superset k cdoc bdoc) rc rb (r - 1) = (True, r')"
      by (auto simp: Let_def split: if_splits option.splits)
    have "accepts other cdoc rc v"
      by (rule resolved_sound [OF res Suc.IH tidy_resolve [OF r(1) tc t(1)] tidy_resolve [OF r(2) tb t(2)] law])
        (use r acc accepts_resolved in \<open>auto intro: resolve_done resolve_no_ref\<close>)
    then show "accepts other cdoc c v" using accepts_resolved [OF r(1)] by blast
  qed
qed

lemma is_superset_sound:
  "\<lbrakk>is_superset c b; keyword_law other; tidy (PDict c); tidy (PDict b); accepts other b b v\<rbrakk>
     \<Longrightarrow> accepts other c c v"
  by (rule sub_soundD [OF superset_sound, of other c b 10001 c b comparison_budget
        "snd (superset 10001 c b c b comparison_budget)"])
    (simp_all only: is_superset_def prod_eq_iff fst_conv snd_conv simp_thms)

subsection \<open>The theorem\<close>


subsection \<open>Samples\<close>

definition fields :: "(string \<times> pyval) list \<Rightarrow> schema" where
  "fields kvs = map (\<lambda>(k, v). (KStr k, v)) kvs"

definition old_schema :: schema where
  "old_schema = fields
     [(''type'', PStr ''object''), (''additionalProperties'', PBool False), (''required'', pstrs [''n'']),
      (''properties'', PDict (fields [(''n'', PDict (fields [(''type'', PStr ''integer''), (''minimum'', PInt 0)]))]))]"

definition new_schema :: schema where
  "new_schema = fields
     [(''type'', PStr ''object''), (''additionalProperties'', PBool False),
      (''properties'', PDict (fields [(''n'', PDict (fields [(''type'', PStr ''number''), (''minimum'', PInt (-1))]))]))]"

definition no_meaning :: keyword_meaning where
  "no_meaning k x v \<longleftrightarrow> x = PNone"

definition kept_value :: pyval where
  "kept_value = PDict (fields [(''n'', PInt 3)])"

lemma no_meaning_law: "keyword_law no_meaning"
  by (auto simp: keyword_law_def no_meaning_def)

lemma no_ref: "dict_get ''$ref'' s = None \<Longrightarrow> resolve doc [] s = Some s"
  by (rule resolve_done) (rule dict_get_none)

lemma leaf_accepts:
  "\<lbrakk>dict_get ''$ref'' s = None; local_ok no_meaning s v; parts s v = {}; \<not> has_key ''anyOf'' s\<rbrakk>
     \<Longrightarrow> accepts no_meaning doc s v"
  by (rule acceptsI [OF no_ref]) auto

lemma node_accepts:
  assumes "dict_get ''$ref'' s = None" "local_ok no_meaning s v" "\<not> has_key ''anyOf'' s"
    and "\<forall>(p, x)\<in>parts s v. accepts no_meaning doc p x"
  shows "accepts no_meaning doc s v"
  by (rule acceptsI [OF no_ref [OF assms(1)] assms(2)]) (use assms(3,4) in auto)

lemmas sample_defs = local_ok_def type_ok_def value_ok_def shape_ok_def number_ok_def string_ok_def array_ok_def
  object_ok_def count_ok_def unknown_ok_def is_unknown_def known_keys_def annotation_keys_def has_type_def
  parts_def entry_parts_def property_schema_def listed_property_def fields_def pstrs_def has_key_def
  get_or_def dict_get_def get_key_def

lemma old_accepts: "accepts no_meaning old_schema old_schema kept_value"
proof -
  have leaf: "accepts no_meaning old_schema (fields [(''type'', PStr ''integer''), (''minimum'', PInt 0)]) (PInt 3)"
    by (rule leaf_accepts) (simp_all add: sample_defs)
  have "parts old_schema kept_value = {(fields [(''type'', PStr ''integer''), (''minimum'', PInt 0)], PInt 3)}"
    by (simp add: old_schema_def kept_value_def sample_defs)
  moreover have "local_ok no_meaning old_schema kept_value"
    by (simp add: old_schema_def kept_value_def sample_defs)
  moreover have "dict_get ''$ref'' old_schema = None" "\<not> has_key ''anyOf'' old_schema"
    by (simp_all add: old_schema_def sample_defs)
  ultimately show ?thesis by (intro node_accepts) (simp_all add: leaf)
qed

lemma sample_superset: "is_superset new_schema old_schema"
  by code_simp

lemma sample_fingerprints:
  "case (schema_fingerprint (\<lambda>q. ''0'') id (PDict old_schema), schema_fingerprint (\<lambda>q. ''0'') id (PDict new_schema)) of
     (Inr p, Inr c) \<Rightarrow> p \<noteq> c | _ \<Rightarrow> False"
  by code_simp

lemma sample_classified:
  "classify_schema_change (\<lambda>q. ''0'') id old_schema new_schema Direction_INPUT = Inr Change_NON_BREAKING"
  using sample_fingerprints sample_superset
  by (auto simp: classify_schema_change_def Let_def simp del: superset.simps split: sum.splits)

lemma sample_tidy: "tidy (PDict old_schema)" "tidy (PDict new_schema)"
  by code_simp+


text \<open>
  Outside the tidy schemas the comparison is not sound. It does not look at the keywords beside an
  \<open>anyOf\<close>, and it takes a new property to be compatible with an open object.
\<close>

lemma anyOf_siblings_ignored:
  fixes old_union new_union
  defines "old_union \<equiv> fields [(''anyOf'', PList [PDict (fields [(''type'', PStr ''string'')])])]"
    and "new_union \<equiv> fields [(''anyOf'', PList [PDict (fields [(''type'', PStr ''string'')])]), (''maxLength'', PInt 1)]"
  shows "is_superset new_union old_union"
    and "accepts no_meaning old_union old_union (PStr ''ab'')"
    and "\<not> accepts no_meaning new_union new_union (PStr ''ab'')"
proof -
  show "is_superset new_union old_union" unfolding assms by code_simp
  have leaf: "accepts no_meaning old_union (fields [(''type'', PStr ''string'')]) (PStr ''ab'')"
    by (rule leaf_accepts) (simp_all add: sample_defs)
  have v: "variant_list old_union = Some [fields [(''type'', PStr ''string'')]]"
    by (simp add: old_union_def variant_list_def sample_defs)
  have o: "resolve old_union [] old_union = Some old_union"
    by (rule no_ref) (simp add: old_union_def sample_defs)
  have l: "local_ok no_meaning old_union (PStr ''ab'')" "parts old_union (PStr ''ab'') = {}"
    by (simp_all add: old_union_def sample_defs)
  show "accepts no_meaning old_union old_union (PStr ''ab'')"
    by (rule acceptsI [OF o l(1), where vs = "[fields [(''type'', PStr ''string'')]]"
        and w = "fields [(''type'', PStr ''string'')]"]) (simp_all add: v l(2) leaf)
  have r: "resolve new_union [] new_union = Some new_union"
    by (rule no_ref) (simp add: new_union_def sample_defs)
  have "\<not> local_ok no_meaning new_union (PStr ''ab'')"
    by (simp add: new_union_def sample_defs)
  then show "\<not> accepts no_meaning new_union new_union (PStr ''ab'')"
    by (rule contrapos_nn) (rule acceptsE(1) [OF _ r])
qed

lemma open_object_narrowed:
  fixes old_open new_open
  defines "old_open \<equiv> fields [(''type'', PStr ''object'')]"
    and "new_open \<equiv> fields [(''type'', PStr ''object''),
      (''properties'', PDict (fields [(''n'', PDict (fields [(''type'', PStr ''string'')]))]))]"
  shows "is_superset new_open old_open"
    and "accepts no_meaning old_open old_open kept_value"
    and "\<not> accepts no_meaning new_open new_open kept_value"
proof -
  show "is_superset new_open old_open" unfolding assms by code_simp
  show "accepts no_meaning old_open old_open kept_value"
    by (rule leaf_accepts) (simp_all add: old_open_def kept_value_def sample_defs)
  have r: "resolve new_open [] new_open = Some new_open"
    by (rule no_ref) (simp add: new_open_def sample_defs)
  have "\<not> accepts no_meaning new_open (fields [(''type'', PStr ''string'')]) (PInt 3)"
    using acceptsE(1) [OF _ no_ref, of no_meaning new_open "fields [(''type'', PStr ''string'')]" "PInt 3"]
    by (auto simp: sample_defs)
  moreover have "(fields [(''type'', PStr ''string'')], PInt 3) \<in> parts new_open kept_value"
    by (simp add: new_open_def kept_value_def sample_defs)
  ultimately show "\<not> accepts no_meaning new_open new_open kept_value"
    using acceptsE(2) [OF _ r] by blast
qed

end
