(* ===== verification/Migration.thy ===== *)
theory Migration
  imports Egress Schema_Meaning Text_Search
begin

section \<open>Migration surfaces\<close>

text \<open>
  Models \<^verbatim>\<open>src/tesserix_mcp_runtime/migration.py\<close>: routes, surfaces and the comparison of two surfaces.
  \<open>frepr\<close> and \<open>sha\<close> are the printer of floats and the digest of the schema fingerprints.
\<close>

subsection \<open>Routes and surfaces\<close>

text \<open>\<open>part in text\<close>.\<close>

definition infix_of :: "string \<Rightarrow> string \<Rightarrow> bool" where
  "infix_of p s \<longleftrightarrow> list_ex (starts_with p) (suffixes_of s)"

definition route_path_ok :: "string \<Rightarrow> bool" where
  "route_path_ok s \<longleftrightarrow> starts_with ''/'' s \<and> length s \<le> 512 \<and> s = strip s \<and>
     CHR ''?'' \<notin> set s \<and> CHR ''#'' \<notin> set s \<and> \<not> infix_of ''//'' s \<and>
     list_all (\<lambda>part. part \<noteq> ''.'' \<and> part \<noteq> ''..'') (split_on CHR ''/'' s) \<and> list_all (\<lambda>c. 32 \<le> ord_of c) s"

record migration_route =
  mr_name :: string
  mr_public_path :: string
  mr_upstream_path :: string

definition check_migration_route :: "migration_route \<Rightarrow> check" where
  "check_migration_route r =
     raise_if (mr_name r = [] \<or> mr_name r \<noteq> strip (mr_name r) \<or> length (mr_name r) > 128 \<or>
         list_ex (\<lambda>c. ord_of c < 32) (mr_name r))
       (ValueError ''route name must be bounded, non-empty text'')
     (raise_if (\<not> route_path_ok (mr_public_path r) \<or> \<not> route_path_ok (mr_upstream_path r))
       (ValueError ''route paths must be bounded absolute paths without traversal'') okay)"

definition route_identifier :: "migration_route \<Rightarrow> string" where
  "route_identifier r = mr_name r @ '':'' @ mr_public_path r @ ''->'' @ mr_upstream_path r"

record migration_surface =
  ms_tools :: "tool_manifest list"
  ms_egress :: "destination list"
  ms_routes :: "migration_route list"
  ms_stateless :: bool

definition check_migration_surface :: "migration_surface \<Rightarrow> check" where
  "check_migration_surface s =
     raise_if (\<not> distinct (map mf_normalized_name (ms_tools s)))
       (ValueError ''migration tools must have unique normalized names'')
     (raise_if (\<not> distinct (map route_identifier (ms_routes s))) (ValueError ''migration routes must be unique'') okay)"

subsection \<open>The comparison\<close>

record tool_diff =
  td_name :: string
  td_input_change :: schema_change
  td_output_change :: schema_change
  td_description_changed :: bool
  td_scope_changed :: bool
  td_policy_changed :: bool
  td_lifecycle_changed :: bool

definition tool_breaking :: "tool_diff \<Rightarrow> bool" where
  "tool_breaking d \<longleftrightarrow> td_input_change d = Change_BREAKING \<or> td_output_change d = Change_BREAKING \<or> td_policy_changed d"

record migration_diff =
  md_tool_diffs :: "tool_diff list"
  md_added_tools :: "string list"
  md_removed_tools :: "string list"
  md_added_egress :: "string list"
  md_removed_egress :: "string list"
  md_added_routes :: "string list"
  md_removed_routes :: "string list"
  md_lifecycle_changed :: bool
  md_target_stateless :: bool

definition requires_major_version :: "migration_diff \<Rightarrow> bool" where
  "requires_major_version d \<longleftrightarrow> md_removed_tools d \<noteq> [] \<or> list_ex tool_breaking (md_tool_diffs d)"

definition cutover_ready :: "migration_diff \<Rightarrow> bool" where
  "cutover_ready d \<longleftrightarrow> \<not> requires_major_version d \<and> md_target_stateless d"

definition discovery_lifecycle :: "tool_manifest \<Rightarrow> string option" where
  "discovery_lifecycle m = map_option td_lifecycle (tm_discovery (mf_metadata m))"

text \<open>The schemas of a manifest are objects.\<close>

fun as_schema :: "pyval \<Rightarrow> schema" where
  "as_schema (PDict d) = d"
| "as_schema _ = []"

definition policy_of :: "tool_manifest \<Rightarrow> tool_effect \<times> approval_requirement \<times> idempotency_requirement" where
  "policy_of m = (tm_effect (mf_metadata m), tm_approval (mf_metadata m), tm_idempotency (mf_metadata m))"

definition make_tool_diff ::
  "(rat \<Rightarrow> string) \<Rightarrow> (string \<Rightarrow> string) \<Rightarrow> tool_manifest \<Rightarrow> tool_manifest \<Rightarrow> (value_error, tool_diff) result" where
  "make_tool_diff frepr sha p c =
     and_then (classify_schema_change frepr sha (as_schema (mf_input_schema p)) (as_schema (mf_input_schema c)) Direction_INPUT) (\<lambda>i.
     and_then (classify_schema_change frepr sha (as_schema (mf_output_schema p)) (as_schema (mf_output_schema c)) Direction_OUTPUT) (\<lambda>out.
     Inr \<lparr>td_name = mf_normalized_name c, td_input_change = i, td_output_change = out,
       td_description_changed = (tm_description (mf_metadata p) \<noteq> tm_description (mf_metadata c)),
       td_scope_changed = (tm_required_scopes (mf_metadata p) \<noteq> tm_required_scopes (mf_metadata c)),
       td_policy_changed = (policy_of p \<noteq> policy_of c),
       td_lifecycle_changed = (discovery_lifecycle p \<noteq> discovery_lifecycle c)\<rparr>))"

text \<open>The dictionary of the tools, where a later tool replaces an earlier one of the same name.\<close>

definition surface_tools :: "tool_manifest list \<Rightarrow> (string \<times> tool_manifest) list" where
  "surface_tools ms = fold (\<lambda>m. dict_put (mf_normalized_name m) m) ms []"

definition sorted_minus :: "string list \<Rightarrow> string list \<Rightarrow> string list" where
  "sorted_minus xs ys = sort (filter (\<lambda>x. x \<notin> set ys) (remdups xs))"

definition compare_migration_surfaces ::
  "(rat \<Rightarrow> string) \<Rightarrow> (string \<Rightarrow> string) \<Rightarrow> migration_surface \<Rightarrow> migration_surface \<Rightarrow> (value_error, migration_diff) result" where
  "compare_migration_surfaces frepr sha p c =
     (let pt = surface_tools (ms_tools p); ct = surface_tools (ms_tools c);
          pn = map fst pt; cn = map fst ct;
          shared = sort (filter (\<lambda>n. n \<in> set cn) pn);
          pe = map authority (ms_egress p); ce = map authority (ms_egress c);
          pr = map route_identifier (ms_routes p); cr = map route_identifier (ms_routes c)
      in and_then (map_result (\<lambda>n. make_tool_diff frepr sha (the (map_of pt n)) (the (map_of ct n))) shared) (\<lambda>diffs. Inr
        \<lparr>md_tool_diffs = diffs, md_added_tools = sorted_minus cn pn, md_removed_tools = sorted_minus pn cn,
         md_added_egress = sorted_minus ce pe, md_removed_egress = sorted_minus pe ce,
         md_added_routes = sorted_minus cr pr, md_removed_routes = sorted_minus pr cr,
         md_lifecycle_changed = (ms_stateless p \<noteq> ms_stateless c), md_target_stateless = ms_stateless c\<rparr>))"

subsection \<open>What a cutover keeps_values\<close>

lemma map_of_tools:
  "map_of (fold (\<lambda>m. dict_put (mf_normalized_name m) m) ms d) n =
     (case map_of (map (\<lambda>m. (mf_normalized_name m, m)) (rev ms)) n of None \<Rightarrow> map_of d n | Some m \<Rightarrow> Some m)"
  by (induction ms arbitrary: d) (auto simp: map_add_def split: option.splits)

lemma surface_tools_Some:
  "map_of (surface_tools ms) n = Some m \<Longrightarrow> m \<in> set ms \<and> mf_normalized_name m = n"
  by (auto simp: surface_tools_def map_of_tools dest!: map_of_SomeD split: option.splits)

lemma surface_tools_mem:
  assumes "distinct (map mf_normalized_name ms)" "m \<in> set ms"
  shows "map_of (surface_tools ms) (mf_normalized_name m) = Some m"
proof -
  have "distinct (map fst (map (\<lambda>m. (mf_normalized_name m, m)) (rev ms)))"
    using assms(1) by (simp add: comp_def rev_map [symmetric])
  moreover have "(mf_normalized_name m, m) \<in> set (map (\<lambda>m. (mf_normalized_name m, m)) (rev ms))"
    using assms(2) by simp
  ultimately have "map_of (map (\<lambda>m. (mf_normalized_name m, m)) (rev ms)) (mf_normalized_name m) = Some m"
    by (rule map_of_is_SomeI)
  then show ?thesis by (simp add: surface_tools_def map_of_tools)
qed

lemma sorted_minus_empty: "sorted_minus xs ys = [] \<longleftrightarrow> set xs \<subseteq> set ys"
  unfolding set_empty [symmetric] by (auto simp: sorted_minus_def)

text \<open>A change that is not breaking keeps_values the fingerprint, or widens what is accepted in the direction.\<close>

lemma not_breaking:
  assumes "classify_schema_change frepr sha previous current direction = Inr change" "change \<noteq> Change_BREAKING"
  shows "schema_fingerprint frepr sha (PDict previous) = schema_fingerprint frepr sha (PDict current) \<or>
    (if direction = Direction_INPUT then is_superset current previous else is_superset previous current)"
  using assms by (cases direction) (auto simp: classify_schema_change_def Let_def simp del: superset.simps split: if_splits)

definition keeps_values :: "keyword_meaning \<Rightarrow> (rat \<Rightarrow> string) \<Rightarrow> (string \<Rightarrow> string) \<Rightarrow> pyval \<Rightarrow> pyval \<Rightarrow> bool" where
  "keeps_values other frepr sha narrow wide \<longleftrightarrow>
     schema_fingerprint frepr sha narrow = schema_fingerprint frepr sha wide \<or>
     (\<forall>v. accepts other (as_schema narrow) (as_schema narrow) v \<longrightarrow> accepts other (as_schema wide) (as_schema wide) v)"

definition tidy_tools :: "tool_manifest list \<Rightarrow> bool" where
  "tidy_tools ms \<longleftrightarrow> (\<forall>m\<in>set ms. \<forall>s\<in>{mf_input_schema m, mf_output_schema m}. tidy s \<and> s = PDict (as_schema s))"

definition compatible_tools ::
  "keyword_meaning \<Rightarrow> (rat \<Rightarrow> string) \<Rightarrow> (string \<Rightarrow> string) \<Rightarrow> tool_manifest \<Rightarrow> tool_manifest \<Rightarrow> bool" where
  "compatible_tools other frepr sha p c \<longleftrightarrow>
     mf_normalized_name c = mf_normalized_name p \<and> policy_of c = policy_of p \<and>
     keeps_values other frepr sha (mf_input_schema p) (mf_input_schema c) \<and>
     keeps_values other frepr sha (mf_output_schema c) (mf_output_schema p)"

lemma keeps_of_change:
  assumes "classify_schema_change frepr sha (as_schema p) (as_schema c) direction = Inr change" "change \<noteq> Change_BREAKING"
    and "keyword_law other" "tidy p" "tidy c" "p = PDict (as_schema p)" "c = PDict (as_schema c)"
  shows "if direction = Direction_INPUT then keeps_values other frepr sha p c else keeps_values other frepr sha c p"
proof -
  obtain P C where docs: "p = PDict P" "c = PDict C" using assms(6,7) by blast
  have tidy: "tidy (PDict P)" "tidy (PDict C)" using assms(4,5) docs by (simp_all only:)
  have input: "accepts other C C v" if "is_superset C P" "accepts other P P v" for v
    by (rule is_superset_sound [OF that(1) assms(3) tidy(2,1) that(2)])
  have result: "accepts other P P v" if "is_superset P C" "accepts other C C v" for v
    by (rule is_superset_sound [OF that(1) assms(3) tidy that(2)])
  show ?thesis
    using not_breaking [OF assms(1,2)] input result unfolding docs keeps_values_def as_schema.simps by (metis (full_types))
qed

lemma make_tool_diff_compatible:
  assumes "make_tool_diff frepr sha p c = Inr d" "\<not> tool_breaking d" "keyword_law other"
    and "mf_normalized_name c = mf_normalized_name p" "p \<in> set ps" "c \<in> set cs" "tidy_tools ps" "tidy_tools cs"
  shows "compatible_tools other frepr sha p c"
proof -
  obtain i out where
    i: "classify_schema_change frepr sha (as_schema (mf_input_schema p)) (as_schema (mf_input_schema c)) Direction_INPUT = Inr i"
    and out: "classify_schema_change frepr sha (as_schema (mf_output_schema p)) (as_schema (mf_output_schema c)) Direction_OUTPUT = Inr out"
    and d: "i \<noteq> Change_BREAKING" "out \<noteq> Change_BREAKING" "policy_of p = policy_of c"
    using assms(1,2) by (auto simp: make_tool_diff_def tool_breaking_def)
  have t: "tidy s \<and> s = PDict (as_schema s)"
    if "s \<in> {mf_input_schema p, mf_output_schema p, mf_input_schema c, mf_output_schema c}" for s
    using assms(5-8) that by (auto simp: tidy_tools_def)
  show ?thesis
    using keeps_of_change [OF i d(1) assms(3)] keeps_of_change [OF out d(2) assms(3)] t d(3) assms(4)
    by (simp add: compatible_tools_def)
qed

lemma map_result_covers: "map_result f xs = Inr ys \<Longrightarrow> x \<in> set xs \<Longrightarrow> \<exists>y\<in>set ys. f x = Inr y"
  by (metis in_set_conv_nth map_result_Inr_length map_result_Inr_nth)


definition sample_tool_metadata :: tool_metadata where
  "sample_tool_metadata = \<lparr>tm_name = ''t'', tm_title = ''t'', tm_description = ''t'', tm_effect = Effect_READ,
     tm_approval = Approval_NOT_REQUIRED, tm_idempotency = Idempotency_NOT_APPLICABLE, tm_required_scopes = [], tm_discovery = None\<rparr>"

definition surface_manifest :: "schema \<Rightarrow> tool_manifest" where
  "surface_manifest s = \<lparr>mf_metadata = sample_tool_metadata, mf_normalized_name = ''t'', mf_input_fingerprint = [],
     mf_output_fingerprint = [], mf_contract_fingerprint = [], mf_input_schema = PDict s, mf_output_schema = PDict old_schema\<rparr>"

definition sample_surface :: "schema \<Rightarrow> migration_surface" where
  "sample_surface s = \<lparr>ms_tools = [surface_manifest s], ms_egress = [], ms_routes = [], ms_stateless = True\<rparr>"

lemma sample_same_schema:
  "classify_schema_change (\<lambda>q. ''0'') id old_schema old_schema direction = Inr Change_IDENTICAL"
  using sample_fingerprints by (auto simp: classify_schema_change_def split: sum.splits)

lemma sample_diff:
  "\<exists>d. make_tool_diff (\<lambda>q. ''0'') id (surface_manifest old_schema) (surface_manifest new_schema) = Inr d \<and> \<not> tool_breaking d"
  by (simp add: make_tool_diff_def surface_manifest_def sample_classified sample_same_schema tool_breaking_def policy_of_def)

lemma sample_compared:
  "\<exists>d. compare_migration_surfaces (\<lambda>q. ''0'') id (sample_surface old_schema) (sample_surface new_schema) = Inr d \<and> cutover_ready d"
  using sample_diff
  by (auto simp: compare_migration_surfaces_def sample_surface_def surface_tools_def surface_manifest_def Let_def
      cutover_ready_def requires_major_version_def sorted_minus_def)


end
