(* ===== verification/Outbound_HTTP.thy ===== *)
theory Outbound_HTTP
  imports Application Egress
begin

section \<open>The outbound HTTPS client\<close>

text \<open>
  Models \<^verbatim>\<open>src/tesserix_mcp_runtime/adapters/outbound_http.py\<close>: the limits, the parsing of a URL, the
  request and response headers, the circuits, the redirects, the body and the audit of a request.

  The transport is an environment: for each request sent it gives a response or an exception. The
  configuration holds the redactor, SHA-256, percent decoding, the parsing and joining of URLs by
  \<^verbatim>\<open>httpx\<close> and what the exporter does. A text of bytes is a string of code points 0-255.
\<close>

subsection \<open>Limits and exceptions\<close>

record outbound_limits =
  ol_request_bytes :: int
  ol_response_bytes :: int
  ol_redirects :: int
  ol_timeout :: pyfloat
  ol_connections :: int
  ol_headers :: int
  ol_header_bytes :: int
  ol_threshold :: int
  ol_recovery :: pyfloat
  ol_circuits :: int

definition default_outbound_limits :: outbound_limits where
  "default_outbound_limits = \<lparr>ol_request_bytes = 262144, ol_response_bytes = 1048576, ol_redirects = 3,
     ol_timeout = Fin 10, ol_connections = 32, ol_headers = 64, ol_header_bytes = 32768, ol_threshold = 5,
     ol_recovery = Fin 5, ol_circuits = 64\<rparr>"

definition check_outbound_limits :: "outbound_limits \<Rightarrow> check" where
  "check_outbound_limits l =
     (let bad = ValueError ''outbound HTTP limit must be within its hard maximum'' in
      and_then (for_each (\<lambda>(v, maximum). raise_if (\<not> (1 \<le> v \<and> v \<le> maximum)) bad okay)
        [(ol_request_bytes l, 1048576), (ol_response_bytes l, 1048576), (ol_connections l, 256), (ol_headers l, 128),
         (ol_header_bytes l, 65536), (ol_threshold l, 100), (ol_circuits l, 256 :: int)]) (\<lambda>_.
      raise_if (\<not> (0 \<le> ol_redirects l \<and> ol_redirects l \<le> 10) \<or> \<not> (0 < ol_timeout l \<and> ol_timeout l \<le> Fin 30) \<or>
          \<not> (0 < ol_recovery l \<and> ol_recovery l \<le> Fin 300)) bad okay))"

text \<open>
  An \<open>OutboundHTTPError\<close> carries its public response. A deadline is the cancellation that
  \<open>asyncio.timeout\<close> delivers inside its block; at the end of the block it is a \<^verbatim>\<open>TimeoutError\<close>.
\<close>

datatype out_exn =
    Out_error error_response | Out_policy | Out_redaction | Out_value value_error | Out_timeout
  | Out_deadline | Out_cancelled | Out_other

type_synonym 'a out = "(out_exn, 'a) result"

definition outbound_error :: "error_code \<Rightarrow> string \<Rightarrow> 'a out" where
  "outbound_error code rid = (case error_from_code code rid of Inl e \<Rightarrow> Inl (Out_value e) | Inr r \<Rightarrow> Inl (Out_error r))"

fun out_of_egress :: "egress_exn \<Rightarrow> out_exn" where
  "out_of_egress Egress_violation = Out_policy"
| "out_of_egress (Egress_value e) = Out_value e"
| "out_of_egress Egress_other = Out_other"

definition policy_check :: "unit egress \<Rightarrow> unit out" where
  "policy_check r = (case r of Inl e \<Rightarrow> Inl (out_of_egress e) | Inr u \<Rightarrow> Inr u)"

subsection \<open>Audit events and responses\<close>

definition allowed_methods :: "string list" where
  "allowed_methods = [''DELETE'', ''GET'', ''HEAD'', ''OPTIONS'', ''PATCH'', ''POST'', ''PUT'']"

record outbound_event =
  oe_request_id :: string
  oe_method :: string
  oe_fingerprint :: string
  oe_outcome :: string
  oe_status :: "int option"

definition outcome_rx :: rx where
  "outcome_rx = Rep (Cls (\<lambda>c. chr_range CHR ''a'' CHR ''z'' c \<or> c = CHR ''_'')) 1 31"

definition check_outbound_event :: "outbound_event \<Rightarrow> check" where
  "check_outbound_event e =
     and_then (error_from_code UNAVAILABLE (oe_request_id e)) (\<lambda>_.
     raise_if (oe_method e \<notin> set allowed_methods \<and> oe_method e \<noteq> ''INVALID'')
       (ValueError ''method must be a bounded HTTP method'')
     (raise_if (\<not> fullmatch hex64 (oe_fingerprint e)) (ValueError ''destination_fingerprint must be a SHA-256 digest'')
     (raise_if (\<not> fullmatch outcome_rx (oe_outcome e)) (ValueError ''outcome must be a stable bounded value'')
     (raise_if (case oe_status e of None \<Rightarrow> False | Some n \<Rightarrow> \<not> (100 \<le> n \<and> n \<le> 599))
       (ValueError ''status_code must be an HTTP status'') okay))))"

definition outbound_event_to_dict :: "outbound_event \<Rightarrow> pyval" where
  "outbound_event_to_dict e = obj
     [(''request_id'', PStr (oe_request_id e)), (''method'', PStr (oe_method e)),
      (''destination_fingerprint'', PStr (oe_fingerprint e)), (''outcome'', PStr (oe_outcome e)),
      (''status_code'', (case oe_status e of None \<Rightarrow> PNone | Some n \<Rightarrow> PInt n))]"

record outbound_response =
  or_status :: int
  or_headers :: "(string \<times> string) list"
  or_body :: string

definition make_outbound_response :: "int \<Rightarrow> (string \<times> string) list \<Rightarrow> string \<Rightarrow> outbound_response out" where
  "make_outbound_response status headers body =
     raise_if (\<not> (100 \<le> status \<and> status \<le> 599))
       (Out_value (ValueError ''response must contain a valid status and byte body''))
       (Inr \<lparr>or_status = status, or_headers = headers, or_body = body\<rparr>)"

subsection \<open>The configuration and the state of a client\<close>

record circuit =
  ci_failures :: int
  ci_opened_at :: "pyfloat option"
  ci_probe :: bool

definition fresh_circuit :: circuit where
  "fresh_circuit = \<lparr>ci_failures = 0, ci_opened_at = None, ci_probe = False\<rparr>"

record outbound_config =
  og_policy :: egress_policy
  og_redact :: "string \<Rightarrow> string option"
  og_limits :: outbound_limits
  og_sink :: "(outbound_event \<Rightarrow> bool) option"
  og_exporter :: exporter
  og_opens :: "(span_spec \<Rightarrow> bool) option"
  og_sha :: "string \<Rightarrow> string"
  og_unquote :: "string \<Rightarrow> string"
  og_netloc_ok :: "string \<Rightarrow> bool"
  og_url :: "string \<Rightarrow> string option"
  og_join :: "string \<Rightarrow> string \<Rightarrow> string option"

record outbound_client =
  oc_circuits :: "(destination \<times> circuit) list"
  oc_closed :: bool
  oc_audit :: "outbound_event list"
  oc_audit_failures :: nat
  oc_metrics :: metrics

definition destination_fingerprint :: "outbound_config \<Rightarrow> destination option \<Rightarrow> string" where
  "destination_fingerprint g d = og_sha g (case d of None \<Rightarrow> ''invalid'' | Some d \<Rightarrow> authority d)"

definition downstream_error_outcome :: "out_exn \<Rightarrow> runtime_outcome" where
  "downstream_error_outcome e =
     (case e of
        Out_cancelled \<Rightarrow> Outcome_CANCELLATION
      | Out_deadline \<Rightarrow> Outcome_CANCELLATION
      | Out_policy \<Rightarrow> Outcome_POLICY_REFUSAL
      | Out_timeout \<Rightarrow> Outcome_TIMEOUT
      | Out_error r \<Rightarrow>
          (case er_code r of
             FORBIDDEN \<Rightarrow> Outcome_POLICY_REFUSAL
           | TIMEOUT \<Rightarrow> Outcome_TIMEOUT
           | UNAVAILABLE \<Rightarrow> Outcome_DEPENDENCY_OUTAGE
           | INVALID_INPUT \<Rightarrow> Outcome_INVALID_INPUT
           | RESULT_TOO_LARGE \<Rightarrow> Outcome_LIMIT_EXCEEDED
           | _ \<Rightarrow> Outcome_TOOL_FAILURE)
      | _ \<Rightarrow> Outcome_DEPENDENCY_OUTAGE)"

definition downstream_response_outcome :: "int \<Rightarrow> runtime_outcome" where
  "downstream_response_outcome status =
     (if status \<ge> 500 then Outcome_DEPENDENCY_OUTAGE else if status \<ge> 400 then Outcome_TOOL_FAILURE else Outcome_SUCCESS)"

subsection \<open>Texts that may be sent\<close>

definition outbound_request_id :: "outbound_config \<Rightarrow> string \<Rightarrow> string" where
  "outbound_request_id g rid =
     (case og_redact g rid of
        Some v \<Rightarrow> if is_ok (error_from_code UNAVAILABLE v) then v else ''redaction-failed-'' @ take 16 (og_sha g rid)
      | None \<Rightarrow> ''redaction-failed-'' @ take 16 (og_sha g rid))"

definition require_public_text :: "outbound_config \<Rightarrow> string \<Rightarrow> unit out" where
  "require_public_text g v =
     (case og_redact g v of
        None \<Rightarrow> Inl Out_redaction
      | Some r \<Rightarrow> raise_if (r \<noteq> v) (Out_value (ValueError ''text contains protected material'')) (Inr ()))"

fun decoded_contains :: "outbound_config \<Rightarrow> string list \<Rightarrow> nat \<Rightarrow> string \<Rightarrow> bool" where
  "decoded_contains g secrets 0 s = list_ex (\<lambda>p. contains p s) secrets"
| "decoded_contains g secrets (Suc n) s =
     (list_ex (\<lambda>p. contains p s) secrets \<or>
      (og_unquote g s \<noteq> s \<and> decoded_contains g secrets n (og_unquote g s)))"

definition contains_protected_text :: "outbound_config \<Rightarrow> string list \<Rightarrow> string \<Rightarrow> bool" where
  "contains_protected_text g secrets s \<longleftrightarrow> secrets \<noteq> [] \<and> decoded_contains g secrets 4 s"

text \<open>The names \<open>parse_qsl\<close> finds in a query.\<close>

definition query_names :: "outbound_config \<Rightarrow> string \<Rightarrow> string list" where
  "query_names g q =
     map (\<lambda>pair. og_unquote g (map (\<lambda>c. if c = CHR ''+'' then CHR '' '' else c) (fst (partition_at CHR ''='' pair))))
       (filter (\<lambda>pair. pair \<noteq> []) (split_on CHR ''&'' q))"

definition invalid_url :: out_exn where
  "invalid_url = Out_value (ValueError ''invalid URL'')"

definition parse_url :: "outbound_config \<Rightarrow> string \<Rightarrow> (string \<times> destination) out" where
  "parse_url g v =
     raise_if (v = [] \<or> length v > 4096 \<or> invalid_percent v) invalid_url
     (and_then (require_public_text g v) (\<lambda>_.
      case urlsplit (og_netloc_ok g) v of
        None \<Rightarrow> Inl invalid_url
      | Some u \<Rightarrow>
          raise_if (su_scheme u \<noteq> ''https'' \<or> su_netloc u = [] \<or> has_userinfo u \<or> su_fragment u \<noteq> [] \<or>
              CHR ''%'' \<in> set (su_netloc u) \<or> su_hostname u = []) invalid_url
          (case su_port u of
             None \<Rightarrow> Inl invalid_url
           | Some port \<Rightarrow>
               raise_if (list_ex is_secret_key (query_names g (su_query u))) invalid_url
               (case make_destination (ep_library (og_policy g)) (su_hostname u) port of
                  Inl e \<Rightarrow> Inl (Out_value e)
                | Inr d \<Rightarrow> (case og_url g v of None \<Rightarrow> Inl Out_other | Some url \<Rightarrow> Inr (url, d))))))"

definition upper_ascii :: "char \<Rightarrow> char" where
  "upper_ascii c = (if 97 \<le> ord_of c \<and> ord_of c \<le> 122 then char_of (ord_of c - 32) else c)"

definition parse_method :: "string \<Rightarrow> string out" where
  "parse_method v =
     (let m = map upper_ascii v in
      raise_if (m \<notin> set allowed_methods) (Out_value (ValueError ''invalid method'')) (Inr m))"

subsection \<open>Headers\<close>

datatype header_value = Plain_header string | Secret_header secret_value

definition sensitive_headers :: "string list" where
  "sensitive_headers = [''authorization'', ''proxy-authorization'', ''cookie'', ''set-cookie'', ''www-authenticate'',
     ''proxy-authenticate'', ''x-api-key'']"

definition forbidden_request_headers :: "string list" where
  "forbidden_request_headers = [''accept-encoding'', ''connection'', ''content-length'', ''host'', ''keep-alive'',
     ''proxy-authorization'', ''proxy-connection'', ''te'', ''trailer'', ''transfer-encoding'', ''upgrade'',
     ''x-http-method-override'', ''x-method-override'']"

definition header_char :: "char \<Rightarrow> bool" where
  "header_char c \<longleftrightarrow> is_alnum c \<or> one_of ''!#$%&*+.^_|~-'' c \<or> c = CHR 0x27 \<or> c = CHR 0x60"

definition header_name_rx :: rx where
  "header_name_rx = Rep (Cls header_char) 1 127"

definition sensitive_header :: "string \<Rightarrow> bool" where
  "sensitive_header name \<longleftrightarrow> map lower_ascii name \<in> set sensitive_headers \<or> is_secret_key name"

definition bad_header :: out_exn where
  "bad_header = Out_value (ValueError ''invalid header'')"

text \<open>The text of a header value, with the secrets found so far.\<close>

definition header_text :: "outbound_config \<Rightarrow> bool \<Rightarrow> header_value \<Rightarrow> string list \<Rightarrow> (string \<times> string list) out" where
  "header_text g sensitive v secrets =
     (case v of
        Secret_header x \<Rightarrow> Inr (reveal x, if reveal x \<in> set secrets then secrets else secrets @ [reveal x])
      | Plain_header x \<Rightarrow>
          raise_if sensitive (Out_value (ValueError ''sensitive headers require SecretValue''))
          (and_then (require_public_text g x) (\<lambda>_. Inr (x, secrets))))"

fun request_header_loop ::
  "outbound_config \<Rightarrow> (string \<times> string) list \<Rightarrow> string list \<Rightarrow> int \<Rightarrow> (string \<times> header_value) list
     \<Rightarrow> ((string \<times> string) list \<times> string list) out" where
  "request_header_loop g output secrets n [] = Inr (output, sort_key (\<lambda>s. - int (length s)) secrets)"
| "request_header_loop g output secrets n ((name, v) # hs) =
     raise_if (\<not> fullmatch header_name_rx name \<or> map lower_ascii name \<in> set forbidden_request_headers) bad_header
     (and_then (require_public_text g name) (\<lambda>_.
      and_then (header_text g (sensitive_header name) v secrets) (\<lambda>(rendered, secrets).
      raise_if (rendered = [] \<or> length rendered > 8192 \<or> list_ex (\<lambda>c. \<not> (32 \<le> ord_of c \<and> ord_of c \<le> 126)) rendered) bad_header
      (let n' = n + int (length name) + int (utf8_length rendered) in
       raise_if (n' > ol_header_bytes (og_limits g)) (Out_value (ValueError ''headers too large''))
       (request_header_loop g (dict_put name rendered output) secrets n' hs)))))"

definition request_headers ::
  "outbound_config \<Rightarrow> (string \<times> header_value) list \<Rightarrow> ((string \<times> string) list \<times> string list) out" where
  "request_headers g hs =
     raise_if (int (length hs) > ol_headers (og_limits g)) (Out_value (ValueError ''too many headers''))
       (request_header_loop g [] [] 0 hs)"

definition too_large :: "string \<Rightarrow> 'a out" where
  "too_large what = outbound_error RESULT_TOO_LARGE what"

definition redact_secrets :: "string list \<Rightarrow> string \<Rightarrow> string" where
  "redact_secrets secrets v = fold (\<lambda>secret text. str_replace secret redacted_text text) secrets v"

fun response_header_loop ::
  "outbound_config \<Rightarrow> string list \<Rightarrow> (string \<times> string) list \<Rightarrow> int \<Rightarrow> int \<Rightarrow> (string \<times> string) list
     \<Rightarrow> (string \<times> string) list out" where
  "response_header_loop g secrets output n m [] = Inr output"
| "response_header_loop g secrets output n m ((name, v) # hs) =
     raise_if (list_ex (\<lambda>c. ord_of c \<ge> 128) name) (Out_value (ValueError ''ordinal not in range(128)''))
     (let n' = n + int (length name) + int (utf8_length v) in
      if n' > ol_header_bytes (og_limits g) then too_large ''response-headers''
      else
        (case (if sensitive_header name then Some redacted_text else og_redact g (redact_secrets secrets v)) of
           None \<Rightarrow> Inl Out_redaction
         | Some r \<Rightarrow>
             (let m' = m + int (length name) + int (utf8_length r) in
              if m' > ol_header_bytes (og_limits g) then too_large ''response-headers''
              else response_header_loop g secrets (output @ [(map lower_ascii name, r)]) n' m' hs)))"

definition response_headers ::
  "outbound_config \<Rightarrow> string list \<Rightarrow> (string \<times> string) list \<Rightarrow> (string \<times> string) list out" where
  "response_headers g secrets hs =
     (if int (length hs) > ol_headers (og_limits g) then too_large ''response-headers''
      else response_header_loop g secrets [] 0 0 hs)"

subsection \<open>Responses and redirects\<close>

text \<open>
  A response of the transport: its headers, the three the client looks up, the chunks of its body with
  the exception that ends the reading, if any, and the exception of closing it.
\<close>

record http_response =
  hr_status :: int
  hr_items :: "(string \<times> string) list"
  hr_location :: "string option"
  hr_encoding :: "string option"
  hr_length :: "string option"
  hr_chunks :: "string list"
  hr_fail :: "out_exn option"
  hr_close :: "out_exn option"

text \<open>\<open>int(text)\<close>: spaces around, a sign, and digits with single underscores between them.\<close>

definition py_int :: "string \<Rightarrow> int option" where
  "py_int s =
     (let t = strip s;
          u = (case t of c # r \<Rightarrow> if one_of ''+-'' c then r else t | [] \<Rightarrow> t);
          parts = split_on CHR ''_'' u;
          v = int (digits_value (concat parts))
      in if list_all (\<lambda>p. p \<noteq> [] \<and> list_all is_digit p) parts \<and> length (concat parts) \<le> 4300
         then Some (if starts_with ''-'' t then - v else v) else None)"

fun read_chunks :: "int \<Rightarrow> int \<Rightarrow> string list \<Rightarrow> out_exn option \<Rightarrow> string out" where
  "read_chunks limit n [] fail = (case fail of None \<Rightarrow> Inr [] | Some e \<Rightarrow> Inl e)"
| "read_chunks limit n (c # cs) fail =
     (if n + int (length c) > limit then too_large ''response-body''
      else and_then (read_chunks limit (n + int (length c)) cs fail) (\<lambda>rest. Inr (c @ rest)))"

definition read_body :: "outbound_config \<Rightarrow> string list \<Rightarrow> http_response \<Rightarrow> string out" where
  "read_body g secrets resp =
     (let limit = ol_response_bytes (og_limits g) in
      if (case hr_encoding resp of None \<Rightarrow> False | Some e \<Rightarrow> map lower_ascii e \<noteq> ''identity'') then too_large ''response-body''
      else if (case hr_length resp of None \<Rightarrow> False | Some n \<Rightarrow> (case py_int n of None \<Rightarrow> False | Some k \<Rightarrow> k > limit))
      then too_large ''response-body''
      else
        and_then (read_chunks limit 0 (hr_chunks resp) (hr_fail resp)) (\<lambda>raw.
          let body = redact_secrets secrets raw in
          if int (length body) > limit then too_large ''response-body'' else Inr body))"

text \<open>What one request is made of.\<close>

record hop =
  ho_method :: string
  ho_url :: string
  ho_destination :: destination
  ho_headers :: "(string \<times> string) list"
  ho_content :: string

definition default_headers :: "(string \<times> string) list" where
  "default_headers = [(''Accept'', ''*/*''), (''Accept-Encoding'', ''identity''), (''User-Agent'', ''tesserix-mcp-runtime'')]"

definition wire_headers :: "(string \<times> string) list \<Rightarrow> (string \<times> string) list" where
  "wire_headers hs = fold (\<lambda>(k, v). dict_put k v) hs default_headers"

definition redirect_statuses :: "int list" where
  "redirect_statuses = [301, 302, 303, 307, 308]"

definition next_hop :: "int \<Rightarrow> hop \<Rightarrow> string \<Rightarrow> destination \<Rightarrow> hop" where
  "next_hop status h url d =
     (let becomes_get = (status = 303 \<or> status \<in> {301, 302} \<and> ho_method h = ''POST'') in
      \<lparr>ho_method = (if becomes_get then ''GET'' else ho_method h), ho_url = url, ho_destination = d,
       ho_headers = (if d \<noteq> ho_destination h then filter (\<lambda>(name, v). \<not> sensitive_header name) (ho_headers h) else ho_headers h),
       ho_content = (if becomes_get then [] else ho_content h)\<rparr>)"

datatype answered = Finished outbound_response | Redirected hop

definition redirect_to :: "outbound_config \<Rightarrow> string list \<Rightarrow> hop \<Rightarrow> int \<Rightarrow> string \<Rightarrow> hop out" where
  "redirect_to g secrets h status location =
     (case og_join g (ho_url h) location of
        None \<Rightarrow> Inl Out_other
      | Some url \<Rightarrow>
          raise_if (contains_protected_text g secrets url) Out_policy
          (case parse_url g url of
             Inl (Out_value e) \<Rightarrow> outbound_error INVALID_INPUT ''redirect''
           | Inl e \<Rightarrow> Inl e
           | Inr (u, d) \<Rightarrow>
               and_then (policy_check (authorize_destination (og_policy g) d)) (\<lambda>_. Inr (next_hop status h u d))))"

definition answer_hop :: "outbound_config \<Rightarrow> string list \<Rightarrow> bool \<Rightarrow> hop \<Rightarrow> http_response \<Rightarrow> answered out" where
  "answer_hop g secrets may_redirect h resp =
     and_then (response_headers g secrets (hr_items resp)) (\<lambda>headers.
     case (if hr_status resp \<in> set redirect_statuses then hr_location resp else None) of
       None \<Rightarrow>
         and_then (read_body g secrets resp) (\<lambda>body.
         and_then (make_outbound_response (hr_status resp) headers body) (\<lambda>r. Inr (Finished r)))
     | Some location \<Rightarrow>
         if \<not> may_redirect then outbound_error UNAVAILABLE ''redirect-limit''
         else and_then (redirect_to g secrets h (hr_status resp) location) (\<lambda>n. Inr (Redirected n)))"

text \<open>The \<^verbatim>\<open>finally\<close> clause closes the response; its exception replaces the result.\<close>

definition close_after :: "http_response \<Rightarrow> 'a out \<Rightarrow> 'a out" where
  "close_after resp r = (case hr_close resp of None \<Rightarrow> r | Some e \<Rightarrow> Inl e)"

type_synonym transport = "nat \<Rightarrow> hop \<Rightarrow> http_response out"

definition send_hop ::
  "outbound_config \<Rightarrow> transport \<Rightarrow> string list \<Rightarrow> bool \<Rightarrow> hop \<Rightarrow> hop list \<Rightarrow> answered out \<times> hop list" where
  "send_hop g net secrets may_redirect h sent =
     (case policy_check (authorize_destination (og_policy g) (ho_destination h)) of
        Inl e \<Rightarrow> (Inl e, sent)
      | Inr _ \<Rightarrow>
          (and_then (net (length sent) (h\<lparr>ho_headers := wire_headers (ho_headers h)\<rparr>)) (\<lambda>resp.
             close_after resp (answer_hop g secrets may_redirect h resp)), sent @ [h]))"

text \<open>The loop: \<open>n\<close> redirects are left.\<close>

fun follow_redirects ::
  "outbound_config \<Rightarrow> transport \<Rightarrow> string list \<Rightarrow> nat \<Rightarrow> hop \<Rightarrow> hop list \<Rightarrow> outbound_response out \<times> hop list" where
  "follow_redirects g net secrets n h sent =
     (case send_hop g net secrets (0 < n) h sent of
        (Inl e, sent) \<Rightarrow> (Inl e, sent)
      | (Inr (Finished r), sent) \<Rightarrow> (Inr r, sent)
      | (Inr (Redirected h'), sent) \<Rightarrow>
          (case n of 0 \<Rightarrow> (outbound_error UNAVAILABLE ''redirect-limit'', sent)
           | Suc m \<Rightarrow> follow_redirects g net secrets m h' sent))"

declare follow_redirects.simps [simp del]

subsection \<open>Circuits\<close>

text \<open>
  The clock gives a float; one that is not finite or is negative is a \<^verbatim>\<open>ValueError\<close>. An admission that
  has to look at the clock takes it as an argument, and so does a failure.
\<close>

definition circuit_now :: "pyfloat \<Rightarrow> pyfloat option" where
  "circuit_now v = (if is_finite v \<and> 0 \<le> v then Some v else None)"

definition limit_hit :: "outbound_config \<Rightarrow> outbound_client \<Rightarrow> outbound_client" where
  "limit_hit g s = s\<lparr>oc_metrics := snd (record_limit (og_exporter g) None Limit_CIRCUIT (oc_metrics s))\<rparr>"

definition put_circuit :: "destination \<Rightarrow> circuit \<Rightarrow> outbound_client \<Rightarrow> outbound_client" where
  "put_circuit d c s = s\<lparr>oc_circuits := dict_put d c (oc_circuits s)\<rparr>"

definition admit_open_circuit ::
  "outbound_config \<Rightarrow> pyfloat \<Rightarrow> destination \<Rightarrow> circuit \<Rightarrow> pyfloat \<Rightarrow> string \<Rightarrow> outbound_client \<Rightarrow> unit out \<times> outbound_client" where
  "admit_open_circuit g clock d c opened rid s =
     (let recovered = (case circuit_now clock of Some now \<Rightarrow> now - opened | None \<Rightarrow> Fin (-1)) in
      if recovered < ol_recovery (og_limits g) \<or> ci_probe c then (outbound_error UNAVAILABLE rid, limit_hit g s)
      else (Inr (), put_circuit d (c\<lparr>ci_probe := True\<rparr>) s))"

definition admit_circuit ::
  "outbound_config \<Rightarrow> pyfloat \<Rightarrow> destination \<Rightarrow> string \<Rightarrow> outbound_client \<Rightarrow> unit out \<times> outbound_client" where
  "admit_circuit g clock d rid s =
     (case map_of (oc_circuits s) d of
        None \<Rightarrow>
          if int (length (oc_circuits s)) \<ge> ol_circuits (og_limits g) then (outbound_error UNAVAILABLE rid, limit_hit g s)
          else (Inr (), put_circuit d fresh_circuit s)
      | Some c \<Rightarrow>
          (case ci_opened_at c of
             None \<Rightarrow> (Inr (), s)
           | Some opened \<Rightarrow> admit_open_circuit g clock d c opened rid s))"

definition record_circuit_failure :: "outbound_config \<Rightarrow> pyfloat \<Rightarrow> destination \<Rightarrow> outbound_client \<Rightarrow> outbound_client" where
  "record_circuit_failure g clock d s =
     (case map_of (oc_circuits s) d of
        None \<Rightarrow> s
      | Some c \<Rightarrow>
          (let n = ci_failures c + 1;
               opened = (if n \<ge> ol_threshold (og_limits g)
                         then Some (case circuit_now clock of Some now \<Rightarrow> now | None \<Rightarrow> PInf) else ci_opened_at c)
           in put_circuit d \<lparr>ci_failures = n, ci_opened_at = opened, ci_probe = False\<rparr> s))"

definition record_circuit_success :: "destination \<Rightarrow> outbound_client \<Rightarrow> outbound_client" where
  "record_circuit_success d s = s\<lparr>oc_circuits := dict_del d (oc_circuits s)\<rparr>"

subsection \<open>Audit\<close>

definition make_outbound_event ::
  "outbound_config \<Rightarrow> string \<Rightarrow> string \<Rightarrow> destination option \<Rightarrow> string \<Rightarrow> int option \<Rightarrow> outbound_event option" where
  "make_outbound_event g rid method d outcome status =
     (case og_redact g rid of
        None \<Rightarrow> None
      | Some safe \<Rightarrow>
          (let e = \<lparr>oe_request_id = safe, oe_method = (if method \<in> set allowed_methods then method else ''INVALID''),
                 oe_fingerprint = destination_fingerprint g d, oe_outcome = outcome, oe_status = status\<rparr>
           in if is_ok (check_outbound_event e) then Some e else None))"

definition emit_outbound_audit ::
  "outbound_config \<Rightarrow> string \<Rightarrow> string \<Rightarrow> destination option \<Rightarrow> string \<Rightarrow> int option \<Rightarrow> outbound_client \<Rightarrow> outbound_client" where
  "emit_outbound_audit g rid method d outcome status s =
     (case og_sink g of
        None \<Rightarrow> s
      | Some raises \<Rightarrow>
          (case make_outbound_event g rid method d outcome status of
             None \<Rightarrow> s\<lparr>oc_audit_failures := oc_audit_failures s + 1\<rparr>
           | Some e \<Rightarrow>
               if raises e then s\<lparr>oc_audit_failures := oc_audit_failures s + 1\<rparr>
               else s\<lparr>oc_audit := oc_audit s @ [e]\<rparr>))"

subsection \<open>One request\<close>

text \<open>
  What the environment does during one request: the transport, which calls of the span raise, the measured
  duration, and the two readings of the clock of the circuits.
\<close>

record outbound_env =
  ov_net :: transport
  ov_enter :: bool
  ov_outcome :: bool
  ov_exit :: bool
  ov_duration :: pyfloat
  ov_admit_clock :: pyfloat
  ov_fail_clock :: pyfloat

definition observed_outcome :: "outbound_response out \<Rightarrow> runtime_outcome" where
  "observed_outcome r =
     (case r of Inl e \<Rightarrow> downstream_error_outcome e | Inr resp \<Rightarrow> downstream_response_outcome (or_status resp))"

definition observed_follow_redirects ::
  "outbound_config \<Rightarrow> outbound_env \<Rightarrow> string list \<Rightarrow> hop \<Rightarrow> metrics \<Rightarrow> outbound_response out \<times> hop list \<times> metrics" where
  "observed_follow_redirects g v secrets h m =
     (let spec = \<lparr>sn_name = Span_DOWNSTREAM, sn_server = me_server m, sn_operation = Some Operation_DOWNSTREAM,
            sn_tool = None, sn_fingerprint = Some (destination_fingerprint g (Some (ho_destination h)))\<rparr>
      in case run_then (check_span_spec spec, m) (\<lambda>_ m. start_span (og_opens g) spec m) of
           (Inl e, m) \<Rightarrow> (Inl (Out_value e), [], m)
         | (Inr live, m) \<Rightarrow>
             (let (live, m) = span_enter (ov_enter v) live m;
                  (r, sent) = follow_redirects g (ov_net v) secrets (nat (ol_redirects (og_limits g))) h [];
                  outcome = observed_outcome r;
                  (live, m) = span_set_outcome (ov_outcome v) live m;
                  (recorded, m) = record_call (og_exporter g) Operation_DOWNSTREAM None outcome (ov_duration v) m;
                  (live, m) = span_exit (ov_exit v) live m
              in (case recorded of Inl e \<Rightarrow> Inl (Out_value e) | Inr _ \<Rightarrow> r, sent, m)))"

text \<open>A refusal before anything is sent, and the code it is reported under.\<close>

definition refusal_code :: "out_exn \<Rightarrow> error_code" where
  "refusal_code e =
     (case e of Out_error r \<Rightarrow> er_code r | Out_policy \<Rightarrow> FORBIDDEN | Out_redaction \<Rightarrow> INTERNAL_FAILURE | _ \<Rightarrow> INVALID_INPUT)"

definition report ::
  "outbound_config \<Rightarrow> string \<Rightarrow> string \<Rightarrow> destination option \<Rightarrow> error_code \<Rightarrow> outbound_client \<Rightarrow> 'a out \<times> outbound_client" where
  "report g rid method d code s =
     (case outbound_error code rid of
        Inl (Out_error r) \<Rightarrow> (Inl (Out_error r), emit_outbound_audit g rid method d (error_value (er_code r)) None s)
      | other \<Rightarrow> (other, s))"

text \<open>An exception of the exchange: its effect on the circuit, and the code it is reported under.\<close>

definition counts_as_failure :: "out_exn \<Rightarrow> bool" where
  "counts_as_failure e =
     (case e of
        Out_error r \<Rightarrow> er_code r \<in> {OVERLOADED, TIMEOUT, UNAVAILABLE}
      | Out_policy \<Rightarrow> False
      | Out_redaction \<Rightarrow> False
      | _ \<Rightarrow> True)"

definition failure_code :: "out_exn \<Rightarrow> error_code" where
  "failure_code e =
     (case e of
        Out_error r \<Rightarrow> er_code r
      | Out_policy \<Rightarrow> FORBIDDEN
      | Out_timeout \<Rightarrow> TIMEOUT
      | Out_deadline \<Rightarrow> TIMEOUT
      | Out_redaction \<Rightarrow> INTERNAL_FAILURE
      | _ \<Rightarrow> UNAVAILABLE)"

definition settle_circuit :: "outbound_config \<Rightarrow> pyfloat \<Rightarrow> destination \<Rightarrow> bool \<Rightarrow> outbound_client \<Rightarrow> outbound_client" where
  "settle_circuit g clock d failed s =
     (if failed then record_circuit_failure g clock d s else record_circuit_success d s)"

definition circuit_failure_statuses :: "int list" where
  "circuit_failure_statuses = [408, 425, 429, 500, 502, 503, 504]"

definition finish_request ::
  "outbound_config \<Rightarrow> outbound_env \<Rightarrow> string \<Rightarrow> string \<Rightarrow> destination \<Rightarrow> outbound_response out \<Rightarrow> outbound_client
     \<Rightarrow> outbound_response out \<times> outbound_client" where
  "finish_request g v rid method d r s =
     (case r of
        Inl Out_cancelled \<Rightarrow> (Inl Out_cancelled, s)
      | Inl e \<Rightarrow> report g rid method (Some d) (failure_code e) (settle_circuit g (ov_fail_clock v) d (counts_as_failure e) s)
      | Inr resp \<Rightarrow>
          (Inr resp, emit_outbound_audit g rid method (Some d) ''success'' (Some (or_status resp))
             (settle_circuit g (ov_fail_clock v) d (or_status resp \<in> set circuit_failure_statuses) s)))"

text \<open>The checks between the parsing of the URL and the admission.\<close>

definition check_request ::
  "outbound_config \<Rightarrow> string \<Rightarrow> destination \<Rightarrow> (string \<times> header_value) list \<Rightarrow> string \<Rightarrow> ((string \<times> string) list \<times> string list) out" where
  "check_request g url d headers content =
     and_then (policy_check (authorize_destination (og_policy g) d)) (\<lambda>_.
     and_then (request_headers g headers) (\<lambda>(hs, secrets).
     raise_if (contains_protected_text g secrets url) (Out_value (ValueError ''URL contains protected material''))
     (raise_if (int (length content) > ol_request_bytes (og_limits g)) (Out_value (ValueError ''invalid content''))
     (Inr (hs, secrets)))))"

definition admit_request ::
  "outbound_config \<Rightarrow> outbound_env \<Rightarrow> string \<Rightarrow> destination \<Rightarrow> outbound_client \<Rightarrow> unit out \<times> outbound_client" where
  "admit_request g v rid d s =
     (if oc_closed s then (outbound_error UNAVAILABLE rid, s) else admit_circuit g (ov_admit_clock v) d rid s)"

definition exchange ::
  "outbound_config \<Rightarrow> outbound_env \<Rightarrow> string \<Rightarrow> string list \<Rightarrow> hop \<Rightarrow> outbound_client
     \<Rightarrow> outbound_response out \<times> hop list \<times> outbound_client" where
  "exchange g v rid secrets h s =
     (let (r, sent, m) = observed_follow_redirects g v secrets h (oc_metrics s);
          (answer, s) = finish_request g v rid (ho_method h) (ho_destination h) r (s\<lparr>oc_metrics := m\<rparr>)
      in (answer, sent, s))"

definition refused :: "'a out \<times> outbound_client \<Rightarrow> 'a out \<times> hop list \<times> outbound_client" where
  "refused r = (fst r, [], snd r)"

definition outbound_request ::
  "outbound_config \<Rightarrow> outbound_env \<Rightarrow> string \<Rightarrow> string \<Rightarrow> string \<Rightarrow> (string \<times> header_value) list \<Rightarrow> string
     \<Rightarrow> outbound_client \<Rightarrow> outbound_response out \<times> hop list \<times> outbound_client" where
  "outbound_request g v method url request_id headers content s =
     (let rid = outbound_request_id g request_id in
      case parse_method method of
        Inl e \<Rightarrow> refused (report g rid ''INVALID'' None (refusal_code e) s)
      | Inr verb \<Rightarrow>
          (case parse_url g url of
             Inl e \<Rightarrow> refused (report g rid verb None (refusal_code e) s)
           | Inr (u, d) \<Rightarrow>
               (case check_request g url d headers content of
                  Inl e \<Rightarrow> refused (report g rid verb (Some d) (refusal_code e) s)
                | Inr (hs, secrets) \<Rightarrow>
                    (case admit_request g v rid d s of
                       (Inl e, s) \<Rightarrow> refused (report g rid verb (Some d) (refusal_code e) s)
                     | (Inr _, s) \<Rightarrow>
                         exchange g v rid secrets
                           \<lparr>ho_method = verb, ho_url = u, ho_destination = d, ho_headers = hs, ho_content = content\<rparr> s))))"

definition close_outbound :: "outbound_client \<Rightarrow> outbound_client" where
  "close_outbound s = s\<lparr>oc_closed := True\<rparr>"

subsection \<open>Where a request may go\<close>

definition declared :: "outbound_config \<Rightarrow> hop \<Rightarrow> bool" where
  "declared g h \<longleftrightarrow> ho_destination h \<in> set (ep_destinations (og_policy g))"

text \<open>A later hop sends no header the earlier one did not send, and nothing sensitive to another origin.\<close>

definition narrows :: "hop \<Rightarrow> hop \<Rightarrow> bool" where
  "narrows h h' \<longleftrightarrow>
     set (ho_headers h') \<subseteq> set (ho_headers h) \<and>
     (ho_destination h' \<noteq> ho_destination h \<longrightarrow> list_all (\<lambda>(name, v). \<not> sensitive_header name) (ho_headers h')) \<and>
     (ho_content h' = ho_content h \<or> ho_content h' = []) \<and>
     (ho_method h' \<noteq> ho_method h \<longrightarrow> ho_method h' = ''GET'' \<and> ho_content h' = [])"

lemma narrows_trans: "narrows a b \<Longrightarrow> narrows b c \<Longrightarrow> narrows a c"
  unfolding narrows_def list_all_iff by (intro conjI) (blast, metis subsetD, metis, metis)

lemma narrows_next_hop: "narrows h (next_hop status h url d)"
  by (auto simp: narrows_def next_hop_def Let_def list_all_iff)

lemma policy_check_Inr [simp]: "policy_check r = Inr u \<longleftrightarrow> r = Inr u"
  by (auto simp: policy_check_def split: sum.split)

lemma declared_iff: "authorize_destination (og_policy g) (ho_destination h) = Inr () \<longleftrightarrow> declared g h"
  by (auto simp: authorize_destination_def declared_def)

lemma outbound_error_not_Inr [simp]: "outbound_error code rid \<noteq> Inr x"
  by (auto simp: outbound_error_def split: sum.split)

lemma redirect_to_hop:
  assumes "redirect_to g secrets h status location = Inr h'"
  shows "declared g h' \<and> narrows h h'"
proof -
  obtain u d where "h' = next_hop status h u d" "authorize_destination (og_policy g) d = Inr ()"
    using assms by (auto simp: redirect_to_def split: option.splits sum.splits out_exn.splits)
  then show ?thesis
    by (auto simp: narrows_next_hop declared_def authorize_destination_def) (simp add: next_hop_def Let_def)
qed

lemma answer_hop_redirected: "answer_hop g secrets may h resp = Inr (Redirected h') \<Longrightarrow> may \<and> declared g h' \<and> narrows h h'"
  by (auto simp: answer_hop_def dest: redirect_to_hop split: option.splits if_splits)

lemma close_after_Inr [simp]: "close_after resp r = Inr a \<longleftrightarrow> hr_close resp = None \<and> r = Inr a"
  by (auto simp: close_after_def split: option.split)

lemma send_hop_result:
  assumes "send_hop g net secrets may h sent = (r, sent')"
  shows "(sent' = sent \<or> sent' = sent @ [h] \<and> declared g h) \<and>
    (\<forall>h'. r = Inr (Redirected h') \<longrightarrow> may \<and> declared g h' \<and> narrows h h' \<and> sent' = sent @ [h])"
proof (cases "policy_check (authorize_destination (og_policy g) (ho_destination h))")
  case (Inl e)
  with assms show ?thesis by (auto simp: send_hop_def)
next
  case (Inr u)
  then have "declared g h" by (simp add: declared_iff)
  with assms Inr show ?thesis
    by (auto simp: send_hop_def dest: answer_hop_redirected)
qed

text \<open>What the loop sends: at most one request more than the redirects, each narrowing the one before.\<close>

lemma follow_redirects_sends:
  assumes "follow_redirects g net secrets n h sent = (r, sent')"
  shows "\<exists>hops. sent' = sent @ hops \<and> length hops \<le> Suc n \<and> list_all (declared g) hops \<and>
    (hops = [] \<or> hd hops = h) \<and> successively narrows hops"
  using assms
proof (induction n arbitrary: h sent)
  case 0
  then obtain r1 where "send_hop g net secrets False h sent = (r1, sent')"
    by (subst (asm) follow_redirects.simps) (auto split: prod.splits sum.splits answered.splits)
  from send_hop_result [OF this] show ?case by (auto intro: exI [of _ "[]"] exI [of _ "[h]"])
next
  case (Suc n)
  obtain r1 sent1 where first: "send_hop g net secrets True h sent = (r1, sent1)" by fastforce
  note step = send_hop_result [OF first]
  show ?case
  proof (cases "\<exists>h'. r1 = Inr (Redirected h')")
    case False
    then have "sent' = sent1"
      using Suc.prems first by (subst (asm) follow_redirects.simps) (auto split: sum.splits answered.splits)
    with step show ?thesis by (auto intro: exI [of _ "[]"] exI [of _ "[h]"])
  next
    case True
    then obtain h' where h': "r1 = Inr (Redirected h')" ..
    then have more: "follow_redirects g net secrets n h' sent1 = (r, sent')"
      using Suc.prems first by (subst (asm) follow_redirects.simps) simp
    obtain hops where hops: "sent' = sent1 @ hops" "length hops \<le> Suc n" "list_all (declared g) hops"
      "hops = [] \<or> hd hops = h'" "successively narrows hops" using Suc.IH [OF more] by blast
    have "sent1 = sent @ [h]" "narrows h h'" "declared g h" using step h' by auto
    with hops show ?thesis
      by (intro exI [of _ "h # hops"]) (cases hops, auto)
  qed
qed

lemma outbound_request_sends:
  assumes "outbound_request g v method url request_id headers content s = (r, sent, s')"
  shows "int (length sent) \<le> max 0 (ol_redirects (og_limits g)) + 1 \<and> list_all (declared g) sent \<and> successively narrows sent"
proof (cases "sent = []")
  case False
  have "\<exists>secrets h m r. follow_redirects g (ov_net v) secrets (nat (ol_redirects (og_limits g))) h [] = (r, sent)"
    using assms False
    by (auto simp: outbound_request_def exchange_def observed_follow_redirects_def refused_def Let_def
        split: sum.splits prod.splits)
  then show ?thesis using follow_redirects_sends by fastforce
qed simp

subsection \<open>The answer of a request\<close>

lemma outbound_request_id_valid: "digest_law (og_sha g) \<Longrightarrow> text_valid 256 (outbound_request_id g rid)"
  using fallback_id_valid [of "og_sha g" rid]
  by (simp add: outbound_request_id_def error_from_code_ok is_ok_iff split: option.split)

lemma outbound_error_valid:
  "text_valid 256 rid \<Longrightarrow> outbound_error code rid =
     Inl (Out_error \<lparr>er_code = code, er_message = error_message code, er_request_id = rid,
       er_retryability = error_retryability code\<rparr>)"
  using error_from_code_ok [of code rid "\<lparr>er_code = code, er_message = error_message code, er_request_id = rid,
      er_retryability = error_retryability code\<rparr>"] by (simp add: outbound_error_def)

definition audited :: "outbound_client \<Rightarrow> nat" where
  "audited s = length (oc_audit s) + oc_audit_failures s"

lemma emit_outbound_audit_counts:
  "audited (emit_outbound_audit g rid method d outcome status s) = (if og_sink g = None then audited s else audited s + 1)"
  by (auto simp: emit_outbound_audit_def audited_def split: option.split)

lemma settle_circuit_audited [simp]: "audited (settle_circuit g clock d failed s) = audited s"
  by (auto simp: settle_circuit_def record_circuit_failure_def record_circuit_success_def put_circuit_def audited_def Let_def
      split: option.split)

lemma admit_request_audited [simp]: "audited (snd (admit_request g v rid d s)) = audited s"
  by (auto simp: admit_request_def admit_circuit_def admit_open_circuit_def limit_hit_def put_circuit_def audited_def Let_def
      split: option.split)

text \<open>A public answer: a response within the limits of the client, or a stable failure under the safe request id.\<close>

definition bounded_response :: "outbound_config \<Rightarrow> outbound_response \<Rightarrow> bool" where
  "bounded_response g r \<longleftrightarrow>
     100 \<le> or_status r \<and> or_status r \<le> 599 \<and> int (length (or_body r)) \<le> ol_response_bytes (og_limits g) \<and>
     int (length (or_headers r)) \<le> ol_headers (og_limits g) \<and>
     list_all (\<lambda>(name, value). sensitive_header name \<longrightarrow> value = redacted_text) (or_headers r)"

definition public_outcome :: "outbound_config \<Rightarrow> string \<Rightarrow> outbound_response out \<Rightarrow> bool" where
  "public_outcome g rid r \<longleftrightarrow>
     (case r of
        Inr resp \<Rightarrow> bounded_response g resp
      | Inl (Out_error e) \<Rightarrow> er_request_id e = rid \<and> check_error_response e = okay
      | Inl _ \<Rightarrow> False)"

lemma report_public:
  assumes "text_valid 256 rid" "report g rid method d code s = (r, s')"
  shows "public_outcome g rid r \<and> audited s' = (if og_sink g = None then audited s else audited s + 1)"
  using assms by (auto simp: report_def outbound_error_valid public_outcome_def check_error_response_def emit_outbound_audit_counts)

lemma lower_ascii_idem [simp]: "lower_ascii (lower_ascii c) = lower_ascii c"
  by (simp add: lower_ascii_def ord_of_def)

lemma normalized_char_lower:
  assumes "ord_of c < 128"
  shows "ord_of (lower_ascii c) \<noteq> 223 \<and> is_alnum (lower_ascii c) = is_alnum c \<and> lower_char (lower_ascii c) = lower_char c"
proof (cases "65 \<le> ord_of c \<and> ord_of c \<le> 90")
  case True
  then have "ord_of (lower_ascii c) = ord_of c + 32" by (simp add: lower_ascii_def ord_of_def)
  with True show ?thesis
    by (simp add: is_alnum_def is_alpha_def is_upper_def is_lower_def is_digit_def chr_range_def lower_char_def)
      (simp add: lower_ascii_def ord_of_def)
next
  case False
  then have "lower_ascii c = c" by (auto simp: lower_ascii_def)
  with assms show ?thesis by simp
qed

lemma normalized_key_lower: "list_all (\<lambda>c. ord_of c < 128) s \<Longrightarrow> normalized_key (map lower_ascii s) = normalized_key s"
  by (induction s) (auto simp: normalized_key_def normalized_char_lower)

lemma sensitive_header_lower:
  "list_all (\<lambda>c. ord_of c < 128) s \<Longrightarrow> sensitive_header (map lower_ascii s) = sensitive_header s"
  by (simp add: sensitive_header_def is_secret_key_def normalized_key_lower comp_def)

lemma response_header_loop_result:
  assumes "response_header_loop g secrets acc p q hs = Inr out"
    and "list_all (\<lambda>(name, value). sensitive_header name \<longrightarrow> value = redacted_text) acc"
  shows "length out = length acc + length hs \<and>
    list_all (\<lambda>(name, value). sensitive_header name \<longrightarrow> value = redacted_text) out"
  using assms
proof (induction hs arbitrary: acc p q)
  case (Cons h hs)
  obtain name v where h: "h = (name, v)" by (cases h)
  have ascii: "list_all (\<lambda>c. ord_of c < 128) name"
    using Cons.prems(1) by (auto simp: h list_all_iff list_ex_iff raise_if_def split: if_splits)
  have same: "sensitive_header (map lower_ascii name) = sensitive_header name"
    by (rule sensitive_header_lower [OF ascii])
  obtain r p' q' where "response_header_loop g secrets (acc @ [(map lower_ascii name, r)]) p' q' hs = Inr out"
    "sensitive_header name \<longrightarrow> r = redacted_text"
    using Cons.prems(1) by (fastforce simp: h Let_def too_large_def split: if_splits option.splits)
  from Cons.IH [OF this(1)] this(2) Cons.prems(2) same show ?case by simp
qed simp

lemma read_body_bounded: "read_body g secrets resp = Inr body \<Longrightarrow> int (length body) \<le> ol_response_bytes (og_limits g)"
  by (auto simp: read_body_def Let_def too_large_def split: if_splits)

lemma answer_hop_finished: "answer_hop g secrets may h resp = Inr (Finished r) \<Longrightarrow> bounded_response g r"
  by (auto simp: answer_hop_def response_headers_def make_outbound_response_def bounded_response_def too_large_def
      dest!: read_body_bounded response_header_loop_result split: option.splits if_splits)

lemma send_hop_finished: "send_hop g net secrets may h sent = (Inr (Finished r), sent') \<Longrightarrow> bounded_response g r"
  by (auto simp: send_hop_def dest: answer_hop_finished split: sum.splits)

lemma follow_redirects_bounded: "follow_redirects g net secrets n h sent = (Inr r, sent') \<Longrightarrow> bounded_response g r"
proof (induction n arbitrary: h sent)
  case 0
  then show ?case
    by (subst (asm) follow_redirects.simps) (auto dest: send_hop_finished split: prod.splits sum.splits answered.splits)
next
  case (Suc n)
  then show ?case
    by (subst (asm) (2) follow_redirects.simps) (auto dest: send_hop_finished split: prod.splits sum.splits answered.splits)
qed

lemma observed_bounded: "observed_follow_redirects g v secrets h m = (Inr r, sent, m') \<Longrightarrow> bounded_response g r"
  by (auto simp: observed_follow_redirects_def Let_def dest: follow_redirects_bounded split: sum.splits prod.splits)

lemma finish_request_answers:
  assumes "finish_request g v rid method d r s = (answer, s')" "text_valid 256 rid"
    and "\<And>resp. r = Inr resp \<Longrightarrow> bounded_response g resp"
  shows "(answer = Inl Out_cancelled \<and> s' = s) \<or>
    public_outcome g rid answer \<and> audited s' = (if og_sink g = None then audited s else audited s + 1)"
proof (cases r)
  case (Inr resp)
  with assms show ?thesis by (auto simp: finish_request_def public_outcome_def emit_outbound_audit_counts)
next
  case (Inl e)
  show ?thesis
  proof (cases "e = Out_cancelled")
    case False
    then have "report g rid method (Some d) (failure_code e) (settle_circuit g (ov_fail_clock v) d (counts_as_failure e) s)
        = (answer, s')"
      using assms(1) Inl by (cases e) (simp_all add: finish_request_def)
    from report_public [OF assms(2) this] show ?thesis by simp
  qed (use assms Inl in \<open>simp add: finish_request_def\<close>)
qed

definition answered_publicly ::
  "outbound_config \<Rightarrow> string \<Rightarrow> outbound_client \<Rightarrow> outbound_response out \<times> hop list \<times> outbound_client \<Rightarrow> bool" where
  "answered_publicly g rid s result \<longleftrightarrow>
     fst result = Inl Out_cancelled \<or>
     public_outcome g rid (fst result) \<and> audited (snd (snd result)) = (if og_sink g = None then audited s else audited s + 1)"

lemma refused_publicly:
  assumes "text_valid 256 rid" "audited s = audited s0"
  shows "answered_publicly g rid s0 (refused (report g rid method d code s))"
  using report_public [OF assms(1), of g "method" d code s] assms(2)
  by (cases "report g rid method d code s :: outbound_response out \<times> outbound_client")
    (simp add: answered_publicly_def refused_def)

lemma exchange_publicly:
  assumes "text_valid 256 rid" "audited s = audited s0"
  shows "answered_publicly g rid s0 (exchange g v rid secrets h s)"
proof -
  obtain r sent m where r: "observed_follow_redirects g v secrets h (oc_metrics s) = (r, sent, m)" by (metis prod.exhaust)
  obtain answer s' where f: "finish_request g v rid (ho_method h) (ho_destination h) r (s\<lparr>oc_metrics := m\<rparr>) = (answer, s')"
    by fastforce
  have "bounded_response g resp" if "r = Inr resp" for resp using observed_bounded r that by blast
  from finish_request_answers [OF f assms(1) this] assms(2) show ?thesis
    by (auto simp: exchange_def r f answered_publicly_def audited_def)
qed

text \<open>
  C30. A request is sent only to declared destinations, at most as often as the redirects allow and once more; each
  request carries no header the ones before it did not carry, none that is sensitive once the destination has
  changed, and a method that changed became GET without content.
\<close>

theorem outbound_sends_confined:
  "let sent = fst (snd (outbound_request g v method url request_id headers content s)) in
    int (length sent) \<le> max 0 (ol_redirects (og_limits g)) + 1 \<and>
    list_all (\<lambda>h. ho_destination h \<in> set (ep_destinations (og_policy g))) sent \<and>
    sorted_wrt narrows sent"
proof -
  obtain r sent s' where run: "outbound_request g v method url request_id headers content s = (r, sent, s')"
    by (metis prod.exhaust)
  have "successively narrows sent = sorted_wrt narrows sent"
    by (rule successively_iff_sorted_wrt_strong) (rule narrows_trans)
  with outbound_request_sends [OF run] run show ?thesis by (simp add: declared_def [abs_def])
qed


subsection \<open>Circuits\<close>

text \<open>
  A circuit is open when it reached the threshold, and only an open one has a probe; there are never more
  circuits than the limit. Admissions and settlements interleave freely.
\<close>

definition circuit_ok :: "outbound_config \<Rightarrow> circuit \<Rightarrow> bool" where
  "circuit_ok g c \<longleftrightarrow> 0 \<le> ci_failures c \<and> (ci_opened_at c \<noteq> None \<longleftrightarrow> ci_failures c \<ge> ol_threshold (og_limits g)) \<and>
     (ci_probe c \<longrightarrow> ci_opened_at c \<noteq> None)"

definition circuits_ok :: "outbound_config \<Rightarrow> outbound_client \<Rightarrow> bool" where
  "circuits_ok g s \<longleftrightarrow>
     int (length (oc_circuits s)) \<le> ol_circuits (og_limits g) \<and> distinct (map fst (oc_circuits s)) \<and>
     list_all (circuit_ok g \<circ> snd) (oc_circuits s)"

datatype circuit_step = Step_admit pyfloat destination string | Step_settle pyfloat destination bool | Step_close

fun circuit_run :: "outbound_config \<Rightarrow> circuit_step \<Rightarrow> outbound_client \<Rightarrow> outbound_client" where
  "circuit_run g (Step_admit clock d rid) s = snd (admit_circuit g clock d rid s)"
| "circuit_run g (Step_settle clock d failed) s = settle_circuit g clock d failed s"
| "circuit_run g Step_close s = close_outbound s"

lemma circuits_ok_put:
  assumes "circuits_ok g s" "circuit_ok g c"
    and "map_of (oc_circuits s) d \<noteq> None \<or> int (length (oc_circuits s)) < ol_circuits (og_limits g)"
  shows "circuits_ok g (put_circuit d c s)"
  using assms
  by (auto simp: circuits_ok_def put_circuit_def length_dict_put distinct_dict_put map_of_eq_None_iff intro!: list_all_dict_put)

lemma circuits_ok_get: "circuits_ok g s \<Longrightarrow> map_of (oc_circuits s) d = Some c \<Longrightarrow> circuit_ok g c"
  by (auto simp: circuits_ok_def intro: map_of_list_all)

lemma limit_hit_circuits [simp]: "circuits_ok g (limit_hit g s) = circuits_ok g s"
  by (simp add: circuits_ok_def limit_hit_def)

lemma admit_circuit_ok:
  assumes "circuits_ok g s" "1 \<le> ol_threshold (og_limits g)"
  shows "circuits_ok g (snd (admit_circuit g clock d rid s))"
proof (cases "map_of (oc_circuits s) d")
  case None
  have "circuit_ok g fresh_circuit" using assms(2) by (simp add: circuit_ok_def fresh_circuit_def)
  with None assms(1) show ?thesis by (auto simp: admit_circuit_def intro: circuits_ok_put)
next
  case (Some c)
  have "circuit_ok g c" by (rule circuits_ok_get [OF assms(1) Some])
  then have "circuit_ok g (c\<lparr>ci_probe := True\<rparr>)" if "ci_opened_at c \<noteq> None"
    using that by (auto simp: circuit_ok_def)
  with Some assms(1) show ?thesis
    by (auto simp: admit_circuit_def admit_open_circuit_def Let_def intro!: circuits_ok_put split: option.split)
qed

lemma settle_circuit_ok:
  assumes "circuits_ok g s" "1 \<le> ol_threshold (og_limits g)"
  shows "circuits_ok g (settle_circuit g clock d failed s)"
proof (cases "map_of (oc_circuits s) d")
  case None
  then show ?thesis using assms
    by (auto simp: settle_circuit_def record_circuit_failure_def record_circuit_success_def circuits_ok_def
        dict_del_def distinct_map_filter list_all_iff intro: order_trans [OF of_nat_mono [OF length_filter_le]])
next
  case (Some c)
  have ok: "circuit_ok g c" by (rule circuits_ok_get [OF assms(1) Some])
  have "circuits_ok g (record_circuit_failure g clock d s)"
    unfolding record_circuit_failure_def Let_def Some option.case
    by (rule circuits_ok_put [OF assms(1)]) (use ok Some in \<open>auto simp: circuit_ok_def\<close>)
  moreover have "circuits_ok g (record_circuit_success d s)"
    using assms(1) by (auto simp: record_circuit_success_def circuits_ok_def
        dict_del_def distinct_map_filter list_all_iff intro: order_trans [OF of_nat_mono [OF length_filter_le]])
  ultimately show ?thesis by (simp add: settle_circuit_def)
qed

definition fresh_client :: "outbound_client \<Rightarrow> bool" where
  "fresh_client s \<longleftrightarrow> oc_circuits s = [] \<and> \<not> oc_closed s"

definition usable_config :: "outbound_config \<Rightarrow> bool" where
  "usable_config g \<longleftrightarrow> check_outbound_limits (og_limits g) = okay"

lemma usable_config_limits: "usable_config g \<Longrightarrow> 1 \<le> ol_threshold (og_limits g) \<and> 1 \<le> ol_circuits (og_limits g)"
  by (simp add: usable_config_def check_outbound_limits_def Let_def del: for_each.simps)

lemma circuit_run_ok: "usable_config g \<Longrightarrow> circuits_ok g s \<Longrightarrow> circuits_ok g (circuit_run g x s)"
  using usable_config_limits [of g]
  by (cases x) (simp_all add: admit_circuit_ok settle_circuit_ok, simp add: close_outbound_def circuits_ok_def)

interpretation circuits: invariant_machine fresh_client
  "\<lambda>s t. usable_config g \<and> (\<exists>x. t = circuit_run g x s)" "\<lambda>s. usable_config g \<longrightarrow> circuits_ok g s"
  for g
proof
  fix s assume "fresh_client s"
  then show "usable_config g \<longrightarrow> circuits_ok g s"
    using usable_config_limits [of g] by (auto simp: fresh_client_def circuits_ok_def)
next
  fix s t assume "usable_config g \<longrightarrow> circuits_ok g s" "usable_config g \<and> (\<exists>x. t = circuit_run g x s)"
  then show "usable_config g \<longrightarrow> circuits_ok g t" using circuit_run_ok by blast
qed

lemma circuit_run_steps: "usable_config g \<Longrightarrow> (\<lambda>s t. usable_config g \<and> (\<exists>x. t = circuit_run g x s))\<^sup>*\<^sup>* s (fold (circuit_run g) xs s)"
proof (induction xs arbitrary: s)
  case (Cons x xs)
  have "(\<lambda>s t. usable_config g \<and> (\<exists>x. t = circuit_run g x s))\<^sup>*\<^sup>* s (circuit_run g x s)" using Cons.prems by blast
  also have "(\<lambda>s t. usable_config g \<and> (\<exists>x. t = circuit_run g x s))\<^sup>*\<^sup>* (circuit_run g x s) (fold (circuit_run g) xs (circuit_run g x s))"
    by (rule Cons.IH [OF Cons.prems])
  finally show ?case by simp
qed simp

text \<open>An open circuit lets nothing through before it recovered or while a probe is out, and leaves the circuits alone.\<close>

lemma open_circuit_refuses:
  assumes "map_of (oc_circuits s) d = Some c" "ci_opened_at c = Some opened"
    and "ci_probe c \<or> (case circuit_now clock of None \<Rightarrow> True | Some now \<Rightarrow> now - opened < ol_recovery (og_limits g))"
    and "0 < ol_recovery (og_limits g)"
  shows "admit_circuit g clock d rid s = (outbound_error UNAVAILABLE rid, limit_hit g s)"
proof -
  have "Fin (- 1) < ol_recovery (og_limits g)" using assms(4) by (cases "ol_recovery (og_limits g)") (auto simp: zero_Fin)
  with assms show ?thesis by (auto simp: admit_circuit_def admit_open_circuit_def split: option.splits)
qed

text \<open>
  A request that is cancelled settles nothing, so the probe of an open circuit stays out when the request that
  was let through as the probe is cancelled: no later admission to this destination succeeds, at whatever time.
\<close>

lemma cancelled_probe_stuck:
  assumes "map_of (oc_circuits s) d = Some c" "ci_opened_at c = Some opened"
    and "admit_circuit g clock d rid s = (Inr (), s1)" "0 < ol_recovery (og_limits g)"
  shows "finish_request g v rid method d (Inl Out_cancelled) s1 = (Inl Out_cancelled, s1) \<and>
    admit_circuit g later d rid' s1 = (outbound_error UNAVAILABLE rid', limit_hit g s1)"
proof -
  have "s1 = put_circuit d (c\<lparr>ci_probe := True\<rparr>) s"
    using assms(1-3) by (auto simp: admit_circuit_def admit_open_circuit_def Let_def split: if_splits option.splits)
  then have "map_of (oc_circuits s1) d = Some (c\<lparr>ci_probe := True\<rparr>)" by (simp add: put_circuit_def)
  from open_circuit_refuses [OF this _ _ assms(4)] assms(2) show ?thesis by (simp add: finish_request_def)
qed

text \<open>A request that runs into its timeout is observed as a cancellation and reported as a timeout.\<close>

lemma deadline_observed_as_cancellation:
  "observed_outcome (Inl Out_deadline) = Outcome_CANCELLATION \<and> failure_code Out_deadline = TIMEOUT"
  by (simp add: observed_outcome_def downstream_error_outcome_def failure_code_def)

text \<open>A sample: one public destination, whose answer redirects once.\<close>

definition sample_outbound :: outbound_config where
  "sample_outbound = \<lparr>og_policy = sample_egress_policy, og_redact = Some, og_limits = default_outbound_limits,
     og_sink = Some (\<lambda>e. False), og_exporter = None, og_opens = None, og_sha = (\<lambda>s. replicate 64 CHR ''0''),
     og_unquote = (\<lambda>s. s), og_netloc_ok = (\<lambda>s. True), og_url = Some, og_join = (\<lambda>u l. Some l)\<rparr>"

definition sample_client :: outbound_client where
  "sample_client = \<lparr>oc_circuits = [], oc_closed = False, oc_audit = [], oc_audit_failures = 0,
     oc_metrics = projr (make_metrics ''s'')\<rparr>"

definition sample_response :: http_response where
  "sample_response = \<lparr>hr_status = 200, hr_items = [(''Set-Cookie'', ''a'')], hr_location = None, hr_encoding = None,
     hr_length = Some ''2'', hr_chunks = [''ok''], hr_fail = None, hr_close = None\<rparr>"

definition sample_exchange :: outbound_env where
  "sample_exchange = \<lparr>ov_net = (\<lambda>n h. Inr (if n = 0
       then sample_response\<lparr>hr_status := 303, hr_location := Some ''https://api.example/b''\<rparr> else sample_response)),
     ov_enter = False, ov_outcome = False, ov_exit = False, ov_duration = Fin 1, ov_admit_clock = Fin 0, ov_fail_clock = Fin 0\<rparr>"

definition sample_outbound_run :: "outbound_response out \<times> hop list \<times> outbound_client" where
  "sample_outbound_run = outbound_request sample_outbound sample_exchange ''post'' ''https://api.example/a'' ''r1'' [] ''x'' sample_client"


text \<open>
  C32. However requests are admitted, settled and cancelled, the client keeps at most the configured number of
  circuits, one for each destination; a circuit is open exactly when its failures reached the threshold, and only
  an open one has a probe.
\<close>

theorem circuits_within_limits:
  assumes "usable_config g" "fresh_client s"
  shows "circuits_ok g (fold (circuit_run g) xs s)"
  using circuits.reachable_from_inv [OF circuit_run_steps [OF assms(1)]] circuits.inv_start [OF assms(2)] assms(1) by blast

theorem circuits_within_limits_witness:
  "circuits_ok sample_outbound (fold (circuit_run sample_outbound)
     [Step_admit (Fin 0) sample_destination ''r1'', Step_settle (Fin 1) sample_destination True] sample_client)"
proof -
  have "usable_config sample_outbound"
    by (simp add: usable_config_def sample_outbound_def check_outbound_limits_def default_outbound_limits_def zero_Fin)
  moreover have "fresh_client sample_client" by (simp add: fresh_client_def sample_client_def)
  ultimately show ?thesis by (rule circuits_within_limits)
qed

end
