(* ===== verification/Gateway_Identity.thy ===== *)
theory Gateway_Identity
  imports Outbound_HTTP
begin

section \<open>Gateway identity\<close>

text \<open>
  Models \<^verbatim>\<open>src/tesserix_mcp_runtime/adapters/gateway_identity.py\<close>: the configuration, the cache of the
  signing keys and the context made for one request. The token library is a parameter: it reads the
  header of a token, imports a key, and verifies a token under a key, the algorithm, the issuer, the
  audience and the required claims of the configuration. The fetcher and the clocks are an environment.
\<close>

subsection \<open>Request metadata\<close>

text \<open>\<open>str.casefold\<close> on the code points 0-255; the micro sign, whose folding lies outside, stays itself.\<close>

definition casefold_char :: "char \<Rightarrow> string" where
  "casefold_char c =
     (if ord_of c = 223 then ''ss''
      else if 192 \<le> ord_of c \<and> ord_of c \<le> 222 \<and> ord_of c \<noteq> 215 then [char_of (ord_of c + 32)]
      else [lower_ascii c])"

definition casefold :: "string \<Rightarrow> string" where
  "casefold s = concat (map casefold_char s)"

record request_metadata =
  rm_method :: string
  rm_path :: string
  rm_headers :: "(string \<times> string) list"
  rm_peer :: "string option"

definition header_values :: "request_metadata \<Rightarrow> string \<Rightarrow> string list" where
  "header_values r name = map snd (filter (\<lambda>(k, v). casefold k = casefold name) (rm_headers r))"

definition token_text :: "nat \<Rightarrow> string \<Rightarrow> bool" where
  "token_text maximum s \<longleftrightarrow>
     s \<noteq> [] \<and> s = strip s \<and> length s \<le> maximum \<and> list_all (\<lambda>c. 32 \<le> ord_of c \<and> ord_of c \<noteq> 127) s"

definition require_token_text :: "string \<Rightarrow> nat \<Rightarrow> string \<Rightarrow> check" where
  "require_token_text name maximum s = raise_if (\<not> token_text maximum s) (ValueError (name @ '' must be bounded visible text'')) okay"

subsection \<open>Configuration\<close>

record identity_config =
  gi_issuer :: string
  gi_audience :: string
  gi_jwks_url :: string
  gi_allowed_hosts :: "string list"
  gi_proxy_cidrs :: "string list"
  gi_algorithm :: string
  gi_tenant_claim :: string
  gi_fresh :: pyfloat
  gi_stale :: pyfloat
  gi_jwks_timeout :: pyfloat
  gi_retry :: pyfloat
  gi_max_bytes :: int
  gi_max_keys :: int
  gi_skew :: pyfloat
  gi_lifetime :: pyfloat
  gi_request_timeout :: pyfloat

definition supported_algorithms :: "string list" where
  "supported_algorithms = [''RS256'', ''ES256'', ''EdDSA'']"

definition reserved_tenant_claims :: "string list" where
  "reserved_tenant_claims = [''act'', ''aud'', ''azp'', ''exp'', ''iat'', ''iss'', ''jti'', ''nbf'', ''run_id'', ''scope'',
     ''scp'', ''sub'']"

definition require_token_texts :: "string \<Rightarrow> nat \<Rightarrow> string list \<Rightarrow> check" where
  "require_token_texts name maximum ss =
     raise_if (ss = []) (ValueError (name @ '' must be a non-empty tuple''))
     (and_then (for_each (require_token_text name maximum) ss) (\<lambda>_.
      raise_if (\<not> distinct ss) (ValueError (name @ '' must not contain duplicates'')) okay))"

text \<open>An absolute HTTPS URL on the standard port, without credentials, query or fragment, on a named host.\<close>

definition https_url :: "ip_library \<Rightarrow> (string \<Rightarrow> bool) \<Rightarrow> string \<Rightarrow> split_url option" where
  "https_url lib netloc_ok s =
     (case urlsplit netloc_ok s of
        None \<Rightarrow> None
      | Some u \<Rightarrow>
          if su_scheme u \<noteq> ''https'' \<or> su_hostname u = [] \<or> has_userinfo u \<or> su_port u \<noteq> Some 443 \<or>
            il_address lib (su_hostname u) \<noteq> None \<or> su_query u \<noteq> [] \<or> su_fragment u \<noteq> []
          then None else Some u)"

definition bounded_duration :: "string \<Rightarrow> pyfloat \<Rightarrow> rat \<Rightarrow> check" where
  "bounded_duration name v maximum =
     raise_if (\<not> is_finite v \<or> v \<le> 0) (ValueError (name @ '' must be a positive finite number''))
     (raise_if (Fin maximum < v) (ValueError (name @ '' exceeds its maximum'')) okay)"

definition bounded_number :: "string \<Rightarrow> pyfloat \<Rightarrow> rat \<Rightarrow> rat \<Rightarrow> check" where
  "bounded_number name v minimum maximum =
     raise_if (\<not> is_finite v \<or> \<not> (Fin minimum \<le> v \<and> v \<le> Fin maximum)) (ValueError (name @ '' is out of its bounds'')) okay"

definition check_identity_urls :: "ip_library \<Rightarrow> (string \<Rightarrow> bool) \<Rightarrow> identity_config \<Rightarrow> check" where
  "check_identity_urls lib netloc_ok c =
     raise_if (https_url lib netloc_ok (gi_issuer c) = None) (ValueError ''issuer must be an absolute HTTPS URL'')
     (case https_url lib netloc_ok (gi_jwks_url c) of
        None \<Rightarrow> Inl (ValueError ''jwks_url must be an absolute HTTPS URL without credentials'')
      | Some u \<Rightarrow>
          and_then (require_token_texts ''jwks_allowed_hosts'' 253 (gi_allowed_hosts c)) (\<lambda>_.
          raise_if (casefold (su_hostname u) \<notin> set (map casefold (gi_allowed_hosts c)))
            (ValueError ''jwks_url host must be explicitly allowed'') okay))"

definition check_identity_config :: "ip_library \<Rightarrow> (string \<Rightarrow> bool) \<Rightarrow> identity_config \<Rightarrow> check" where
  "check_identity_config lib netloc_ok c =
     and_then (require_token_text ''issuer'' 2048 (gi_issuer c)) (\<lambda>_.
     and_then (require_token_text ''audience'' 512 (gi_audience c)) (\<lambda>_.
     and_then (require_token_text ''tenant_claim'' 128 (gi_tenant_claim c)) (\<lambda>_.
     raise_if (gi_tenant_claim c \<in> set reserved_tenant_claims)
       (ValueError ''tenant_claim must be independent from standard authority claims'')
     (and_then (check_identity_urls lib netloc_ok c) (\<lambda>_.
      and_then (require_token_texts ''trusted_proxy_cidrs'' 64 (gi_proxy_cidrs c)) (\<lambda>_.
      raise_if (list_ex (\<lambda>s. il_network lib s = None) (gi_proxy_cidrs c)) (ValueError ''not a network'')
      (raise_if (gi_algorithm c \<notin> set supported_algorithms)
        (ValueError ''algorithm must be an approved fixed asymmetric algorithm'')
      (and_then (for_each (\<lambda>(name, v, maximum). bounded_duration name v maximum)
         [(''jwks_fresh_seconds'', gi_fresh c, 86400), (''jwks_stale_seconds'', gi_stale c, 604800),
          (''jwks_timeout_seconds'', gi_jwks_timeout c, 30), (''jwks_retry_seconds'', gi_retry c, 300),
          (''max_token_lifetime_seconds'', gi_lifetime c, 86400)]) (\<lambda>_.
      raise_if (gi_stale c < gi_fresh c) (ValueError ''jwks_stale_seconds must cover the fresh window'')
      (raise_if (\<not> (1024 \<le> gi_max_bytes c \<and> gi_max_bytes c \<le> 1048576))
        (ValueError ''max_jwks_bytes must be between 1024 and 1048576'')
      (raise_if (\<not> (1 \<le> gi_max_keys c \<and> gi_max_keys c \<le> 128)) (ValueError ''max_jwks_keys must be between 1 and 128'')
      (and_then (bounded_number ''clock_skew_seconds'' (gi_skew c) 0 300) (\<lambda>_.
       bounded_number ''request_timeout_seconds'' (gi_request_timeout c) (1 / 1000) 30)))))))))))))"

subsection \<open>Signing keys\<close>

text \<open>A JSON object: the header or the claims of a token, or a set of keys.\<close>

type_synonym claims = "(pykey \<times> pyval) list"

datatype id_exn = Id_rejected | Id_value | Id_cancelled

type_synonym 'a identified = "(id_exn, 'a) result"

definition reject_if :: "bool \<Rightarrow> 'a identified \<Rightarrow> 'a identified" where
  "reject_if c k = (if c then Inl Id_rejected else k)"

record 'k jwt_library =
  jl_header :: "string \<Rightarrow> claims option"
  jl_import :: "string \<Rightarrow> claims \<Rightarrow> 'k option"
  jl_decode :: "identity_config \<Rightarrow> 'k \<Rightarrow> string \<Rightarrow> claims option"

definition bounded_claim :: "nat \<Rightarrow> pyval \<Rightarrow> string identified" where
  "bounded_claim maximum v = (case v of PStr s \<Rightarrow> if token_text maximum s then Inr s else Inl Id_rejected | _ \<Rightarrow> Inl Id_rejected)"

text \<open>The length of \<open>json.dumps\<close> with ASCII output; \<^verbatim>\<open>None\<close> where it raises.\<close>

definition ascii_json_char :: "char \<Rightarrow> nat" where
  "ascii_json_char c =
     (if c = quote \<or> c = backslash \<or> ord_of c \<in> {8, 9, 10, 12, 13} then 2
      else if 32 \<le> ord_of c \<and> ord_of c \<le> 126 then 1 else 6)"

definition ascii_json_string :: "string \<Rightarrow> nat" where
  "ascii_json_string s = 2 + sum_list (map ascii_json_char s)"

primrec json_length :: "(rat \<Rightarrow> string) \<Rightarrow> pyval \<Rightarrow> nat option"
  and json_length_list :: "(rat \<Rightarrow> string) \<Rightarrow> pyval list \<Rightarrow> nat option"
  and json_length_items :: "(rat \<Rightarrow> string) \<Rightarrow> (pykey \<times> pyval) list \<Rightarrow> nat option"
  and json_length_item :: "(rat \<Rightarrow> string) \<Rightarrow> pykey \<times> pyval \<Rightarrow> nat option"
where
  "json_length frepr PNone = Some 4"
| "json_length frepr (PBool b) = Some (if b then 4 else 5)"
| "json_length frepr (PInt i) = Some (length (int_str i))"
| "json_length frepr (PFloat f) = Some (case f of Fin q \<Rightarrow> length (frepr q) | NaN \<Rightarrow> 3 | PInf \<Rightarrow> 8 | NInf \<Rightarrow> 9)"
| "json_length frepr (PStr s) = Some (ascii_json_string s)"
| "json_length frepr (PList xs) = map_option (\<lambda>n. n + 2 + (length xs - 1)) (json_length_list frepr xs)"
| "json_length frepr (PDict d) = map_option (\<lambda>n. n + 2 + (length d - 1)) (json_length_items frepr d)"
| "json_length frepr POther = None"
| "json_length_list frepr [] = Some 0"
| "json_length_list frepr (x # xs) =
     (case json_length frepr x of None \<Rightarrow> None | Some n \<Rightarrow> map_option ((+) n) (json_length_list frepr xs))"
| "json_length_items frepr [] = Some 0"
| "json_length_items frepr (kv # d) =
     (case json_length_item frepr kv of None \<Rightarrow> None | Some n \<Rightarrow> map_option ((+) n) (json_length_items frepr d))"
| "json_length_item frepr (Pair k v) =
     (case k of KOther i \<Rightarrow> None | KStr s \<Rightarrow> map_option ((+) (ascii_json_string s + 1)) (json_length frepr v))"

fun import_keys ::
  "'k jwt_library \<Rightarrow> identity_config \<Rightarrow> string list \<Rightarrow> (string \<times> 'k) list \<Rightarrow> pyval list \<Rightarrow> (string \<times> 'k) list identified" where
  "import_keys lib c seen keys [] = reject_if (keys = []) (Inr keys)"
| "import_keys lib c seen keys (PDict raw # rest) =
     and_then (bounded_claim 128 (get_none ''kid'' raw)) (\<lambda>kid.
     reject_if (kid \<in> set seen)
     (if get_none ''alg'' raw \<noteq> PStr (gi_algorithm c) then import_keys lib c (seen @ [kid]) keys rest
      else
        reject_if (get_none ''use'' raw \<noteq> PNone \<and> get_none ''use'' raw \<noteq> PStr ''sig'')
        (case jl_import lib (gi_algorithm c) raw of
           None \<Rightarrow> Inl Id_rejected
         | Some k \<Rightarrow> import_keys lib c (seen @ [kid]) (dict_put kid k keys) rest)))"
| "import_keys lib c seen keys (_ # rest) = Inl Id_rejected"

definition validate_jwks :: "'k jwt_library \<Rightarrow> (rat \<Rightarrow> string) \<Rightarrow> identity_config \<Rightarrow> claims \<Rightarrow> (string \<times> 'k) list identified" where
  "validate_jwks lib frepr c document =
     (case json_length frepr (PDict document) of
        None \<Rightarrow> Inl Id_rejected
      | Some n \<Rightarrow>
          reject_if (int n > gi_max_bytes c)
          (case get_none ''keys'' document of
             PList raw \<Rightarrow>
               reject_if (\<not> (1 \<le> length raw \<and> int (length raw) \<le> gi_max_keys c)) (import_keys lib c [] [] raw)
           | _ \<Rightarrow> Inl Id_rejected))"

record 'k key_cache =
  kc_keys :: "(string \<times> 'k) list"
  kc_fetched_at :: pyfloat

record 'k identity_state =
  is_cache :: "'k key_cache option"
  is_retry_after :: pyfloat
  is_metrics :: "metrics option"

definition stale_key :: "identity_config \<Rightarrow> 'k key_cache option \<Rightarrow> string \<Rightarrow> pyfloat \<Rightarrow> 'k identified" where
  "stale_key c entry kid now =
     (case entry of
        None \<Rightarrow> Inl Id_rejected
      | Some e \<Rightarrow>
          reject_if (gi_stale c < now - kc_fetched_at e)
          (case map_of (kc_keys e) kid of None \<Rightarrow> Inl Id_rejected | Some k \<Rightarrow> Inr k))"

text \<open>The part of \<open>_key\<close> that needs no fetch: a fresh key, or what is left while a retry has to wait.\<close>

definition quick_key :: "identity_config \<Rightarrow> 'k identity_state \<Rightarrow> string \<Rightarrow> pyfloat \<Rightarrow> 'k identified option" where
  "quick_key c s kid now =
     (case (case is_cache s of
              None \<Rightarrow> None
            | Some e \<Rightarrow> if now - kc_fetched_at e < gi_fresh c then map_of (kc_keys e) kid else None) of
        Some k \<Rightarrow> Some (Inr k)
      | None \<Rightarrow> if now < is_retry_after s then Some (stale_key c (is_cache s) kid now) else None)"

text \<open>The fetch under the lock; a fetch that fails other than by cancellation leaves the stale key.\<close>

definition refresh_keys ::
  "'k jwt_library \<Rightarrow> (rat \<Rightarrow> string) \<Rightarrow> identity_config \<Rightarrow> claims identified \<Rightarrow> string \<Rightarrow> pyfloat \<Rightarrow> 'k identity_state
     \<Rightarrow> 'k identified \<times> 'k identity_state" where
  "refresh_keys lib frepr c fetched kid now s =
     (case and_then fetched (validate_jwks lib frepr c) of
        Inl Id_cancelled \<Rightarrow> (Inl Id_cancelled, s)
      | Inl e \<Rightarrow> (stale_key c (is_cache s) kid now, s\<lparr>is_retry_after := now + gi_retry c\<rparr>)
      | Inr keys \<Rightarrow>
          (let s1 = s\<lparr>is_cache := Some \<lparr>kc_keys = keys, kc_fetched_at = now\<rparr>, is_retry_after := 0\<rparr> in
           case map_of keys kid of
             Some k \<Rightarrow> (Inr k, s1)
           | None \<Rightarrow> (Inl Id_rejected, s1\<lparr>is_retry_after := now + gi_retry c\<rparr>)))"

text \<open>
  What one request meets: the identifiers made for it, the two readings of the cache clock in \<open>_key\<close>, what other
  requests do before it has the lock, the fetch, the wall clock, and the reading for the deadline.
\<close>

record 'k identity_env =
  ie_factory :: "string option"
  ie_token :: string
  ie_first :: pyfloat
  ie_meanwhile :: "'k identity_state \<Rightarrow> 'k identity_state"
  ie_second :: pyfloat
  ie_fetch :: "claims identified"
  ie_wall :: pyfloat
  ie_last :: pyfloat

definition obtain_key ::
  "'k jwt_library \<Rightarrow> (rat \<Rightarrow> string) \<Rightarrow> identity_config \<Rightarrow> 'k identity_env \<Rightarrow> string \<Rightarrow> 'k identity_state
     \<Rightarrow> 'k identified \<times> 'k identity_state" where
  "obtain_key lib frepr c env kid s =
     (case quick_key c s kid (ie_first env) of
        Some r \<Rightarrow> (r, s)
      | None \<Rightarrow>
          (let s1 = ie_meanwhile env s in
           case quick_key c s1 kid (ie_second env) of
             Some r \<Rightarrow> (r, s1)
           | None \<Rightarrow> refresh_keys lib frepr c (ie_fetch env) kid (ie_second env) s1))"

subsection \<open>Headers and claims\<close>

definition trusted_peer :: "ip_library \<Rightarrow> identity_config \<Rightarrow> string option \<Rightarrow> bool" where
  "trusted_peer lib c peer =
     (case peer of
        None \<Rightarrow> False
      | Some host \<Rightarrow>
          (case il_address lib host of
             None \<Rightarrow> False
           | Some a \<Rightarrow> list_ex (\<lambda>s. case il_network lib s of None \<Rightarrow> False | Some n \<Rightarrow> in_network a n) (gi_proxy_cidrs c)))"

definition optional_header :: "request_metadata \<Rightarrow> string \<Rightarrow> string option identified" where
  "optional_header r name =
     (case header_values r name of
        [] \<Rightarrow> Inr None
      | [v] \<Rightarrow> if token_text 512 v then Inr (Some v) else Inl Id_value
      | _ \<Rightarrow> Inl Id_rejected)"

definition bearer_token :: "request_metadata \<Rightarrow> string identified" where
  "bearer_token r =
     (case header_values r ''authorization'' of
        [v] \<Rightarrow>
          (let (scheme, found, encoded) = partition_at CHR '' '' v in
           reject_if (\<not> found \<or> casefold scheme \<noteq> ''bearer'' \<or> encoded = [])
           (reject_if (length encoded > 16384 \<or> encoded \<noteq> strip encoded \<or> count_list encoded CHR ''.'' \<noteq> 2)
             (Inr encoded)))
      | _ \<Rightarrow> Inl Id_rejected)"

definition agree :: "request_metadata \<Rightarrow> string \<Rightarrow> string \<Rightarrow> unit identified" where
  "agree r name expected =
     and_then (optional_header r name) (\<lambda>supplied. reject_if (supplied \<noteq> None \<and> supplied \<noteq> Some expected) (Inr ()))"

definition numeric_date :: "pyval \<Rightarrow> rat identified" where
  "numeric_date v =
     (case v of
        PInt i \<Rightarrow> Inr (of_int i)
      | PFloat (Fin q) \<Rightarrow> Inr q
      | _ \<Rightarrow> Inl Id_rejected)"

definition validate_times :: "identity_config \<Rightarrow> pyfloat \<Rightarrow> claims \<Rightarrow> unit identified" where
  "validate_times c now claims =
     and_then (numeric_date (get_none ''iat'' claims)) (\<lambda>issued.
     and_then (numeric_date (get_none ''nbf'' claims)) (\<lambda>not_before.
     and_then (numeric_date (get_none ''exp'' claims)) (\<lambda>expires.
     reject_if (\<not> is_finite now)
     (reject_if (now + gi_skew c < Fin issued \<or> now + gi_skew c < Fin not_before \<or> Fin expires \<le> now - gi_skew c)
     (reject_if (expires \<le> issued \<or> gi_lifetime c < Fin (expires - issued)) (Inr ()))))))"

text \<open>\<open>str.split()\<close>.\<close>

fun split_words :: "string \<Rightarrow> string \<Rightarrow> string list" where
  "split_words word [] = (if word = [] then [] else [word])"
| "split_words word (c # cs) =
     (if is_space c then (if word = [] then [] else [word]) @ split_words [] cs else split_words (word @ [c]) cs)"

definition scope_values :: "pyval \<Rightarrow> string list identified" where
  "scope_values v =
     and_then
       (case v of
          PStr s \<Rightarrow> Inr (split_words [] s)
        | PList xs \<Rightarrow> map_result (\<lambda>x. case x of PStr s \<Rightarrow> Inr s | _ \<Rightarrow> Inl Id_rejected) xs
        | _ \<Rightarrow> Inl Id_rejected)
       (\<lambda>values. reject_if (\<not> list_all (token_text 256) values) (Inr values))"

definition claimed_scopes :: "claims \<Rightarrow> string list identified" where
  "claimed_scopes claims =
     and_then (if get_none ''scope'' claims = PNone then Inr [] else scope_values (get_none ''scope'' claims)) (\<lambda>primary.
     and_then (if get_none ''scp'' claims = PNone then Inr [] else scope_values (get_none ''scp'' claims)) (\<lambda>secondary.
     reject_if (primary \<noteq> [] \<and> secondary \<noteq> [] \<and> set primary \<noteq> set secondary)
     (let values = (if primary \<noteq> [] then primary else secondary) in
      reject_if (length values > 64 \<or> \<not> distinct values) (Inr (sort values)))))"

subsection \<open>The context of a request\<close>

text \<open>The token of a request, verified under the key it names.\<close>

definition verified_claims ::
  "'k jwt_library \<Rightarrow> (rat \<Rightarrow> string) \<Rightarrow> identity_config \<Rightarrow> 'k identity_env \<Rightarrow> request_metadata \<Rightarrow> 'k identity_state
     \<Rightarrow> claims identified \<times> 'k identity_state" where
  "verified_claims lib frepr c env r s =
     (case and_then (bearer_token r) (\<lambda>encoded.
           case jl_header lib encoded of
             None \<Rightarrow> Inl Id_rejected
           | Some h \<Rightarrow>
               reject_if (get_none ''alg'' h \<noteq> PStr (gi_algorithm c))
               (and_then (bounded_claim 128 (get_none ''kid'' h)) (\<lambda>kid. Inr (encoded, kid)))) of
        Inl e \<Rightarrow> (Inl e, s)
      | Inr (encoded, kid) \<Rightarrow>
          (case obtain_key lib frepr c env kid s of
             (Inl e, s) \<Rightarrow> (Inl e, s)
           | (Inr key, s) \<Rightarrow> (case jl_decode lib c key encoded of None \<Rightarrow> Inl Id_rejected | Some claims \<Rightarrow> Inr claims, s)))"

record asserted =
  as_subject :: string
  as_tenant :: string
  as_scopes :: "string list"
  as_run_id :: string

definition asserted_claims :: "identity_config \<Rightarrow> pyfloat \<Rightarrow> request_metadata \<Rightarrow> string \<Rightarrow> claims \<Rightarrow> asserted identified" where
  "asserted_claims c wall r request_id claims =
     and_then (validate_times c wall claims) (\<lambda>_.
     and_then (bounded_claim 512 (get_none ''sub'' claims)) (\<lambda>subject.
     and_then (bounded_claim 256 (get_none (gi_tenant_claim c) claims)) (\<lambda>tenant.
     and_then (claimed_scopes claims) (\<lambda>scopes.
     and_then (agree r ''x-jwt-claim-sub'' subject) (\<lambda>_.
     and_then (agree r ''x-jwt-claim-tenant-id'' tenant) (\<lambda>_.
     and_then (optional_header r ''x-jwt-claim-scope'') (\<lambda>forwarded_scopes.
     reject_if (case forwarded_scopes of None \<Rightarrow> False | Some f \<Rightarrow> sort (split_words [] f) \<noteq> scopes)
     (and_then (optional_header r ''x-tesserix-run-id'') (\<lambda>forwarded_run.
      and_then
        (if get_none ''run_id'' claims = PNone then Inr (case forwarded_run of None \<Rightarrow> request_id | Some v \<Rightarrow> v)
         else and_then (bounded_claim 256 (get_none ''run_id'' claims)) (\<lambda>run_id.
           reject_if (forwarded_run \<noteq> None \<and> forwarded_run \<noteq> Some run_id) (Inr run_id))) (\<lambda>run_id.
      Inr \<lparr>as_subject = subject, as_tenant = tenant, as_scopes = scopes, as_run_id = run_id\<rparr>))))))))))"

text \<open>A malformed trace context is logged and dropped; a repeated header rejects the request.\<close>

definition read_trace :: "exporter \<Rightarrow> request_metadata \<Rightarrow> 'k identity_state \<Rightarrow> trace_context identified \<times> 'k identity_state" where
  "read_trace ex r s =
     (case and_then (optional_header r ''traceparent'') (\<lambda>tp.
           and_then (optional_header r ''tracestate'') (\<lambda>ts.
           let t = \<lparr>traceparent = tp, tracestate = ts\<rparr> in
           case check_trace_context t of Inl e \<Rightarrow> Inl Id_value | Inr _ \<Rightarrow> Inr t)) of
        Inr t \<Rightarrow> (Inr t, s)
      | Inl Id_value \<Rightarrow>
          (Inr \<lparr>traceparent = None, tracestate = None\<rparr>,
           s\<lparr>is_metrics := map_option (\<lambda>m. emit_log ex \<lparr>le_name = Log_TRACE_CONTEXT_REJECTED, le_server = me_server m,
               le_request_id = None, le_trace_id = None, le_operation = None, le_tool = None, le_outcome = None,
               le_reason = Some Reason_MALFORMED_TRACE_CONTEXT, le_duration = None\<rparr> m) (is_metrics s)\<rparr>)
      | Inl e \<Rightarrow> (Inl e, s))"

definition request_timeout :: "identity_config \<Rightarrow> request_metadata \<Rightarrow> pyfloat identified" where
  "request_timeout c r =
     and_then (optional_header r ''x-tesserix-timeout-ms'') (\<lambda>h.
     case h of
       None \<Rightarrow> Inr (gi_request_timeout c)
     | Some t \<Rightarrow>
         reject_if (\<not> list_all is_digit t \<or> starts_with ''0'' t \<or> length t > 9)
           (Inr (py_min (gi_request_timeout c) (Fin (of_nat (digits_value t) / 1000)))))"

definition make_call_context ::
  "identity_config \<Rightarrow> pyfloat \<Rightarrow> request_metadata \<Rightarrow> string \<Rightarrow> cancellation \<Rightarrow> asserted \<Rightarrow> trace_context \<Rightarrow> call_context identified" where
  "make_call_context c now r request_id token a t =
     and_then (optional_header r ''idempotency-key'') (\<lambda>idempotency.
     and_then (optional_header r ''x-tesserix-approval-id'') (\<lambda>approval.
     and_then (request_timeout c r) (\<lambda>seconds.
     let i = \<lparr>id_tenant = as_tenant a, id_subject = as_subject a, id_issuer = gi_issuer c, id_scopes = as_scopes a\<rparr>;
         x = \<lparr>cc_identity = i, cc_request_id = request_id, cc_run_id = as_run_id a, cc_trace = t,
           cc_deadline = Some (now + seconds), cc_cancellation = token, cc_idempotency_key = idempotency,
           cc_approval_id = approval\<rparr>
     in if is_ok (check_identity i) \<and> is_ok (check_call_context x) then Inr x else Inl Id_value)))"

text \<open>
  The outcome: a context, a rejection that carries the request identifier, a cancellation, or the \<^verbatim>\<open>ValueError\<close>
  of a rejection whose identifier is not a bounded text.
\<close>

datatype creation = Created call_context | Unauthenticated string | Create_cancelled | Create_failed

definition reject_request :: "string \<Rightarrow> id_exn \<Rightarrow> creation" where
  "reject_request request_id e =
     (if e = Id_cancelled then Create_cancelled
      else if token_text 256 request_id then Unauthenticated request_id else Create_failed)"

definition generated_request_id :: "'k identity_env \<Rightarrow> string" where
  "generated_request_id env =
     (case ie_factory env of
        Some v \<Rightarrow> if token_text 256 v then v else ie_token env
      | None \<Rightarrow> ie_token env)"

definition authenticated_context ::
  "'k jwt_library \<Rightarrow> (rat \<Rightarrow> string) \<Rightarrow> exporter \<Rightarrow> identity_config \<Rightarrow> 'k identity_env \<Rightarrow> request_metadata \<Rightarrow> string
     \<Rightarrow> cancellation \<Rightarrow> 'k identity_state \<Rightarrow> call_context identified \<times> 'k identity_state" where
  "authenticated_context lib frepr ex c env r request_id token s =
     (case verified_claims lib frepr c env r s of
        (Inl e, s) \<Rightarrow> (Inl e, s)
      | (Inr claims, s) \<Rightarrow>
          (case asserted_claims c (ie_wall env) r request_id claims of
             Inl e \<Rightarrow> (Inl e, s)
           | Inr a \<Rightarrow>
               (case read_trace ex r s of
                  (Inl e, s) \<Rightarrow> (Inl e, s)
                | (Inr t, s) \<Rightarrow> (make_call_context c (ie_last env) r request_id token a t, s))))"

definition create_context ::
  "ip_library \<Rightarrow> 'k jwt_library \<Rightarrow> (rat \<Rightarrow> string) \<Rightarrow> exporter \<Rightarrow> identity_config \<Rightarrow> 'k identity_env \<Rightarrow> request_metadata
     \<Rightarrow> cancellation \<Rightarrow> 'k identity_state \<Rightarrow> creation \<times> 'k identity_state" where
  "create_context ips lib frepr ex c env r token s =
     (let generated = generated_request_id env in
      if \<not> trusted_peer ips c (rm_peer r) then (reject_request generated Id_rejected, s)
      else
        (case optional_header r ''x-request-id'' of
           Inl e \<Rightarrow> (reject_request generated e, s)
         | Inr h \<Rightarrow>
             (let request_id = (case h of None \<Rightarrow> generated | Some v \<Rightarrow> v) in
              case authenticated_context lib frepr ex c env r request_id token s of
                (Inr x, s) \<Rightarrow> (Created x, s)
              | (Inl e, s) \<Rightarrow> (reject_request request_id e, s))))"

subsection \<open>Fetching the keys\<close>

text \<open>
  \<open>HTTPSJWKSFetcher.fetch\<close>: the response is what the HTTP client gives for one GET without redirects;
  \<open>parse\<close> is \<^verbatim>\<open>json.loads\<close> on the body.
\<close>

record jwks_response =
  jr_status :: int
  jr_type :: "string option"
  jr_length :: "string option"
  jr_chunks :: "string list"
  jr_end :: "id_exn option"

fun collect_body :: "int \<Rightarrow> string \<Rightarrow> string list \<Rightarrow> id_exn option \<Rightarrow> string identified" where
  "collect_body maximum body [] finish = (case finish of None \<Rightarrow> Inr body | Some e \<Rightarrow> Inl e)"
| "collect_body maximum body (chunk # rest) finish =
     reject_if (int (length body + length chunk) > maximum) (collect_body maximum (body @ chunk) rest finish)"

definition jwks_media_types :: "string list" where
  "jwks_media_types = [''application/json'', ''application/jwk-set+json'']"

definition fetch_jwks :: "(string \<Rightarrow> pyval option) \<Rightarrow> identity_config \<Rightarrow> jwks_response identified \<Rightarrow> claims identified" where
  "fetch_jwks parse c response =
     and_then response (\<lambda>resp.
     reject_if (jr_status resp \<noteq> 200)
     (reject_if (casefold (strip (fst (partition_at CHR '';'' (case jr_type resp of None \<Rightarrow> [] | Some v \<Rightarrow> v)))) \<notin> set jwks_media_types)
     (reject_if (case jr_length resp of None \<Rightarrow> False
         | Some v \<Rightarrow> (case py_int v of None \<Rightarrow> True | Some n \<Rightarrow> \<not> (0 \<le> n \<and> n \<le> gi_max_bytes c)))
     (and_then (collect_body (gi_max_bytes c) [] (jr_chunks resp) (jr_end resp)) (\<lambda>body.
      case parse body of Some (PDict d) \<Rightarrow> Inr d | _ \<Rightarrow> Inl Id_rejected)))))"

subsection \<open>The keys that can be handed out\<close>

lemma reject_if_Inr [simp]: "reject_if c k = Inr a \<longleftrightarrow> \<not> c \<and> k = Inr a"
  by (simp add: reject_if_def)

lemma bounded_claim_Inr [simp]: "bounded_claim maximum v = Inr s \<longleftrightarrow> v = PStr s \<and> token_text maximum s"
  by (auto simp: bounded_claim_def split: pyval.splits)

definition keys_ok :: "'k jwt_library \<Rightarrow> identity_config \<Rightarrow> (string \<times> 'k) list \<Rightarrow> bool" where
  "keys_ok lib c keys \<longleftrightarrow> keys \<noteq> [] \<and> int (length keys) \<le> gi_max_keys c \<and> distinct (map fst keys) \<and>
     (\<forall>kid key. map_of keys kid = Some key \<longrightarrow> token_text 128 kid \<and>
        (\<exists>raw. get_none ''kid'' raw = PStr kid \<and> get_none ''alg'' raw = PStr (gi_algorithm c) \<and>
           jl_import lib (gi_algorithm c) raw = Some key))"

lemma import_keys_ok:
  assumes "import_keys lib c seen keys raws = Inr out" "distinct (map fst keys)" "length keys + length raws \<le> n"
    and "\<forall>kid key. map_of keys kid = Some key \<longrightarrow> token_text 128 kid \<and>
        (\<exists>raw. get_none ''kid'' raw = PStr kid \<and> get_none ''alg'' raw = PStr (gi_algorithm c) \<and>
           jl_import lib (gi_algorithm c) raw = Some key)"
  shows "out \<noteq> [] \<and> length out \<le> n \<and> distinct (map fst out) \<and>
    (\<forall>kid key. map_of out kid = Some key \<longrightarrow> token_text 128 kid \<and>
        (\<exists>raw. get_none ''kid'' raw = PStr kid \<and> get_none ''alg'' raw = PStr (gi_algorithm c) \<and>
           jl_import lib (gi_algorithm c) raw = Some key))"
  using assms
proof (induction lib c seen keys raws rule: import_keys.induct)
  case (2 lib c seen keys raw rest)
  obtain kid where kid: "get_none ''kid'' raw = PStr kid" "token_text 128 kid" "kid \<notin> set seen"
    using "2.prems"(1) by auto
  show ?case
  proof (cases "get_none ''alg'' raw = PStr (gi_algorithm c)")
    case False
    with "2.IH"(1) "2.prems" kid show ?thesis by simp
  next
    case True
    then obtain k where k: "jl_import lib (gi_algorithm c) raw = Some k"
      "import_keys lib c (seen @ [kid]) (dict_put kid k keys) rest = Inr out"
      using "2.prems"(1) kid by (auto split: option.splits)
    show ?thesis
    proof (rule "2.IH"(2) [OF _ k(1) k(2)])
      show "distinct (map fst (dict_put kid k keys))" using "2.prems"(2) by (rule distinct_dict_put)
      show "length (dict_put kid k keys) + length rest \<le> n" using "2.prems"(3) by (simp add: length_dict_put)
    qed (use "2.prems"(1,4) True kid k in auto)
  qed
qed auto

lemma validate_jwks_ok: "validate_jwks lib frepr c document = Inr keys \<Longrightarrow> keys_ok lib c keys"
  unfolding validate_jwks_def keys_ok_def
  by (auto split: option.splits pyval.splits dest!: import_keys_ok [where n = "nat (gi_max_keys c)"])

definition identity_inv :: "'k jwt_library \<Rightarrow> identity_config \<Rightarrow> 'k identity_state \<Rightarrow> bool" where
  "identity_inv lib c s \<longleftrightarrow> (case is_cache s of None \<Rightarrow> True | Some e \<Rightarrow> keys_ok lib c (kc_keys e))"

lemma refresh_keys_inv: "identity_inv lib c s \<Longrightarrow> identity_inv lib c (snd (refresh_keys lib frepr c fetched kid now s))"
  by (auto simp: refresh_keys_def identity_inv_def Let_def dest: validate_jwks_ok split: sum.split id_exn.split option.split)

text \<open>A key in use is of an accepted set: of one just fetched, or of the cache, and then not older than the stale window.\<close>

definition key_in_use ::
  "'k jwt_library \<Rightarrow> identity_config \<Rightarrow> string \<Rightarrow> 'k \<Rightarrow> bool" where
  "key_in_use lib c kid key \<longleftrightarrow>
     (\<exists>raw. get_none ''kid'' raw = PStr kid \<and> get_none ''alg'' raw = PStr (gi_algorithm c) \<and>
        jl_import lib (gi_algorithm c) raw = Some key)"

lemma keys_ok_use: "keys_ok lib c keys \<Longrightarrow> map_of keys kid = Some key \<Longrightarrow> key_in_use lib c kid key"
  by (simp add: keys_ok_def key_in_use_def)

lemma stale_key_use: "identity_inv lib c s \<Longrightarrow> stale_key c (is_cache s) kid now = Inr key \<Longrightarrow> key_in_use lib c kid key"
  by (auto simp: stale_key_def identity_inv_def intro: keys_ok_use split: option.splits)

lemma quick_key_use: "identity_inv lib c s \<Longrightarrow> quick_key c s kid now = Some (Inr key) \<Longrightarrow> key_in_use lib c kid key"
  by (auto simp: quick_key_def identity_inv_def stale_key_def intro: keys_ok_use split: option.splits if_splits)

lemma refresh_key_use:
  assumes "identity_inv lib c s" "refresh_keys lib frepr c fetched kid now s = (Inr key, s')"
  shows "key_in_use lib c kid key"
  using assms
  by (auto simp: refresh_keys_def Let_def dest!: validate_jwks_ok intro: keys_ok_use stale_key_use
      split: sum.splits id_exn.splits option.splits)

lemma obtain_key_use:
  assumes "identity_inv lib c s" "identity_inv lib c (ie_meanwhile env s)" "obtain_key lib frepr c env kid s = (Inr key, s')"
  shows "key_in_use lib c kid key"
  using assms by (auto simp: obtain_key_def Let_def intro: quick_key_use refresh_key_use split: option.splits)

lemma obtain_key_inv:
  assumes "identity_inv lib c s" "identity_inv lib c (ie_meanwhile env s)"
  shows "identity_inv lib c (snd (obtain_key lib frepr c env kid s))"
  using assms by (auto simp: obtain_key_def Let_def intro: refresh_keys_inv split: option.split)

text \<open>A cached key is handed out only within the stale window, a fresh one within the fresh window.\<close>

lemma quick_key_age:
  assumes "quick_key c s kid now = Some (Inr key)"
  shows "\<exists>e. is_cache s = Some e \<and> map_of (kc_keys e) kid = Some key \<and>
    (now - kc_fetched_at e < gi_fresh c \<or> \<not> gi_stale c < now - kc_fetched_at e)"
  using assms by (auto simp: quick_key_def stale_key_def split: option.splits if_splits)

definition signing_step :: "'k jwt_library \<Rightarrow> identity_config \<Rightarrow> 'k identity_state \<Rightarrow> 'k identity_state \<Rightarrow> bool" where
  "signing_step lib c s t \<longleftrightarrow> (\<exists>frepr fetched kid now. t = snd (refresh_keys lib frepr c fetched kid now s))"

interpretation signing: invariant_machine "\<lambda>s. is_cache s = None" "signing_step lib c" "identity_inv lib c" for lib c
  by unfold_locales (simp add: identity_inv_def, auto simp: signing_step_def intro: refresh_keys_inv)

subsection \<open>Who a context stands for\<close>

definition stands_for ::
  "'k jwt_library \<Rightarrow> identity_config \<Rightarrow> pyfloat \<Rightarrow> request_metadata \<Rightarrow> call_context \<Rightarrow> bool" where
  "stands_for lib c wall r x \<longleftrightarrow>
     (\<exists>encoded kid key claims. bearer_token r = Inr encoded \<and> key_in_use lib c kid key \<and>
        jl_decode lib c key encoded = Some claims \<and> validate_times c wall claims = Inr () \<and>
        get_none ''sub'' claims = PStr (ctx_subject x) \<and> get_none (gi_tenant_claim c) claims = PStr (ctx_tenant x) \<and>
        claimed_scopes claims = Inr (ctx_scopes x))"

lemma verified_claims_use:
  assumes "identity_inv lib c s" "identity_inv lib c (ie_meanwhile env s)"
    and "verified_claims lib frepr c env r s = (Inr claims, s')"
  shows "\<exists>encoded kid key. bearer_token r = Inr encoded \<and> key_in_use lib c kid key \<and> jl_decode lib c key encoded = Some claims"
  using assms(3)
  by (auto simp: verified_claims_def split: sum.splits prod.splits option.splits)
    (use obtain_key_use [OF assms(1,2)] in blast)+

lemma asserted_claims_facts:
  assumes "asserted_claims c wall r rid claims = Inr a"
  shows "validate_times c wall claims = Inr () \<and> get_none ''sub'' claims = PStr (as_subject a) \<and>
    get_none (gi_tenant_claim c) claims = PStr (as_tenant a) \<and> claimed_scopes claims = Inr (as_scopes a)"
  using assms unfolding asserted_claims_def by (auto split: if_splits)

lemma request_timeout_bound:
  assumes "request_timeout c r = Inr t" "is_finite (gi_request_timeout c)"
  shows "t \<le> gi_request_timeout c"
proof -
  obtain q where "gi_request_timeout c = Fin q" using assms(2) by (auto simp: is_finite_iff)
  with assms(1) show ?thesis by (auto simp: request_timeout_def split: option.splits)
qed

lemma make_call_context_facts:
  assumes "make_call_context c now r rid token a t = Inr x" "is_finite (gi_request_timeout c)"
  shows "ctx_subject x = as_subject a \<and> ctx_tenant x = as_tenant a \<and> ctx_scopes x = as_scopes a \<and>
    ctx_issuer x = gi_issuer c \<and> is_ok (check_identity (cc_identity x)) \<and> is_ok (check_call_context x) \<and>
    (\<exists>d. cc_deadline x = Some (now + d) \<and> d \<le> gi_request_timeout c)"
  using assms request_timeout_bound [of c r]
  by (auto simp: make_call_context_def ctx_subject_def ctx_tenant_def ctx_scopes_def ctx_issuer_def Let_def split: if_splits)

lemma authenticated_context_facts:
  assumes "identity_inv lib c s" "identity_inv lib c (ie_meanwhile env s)" "is_finite (gi_request_timeout c)"
    and "authenticated_context lib frepr ex c env r rid token s = (Inr x, s')"
  shows "stands_for lib c (ie_wall env) r x \<and> ctx_issuer x = gi_issuer c \<and> is_ok (check_identity (cc_identity x)) \<and>
    is_ok (check_call_context x) \<and> (\<exists>d. cc_deadline x = Some (ie_last env + d) \<and> d \<le> gi_request_timeout c)"
proof -
  obtain claims s1 a t s2 where v: "verified_claims lib frepr c env r s = (Inr claims, s1)"
    and a: "asserted_claims c (ie_wall env) r rid claims = Inr a"
    and m: "make_call_context c (ie_last env) r rid token a t = Inr x"
    using assms(4) by (auto simp: authenticated_context_def split: sum.splits prod.splits)
  from verified_claims_use [OF assms(1,2) v] asserted_claims_facts [OF a] make_call_context_facts [OF m assms(3)]
  show ?thesis unfolding stands_for_def by metis
qed

lemma identity_config_finite: "check_identity_config ips netloc_ok c = okay \<Longrightarrow> is_finite (gi_request_timeout c)"
  by (simp add: check_identity_config_def bounded_number_def del: for_each.simps)

text \<open>
  C34. A context is made only for a peer in a trusted network that presents one bearer token, verified under a key
  that was imported for its key identifier and the configured algorithm; with the times in the permitted window; with subject,
  tenant and scopes of the verified claims and the configured issuer; valid, and with a deadline no later than
  the request timeout.
\<close>

theorem created_context_authenticated:
  assumes "reachable (\<lambda>s. is_cache s = None) (signing_step lib c) s"
    and "reachable (\<lambda>s. is_cache s = None) (signing_step lib c) (ie_meanwhile env s)"
    and "is_finite (gi_request_timeout c)"
    and "create_context ips lib frepr ex c env r token s = (Created x, s')"
  shows "trusted_peer ips c (rm_peer r) \<and> stands_for lib c (ie_wall env) r x \<and> ctx_issuer x = gi_issuer c \<and>
    is_ok (check_identity (cc_identity x)) \<and> is_ok (check_call_context x) \<and>
    (\<exists>d. cc_deadline x = Some (ie_last env + d) \<and> d \<le> gi_request_timeout c)"
proof -
  have inv: "identity_inv lib c s" "identity_inv lib c (ie_meanwhile env s)"
    by (rule signing.reachable_inv [OF assms(1)], rule signing.reachable_inv [OF assms(2)])
  obtain rid where "authenticated_context lib frepr ex c env r rid token s = (Inr x, s')" and peer: "trusted_peer ips c (rm_peer r)"
    using assms(4) by (auto simp: create_context_def reject_request_def Let_def split: if_splits sum.splits prod.splits)
  from authenticated_context_facts [OF inv assms(3) this(1)] peer show ?thesis by simp
qed

text \<open>A sample: one key, one trusted proxy, a token whose claims the library knows.\<close>

definition sample_ips :: ip_library where
  "sample_ips = sample_library\<lparr>il_network := (\<lambda>s. Some (Net4 (octets 8 8 8 8) 32))\<rparr>"

definition sample_identity_config :: identity_config where
  "sample_identity_config = \<lparr>gi_issuer = ''https://idp.example/'', gi_audience = ''mcp'', gi_jwks_url = ''https://idp.example/keys'',
     gi_allowed_hosts = [''idp.example''], gi_proxy_cidrs = [''8.8.8.8/32''], gi_algorithm = ''RS256'', gi_tenant_claim = ''tenant_id'',
     gi_fresh = Fin 900, gi_stale = Fin 3600, gi_jwks_timeout = Fin 2, gi_retry = Fin 5, gi_max_bytes = 65536, gi_max_keys = 32,
     gi_skew = Fin 30, gi_lifetime = Fin 3600, gi_request_timeout = Fin 30\<rparr>"

definition sample_header :: claims where
  "sample_header = [(KStr ''alg'', PStr ''RS256''), (KStr ''kid'', PStr ''k1'')]"

definition sample_claims :: claims where
  "sample_claims = [(KStr ''sub'', PStr ''agent''), (KStr ''tenant_id'', PStr ''acme''), (KStr ''iat'', PInt 100),
     (KStr ''nbf'', PInt 100), (KStr ''exp'', PInt 200), (KStr ''scope'', PStr ''b a'')]"

definition sample_jwt :: "string jwt_library" where
  "sample_jwt = \<lparr>jl_header = (\<lambda>t. Some sample_header), jl_import = (\<lambda>alg raw. Some alg),
     jl_decode = (\<lambda>c k t. if t = ''a.b.c'' \<and> k = ''RS256'' then Some sample_claims else None)\<rparr>"

definition empty_identity_state :: "string identity_state" where
  "empty_identity_state = \<lparr>is_cache = None, is_retry_after = 0, is_metrics = None\<rparr>"

definition sample_identity_env :: "string identity_env" where
  "sample_identity_env = \<lparr>ie_factory = Some ''r1'', ie_token = ''r2'', ie_first = Fin 1, ie_meanwhile = (\<lambda>s. s),
     ie_second = Fin 1, ie_fetch = Inr [(KStr ''keys'', PList [PDict sample_header])], ie_wall = Fin 150, ie_last = Fin 2\<rparr>"

definition sample_request :: "(string \<times> string) list \<Rightarrow> request_metadata" where
  "sample_request headers = \<lparr>rm_method = ''POST'', rm_path = ''/mcp'', rm_headers = headers, rm_peer = Some ''8.8.8.8''\<rparr>"

definition sample_creation :: "creation \<times> string identity_state" where
  "sample_creation = create_context sample_ips sample_jwt (\<lambda>q. []) None sample_identity_config sample_identity_env
     (sample_request [(''Authorization'', ''Bearer a.b.c'')]) NeverCancelled empty_identity_state"

lemma sample_trusted: "trusted_peer sample_ips sample_identity_config (Some ''8.8.8.8'')"
  by (simp add: trusted_peer_def sample_ips_def sample_library_def sample_identity_config_def same_prefix_def)

lemma sample_peer: "rm_peer (sample_request headers) = Some ''8.8.8.8''"
  by (simp add: sample_request_def)

lemma sample_no_request_id: "optional_header (sample_request [(''Authorization'', ''Bearer a.b.c'')]) ''x-request-id'' = Inr None"
  by code_simp

lemma sample_authenticated:
  "case fst (authenticated_context sample_jwt (\<lambda>q. []) None sample_identity_config sample_identity_env
     (sample_request [(''Authorization'', ''Bearer a.b.c'')]) ''r1'' NeverCancelled empty_identity_state) of
     Inr x \<Rightarrow> ctx_subject x = ''agent'' \<and> ctx_scopes x = [''a'', ''b''] | Inl e \<Rightarrow> False"
  by code_simp

lemma sample_generated: "generated_request_id sample_identity_env = ''r1''"
  by code_simp

lemma sample_created: "\<exists>x s'. sample_creation = (Created x, s') \<and> ctx_subject x = ''agent'' \<and> ctx_scopes x = [''a'', ''b'']"
  using sample_authenticated sample_trusted
  by (auto simp: sample_creation_def create_context_def sample_generated sample_no_request_id sample_peer Let_def
      split: sum.splits prod.splits)

theorem created_context_authenticated_witness:
  "\<exists>x. fst sample_creation = Created x \<and>
    stands_for sample_jwt sample_identity_config (Fin 150) (sample_request [(''Authorization'', ''Bearer a.b.c'')]) x"
proof -
  obtain x s' where x: "sample_creation = (Created x, s')"
    using sample_created by blast
  have start: "reachable (\<lambda>s. is_cache s = None) (signing_step sample_jwt sample_identity_config) empty_identity_state"
    by (rule reach_start) (simp add: empty_identity_state_def)
  have config: "is_finite (gi_request_timeout sample_identity_config)" by (simp add: sample_identity_config_def)
  have "stands_for sample_jwt sample_identity_config (ie_wall sample_identity_env)
      (sample_request [(''Authorization'', ''Bearer a.b.c'')]) x"
    using created_context_authenticated [OF start _ config x [unfolded sample_creation_def]] start
    by (simp add: sample_identity_env_def)
  then have "stands_for sample_jwt sample_identity_config (Fin 150) (sample_request [(''Authorization'', ''Bearer a.b.c'')]) x"
    by (simp add: sample_identity_env_def)
  moreover have "fst sample_creation = Created x" unfolding x by (rule fst_conv)
  ultimately show ?thesis by blast
qed

text \<open>
  A request identifier of more than 256 characters is accepted from its header, but not by the rejection that
  should carry it: a request that is then refused ends with a \<^verbatim>\<open>ValueError\<close>.
\<close>

lemma long_request_id_escapes:
  defines "r \<equiv> sample_request [(''X-Request-Id'', replicate 300 CHR ''a'')]"
  shows "fst (create_context sample_ips sample_jwt (\<lambda>q. []) None sample_identity_config sample_identity_env r
    NeverCancelled empty_identity_state) = Create_failed"
proof -
  have names: "casefold ''X-Request-Id'' = casefold ''x-request-id''" "casefold ''X-Request-Id'' \<noteq> casefold ''authorization''"
    by code_simp+
  have visible: "token_text n (replicate 300 CHR ''a'') \<longleftrightarrow> 300 \<le> n" for n
    by (simp add: token_text_def strip_def is_space_def ord_of_def list_all_iff)
  have "header_values r ''x-request-id'' = [replicate 300 CHR ''a'']" "header_values r ''authorization'' = []"
    using names by (simp_all add: r_def sample_request_def header_values_def)
  then have "optional_header r ''x-request-id'' = Inr (Some (replicate 300 CHR ''a''))" "bearer_token r = Inl Id_rejected"
    by (simp_all add: optional_header_def visible bearer_token_def)
  moreover have "rm_peer r = Some ''8.8.8.8''" by (simp add: r_def sample_request_def)
  ultimately show ?thesis
    using sample_trusted by (simp add: create_context_def authenticated_context_def verified_claims_def reject_request_def visible Let_def)
qed

end
