(* ===== verification/Http_Response.thy ===== *)
theory Http_Response
  imports Gateway_Identity
begin

section \<open>Responses of the streamable HTTP transport\<close>

text \<open>
  Models the response side of \<^verbatim>\<open>src/tesserix_mcp_runtime/adapters/streamable_http.py\<close>: the bodies the
  adapter sends itself, and \<open>_AtomicResponseLimiter\<close>, which holds back what the protocol library
  sends until the response is complete and within its limit. Bytes are strings. The client is an
  environment that says of each message, given those it got before, how its sending ends; the
  messages are logged in order. The status and the headers a library message carries are optional
  where the code checks their type.
\<close>

subsection \<open>Messages\<close>

datatype asgi_headers = No_headers | Header_pairs "(string \<times> string) list" | Bad_headers

datatype asgi_message =
    Response_start "int option" asgi_headers
  | Response_body "string option" bool
  | Other_message

datatype asgi_exn = Asgi_failed | Asgi_overflow | Asgi_cancelled

type_synonym client = "asgi_message list \<Rightarrow> asgi_message \<Rightarrow> hook_outcome"

text \<open>One awaited send: the message is logged, and the client decides how the await ends.\<close>

definition send_to :: "client \<Rightarrow> asgi_message \<Rightarrow> asgi_message list \<Rightarrow> (asgi_exn, unit) result \<times> asgi_message list" where
  "send_to cl m sent =
     ((case cl sent m of Returns \<Rightarrow> Inr () | Raises \<Rightarrow> Inl Asgi_failed | Cancels \<Rightarrow> Inl Asgi_cancelled), sent @ [m])"

definition json_headers :: "string \<Rightarrow> asgi_headers" where
  "json_headers body = Header_pairs [(''content-type'', ''application/json''),
     (''content-length'', nat_digits (length body)), (''cache-control'', ''no-store'')]"

definition send_json :: "client \<Rightarrow> int \<Rightarrow> string \<Rightarrow> asgi_message list \<Rightarrow> (asgi_exn, unit) result \<times> asgi_message list" where
  "send_json cl status body sent =
     run_then (send_to cl (Response_start (Some status) (json_headers body)) sent) (\<lambda>_ t.
     send_to cl (Response_body (Some body) False) t)"

definition send_metrics :: "client \<Rightarrow> string \<Rightarrow> bool \<Rightarrow> asgi_message list \<Rightarrow> (asgi_exn, unit) result \<times> asgi_message list" where
  "send_metrics cl body head sent =
     run_then (send_to cl (Response_start (Some 200) (Header_pairs
       [(''content-type'', ''text/plain; version=0.0.4; charset=utf-8''), (''content-length'', nat_digits (length body)),
        (''cache-control'', ''no-store''), (''x-content-type-options'', ''nosniff'')])) sent) (\<lambda>_ t.
     send_to cl (Response_body (Some (if head then [] else body)) False) t)"

subsection \<open>Protocol errors\<close>

datatype rpc_code = Invalid_request | Invalid_params | Rpc_internal

text \<open>The codes JSON-RPC reserves for these errors, which the protocol library names.\<close>

fun rpc_number :: "rpc_code \<Rightarrow> int" where
  "rpc_number Invalid_request = - 32600"
| "rpc_number Invalid_params = - 32602"
| "rpc_number Rpc_internal = - 32603"

definition protocol_error :: "rpc_code \<Rightarrow> string \<Rightarrow> pyval option \<Rightarrow> pyval" where
  "protocol_error c message extra =
     obj [(''jsonrpc'', PStr ''2.0''), (''id'', PNone), (''error'', obj
       ([(''code'', PInt (rpc_number c)), (''message'', PStr message)] @ (case extra of None \<Rightarrow> [] | Some v \<Rightarrow> [(''data'', v)])))]"

text \<open>\<open>render\<close> is the serializer of the model library; the error document it gets is the model's.\<close>

definition protocol_error_body :: "(pyval \<Rightarrow> string) \<Rightarrow> rpc_code \<Rightarrow> string \<Rightarrow> pyval option \<Rightarrow> string" where
  "protocol_error_body render c message extra = render (protocol_error c message extra)"

subsection \<open>The limiter\<close>

record limiter =
  al_start :: "(int option \<times> asgi_headers) option"
  al_body :: string
  al_ready :: bool
  al_committed :: bool
  al_completed :: bool
  al_discarded :: bool
  al_sent :: "asgi_message list"

definition fresh_limiter :: "asgi_message list \<Rightarrow> limiter" where
  "fresh_limiter sent = \<lparr>al_start = None, al_body = [], al_ready = False, al_committed = False,
     al_completed = False, al_discarded = False, al_sent = sent\<rparr>"

fun response_header_pairs :: "asgi_headers \<Rightarrow> (asgi_exn, (string \<times> string) list) result" where
  "response_header_pairs No_headers = Inr []"
| "response_header_pairs (Header_pairs hs) = Inr hs"
| "response_header_pairs Bad_headers = Inl Asgi_failed"

definition limiter_send :: "client \<Rightarrow> asgi_message \<Rightarrow> limiter \<Rightarrow> (asgi_exn, unit) result \<times> limiter" where
  "limiter_send cl m l = (case send_to cl m (al_sent l) of (r, sent) \<Rightarrow> (r, l\<lparr>al_sent := sent\<rparr>))"

fun limiter_message :: "client \<Rightarrow> int \<Rightarrow> asgi_message \<Rightarrow> limiter \<Rightarrow> (asgi_exn, unit) result \<times> limiter" where
  "limiter_message cl maximum (Response_start status hs) l =
     (Inr (), if al_discarded l then l else l\<lparr>al_start := Some (status, hs)\<rparr>)"
| "limiter_message cl maximum Other_message l =
     (if al_discarded l then (Inr (), l) else limiter_send cl Other_message l)"
| "limiter_message cl maximum (Response_body body more_body) l =
     (if al_discarded l then (Inr (), l)
      else (case body of None \<Rightarrow> (Inl Asgi_failed, l)
        | Some b \<Rightarrow>
            if int (length (al_body l) + length b) > maximum then (Inl Asgi_overflow, l)
            else let l1 = l\<lparr>al_body := al_body l @ b\<rparr> in
              if more_body then (Inr (), l1)
              else if al_start l = None then (Inl Asgi_failed, l1)
              else (Inr (), l1\<lparr>al_ready := True\<rparr>)))"

text \<open>The status and the headers of a response that is ready; reading them earlier raises.\<close>

definition limiter_status :: "limiter \<Rightarrow> (asgi_exn, int) result" where
  "limiter_status l =
     (case al_start l of Some (Some status, hs) \<Rightarrow> raise_if (\<not> al_ready l) Asgi_failed (Inr status) | _ \<Rightarrow> Inl Asgi_failed)"

definition limiter_header_values :: "string \<Rightarrow> limiter \<Rightarrow> (asgi_exn, string list) result" where
  "limiter_header_values name l =
     (case al_start l of None \<Rightarrow> Inl Asgi_failed
      | Some (status, hs) \<Rightarrow>
          raise_if (\<not> al_ready l) Asgi_failed
            (and_then (response_header_pairs hs) (\<lambda>pairs.
             Inr (map snd (filter (\<lambda>(k, v). map lower_ascii k = map lower_ascii name) pairs)))))"

definition measured_headers :: "(string \<times> string) list \<Rightarrow> string \<Rightarrow> (string \<times> string) list" where
  "measured_headers pairs body =
     filter (\<lambda>(k, v). map lower_ascii k \<noteq> ''content-length'') pairs @ [(''content-length'', nat_digits (length body))]"

definition limiter_flush :: "client \<Rightarrow> limiter \<Rightarrow> (asgi_exn, unit) result \<times> limiter" where
  "limiter_flush cl l =
     (case al_start l of None \<Rightarrow> (Inl Asgi_failed, l)
      | Some (status, hs) \<Rightarrow>
          if \<not> al_ready l then (Inl Asgi_failed, l)
          else (case response_header_pairs hs of Inl e \<Rightarrow> (Inl e, l)
            | Inr pairs \<Rightarrow>
                let headers = Header_pairs (measured_headers pairs (al_body l)) in
                run_then (limiter_send cl (Response_start status headers)
                    (l\<lparr>al_start := Some (status, headers), al_committed := True\<rparr>)) (\<lambda>_ l1.
                run_then (limiter_send cl (Response_body (Some (al_body l)) False) l1) (\<lambda>_ l2.
                (Inr (), l2\<lparr>al_completed := True\<rparr>)))))"

definition limiter_discard :: "limiter \<Rightarrow> limiter" where
  "limiter_discard l = l\<lparr>al_discarded := True, al_start := None, al_body := []\<rparr>"

text \<open>
  The library sends its messages one by one, and goes on after an exception of the limiter if it
  catches it; so every message of a run is offered.
\<close>

definition limiter_feed :: "client \<Rightarrow> int \<Rightarrow> asgi_message list \<Rightarrow> limiter \<Rightarrow> limiter" where
  "limiter_feed cl maximum ms l = fold (\<lambda>m l. snd (limiter_message cl maximum m l)) ms l"

subsection \<open>What the limiter keeps\<close>

fun is_response :: "asgi_message \<Rightarrow> bool" where
  "is_response (Response_start s h) = True"
| "is_response (Response_body b m) = True"
| "is_response Other_message = False"

definition held_back :: "int \<Rightarrow> limiter \<Rightarrow> bool" where
  "held_back maximum l \<longleftrightarrow>
     \<not> list_ex is_response (al_sent l) \<and> int (length (al_body l)) \<le> max maximum 0 \<and>
     \<not> al_committed l \<and> (al_ready l \<longrightarrow> al_discarded l \<or> al_start l \<noteq> None)"

lemma held_back_fresh: "held_back maximum (fresh_limiter [])"
  by (simp add: held_back_def fresh_limiter_def)

lemma held_back_message: "held_back maximum l \<Longrightarrow> held_back maximum (snd (limiter_message cl maximum m l))"
  by (cases m) (auto simp: held_back_def limiter_send_def send_to_def Let_def split: option.splits)

lemma held_back_feed: "held_back maximum l \<Longrightarrow> held_back maximum (limiter_feed cl maximum ms l)"
  unfolding limiter_feed_def by (induction ms arbitrary: l) (auto intro: held_back_message)

text \<open>
  What a client can have of a response after a flush: nothing, its start, or its start and the whole
  body, with one content length that is the length of that body.
\<close>

definition library_headers :: "limiter \<Rightarrow> (string \<times> string) list" where
  "library_headers l =
     (case al_start l of Some (status, hs) \<Rightarrow> (case response_header_pairs hs of Inr pairs \<Rightarrow> pairs | Inl e \<Rightarrow> []) | None \<Rightarrow> [])"

definition library_status :: "limiter \<Rightarrow> int option" where
  "library_status l = (case al_start l of Some (status, hs) \<Rightarrow> status | None \<Rightarrow> None)"

definition whole_response :: "limiter \<Rightarrow> asgi_message list" where
  "whole_response l =
     [Response_start (library_status l) (Header_pairs (measured_headers (library_headers l) (al_body l))),
      Response_body (Some (al_body l)) False]"

lemma measured_once:
  "map snd (filter (\<lambda>(k, v). map lower_ascii k = ''content-length'') (measured_headers pairs body)) = [nat_digits (length body)]"
proof -
  have len: "map lower_ascii ''content-length'' = ''content-length''" by code_simp
  have "filter (\<lambda>(k, v). map lower_ascii k = ''content-length'') (filter (\<lambda>(k, v). map lower_ascii k \<noteq> ''content-length'') pairs) = []"
    by (auto simp: filter_empty_conv)
  then show ?thesis using len by (simp add: measured_headers_def)
qed

lemma flush_ready:
  assumes "al_start l = Some (status, hs)" "response_header_pairs hs = Inr pairs" "al_ready l"
  shows "limiter_flush cl l =
    (let l1 = l\<lparr>al_start := Some (status, Header_pairs (measured_headers pairs (al_body l))), al_committed := True\<rparr> in
     run_then (limiter_send cl (Response_start status (Header_pairs (measured_headers pairs (al_body l)))) l1) (\<lambda>_ l1.
     run_then (limiter_send cl (Response_body (Some (al_body l)) False) l1) (\<lambda>_ l2. (Inr (), l2\<lparr>al_completed := True\<rparr>))))"
    and "whole_response l = [Response_start status (Header_pairs (measured_headers pairs (al_body l))), Response_body (Some (al_body l)) False]"
  using assms by (simp_all add: limiter_flush_def Let_def whole_response_def library_status_def library_headers_def)

lemma flush_not_ready:
  assumes "\<nexists>status hs pairs. al_start l = Some (status, hs) \<and> response_header_pairs hs = Inr pairs \<and> al_ready l"
  shows "\<exists>e. limiter_flush cl l = (Inl e, l)"
  using assms by (auto simp: limiter_flush_def split: option.split sum.split)

lemma flush_sends:
  assumes "\<not> list_ex is_response (al_sent l)"
  shows "filter is_response (al_sent (snd (limiter_flush cl l))) \<in> {[], take 1 (whole_response l), whole_response l} \<and>
    (fst (limiter_flush cl l) = Inr () \<longrightarrow> filter is_response (al_sent (snd (limiter_flush cl l))) = whole_response l)"
proof -
  have none: "filter is_response (al_sent l) = []" using assms by (auto simp: list_ex_iff filter_empty_conv)
  show ?thesis
  proof (cases "\<exists>status hs pairs. al_start l = Some (status, hs) \<and> response_header_pairs hs = Inr pairs \<and> al_ready l")
    case False
    from flush_not_ready [OF False, of cl] none show ?thesis by auto
  next
    case True
    then obtain status hs pairs where "al_start l = Some (status, hs)" "response_header_pairs hs = Inr pairs" "al_ready l" by blast
    note r = flush_ready(1) [OF this, of cl] flush_ready(2) [OF this]
    let ?m = "Response_start status (Header_pairs (measured_headers pairs (al_body l)))"
    show ?thesis
      by (cases "cl (al_sent l) ?m"; cases "cl (al_sent l @ [?m]) (Response_body (Some (al_body l)) False)")
        (simp_all add: r limiter_send_def send_to_def none)
  qed
qed


end
