(* ===== verification/Http_Sessions.thy ===== *)
theory Http_Sessions
  imports Http_Response
begin

section \<open>Sessions of the streamable HTTP transport\<close>

text \<open>
  Models the session table of \<^verbatim>\<open>src/tesserix_mcp_runtime/adapters/streamable_http.py\<close>: admission, abort,
  release and completion of the requests of stateful sessions, and the removal of sessions from the
  registry of the protocol library. Every operation changes the table under one lock, in one step of
  the model; the awaits between (the terminations) only touch the registry. Whether a termination
  ends, raises or is cancelled is an environment.
\<close>

subsection \<open>State\<close>

type_synonym session_owner = "string \<times> string \<times> string"

record session_record =
  sr_owner :: session_owner
  sr_expires :: pyfloat
  sr_in_flight :: nat
  sr_expired :: bool

record session_lease =
  le_session :: "string option"
  le_reserved :: bool
  le_owner :: "session_owner option"

definition no_lease :: session_lease where
  "no_lease = \<lparr>le_session = None, le_reserved = False, le_owner = None\<rparr>"

record session_refusal =
  rf_status :: int
  rf_code :: rpc_code
  rf_message :: string

datatype session_exn = Session_refused session_refusal | Session_failed | Session_cancelled

text \<open>The two private dictionaries of the library's session manager, when they are dictionaries.\<close>

record sdk_registry =
  sk_available :: bool
  sk_instances :: "string list"
  sk_owners :: "string list"

datatype session_ending = Terminated | Termination_raises | Termination_cancelled | Not_terminable

record session_state =
  hs_sessions :: "(string \<times> session_record) list"
  hs_pending :: nat
  hs_sdk :: sdk_registry

record session_config =
  sg_stateless :: bool
  sg_max_sessions :: int
  sg_lifetime :: pyfloat
  sg_handshake :: "string list"

definition session_owner_of :: "call_context \<Rightarrow> session_owner" where
  "session_owner_of c = (ctx_tenant c, ctx_issuer c, ctx_subject c)"

definition valid_session_id :: "string \<Rightarrow> bool" where
  "valid_session_id v \<longleftrightarrow> length v = 32 \<and> list_all is_hex v"

subsection \<open>Removal\<close>

fun expire :: "pyfloat \<Rightarrow> (string \<times> session_record) list \<Rightarrow> (string \<times> session_record) list \<times> string list" where
  "expire now [] = ([], [])"
| "expire now ((k, r) # rs) =
     (let (kept, gone) = expire now rs in
      if now < sr_expires r then ((k, r) # kept, gone)
      else if sr_in_flight r = 0 then (kept, k # gone)
      else ((k, r\<lparr>sr_expired := True\<rparr>) # kept, gone))"

definition remove_sdk_session :: "(string \<Rightarrow> session_ending) \<Rightarrow> string \<Rightarrow> bool \<Rightarrow> session_state \<Rightarrow> (session_exn, unit) result \<times> session_state" where
  "remove_sdk_session ends sid terminate s =
     (let g = hs_sdk s;
          t = s\<lparr>hs_sdk := g\<lparr>sk_instances := removeAll sid (sk_instances g), sk_owners := removeAll sid (sk_owners g)\<rparr>\<rparr>
      in if \<not> sk_available g then (Inl Session_failed, s)
         else if \<not> terminate \<or> sid \<notin> set (sk_instances g) then (Inr (), t)
         else ((case ends sid of Terminated \<Rightarrow> Inr () | Termination_cancelled \<Rightarrow> Inl Session_cancelled
                | Termination_raises \<Rightarrow> Inl Session_failed | Not_terminable \<Rightarrow> Inl Session_failed), t))"

fun remove_sdk_sessions :: "(string \<Rightarrow> session_ending) \<Rightarrow> string list \<Rightarrow> session_state \<Rightarrow> (session_exn, unit) result \<times> session_state" where
  "remove_sdk_sessions ends [] s = (Inr (), s)"
| "remove_sdk_sessions ends (sid # sids) s =
     run_then (remove_sdk_session ends sid True s) (\<lambda>_ t. remove_sdk_sessions ends sids t)"

subsection \<open>Admission\<close>

definition session_refused :: "int \<Rightarrow> rpc_code \<Rightarrow> string \<Rightarrow> session_refusal" where
  "session_refused status code message = \<lparr>rf_status = status, rf_code = code, rf_message = message\<rparr>"

abbreviation invalid_session :: "int \<Rightarrow> session_refusal" where
  "invalid_session status \<equiv> session_refused status Invalid_request ''Invalid session''"

text \<open>What happens under the lock, after the expired sessions are taken out.\<close>

definition admit_locked ::
  "session_config \<Rightarrow> string list \<Rightarrow> string list \<Rightarrow> session_owner \<Rightarrow> session_state \<Rightarrow> (session_refusal, session_lease) result \<times> session_state" where
  "admit_locked g ids versions owner s =
     (case ids of
        sid # _ \<Rightarrow>
          (case map_of (hs_sessions s) sid of
             None \<Rightarrow> (Inl (invalid_session 404), s)
           | Some r \<Rightarrow>
               if \<not> valid_session_id sid \<or> sr_expired r \<or> sr_owner r \<noteq> owner then (Inl (invalid_session 404), s)
               else (Inr (no_lease\<lparr>le_session := Some sid\<rparr>),
                     s\<lparr>hs_sessions := dict_put sid (r\<lparr>sr_in_flight := Suc (sr_in_flight r)\<rparr>) (hs_sessions s)\<rparr>))
      | [] \<Rightarrow>
          (case versions of
             v # _ \<Rightarrow> if v \<in> set (sg_handshake g) then (Inl (invalid_session 404), s) else (Inr no_lease, s)
           | [] \<Rightarrow>
               if int (length (hs_sessions s) + hs_pending s) \<ge> sg_max_sessions g
               then (Inl (session_refused 429 Rpc_internal ''Session limit reached''), s)
               else (Inr (no_lease\<lparr>le_reserved := True, le_owner := Some owner\<rparr>), s\<lparr>hs_pending := Suc (hs_pending s)\<rparr>)))"

definition named_headers :: "string \<Rightarrow> (string \<times> string) list \<Rightarrow> string list" where
  "named_headers name hs = map snd (filter (\<lambda>(k, v). k = name) hs)"

definition lock_admit ::
  "session_config \<Rightarrow> pyfloat \<Rightarrow> string list \<Rightarrow> string list \<Rightarrow> session_owner \<Rightarrow> session_state
     \<Rightarrow> (session_refusal, session_lease) result \<times> string list \<times> session_state" where
  "lock_admit g now ids versions owner s =
     (let (kept, gone) = expire now (hs_sessions s);
          (r, t) = admit_locked g ids versions owner (s\<lparr>hs_sessions := kept\<rparr>)
      in (r, gone, t))"

definition admit_session ::
  "session_config \<Rightarrow> (string \<Rightarrow> session_ending) \<Rightarrow> pyfloat \<Rightarrow> (string \<times> string) list \<Rightarrow> call_context \<Rightarrow> session_state
     \<Rightarrow> (session_exn, session_lease) result \<times> session_state" where
  "admit_session g ends now hs c s =
     (let ids = named_headers ''mcp-session-id'' hs; versions = named_headers ''mcp-protocol-version'' hs in
      if sg_stateless g then (Inr no_lease, s)
      else if length ids > 1 \<or> length versions > 1 then (Inl (Session_refused (invalid_session 400)), s)
      else
        let (r, gone, t) = lock_admit g now ids versions (session_owner_of c) s in
        run_then (remove_sdk_sessions ends gone t) (\<lambda>_ u.
        ((case r of Inl e \<Rightarrow> Inl (Session_refused e) | Inr l \<Rightarrow> Inr l), u)))"

subsection \<open>Release\<close>

text \<open>What happens under the lock: whether the session goes, and whether it is terminated then.\<close>

definition lock_release :: "string \<Rightarrow> bool \<Rightarrow> bool \<Rightarrow> session_state \<Rightarrow> bool option \<times> session_state" where
  "lock_release sid remove terminate s =
     (case map_of (hs_sessions s) sid of
        None \<Rightarrow> (None, s)
      | Some r \<Rightarrow>
          let r1 = r\<lparr>sr_in_flight := sr_in_flight r - 1\<rparr> in
          if remove then (Some terminate, s\<lparr>hs_sessions := dict_del sid (hs_sessions s)\<rparr>)
          else if sr_expired r1 \<and> sr_in_flight r1 = 0 then (Some True, s\<lparr>hs_sessions := dict_del sid (hs_sessions s)\<rparr>)
          else (None, s\<lparr>hs_sessions := dict_put sid r1 (hs_sessions s)\<rparr>))"

definition release_session ::
  "(string \<Rightarrow> session_ending) \<Rightarrow> string \<Rightarrow> bool \<Rightarrow> bool \<Rightarrow> session_state \<Rightarrow> (session_exn, unit) result \<times> session_state" where
  "release_session ends sid remove terminate s =
     (case lock_release sid remove terminate s of
        (None, t) \<Rightarrow> (Inr (), t)
      | (Some term, t) \<Rightarrow> remove_sdk_session ends sid term t)"

definition return_reservation :: "session_state \<Rightarrow> (session_exn, unit) result \<times> session_state" where
  "return_reservation s =
     (if hs_pending s < 1 then (Inl Session_failed, s) else (Inr (), s\<lparr>hs_pending := hs_pending s - 1\<rparr>))"

definition abort_session ::
  "(string \<Rightarrow> session_ending) \<Rightarrow> session_lease \<Rightarrow> session_state \<Rightarrow> (session_exn, unit) result \<times> session_state" where
  "abort_session ends l s =
     (if le_reserved l then return_reservation s
      else (case le_session l of None \<Rightarrow> (Inr (), s) | Some sid \<Rightarrow> release_session ends sid False False s))"

subsection \<open>Completion\<close>

definition successful :: "int \<Rightarrow> bool" where
  "successful status \<longleftrightarrow> 200 \<le> status \<and> status < 300"

text \<open>The session the response names: one header value, in ASCII.\<close>

definition answered_session :: "string list \<Rightarrow> string option" where
  "answered_session vs = (case vs of [v] \<Rightarrow> if list_all (\<lambda>c. ord_of c < 128) v then Some v else None | _ \<Rightarrow> None)"

definition register_session ::
  "session_config \<Rightarrow> pyfloat \<Rightarrow> bool \<Rightarrow> string option \<Rightarrow> session_owner option \<Rightarrow> session_state
     \<Rightarrow> (session_exn, bool) result \<times> session_state" where
  "register_session g now ok answered lease_owner s =
     run_then (return_reservation s) (\<lambda>_ t.
     case answered of None \<Rightarrow> (Inr False, t)
     | Some sid \<Rightarrow>
         (case lease_owner of None \<Rightarrow> (Inr False, t)
          | Some owner \<Rightarrow>
              if ok \<and> valid_session_id sid \<and> map_of (hs_sessions t) sid = None
              then (Inr True, t\<lparr>hs_sessions := dict_put sid \<lparr>sr_owner = owner, sr_expires = now + sg_lifetime g,
                      sr_in_flight = 0, sr_expired = False\<rparr> (hs_sessions t)\<rparr>)
              else (Inr False, t)))"

definition asgi_session :: "(asgi_exn, 'a) result \<Rightarrow> (session_exn, 'a) result" where
  "asgi_session r = (case r of Inl e \<Rightarrow> Inl Session_failed | Inr a \<Rightarrow> Inr a)"

definition complete_session ::
  "session_config \<Rightarrow> (string \<Rightarrow> session_ending) \<Rightarrow> pyfloat \<Rightarrow> session_lease \<Rightarrow> limiter \<Rightarrow> string \<Rightarrow> session_state
     \<Rightarrow> (session_exn, unit) result \<times> session_state" where
  "complete_session g ends now l resp method_name s =
     (if le_reserved l then
        run_then (asgi_session (limiter_header_values ''mcp-session-id'' resp), s) (\<lambda>vs s.
        let answered = answered_session vs in
        run_then (asgi_session (limiter_status resp), s) (\<lambda>status s.
        run_then (register_session g now (successful status) answered (le_owner l) s) (\<lambda>registered t.
        run_then (case answered of Some sid \<Rightarrow> if registered then (Inr (), t) else remove_sdk_session ends sid True t
                  | None \<Rightarrow> (Inr (), t)) (\<lambda>_ u.
        (raise_if (successful status \<and> \<not> registered) Session_failed (Inr ()), u)))))
      else (case le_session l of None \<Rightarrow> (Inr (), s)
        | Some sid \<Rightarrow>
            if method_name \<noteq> ''DELETE'' then release_session ends sid False False s
            else run_then (asgi_session (limiter_status resp), s) (\<lambda>status t.
              release_session ends sid (successful status) False t)))"

subsection \<open>The session machine\<close>

text \<open>
  The sections under the lock are the steps, with the leases that are out as a ghost: a lease that is
  given to no one, because the removals after an admission fail, stays out. The registry of the
  library changes at any time. A stop empties the table whatever is out.
\<close>

type_synonym session_world = "session_state \<times> session_lease list"

inductive session_step :: "session_config \<Rightarrow> session_world \<Rightarrow> session_world \<Rightarrow> bool" for g where
  step_admitted: "lock_admit g now ids versions owner s = (Inr l, gone, t) \<Longrightarrow> session_step g (s, out) (t, l # out)"
| step_refused: "lock_admit g now ids versions owner s = (Inl e, gone, t) \<Longrightarrow> session_step g (s, out) (t, out)"
| step_returned: "l \<in> set out \<Longrightarrow> le_reserved l \<Longrightarrow> return_reservation s = (r, t) \<Longrightarrow> session_step g (s, out) (t, remove1 l out)"
| step_registered: "l \<in> set out \<Longrightarrow> le_reserved l \<Longrightarrow> register_session g now ok answered (le_owner l) s = (r, t) \<Longrightarrow>
    session_step g (s, out) (t, remove1 l out)"
| step_released: "l \<in> set out \<Longrightarrow> le_session l = Some sid \<Longrightarrow> lock_release sid remove terminate s = (r, t) \<Longrightarrow>
    session_step g (s, out) (t, remove1 l out)"
| step_passed: "session_step g (s, out) (s, remove1 no_lease out)"
| step_registry: "session_step g (s, out) (s\<lparr>hs_sdk := k\<rparr>, out)"
| step_stopped: "session_step g (s, out) (s\<lparr>hs_sessions := [], hs_pending := 0\<rparr>, out)"

inductive_cases session_stepE: "session_step g a b"

definition sessions_start :: "session_world \<Rightarrow> bool" where
  "sessions_start w \<longleftrightarrow> hs_sessions (fst w) = [] \<and> hs_pending (fst w) = 0 \<and> snd w = []"

definition leases_on :: "string \<Rightarrow> session_lease list \<Rightarrow> nat" where
  "leases_on sid out = length (filter (\<lambda>l. le_session l = Some sid) out)"

definition reservations :: "session_lease list \<Rightarrow> nat" where
  "reservations out = length (filter le_reserved out)"

definition record_ok :: "session_lease list \<Rightarrow> string \<Rightarrow> session_record \<Rightarrow> bool" where
  "record_ok out sid r \<longleftrightarrow> valid_session_id sid \<and> (sr_expired r \<longrightarrow> 0 < sr_in_flight r) \<and> sr_in_flight r \<le> leases_on sid out"

definition lease_ok :: "session_lease \<Rightarrow> bool" where
  "lease_ok l \<longleftrightarrow> (if le_reserved l then le_session l = None \<and> le_owner l \<noteq> None else le_owner l = None)"

definition sessions_inv :: "session_config \<Rightarrow> session_world \<Rightarrow> bool" where
  "sessions_inv g w \<longleftrightarrow> (let s = fst w; out = snd w in
     distinct (map fst (hs_sessions s)) \<and> (\<forall>(sid, r)\<in>set (hs_sessions s). record_ok out sid r) \<and>
     int (length (hs_sessions s) + hs_pending s) \<le> max (sg_max_sessions g) 0 \<and>
     hs_pending s \<le> reservations out \<and> list_all lease_ok out)"

lemma length_remove1_filter:
  "length (filter P (remove1 x xs)) = (if x \<in> set xs \<and> P x then length (filter P xs) - 1 else length (filter P xs))"
proof (induction xs)
  case (Cons y ys)
  have "x \<in> set ys \<Longrightarrow> P x \<Longrightarrow> 0 < length (filter P ys)" by (auto simp: filter_empty_conv)
  then show ?case using Cons.IH by (cases "x \<in> set ys"; cases "P x") (auto simp: Suc_diff_1)
qed simp

lemma leases_on_simps [simp]:
  "leases_on sid (l # out) = (if le_session l = Some sid then Suc (leases_on sid out) else leases_on sid out)"
  "leases_on sid [] = 0"
  by (simp_all add: leases_on_def)

lemma reservations_simps [simp]:
  "reservations (l # out) = (if le_reserved l then Suc (reservations out) else reservations out)"
  "reservations [] = 0"
  by (simp_all add: reservations_def)

lemma leases_on_remove1: "leases_on sid (remove1 l out) = (if l \<in> set out \<and> le_session l = Some sid then leases_on sid out - 1 else leases_on sid out)"
  by (simp add: leases_on_def length_remove1_filter)

lemma reservations_remove1: "reservations (remove1 l out) = (if l \<in> set out \<and> le_reserved l then reservations out - 1 else reservations out)"
  by (simp add: reservations_def length_remove1_filter)

lemma list_all_remove1: "list_all P xs \<Longrightarrow> list_all P (remove1 x xs)"
  by (auto simp: list_all_iff dest: notin_set_remove1)

definition kept_from :: "pyfloat \<Rightarrow> session_record \<Rightarrow> session_record \<Rightarrow> bool" where
  "kept_from now r0 r \<longleftrightarrow> (if now < sr_expires r0 then r = r0 else r = r0\<lparr>sr_expired := True\<rparr> \<and> 0 < sr_in_flight r0)"

lemma expire_kept:
  "(sid, r) \<in> set (fst (expire now d)) \<Longrightarrow> \<exists>r0. (sid, r0) \<in> set d \<and> kept_from now r0 r"
proof (induction d)
  case (Cons kr d)
  obtain k0 r0 where kr: "kr = (k0, r0)" by (cases kr)
  have "(sid, r) \<in> set (fst (expire now d)) \<or> (sid = k0 \<and> kept_from now r0 r)"
    using Cons.prems by (auto simp: kr Let_def kept_from_def split: prod.splits if_splits)
  then show ?case using Cons.IH by (auto simp: kr)
qed simp

lemma expire_keys: "expire now d = (kept, gone) \<Longrightarrow> set (map fst kept) \<subseteq> set (map fst d) \<and> length kept \<le> length d \<and>
    (distinct (map fst d) \<longrightarrow> distinct (map fst kept))"
proof (induction d arbitrary: kept gone)
  case (Cons kr d)
  obtain k0 r0 where kr: "kr = (k0, r0)" by (cases kr)
  obtain kept1 gone1 where e: "expire now d = (kept1, gone1)" by (cases "expire now d")
  have keys: "fst ` set kept1 \<subseteq> fst ` set d" "length kept1 \<le> length d" "distinct (map fst d) \<longrightarrow> distinct (map fst kept1)"
    using Cons.IH [OF e] by auto
  consider "kept = (k0, r0) # kept1" | "kept = kept1" | "kept = (k0, r0\<lparr>sr_expired := True\<rparr>) # kept1"
    using Cons.prems by (auto simp: kr e Let_def split: if_splits)
  then show ?case using keys by cases (auto simp: kr dest: subsetD)
qed simp

lemma set_dict_put_cases: "distinct (map fst d) \<Longrightarrow> (k, v) \<in> set (dict_put k0 v0 d) \<Longrightarrow> (k = k0 \<and> v = v0) \<or> (k \<noteq> k0 \<and> (k, v) \<in> set d)"
  by (metis distinct_dict_put fun_upd_apply map_of_dict_put map_of_eq_Some_iff option.inject)

lemma length_dict_put_present: "map_of d k = Some v0 \<Longrightarrow> length (dict_put k v d) = length d"
  by (induction d) auto

lemma length_dict_put_le: "length (dict_put k v d) \<le> Suc (length d)"
  by (induction d) auto

lemma set_dict_del: "kv \<in> set (dict_del k d) \<longleftrightarrow> kv \<in> set d \<and> fst kv \<noteq> k"
  by (auto simp: dict_del_def)

lemma length_dict_del_le: "length (dict_del k d) \<le> length d"
  by (simp add: dict_del_def)

lemma record_ok_more: "record_ok out sid r \<Longrightarrow> record_ok (l # out) sid r"
  by (auto simp: record_ok_def)

lemma record_ok_other: "record_ok out sid r \<Longrightarrow> le_session l \<noteq> Some sid \<Longrightarrow> record_ok (remove1 l out) sid r"
  by (simp add: record_ok_def leases_on_remove1)

lemma sessions_inv_expire:
  assumes "sessions_inv g (s, out)" "expire now (hs_sessions s) = (kept, gone)"
  shows "sessions_inv g (s\<lparr>hs_sessions := kept\<rparr>, out)"
proof -
  have "record_ok out sid r" if mem: "(sid, r) \<in> set kept" for sid r
  proof -
    obtain r0 where r0: "(sid, r0) \<in> set (hs_sessions s)" "kept_from now r0 r"
      using expire_kept [of sid r now "hs_sessions s"] mem assms(2) by auto
    then have "record_ok out sid r0" using assms(1) by (auto simp: sessions_inv_def Let_def)
    then show ?thesis using r0(2) by (auto simp: record_ok_def kept_from_def split: if_splits)
  qed
  then show ?thesis using assms(1) expire_keys [OF assms(2)] by (auto simp: sessions_inv_def Let_def)
qed

lemma admit_locked_inv:
  assumes "sessions_inv g (s, out)" "admit_locked g ids versions owner s = (Inr l, t)"
  shows "sessions_inv g (t, l # out)"
proof (cases ids)
  case (Cons sid rest)
  with assms(2) obtain r where r: "map_of (hs_sessions s) sid = Some r" "valid_session_id sid" "\<not> sr_expired r"
      and l: "l = no_lease\<lparr>le_session := Some sid\<rparr>"
      and t: "t = s\<lparr>hs_sessions := dict_put sid (r\<lparr>sr_in_flight := Suc (sr_in_flight r)\<rparr>) (hs_sessions s)\<rparr>"
    by (auto simp: admit_locked_def split: option.splits if_splits)
  have inv: "distinct (map fst (hs_sessions s))" "\<And>k v. (k, v) \<in> set (hs_sessions s) \<Longrightarrow> record_ok out k v"
    using assms(1) by (auto simp: sessions_inv_def Let_def)
  have "record_ok (l # out) k v" if "(k, v) \<in> set (hs_sessions t)" for k v
    using set_dict_put_cases [OF inv(1), of k v] that inv(2) map_of_SomeD [OF r(1)] r(2,3)
    by (fastforce simp: t l record_ok_def no_lease_def)
  then show ?thesis using assms(1) length_dict_put_present [OF r(1)] distinct_dict_put [OF inv(1)]
    by (auto simp: sessions_inv_def Let_def t l no_lease_def lease_ok_def)
next
  case Nil
  have more_ok: "\<forall>(k, v)\<in>set (hs_sessions s). record_ok (l # out) k v"
    using assms(1) record_ok_more by (fastforce simp: sessions_inv_def Let_def)
  show ?thesis
  proof (cases versions)
    case (Cons v vs)
    then have "t = s" "l = no_lease" using assms(2) Nil by (auto simp: admit_locked_def split: if_splits)
    then show ?thesis using assms(1) more_ok by (auto simp: sessions_inv_def Let_def no_lease_def lease_ok_def)
  next
    case Nil2: Nil
    then have "t = s\<lparr>hs_pending := Suc (hs_pending s)\<rparr>" "l = no_lease\<lparr>le_reserved := True, le_owner := Some owner\<rparr>"
      and "int (length (hs_sessions s) + hs_pending s) < sg_max_sessions g"
      using assms(2) Nil by (auto simp: admit_locked_def split: if_splits)
    then show ?thesis using assms(1) more_ok by (auto simp: sessions_inv_def Let_def no_lease_def lease_ok_def)
  qed
qed

lemma admit_locked_refused: "admit_locked g ids versions owner s = (Inl e, t) \<Longrightarrow> t = s"
  by (auto simp: admit_locked_def split: list.splits option.splits if_splits)

lemma sessions_inv_fewer:
  assumes "sessions_inv g (s, out)" "le_session l = None" "hs_pending t \<le> reservations (remove1 l out)"
    and "hs_sessions t = hs_sessions s" "hs_pending t \<le> hs_pending s"
  shows "sessions_inv g (t, remove1 l out)"
proof -
  have "record_ok (remove1 l out) k v" if "record_ok out k v" for k v
    using that assms(2) by (intro record_ok_other) auto
  then show ?thesis using assms by (auto simp: sessions_inv_def Let_def list_all_remove1)
qed

lemma return_reservation_inv:
  assumes "sessions_inv g (s, out)" "l \<in> set out" "le_reserved l" "return_reservation s = (r, t)"
  shows "sessions_inv g (t, remove1 l out)"
proof (rule sessions_inv_fewer [OF assms(1)])
  have ok: "lease_ok l" "hs_pending s \<le> reservations out"
    using assms(1,2) by (auto simp: sessions_inv_def Let_def list_all_iff)
  then show "le_session l = None" using assms(3) by (simp add: lease_ok_def)
  show "hs_pending t \<le> reservations (remove1 l out)"
    using ok(2) assms(2-4) by (auto simp: return_reservation_def reservations_remove1 split: if_splits)
  show "hs_sessions t = hs_sessions s" "hs_pending t \<le> hs_pending s"
    using assms(4) by (auto simp: return_reservation_def split: if_splits)
qed

lemma register_session_cases:
  assumes "register_session g now ok answered lease_owner s = (r, t)"
  obtains e where "return_reservation s = (e, t)"
  | sid owner u where "return_reservation s = (Inr (), u)" "valid_session_id sid" "map_of (hs_sessions u) sid = None" "lease_owner = Some owner"
      "t = u\<lparr>hs_sessions := dict_put sid \<lparr>sr_owner = owner, sr_expires = now + sg_lifetime g, sr_in_flight = 0, sr_expired = False\<rparr> (hs_sessions u)\<rparr>"
proof -
  obtain e u where ret: "return_reservation s = (e, u)" by (cases "return_reservation s")
  show thesis
  proof (cases "t = u")
    case True
    then show thesis using that(1) ret by blast
  next
    case False
    then obtain sid owner where "e = Inr ()" "answered = Some sid" "lease_owner = Some owner"
      using assms ret by (cases e; cases answered; cases lease_owner) (simp_all add: register_session_def)
    then show thesis using assms ret False that(2) by (simp add: register_session_def split: if_splits)
  qed
qed

lemma register_session_inv:
  assumes inv: "sessions_inv g (s, out)" and l: "l \<in> set out" "le_reserved l"
    and reg: "register_session g now ok answered (le_owner l) s = (r, t)"
  shows "sessions_inv g (t, remove1 l out)"
  using reg
proof (cases rule: register_session_cases)
  case (1 e)
  then show ?thesis using return_reservation_inv [OF inv l] by blast
next
  case (2 sid owner u)
  have u: "u = s\<lparr>hs_pending := hs_pending s - 1\<rparr>" "1 \<le> hs_pending s"
    using 2(1) by (auto simp: return_reservation_def split: if_splits)
  have v: "sessions_inv g (u, remove1 l out)" using return_reservation_inv [OF inv l 2(1)] .
  then have d: "distinct (map fst (hs_sessions u))" by (simp add: sessions_inv_def Let_def)
  have "record_ok (remove1 l out) k w" if "(k, w) \<in> set (hs_sessions t)" for k w
    using set_dict_put_cases [OF d, of k w] that v 2 by (fastforce simp: sessions_inv_def Let_def record_ok_def)
  moreover have "length (hs_sessions t) \<le> Suc (length (hs_sessions s))" by (simp add: 2(5) u length_dict_put_le)
  then have "int (length (hs_sessions t) + hs_pending t) \<le> max (sg_max_sessions g) 0"
    using inv u by (simp add: sessions_inv_def Let_def 2(5))
  ultimately show ?thesis using v distinct_dict_put [OF d] by (auto simp: sessions_inv_def Let_def 2(5))
qed

lemma lock_release_inv:
  assumes inv: "sessions_inv g (s, out)" and l: "l \<in> set out" "le_session l = Some sid"
    and rel: "lock_release sid remove terminate s = (r, t)"
  shows "sessions_inv g (t, remove1 l out)"
proof -
  have base: "distinct (map fst (hs_sessions s))" "\<And>k v. (k, v) \<in> set (hs_sessions s) \<Longrightarrow> record_ok out k v"
    "int (length (hs_sessions s) + hs_pending s) \<le> max (sg_max_sessions g) 0" "hs_pending s \<le> reservations out" "list_all lease_ok out"
    using inv by (auto simp: sessions_inv_def Let_def)
  have notres: "\<not> le_reserved l" using base(5) l by (auto simp: list_all_iff lease_ok_def split: if_splits)
  have pos: "0 < leases_on sid out" using l by (auto simp: leases_on_def filter_empty_conv)
  have out_rest: "list_all lease_ok (remove1 l out)" "reservations (remove1 l out) = reservations out"
    using base(5) notres by (simp_all add: list_all_remove1 reservations_remove1)
  have other: "record_ok (remove1 l out) k v" if "(k, v) \<in> set (hs_sessions s)" "k \<noteq> sid" for k v
    using base(2) [OF that(1)] that(2) l(2) by (intro record_ok_other) auto
  show ?thesis
  proof (cases "map_of (hs_sessions s) sid")
    case None
    then have "\<And>k v. (k, v) \<in> set (hs_sessions s) \<Longrightarrow> k \<noteq> sid" by (auto simp: map_of_eq_None_iff image_iff)
    then show ?thesis using rel None base out_rest other by (auto simp: lock_release_def sessions_inv_def Let_def)
  next
    case (Some x)
    have x: "record_ok out sid x" using base(2) map_of_SomeD [OF Some] by blast
    define y where "y = x\<lparr>sr_in_flight := sr_in_flight x - 1\<rparr>"
    consider (gone) "t = s\<lparr>hs_sessions := dict_del sid (hs_sessions s)\<rparr>"
      | (kept) "t = s\<lparr>hs_sessions := dict_put sid y (hs_sessions s)\<rparr>" "sr_expired y \<longrightarrow> 0 < sr_in_flight y"
      using rel by (auto simp: lock_release_def Some y_def Let_def split: if_splits)
    then show ?thesis
    proof cases
      case gone
      then show ?thesis using base(1,3,4) out_rest other length_dict_del_le [of sid "hs_sessions s"]
        by (fastforce simp: sessions_inv_def Let_def set_dict_del intro: distinct_dict_del)
    next
      case kept
      have "record_ok (remove1 l out) k v" if "(k, v) \<in> set (hs_sessions t)" for k v
        using set_dict_put_cases [OF base(1), of k v sid y] that other kept x pos l
        by (fastforce simp: record_ok_def leases_on_remove1 y_def)
      then show ?thesis using base(1,3,4) out_rest length_dict_put_present [OF Some] distinct_dict_put [OF base(1)]
        by (auto simp: sessions_inv_def Let_def kept(1))
    qed
  qed
qed

lemma lock_admit_inv:
  assumes "sessions_inv g (s, out)" "lock_admit g now ids versions owner s = (r, gone, t)"
  shows "case r of Inl e \<Rightarrow> sessions_inv g (t, out) | Inr l \<Rightarrow> sessions_inv g (t, l # out)"
proof -
  obtain kept gone1 where e: "expire now (hs_sessions s) = (kept, gone1)" by (cases "expire now (hs_sessions s)")
  have inv: "sessions_inv g (s\<lparr>hs_sessions := kept\<rparr>, out)" by (rule sessions_inv_expire [OF assms(1) e])
  have a: "admit_locked g ids versions owner (s\<lparr>hs_sessions := kept\<rparr>) = (r, t)"
    using assms(2) by (auto simp: lock_admit_def e Let_def split: prod.splits)
  show ?thesis
  proof (cases r)
    case (Inl e)
    then show ?thesis using admit_locked_refused [OF a [unfolded Inl]] inv by simp
  next
    case (Inr l)
    then show ?thesis using admit_locked_inv [OF inv, of ids versions owner l t] a by simp
  qed
qed

lemma session_step_inv:
  assumes "session_step g w v" "sessions_inv g w"
  shows "sessions_inv g v"
  using assms
proof (induction rule: session_step.induct)
  case (step_admitted now ids versions owner s l gone t out)
  from lock_admit_inv [OF step_admitted(2,1)] show ?case by simp
next
  case (step_refused now ids versions owner s e gone t out)
  from lock_admit_inv [OF step_refused(2,1)] show ?case by simp
next
  case (step_passed s out)
  then show ?case using sessions_inv_fewer [of g s out no_lease s]
    by (simp add: no_lease_def reservations_remove1 sessions_inv_def Let_def)
qed (blast intro: return_reservation_inv register_session_inv lock_release_inv,
  blast intro: return_reservation_inv register_session_inv lock_release_inv,
  blast intro: return_reservation_inv register_session_inv lock_release_inv,
  simp_all add: sessions_inv_def Let_def)

interpretation session_machine: invariant_machine sessions_start "session_step g" "sessions_inv g" for g
  by unfold_locales (simp add: sessions_start_def sessions_inv_def Let_def, blast intro: session_step_inv)

text \<open>C38. However admissions, releases, completions, expiries and stops interleave, the sessions and the
  reservations together stay within the limit; every session has a well-formed identifier of its own;
  an expired session is only kept for the calls in flight on it; and no more calls are counted on a
  session, and no more reservations, than leases are out.\<close>

theorem sessions_within_limits:
  assumes "reachable sessions_start (session_step g) (s, out)"
  shows "int (length (hs_sessions s) + hs_pending s) \<le> max (sg_max_sessions g) 0 \<and>
    distinct (map fst (hs_sessions s)) \<and> hs_pending s \<le> length (filter le_reserved out) \<and>
    (\<forall>(sid, r)\<in>set (hs_sessions s). valid_session_id sid \<and> (sr_expired r \<longrightarrow> 0 < sr_in_flight r) \<and>
       sr_in_flight r \<le> length (filter (\<lambda>l. le_session l = Some sid) out))"
  using session_machine.reachable_inv [OF assms]
  by (auto simp: sessions_inv_def Let_def record_ok_def leases_on_def reservations_def)

definition sample_session_config :: session_config where
  "sample_session_config = \<lparr>sg_stateless = False, sg_max_sessions = 1, sg_lifetime = Fin 60, sg_handshake = [''2025-06-18'']\<rparr>"

definition no_sessions :: session_state where
  "no_sessions = \<lparr>hs_sessions = [], hs_pending = 0, hs_sdk = \<lparr>sk_available = True, sk_instances = [], sk_owners = []\<rparr>\<rparr>"

definition sample_session_id :: string where
  "sample_session_id = replicate 32 CHR ''a''"

abbreviation sample_owner :: session_owner where
  "sample_owner \<equiv> (''acme'', ''idp'', ''agent'')"

definition one_session :: session_state where
  "one_session = no_sessions\<lparr>hs_sessions := [(sample_session_id,
     \<lparr>sr_owner = sample_owner, sr_expires = Fin 60, sr_in_flight = 0, sr_expired = False\<rparr>)]\<rparr>"

lemma sample_session_valid: "valid_session_id sample_session_id"
  by (simp add: valid_session_id_def sample_session_id_def list_all_iff is_hex_def is_digit_def chr_range_def ord_of_def)

lemma one_session_reachable: "reachable sessions_start (session_step sample_session_config) (one_session, [])"
proof -
  let ?l = "no_lease\<lparr>le_reserved := True, le_owner := Some sample_owner\<rparr>"
  have a: "lock_admit sample_session_config (Fin 0) [] [] sample_owner no_sessions = (Inr ?l, [], no_sessions\<lparr>hs_pending := 1\<rparr>)"
    by (simp add: lock_admit_def admit_locked_def no_sessions_def sample_session_config_def)
  have r: "register_session sample_session_config (Fin 0) True (Some sample_session_id) (le_owner ?l) (no_sessions\<lparr>hs_pending := 1\<rparr>) =
      (Inr True, one_session)"
    by (simp add: register_session_def return_reservation_def sample_session_valid no_sessions_def one_session_def sample_session_config_def)
  have "reachable sessions_start (session_step sample_session_config) (no_sessions, [])"
    by (rule reach_start) (simp add: sessions_start_def no_sessions_def)
  moreover have "session_step sample_session_config (no_sessions, []) (no_sessions\<lparr>hs_pending := 1\<rparr>, [?l])"
    by (rule step_admitted, rule a)
  ultimately have "reachable sessions_start (session_step sample_session_config) (no_sessions\<lparr>hs_pending := 1\<rparr>, [?l])"
    by (rule reach_step)
  moreover have "session_step sample_session_config (no_sessions\<lparr>hs_pending := 1\<rparr>, [?l]) (one_session, remove1 ?l [?l])"
    by (rule step_registered, simp, simp, rule r)
  ultimately have "reachable sessions_start (session_step sample_session_config) (one_session, remove1 ?l [?l])"
    by (rule reach_step)
  then show ?thesis by simp
qed

theorem sessions_within_limits_witness:
  "int (length (hs_sessions one_session) + hs_pending one_session) \<le> 1 \<and> valid_session_id sample_session_id \<and>
   hs_sessions one_session \<noteq> []"
  using sessions_within_limits [OF one_session_reachable]
  by (simp add: sample_session_config_def one_session_def)

text \<open>C37. A lease on a session is given only for the one session identifier the request names, to the
  tenant, issuer and subject that opened the session, and before it expired; a request that names no
  session gets a reservation under its own identity, within the limit, or no session at all.\<close>

theorem session_bound_to_owner:
  assumes "admit_session g ends now hs c s = (Inr l, t)" "\<not> sg_stateless g"
  shows "case le_session l of
      Some sid \<Rightarrow> named_headers ''mcp-session-id'' hs = [sid] \<and> valid_session_id sid \<and> \<not> le_reserved l \<and>
        (\<exists>r. (sid, r) \<in> set (hs_sessions s) \<and> sr_owner r = (ctx_tenant c, ctx_issuer c, ctx_subject c) \<and>
          \<not> sr_expired r \<and> now < sr_expires r)
    | None \<Rightarrow> named_headers ''mcp-session-id'' hs = [] \<and>
        (if le_reserved l then le_owner l = Some (ctx_tenant c, ctx_issuer c, ctx_subject c) \<and>
           int (length (fst (expire now (hs_sessions s))) + hs_pending s) < sg_max_sessions g
         else named_headers ''mcp-protocol-version'' hs \<noteq> [] \<and> le_owner l = None)"
proof -
  let ?ids = "named_headers ''mcp-session-id'' hs" and ?vs = "named_headers ''mcp-protocol-version'' hs"
  let ?s = "s\<lparr>hs_sessions := fst (expire now (hs_sessions s))\<rparr>"
  have one: "length ?ids \<le> 1" using assms by (auto simp: admit_session_def Let_def split: if_splits)
  obtain u where a: "admit_locked g ?ids ?vs (session_owner_of c) ?s = (Inr l, u)"
    using assms by (auto simp: admit_session_def lock_admit_def Let_def split: if_splits prod.splits sum.splits)
  show ?thesis
  proof (cases ?ids)
    case (Cons sid rest)
    then obtain r where r: "map_of (hs_sessions ?s) sid = Some r" "valid_session_id sid" "\<not> sr_expired r"
        "sr_owner r = session_owner_of c" and l: "l = no_lease\<lparr>le_session := Some sid\<rparr>"
      using a by (auto simp: admit_locked_def split: option.splits if_splits)
    obtain r0 where "(sid, r0) \<in> set (hs_sessions s)" "kept_from now r0 r"
      using expire_kept [of sid r now "hs_sessions s"] map_of_SomeD [OF r(1)] by auto
    then show ?thesis using r l one Cons
      by (auto simp: no_lease_def kept_from_def session_owner_of_def split: if_splits)
  next
    case Nil
    then show ?thesis using a
      by (auto simp: admit_locked_def no_lease_def session_owner_of_def split: list.splits if_splits)
  qed
qed

lemma sample_session_admitted:
  "admit_session sample_session_config (\<lambda>sid. Terminated) (Fin 1) [(''mcp-session-id'', sample_session_id)] sample_context one_session =
     (Inr (no_lease\<lparr>le_session := Some sample_session_id\<rparr>), one_session\<lparr>hs_sessions := [(sample_session_id,
       \<lparr>sr_owner = sample_owner, sr_expires = Fin 60, sr_in_flight = 1, sr_expired = False\<rparr>)]\<rparr>)"
  by (simp add: admit_session_def lock_admit_def admit_locked_def named_headers_def one_session_def sample_session_config_def
      sample_session_valid session_owner_of_def ctx_tenant_def ctx_issuer_def ctx_subject_def sample_context_def sample_identity_def)

theorem session_bound_to_owner_witness:
  "\<exists>r. (sample_session_id, r) \<in> set (hs_sessions one_session) \<and> sr_owner r = sample_owner \<and> \<not> sr_expired r \<and> Fin 1 < sr_expires r"
  using session_bound_to_owner [OF sample_session_admitted]
  by (simp add: no_lease_def sample_session_config_def ctx_tenant_def ctx_issuer_def ctx_subject_def sample_context_def sample_identity_def)

text \<open>
  A completion whose response was never finished raises before the reservation is returned: the
  reservation stays out for good.
\<close>

lemma incomplete_response_leaks:
  assumes "le_reserved l" "\<not> al_ready resp"
  shows "complete_session g ends now l resp method_name s = (Inl Session_failed, s)"
  using assms by (cases "al_start resp") (auto simp: complete_session_def limiter_header_values_def asgi_session_def split: prod.splits)

end
