(* ===== verification/Http_Transport.thy ===== *)
theory Http_Transport
  imports Http_Sessions
begin

section \<open>Requests of the streamable HTTP transport\<close>

text \<open>
  Models the request side of \<^verbatim>\<open>src/tesserix_mcp_runtime/adapters/streamable_http.py\<close>: the configuration and
  its limits, the checks of one HTTP request, the operational routes, and \<open>_ProtocolASGIApp.__call__\<close>,
  which authenticates a request, admits its session, runs the protocol library on it and settles the
  session and the response. The library, the context provider, the clock and the client are an
  environment; the listener, which is a third-party server, is left out.
\<close>

subsection \<open>Configuration\<close>

definition normalize_path :: "string \<Rightarrow> (value_error, string) result" where
  "normalize_path v =
     (let segments = filter (\<lambda>s. s \<noteq> []) (split_on CHR ''/'' v) in
      raise_if (v = [] \<or> CHR ''?'' \<in> set v \<or> CHR ''#'' \<in> set v)
        (ValueError ''path must be an absolute route without query or fragment'')
      (raise_if (segments = [] \<or> list_ex (\<lambda>s. s \<in> {''.'', ''..''}) segments)
        (ValueError ''path must contain safe non-root segments'')
      (Inr (concat (map (\<lambda>s. CHR ''/'' # s) segments)))))"

definition plain_text :: "nat \<Rightarrow> string \<Rightarrow> bool" where
  "plain_text maximum s \<longleftrightarrow> s \<noteq> [] \<and> s = strip s \<and> length s \<le> maximum \<and> list_all (\<lambda>c. 32 \<le> ord_of c) s"

definition bounded_text_tuple :: "string \<Rightarrow> string list \<Rightarrow> check" where
  "bounded_text_tuple name items =
     raise_if (length items > 32) (ValueError (name @ '' must be a bounded immutable tuple''))
     (and_then (for_each (\<lambda>i. raise_if (\<not> plain_text 512 i) (ValueError (name @ '' must contain bounded visible text'')) okay) items) (\<lambda>_.
      raise_if (\<not> distinct items) (ValueError (name @ '' must not contain duplicates'')) okay))"

record http_config =
  hc_host :: string
  hc_port :: int
  hc_path :: string
  hc_startup :: string
  hc_liveness :: string
  hc_readiness :: string
  hc_metrics :: string
  hc_stateless :: bool
  hc_allowed_hosts :: "string list"
  hc_allowed_origins :: "string list"

definition default_http_config :: http_config where
  "default_http_config = \<lparr>hc_host = ''127.0.0.1'', hc_port = 8000, hc_path = ''/mcp'', hc_startup = ''/startupz'',
     hc_liveness = ''/livez'', hc_readiness = ''/readyz'', hc_metrics = ''/metrics'', hc_stateless = True,
     hc_allowed_hosts = [], hc_allowed_origins = []\<rparr>"

definition http_routes :: "http_config \<Rightarrow> string list" where
  "http_routes c = [hc_path c, hc_startup c, hc_liveness c, hc_readiness c, hc_metrics c]"

definition check_listener :: "http_config \<Rightarrow> check" where
  "check_listener c =
     raise_if (hc_host c = [] \<or> hc_host c \<noteq> strip (hc_host c) \<or> length (hc_host c) > 253 \<or> list_ex (\<lambda>x. ord_of x < 33) (hc_host c))
       (ValueError ''host must be a bounded listener name or address'')
     (raise_if (\<not> (1 \<le> hc_port c \<and> hc_port c \<le> 65535)) (ValueError ''port must be between 1 and 65535'')
     (and_then (bounded_text_tuple ''allowed_hosts'' (hc_allowed_hosts c)) (\<lambda>_.
      and_then (bounded_text_tuple ''allowed_origins'' (hc_allowed_origins c)) (\<lambda>_.
      let away = hc_host c \<notin> {''127.0.0.1'', ''localhost'', ''::1''} in
      raise_if (away \<and> hc_allowed_hosts c = []) (ValueError ''allowed_hosts must be explicit for non-loopback listeners'')
      (raise_if (away \<and> hc_allowed_origins c = []) (ValueError ''allowed_origins must be explicit for non-loopback listeners'')
       okay)))))"

definition make_http_config :: "http_config \<Rightarrow> (value_error, http_config) result" where
  "make_http_config c =
     and_then (check_listener c) (\<lambda>_.
     and_then (normalize_path (hc_path c)) (\<lambda>p.
     and_then (normalize_path (hc_startup c)) (\<lambda>s.
     and_then (normalize_path (hc_liveness c)) (\<lambda>l.
     and_then (normalize_path (hc_readiness c)) (\<lambda>r.
     and_then (normalize_path (hc_metrics c)) (\<lambda>m.
     let n = c\<lparr>hc_path := p, hc_startup := s, hc_liveness := l, hc_readiness := r, hc_metrics := m\<rparr> in
     raise_if (\<not> distinct (http_routes n)) (ValueError ''MCP and operational paths must be distinct'') (Inr n)))))))"

record http_limits =
  hl_request_body :: int
  hl_request_headers :: int
  hl_request_header_bytes :: int
  hl_response_body :: int
  hl_schema_bytes :: int
  hl_max_tools :: int
  hl_page_size :: int
  hl_max_pages :: int
  hl_max_sessions :: int
  hl_session_lifetime :: pyfloat
  hl_startup_timeout :: pyfloat
  hl_max_stream :: pyfloat

definition default_http_limits :: http_limits where
  "default_http_limits = \<lparr>hl_request_body = 65536, hl_request_headers = 128, hl_request_header_bytes = 32768,
     hl_response_body = 524288, hl_schema_bytes = 262144, hl_max_tools = 128, hl_page_size = 32, hl_max_pages = 4,
     hl_max_sessions = 128, hl_session_lifetime = Fin 1800, hl_startup_timeout = Fin 2, hl_max_stream = Fin 300\<rparr>"

definition http_integer :: "string \<Rightarrow> int \<Rightarrow> int \<Rightarrow> check" where
  "http_integer name v maximum =
     raise_if (v < 1) (ValueError (name @ '' must be a positive integer''))
     (raise_if (v > maximum) (ValueError (name @ '' must not exceed '' @ int_str maximum)) okay)"

definition http_duration :: "string \<Rightarrow> pyfloat \<Rightarrow> rat \<Rightarrow> string \<Rightarrow> check" where
  "http_duration name v maximum shown =
     raise_if (\<not> is_finite v \<or> v \<le> Fin 0) (ValueError (name @ '' must be a positive finite number''))
     (raise_if (v > Fin maximum) (ValueError (name @ '' must not exceed '' @ shown)) okay)"

definition check_http_limits :: "http_limits \<Rightarrow> check" where
  "check_http_limits l =
     and_then (for_each (\<lambda>(name, v, maximum). http_integer name v maximum)
       [(''max_request_body_bytes'', hl_request_body l, 65536), (''max_request_headers'', hl_request_headers l, 256),
        (''max_request_header_bytes'', hl_request_header_bytes l, 65536), (''max_response_body_bytes'', hl_response_body l, 524288),
        (''max_schema_bytes'', hl_schema_bytes l, 262144), (''max_tools'', hl_max_tools l, 128),
        (''tool_page_size'', hl_page_size l, 128), (''max_tool_pages'', hl_max_pages l, 128),
        (''max_sessions'', hl_max_sessions l, 256)]) (\<lambda>_.
     and_then (for_each (\<lambda>(name, v, maximum, shown). http_duration name v maximum shown)
       [(''session_lifetime_seconds'', hl_session_lifetime l, 3600, ''3600.0''), (''startup_timeout_seconds'', hl_startup_timeout l, 30, ''30.0''),
        (''max_stream_seconds'', hl_max_stream l, 300, ''300.0'')]) (\<lambda>_.
     raise_if (hl_page_size l * hl_max_pages l < hl_max_tools l)
       (ValueError ''tool_page_size and max_tool_pages must cover max_tools'') okay))"

subsection \<open>Reading a request\<close>

text \<open>\<open>None\<close> stands for a value that is no string.\<close>

definition safe_observation :: "string option \<Rightarrow> nat \<Rightarrow> string \<Rightarrow> string" where
  "safe_observation v maximum fallback = (case v of Some s \<Rightarrow> if plain_text maximum s then s else fallback | None \<Rightarrow> fallback)"

definition header_name_byte :: "char \<Rightarrow> bool" where
  "header_name_byte c \<longleftrightarrow>
     48 \<le> ord_of c \<and> ord_of c \<le> 57 \<or> 97 \<le> ord_of c \<and> ord_of c \<le> 122 \<or> one_of ''!#$%&*+-.^_`|~'' c \<or> ord_of c = 39"

definition header_value_byte :: "char \<Rightarrow> bool" where
  "header_value_byte c \<longleftrightarrow> ord_of c = 9 \<or> \<not> (ord_of c < 32 \<or> ord_of c = 127)"

text \<open>A header is a pair of byte strings, or something else (\<open>None\<close>).\<close>

fun read_headers :: "int \<Rightarrow> int \<Rightarrow> (string \<times> string) option list \<Rightarrow> (value_error, (string \<times> string) list) result" where
  "read_headers limit used [] = Inr []"
| "read_headers limit used (None # hs) = Inl (ValueError ''request headers are malformed'')"
| "read_headers limit used (Some (k, v) # hs) =
     raise_if (k = [] \<or> \<not> list_all header_name_byte k \<or> \<not> list_all header_value_byte v) (ValueError ''request headers are malformed'')
     (raise_if (used + int (length k) + int (length v) > limit) (ValueError ''request headers exceed configured limit'')
     (and_then (read_headers limit (used + int (length k) + int (length v)) hs) (\<lambda>rest. Inr ((k, v) # rest))))"

definition http_headers :: "http_limits \<Rightarrow> (string \<times> string) option list option \<Rightarrow> (value_error, (string \<times> string) list) result" where
  "http_headers l raw =
     (case raw of None \<Rightarrow> Inl (ValueError ''request headers exceed configured limit'')
      | Some hs \<Rightarrow> raise_if (int (length hs) > hl_request_headers l) (ValueError ''request headers exceed configured limit'')
          (read_headers (hl_request_header_bytes l) 0 hs))"

text \<open>The client of the scope is a pair with a string, or anything else (\<open>None\<close>).\<close>

definition peer_host :: "string option \<Rightarrow> string option" where
  "peer_host v = (case v of Some h \<Rightarrow> if token_text 255 h then Some h else None | None \<Rightarrow> None)"

record http_scope =
  sc_http :: bool
  sc_path :: "string option"
  sc_method :: "string option"
  sc_headers :: "(string \<times> string) option list option"
  sc_client :: "string option"

definition request_of :: "http_config \<Rightarrow> http_scope \<Rightarrow> (string \<times> string) list \<Rightarrow> request_metadata" where
  "request_of c sc hs = \<lparr>rm_method = safe_observation (sc_method sc) 16 ''UNKNOWN'', rm_path = hc_path c,
     rm_headers = hs, rm_peer = peer_host (sc_client sc)\<rparr>"

subsection \<open>Operational routes\<close>

text \<open>The answers of the operations endpoint at the time of the request.\<close>

record operations =
  op_metrics :: string
  op_live :: bool
  op_started :: bool
  op_ready :: bool

definition operations_path :: "string \<Rightarrow> string" where
  "operations_path p = (let q = (if ends_with ''/'' p then butlast p else p) in if q = [] then ''/'' else q)"

definition status_body :: "bool \<Rightarrow> string \<Rightarrow> string \<Rightarrow> int \<times> string" where
  "status_body healthy good bad =
     (if healthy then (200, ''{'' @ [quote] @ ''status'' @ [quote] @ '':'' @ [quote] @ good @ [quote] @ ''}'')
      else (503, ''{'' @ [quote] @ ''status'' @ [quote] @ '':'' @ [quote] @ bad @ [quote] @ ''}''))"

definition operations_status :: "http_config \<Rightarrow> bool \<Rightarrow> operations option \<Rightarrow> string \<Rightarrow> int \<times> string" where
  "operations_status c accepting ops path =
     (if path = hc_liveness c then status_body (case ops of Some p \<Rightarrow> op_live p | None \<Rightarrow> True) ''live'' ''not_live''
      else if path = hc_startup c then status_body (case ops of Some p \<Rightarrow> op_started p | None \<Rightarrow> accepting) ''started'' ''starting''
      else status_body (accepting \<and> (case ops of Some p \<Rightarrow> op_ready p | None \<Rightarrow> True)) ''ready'' ''not_ready'')"

definition serve_operations ::
  "http_config \<Rightarrow> bool \<Rightarrow> operations option \<Rightarrow> string \<Rightarrow> client \<Rightarrow> string \<Rightarrow> string option \<Rightarrow> asgi_message list
     \<Rightarrow> (asgi_exn, bool) result \<times> asgi_message list" where
  "serve_operations c accepting ops fallback cl path method_name sent =
     (let p = operations_path path; done = (\<lambda>_ t. (Inr True, t)) in
      if p \<notin> {hc_startup c, hc_liveness c, hc_readiness c, hc_metrics c} then (Inr False, sent)
      else if method_name \<noteq> Some ''GET'' \<and> method_name \<noteq> Some ''HEAD''
      then run_then (send_json cl 405 (''{'' @ [quote] @ ''status'' @ [quote] @ '':'' @ [quote] @ ''method_not_allowed'' @ [quote] @ ''}'') sent) done
      else if p = hc_metrics c
      then run_then (send_metrics cl (case ops of Some x \<Rightarrow> op_metrics x | None \<Rightarrow> fallback) (method_name = Some ''HEAD'') sent) done
      else let (status, body) = operations_status c accepting ops p in
        run_then (send_json cl status (if method_name = Some ''HEAD'' then [] else body) sent) done)"

subsection \<open>One request\<close>

text \<open>
  What the library does with a request: it ends, with what it sent and whether the cancellation of
  the request is set by then; or it is still running when the time of the stream is over; or the
  request itself is cancelled first.
\<close>

datatype sdk_end = Sdk_returns | Sdk_raises | Sdk_cancelled

datatype sdk_run =
    Sdk_finished sdk_end "asgi_message list" bool
  | Sdk_pending "asgi_message list"
  | Sdk_interrupted "asgi_message list"

record http_env =
  he_client :: client
  he_context :: "request_metadata \<Rightarrow> cancellation \<Rightarrow> creation"
  he_token :: cancellation
  he_sdk :: "call_context \<Rightarrow> session_lease \<Rightarrow> sdk_run"
  he_ends :: "string \<Rightarrow> session_ending"
  he_now :: pyfloat
  he_completed :: pyfloat
  he_render :: "pyval \<Rightarrow> string"

record http_setup =
  hx_config :: http_config
  hx_limits :: http_limits
  hx_handshake :: "string list"
  hx_accepting :: bool
  hx_operations :: "operations option"
  hx_fallback :: string

definition session_config_of :: "http_setup \<Rightarrow> session_config" where
  "session_config_of g = \<lparr>sg_stateless = hc_stateless (hx_config g), sg_max_sessions = hl_max_sessions (hx_limits g),
     sg_lifetime = hl_session_lifetime (hx_limits g), sg_handshake = hx_handshake g\<rparr>"

text \<open>The session table, what the client was sent, and, as a ghost, the calls of the library.\<close>

record http_world =
  hw_sessions :: session_state
  hw_sent :: "asgi_message list"
  hw_calls :: "(request_metadata \<times> call_context \<times> session_lease) list"

datatype http_end = Http_returned | Http_raised | Http_cancelled | Http_delegated

fun sent_end :: "(asgi_exn, 'a) result \<Rightarrow> http_end" where
  "sent_end (Inr u) = Http_returned"
| "sent_end (Inl Asgi_cancelled) = Http_cancelled"
| "sent_end (Inl e) = Http_raised"

definition answer_error :: "http_env \<Rightarrow> int \<Rightarrow> rpc_code \<Rightarrow> string \<Rightarrow> pyval option \<Rightarrow> http_world \<Rightarrow> (asgi_exn, unit) result \<times> http_world" where
  "answer_error env status code message extra w =
     (case send_json (he_client env) status (protocol_error_body (he_render env) code message extra) (hw_sent w) of
        (r, sent) \<Rightarrow> (r, w\<lparr>hw_sent := sent\<rparr>))"

definition refuse :: "http_env \<Rightarrow> int \<Rightarrow> rpc_code \<Rightarrow> string \<Rightarrow> pyval option \<Rightarrow> http_world \<Rightarrow> http_end \<times> http_world" where
  "refuse env status code message extra w = map_prod sent_end id (answer_error env status code message extra w)"

definition abort_in :: "http_env \<Rightarrow> session_lease \<Rightarrow> http_world \<Rightarrow> (session_exn, unit) result \<times> http_world" where
  "abort_in env l w = (case abort_session (he_ends env) l (hw_sessions w) of (r, s) \<Rightarrow> (r, w\<lparr>hw_sessions := s\<rparr>))"

text \<open>The \<^verbatim>\<open>except\<close> blocks: for a cancellation, and for any other exception.\<close>

definition on_cancelled :: "http_env \<Rightarrow> session_lease \<Rightarrow> bool \<Rightarrow> http_world \<Rightarrow> http_end \<times> http_world" where
  "on_cancelled env l lease_done w =
     (if lease_done then (Http_cancelled, w)
      else (case abort_in env l w of
          (Inl Session_failed, t) \<Rightarrow> (Http_raised, t)
        | (r, t) \<Rightarrow> (Http_cancelled, t)))"

definition on_exception :: "http_env \<Rightarrow> session_lease \<Rightarrow> bool \<Rightarrow> bool \<Rightarrow> http_world \<Rightarrow> http_end \<times> http_world" where
  "on_exception env l lease_done started w =
     (case (if lease_done then (Inr (), w) else abort_in env l w) of
        (Inl Session_cancelled, t) \<Rightarrow> (Http_cancelled, t)
      | (r, t) \<Rightarrow> if started then (Http_returned, t) else refuse env 500 Rpc_internal ''Internal error'' None t)"

definition with_limiter :: "http_world \<Rightarrow> limiter \<Rightarrow> http_world" where
  "with_limiter w l = w\<lparr>hw_sent := al_sent l\<rparr>"

definition timeout_data :: "call_context \<Rightarrow> pyval" where
  "timeout_data c = obj [(''code'', PStr ''timeout''), (''request_id'', PStr (cc_request_id c)), (''retryable'', PBool True)]"

text \<open>The response of a finished call: the session is lease_done first, then the response is sent.\<close>

definition deliver :: "http_setup \<Rightarrow> http_env \<Rightarrow> session_lease \<Rightarrow> string \<Rightarrow> limiter \<Rightarrow> http_world \<Rightarrow> http_end \<times> http_world" where
  "deliver g env l method_name resp w =
     (case complete_session (session_config_of g) (he_ends env) (he_completed env) l resp method_name (hw_sessions w) of
        (Inl Session_cancelled, s) \<Rightarrow> on_cancelled env l True (w\<lparr>hw_sessions := s\<rparr>)
      | (Inl e, s) \<Rightarrow> on_exception env l True False (w\<lparr>hw_sessions := s\<rparr>)
      | (Inr _, s) \<Rightarrow>
          (case limiter_flush (he_client env) resp of
             (Inr _, flushed) \<Rightarrow> (Http_returned, with_limiter (w\<lparr>hw_sessions := s\<rparr>) flushed)
           | (Inl Asgi_cancelled, flushed) \<Rightarrow> on_cancelled env l True (with_limiter (w\<lparr>hw_sessions := s\<rparr>) flushed)
           | (Inl e, flushed) \<Rightarrow> on_exception env l True (al_committed flushed) (with_limiter (w\<lparr>hw_sessions := s\<rparr>) flushed)))"

definition time_out :: "http_env \<Rightarrow> call_context \<Rightarrow> session_lease \<Rightarrow> http_world \<Rightarrow> http_end \<times> http_world" where
  "time_out env c l w =
     (case abort_in env l w of
        (Inl Session_cancelled, t) \<Rightarrow> on_cancelled env l False t
      | (Inl e, t) \<Rightarrow> on_exception env l False False t
      | (Inr _, t) \<Rightarrow>
          (case answer_error env 504 Rpc_internal ''Request timeout'' (Some (timeout_data c)) t of
             (Inr _, u) \<Rightarrow> (Http_returned, u)
           | (Inl Asgi_cancelled, u) \<Rightarrow> on_cancelled env l True u
           | (Inl e, u) \<Rightarrow> on_exception env l True False u))"

definition give_up :: "http_env \<Rightarrow> session_lease \<Rightarrow> http_world \<Rightarrow> http_end \<times> http_world" where
  "give_up env l w =
     (case abort_in env l w of
        (Inl Session_cancelled, t) \<Rightarrow> on_cancelled env l False t
      | (Inl e, t) \<Rightarrow> on_exception env l False False t
      | (Inr _, t) \<Rightarrow> (Http_returned, t))"

definition run_protocol :: "http_setup \<Rightarrow> http_env \<Rightarrow> string \<Rightarrow> call_context \<Rightarrow> session_lease \<Rightarrow> http_world \<Rightarrow> http_end \<times> http_world" where
  "run_protocol g env method_name c l w =
     (let feed = (\<lambda>ms. limiter_feed (he_client env) (hl_response_body (hx_limits g)) ms (fresh_limiter (hw_sent w))) in
      case he_sdk env c l of
        Sdk_interrupted ms \<Rightarrow> on_cancelled env l False (with_limiter w (feed ms))
      | Sdk_pending ms \<Rightarrow> time_out env c l (with_limiter w (feed ms))
      | Sdk_finished e ms flag \<Rightarrow>
          (case e of
             Sdk_raises \<Rightarrow> on_exception env l False False (with_limiter w (feed ms))
           | Sdk_cancelled \<Rightarrow> on_cancelled env l False (with_limiter w (feed ms))
           | Sdk_returns \<Rightarrow>
               if flag then give_up env l (with_limiter w (feed ms))
               else deliver g env l method_name (feed ms) (with_limiter w (feed ms))))"

definition authenticate :: "http_env \<Rightarrow> request_metadata \<Rightarrow> creation" where
  "authenticate env r =
     (case he_context env r (he_token env) of
        Created c \<Rightarrow> if cc_cancellation c = he_token env then Created c else Create_failed
      | x \<Rightarrow> x)"

text \<open>An authenticated request: its session is admitted, then the library runs.\<close>

definition serve_admitted :: "http_setup \<Rightarrow> http_env \<Rightarrow> request_metadata \<Rightarrow> call_context \<Rightarrow> http_world \<Rightarrow> http_end \<times> http_world" where
  "serve_admitted g env r c w =
     (case admit_session (session_config_of g) (he_ends env) (he_now env) (rm_headers r) c (hw_sessions w) of
        (Inl (Session_refused f), s) \<Rightarrow> refuse env (rf_status f) (rf_code f) (rf_message f) None (w\<lparr>hw_sessions := s\<rparr>)
      | (Inl Session_failed, s) \<Rightarrow> refuse env 500 Rpc_internal ''Internal error'' None (w\<lparr>hw_sessions := s\<rparr>)
      | (Inl Session_cancelled, s) \<Rightarrow> (Http_cancelled, w\<lparr>hw_sessions := s\<rparr>)
      | (Inr l, s) \<Rightarrow> run_protocol g env (map upper_ascii (rm_method r)) c l (w\<lparr>hw_sessions := s, hw_calls := hw_calls w @ [(r, c, l)]\<rparr>))"

definition serve_protocol :: "http_setup \<Rightarrow> http_env \<Rightarrow> http_scope \<Rightarrow> http_world \<Rightarrow> http_end \<times> http_world" where
  "serve_protocol g env sc w =
     (case http_headers (hx_limits g) (sc_headers sc) of
        Inl e \<Rightarrow> refuse env 431 Invalid_request ''Invalid headers'' None w
      | Inr hs \<Rightarrow>
          if hc_stateless (hx_config g) \<and> named_headers ''mcp-session-id'' hs \<noteq> []
          then refuse env 404 Invalid_request ''Invalid session'' None w
          else let r = request_of (hx_config g) sc hs in
            (case authenticate env r of
               Unauthenticated rid \<Rightarrow> refuse env 401 Invalid_request ''Unauthorized'' (Some (obj [(''request_id'', PStr rid)])) w
             | Create_failed \<Rightarrow> refuse env 401 Invalid_request ''Unauthorized'' None w
             | Create_cancelled \<Rightarrow> (Http_cancelled, w)
             | Created c \<Rightarrow> serve_admitted g env r c w))"

definition protocol_path :: "http_config \<Rightarrow> string option \<Rightarrow> bool" where
  "protocol_path c p \<longleftrightarrow> p = Some (hc_path c) \<or> p = Some (hc_path c @ ''/'')"

definition route_operations :: "http_setup \<Rightarrow> http_env \<Rightarrow> http_scope \<Rightarrow> asgi_message list \<Rightarrow> (asgi_exn, bool) result \<times> asgi_message list" where
  "route_operations g env sc sent =
     (case sc_path sc of None \<Rightarrow> (Inr False, sent)
      | Some p \<Rightarrow> serve_operations (hx_config g) (hx_accepting g) (hx_operations g) (hx_fallback g) (he_client env) p (sc_method sc) sent)"

definition http_call :: "http_setup \<Rightarrow> http_env \<Rightarrow> http_scope \<Rightarrow> http_world \<Rightarrow> http_end \<times> http_world" where
  "http_call g env sc w =
     (if \<not> sc_http sc then (Http_delegated, w)
      else
        (case route_operations g env sc (hw_sent w) of
           (Inl e, sent) \<Rightarrow> (sent_end (Inl e :: (asgi_exn, bool) result), w\<lparr>hw_sent := sent\<rparr>)
         | (Inr True, sent) \<Rightarrow> (Http_returned, w\<lparr>hw_sent := sent\<rparr>)
         | (Inr False, sent) \<Rightarrow>
             if \<not> protocol_path (hx_config g) (sc_path sc) then refuse env 404 Invalid_request ''Not found'' None w
             else if \<not> hx_accepting g then refuse env 503 Rpc_internal ''Unavailable'' None w
             else serve_protocol g env sc w))"

subsection \<open>Which requests reach the library\<close>

lemma refuse_calls [simp]: "hw_calls (snd (refuse env st code msg extra w)) = hw_calls w"
  by (simp add: refuse_def answer_error_def split: prod.split)

lemma answer_error_calls: "answer_error env st code msg extra w = (r, u) \<Longrightarrow> hw_calls u = hw_calls w"
  by (auto simp: answer_error_def split: prod.splits)

lemma abort_in_calls: "abort_in env l w = (r, u) \<Longrightarrow> hw_calls u = hw_calls w"
  by (auto simp: abort_in_def split: prod.splits)

lemma on_cancelled_calls [simp]: "hw_calls (snd (on_cancelled env l lease_done w)) = hw_calls w"
  by (auto simp: on_cancelled_def dest: abort_in_calls split: prod.splits sum.splits session_exn.splits)

lemma on_exception_calls [simp]: "hw_calls (snd (on_exception env l lease_done started w)) = hw_calls w"
  by (auto simp: on_exception_def dest: abort_in_calls split: prod.splits sum.splits session_exn.splits if_splits)

lemma with_limiter_calls [simp]: "hw_calls (with_limiter w l) = hw_calls w"
  by (simp add: with_limiter_def)

lemma deliver_calls [simp]: "hw_calls (snd (deliver g env l m resp w)) = hw_calls w"
  by (simp add: deliver_def split: prod.split sum.split session_exn.split asgi_exn.split)

lemma time_out_calls [simp]: "hw_calls (snd (time_out env c l w)) = hw_calls w"
proof -
  obtain r t where a: "abort_in env l w = (r, t)" by (cases "abort_in env l w")
  obtain q u where b: "answer_error env 504 Rpc_internal ''Request timeout'' (Some (timeout_data c)) t = (q, u)"
    by (cases "answer_error env 504 Rpc_internal ''Request timeout'' (Some (timeout_data c)) t")
  from abort_in_calls [OF a] answer_error_calls [OF b] show ?thesis
    by (simp add: time_out_def a b split: sum.split session_exn.split asgi_exn.split)
qed

lemma give_up_calls [simp]: "hw_calls (snd (give_up env l w)) = hw_calls w"
proof -
  obtain r t where a: "abort_in env l w = (r, t)" by (cases "abort_in env l w")
  from abort_in_calls [OF a] show ?thesis by (simp add: give_up_def a split: sum.split session_exn.split)
qed

lemma run_protocol_calls [simp]: "hw_calls (snd (run_protocol g env m c l w)) = hw_calls w"
  by (simp add: run_protocol_def Let_def split: sdk_run.split sdk_end.split)

lemma serve_admitted_calls:
  "(r, c, l) \<in> set (hw_calls (snd (serve_admitted g env r' c' w))) \<Longrightarrow> (r, c, l) \<in> set (hw_calls w) \<or>
     r = r' \<and> c = c' \<and> (\<exists>s. admit_session (session_config_of g) (he_ends env) (he_now env) (rm_headers r) c (hw_sessions w) = (Inr l, s))"
  by (auto simp: serve_admitted_def split: prod.splits sum.splits session_exn.splits)

definition header_bytes :: "(string \<times> string) list \<Rightarrow> nat" where
  "header_bytes hs = sum_list (map (\<lambda>(k, v). length k + length v) hs)"

lemma header_bytes_simps [simp]:
  "header_bytes [] = 0"
  "header_bytes ((k, v) # hs) = length k + length v + header_bytes hs"
  by (simp_all add: header_bytes_def)

lemma read_headers_ok:
  "read_headers limit used raw = Inr hs \<Longrightarrow> map Some hs = raw \<and> (hs = [] \<or> used + int (header_bytes hs) \<le> limit) \<and>
     (\<forall>(k, v)\<in>set hs. k \<noteq> [] \<and> list_all header_name_byte k \<and> list_all header_value_byte v)"
  by (induction limit used raw arbitrary: hs rule: read_headers.induct) (fastforce simp: raise_if_def split: if_splits)+

lemma http_headers_ok:
  assumes "http_headers l raw = Inr hs" "0 \<le> hl_request_header_bytes l"
  shows "raw = Some (map Some hs) \<and> int (length hs) \<le> hl_request_headers l \<and> int (header_bytes hs) \<le> hl_request_header_bytes l \<and>
    (\<forall>(k, v)\<in>set hs. k \<noteq> [] \<and> list_all header_name_byte k \<and> list_all header_value_byte v)"
proof -
  obtain rs where rs: "raw = Some rs" "int (length rs) \<le> hl_request_headers l"
      "read_headers (hl_request_header_bytes l) 0 rs = Inr hs"
    using assms(1) by (auto simp: http_headers_def split: option.splits)
  from read_headers_ok [OF this(3)] assms(2) rs(1,2) show ?thesis by auto
qed

lemma http_integer_ok [simp]: "http_integer name v maximum = Inr u \<longleftrightarrow> 1 \<le> v \<and> v \<le> maximum"
  by (auto simp: http_integer_def)

lemma check_http_limits_ok:
  "check_http_limits l = Inr u \<Longrightarrow> 1 \<le> hl_request_header_bytes l \<and> 1 \<le> hl_response_body l \<and> 1 \<le> hl_page_size l \<and>
     1 \<le> hl_max_pages l \<and> 1 \<le> hl_max_tools l \<and> 1 \<le> hl_max_sessions l \<and> hl_max_tools l \<le> hl_page_size l * hl_max_pages l"
  by (simp add: check_http_limits_def del: for_each.simps)

text \<open>C35. The protocol library runs only for an HTTP request on the protocol path of a transport that
  accepts, whose headers are well formed and within the limits, for which the context provider made a
  context bound to the cancellation of this request, and whose session was admitted for that context.\<close>

theorem library_call_guarded:
  assumes "check_http_limits (hx_limits g) = Inr ()"
    and "(r, c, l) \<in> set (hw_calls (snd (http_call g env sc w)))" "(r, c, l) \<notin> set (hw_calls w)"
  shows "sc_http sc \<and> hx_accepting g \<and> sc_path sc \<in> {Some (hc_path (hx_config g)), Some (hc_path (hx_config g) @ ''/'')} \<and>
    rm_peer r = peer_host (sc_client sc) \<and> sc_headers sc = Some (map Some (rm_headers r)) \<and>
    int (length (rm_headers r)) \<le> hl_request_headers (hx_limits g) \<and>
    int (header_bytes (rm_headers r)) \<le> hl_request_header_bytes (hx_limits g) \<and>
    (\<forall>(k, v)\<in>set (rm_headers r). k \<noteq> [] \<and> list_all header_name_byte k \<and> list_all header_value_byte v) \<and>
    he_context env r (he_token env) = Created c \<and> cc_cancellation c = he_token env \<and>
    (\<exists>s. admit_session (session_config_of g) (he_ends env) (he_now env) (rm_headers r) c (hw_sessions w) = (Inr l, s))"
proof -
  have http: "sc_http sc" using assms(2,3) by (cases "sc_http sc") (simp_all add: http_call_def)
  obtain x sent where e: "route_operations g env sc (hw_sent w) = (x, sent)" by (cases "route_operations g env sc (hw_sent w)")
  have x: "x = Inr False"
  proof (cases x)
    case (Inl y)
    then show ?thesis using assms(2,3) http e by (simp add: http_call_def)
  next
    case (Inr b)
    then show ?thesis using assms(2,3) http e by (cases b) (simp_all add: http_call_def)
  qed
  have served: "protocol_path (hx_config g) (sc_path sc)" "hx_accepting g" "(r, c, l) \<in> set (hw_calls (snd (serve_protocol g env sc w)))"
    using assms(2,3) http
    by (simp_all add: http_call_def e x split: if_splits)
  obtain hs where hs: "http_headers (hx_limits g) (sc_headers sc) = Inr hs"
    using served(3) assms(3) by (auto simp: serve_protocol_def split: sum.splits)
  let ?r = "request_of (hx_config g) sc hs"
  obtain c' where c': "authenticate env ?r = Created c'" "(r, c, l) \<in> set (hw_calls (snd (serve_admitted g env ?r c' w)))"
    using served(3) assms(3) hs by (auto simp: serve_protocol_def Let_def split: if_splits creation.splits)
  have adm: "r = ?r" "c = c'" "\<exists>s. admit_session (session_config_of g) (he_ends env) (he_now env) (rm_headers r) c (hw_sessions w) = (Inr l, s)"
    using serve_admitted_calls [OF c'(2)] assms(3) by auto
  have ctx: "he_context env r (he_token env) = Created c" "cc_cancellation c = he_token env"
    using c'(1) adm(1,2) by (auto simp: authenticate_def split: creation.splits if_splits)
  have lim: "0 \<le> hl_request_header_bytes (hx_limits g)" using check_http_limits_ok [OF assms(1)] by simp
  show ?thesis
    using http served(1,2) http_headers_ok [OF hs lim] adm(3) ctx by (simp add: adm(1) request_of_def protocol_path_def)
qed

subsection \<open>Every request is answered\<close>

text \<open>A client that takes every message, a provider and a library that are not cancelled.\<close>

definition undisturbed :: "http_env \<Rightarrow> bool" where
  "undisturbed env \<longleftrightarrow>
     (\<forall>sent m. he_client env sent m = Returns) \<and> (\<forall>sid. he_ends env sid \<noteq> Termination_cancelled) \<and>
     (\<forall>r k. he_context env r k \<noteq> Create_cancelled) \<and>
     (\<forall>c l. case he_sdk env c l of Sdk_finished e ms flag \<Rightarrow> e \<noteq> Sdk_cancelled \<and> \<not> flag | Sdk_pending ms \<Rightarrow> True | Sdk_interrupted ms \<Rightarrow> False)"

text \<open>One whole response: its start with a status and a measured body, and that body.\<close>

definition answered_with :: "asgi_message list \<Rightarrow> bool" where
  "answered_with sent \<longleftrightarrow> (\<exists>status pairs body.
     filter is_response sent = [Response_start status (Header_pairs pairs), Response_body (Some body) False])"

lemma undisturbedD:
  assumes "undisturbed env"
  shows "he_client env sent m = Returns" "he_ends env sid \<noteq> Termination_cancelled" "he_context env r k \<noteq> Create_cancelled"
    "he_sdk env c l \<noteq> Sdk_interrupted ms" "he_sdk env c l = Sdk_finished e ms flag \<Longrightarrow> e \<noteq> Sdk_cancelled \<and> \<not> flag"
proof -
  have run: "case he_sdk env c l of Sdk_finished e ms flag \<Rightarrow> e \<noteq> Sdk_cancelled \<and> \<not> flag | Sdk_pending ms \<Rightarrow> True | Sdk_interrupted ms \<Rightarrow> False"
    using assms by (simp add: undisturbed_def)
  show "he_client env sent m = Returns" "he_ends env sid \<noteq> Termination_cancelled" "he_context env r k \<noteq> Create_cancelled"
    using assms by (simp_all add: undisturbed_def)
  show "he_sdk env c l \<noteq> Sdk_interrupted ms" using run by auto
  show "e \<noteq> Sdk_cancelled \<and> \<not> flag" if "he_sdk env c l = Sdk_finished e ms flag" using run that by simp
qed

lemma send_json_taken:
  assumes "undisturbed env"
  shows "send_json (he_client env) status body sent =
    (Inr (), sent @ [Response_start (Some status) (json_headers body), Response_body (Some body) False])"
  by (simp add: send_json_def send_to_def undisturbedD(1) [OF assms])

lemma send_metrics_taken:
  assumes "undisturbed env"
  shows "\<exists>hs. send_metrics (he_client env) body head sent =
    (Inr (), sent @ [Response_start (Some 200) (Header_pairs hs), Response_body (Some (if head then [] else body)) False])"
  by (simp add: send_metrics_def send_to_def undisturbedD(1) [OF assms])

lemma serve_operations_taken:
  assumes "undisturbed env" "filter is_response sent = []"
  shows "is_ok (fst (serve_operations c accepting ops fallback (he_client env) p m sent)) \<and>
    (fst (serve_operations c accepting ops fallback (he_client env) p m sent) = Inr True \<longrightarrow>
     answered_with (snd (serve_operations c accepting ops fallback (he_client env) p m sent)))"
proof -
  have json: "answered_with (sent @ [Response_start (Some status) (json_headers body), Response_body (Some body) False])" for status body
    using assms(2) by (simp add: answered_with_def json_headers_def)
  obtain hs where metrics: "send_metrics (he_client env) (case ops of Some x \<Rightarrow> op_metrics x | None \<Rightarrow> fallback) (m = Some ''HEAD'') sent =
      (Inr (), sent @ [Response_start (Some 200) (Header_pairs hs),
        Response_body (Some (if m = Some ''HEAD'' then [] else case ops of Some x \<Rightarrow> op_metrics x | None \<Rightarrow> fallback)) False])"
    using send_metrics_taken [OF assms(1)] by blast
  have "answered_with (sent @ [Response_start (Some 200) (Header_pairs hs), Response_body (Some body) False])" for body
    using assms(2) by (simp add: answered_with_def)
  then show ?thesis
    using json unfolding serve_operations_def Let_def metrics by (simp add: send_json_taken [OF assms(1)] split: prod.split)
qed

abbreviation answered :: "http_end \<times> http_world \<Rightarrow> bool" where
  "answered x \<equiv> fst x = Http_returned \<and> answered_with (hw_sent (snd x))"

definition unanswered :: "http_world \<Rightarrow> bool" where
  "unanswered w \<longleftrightarrow> filter is_response (hw_sent w) = []"

lemma refuse_answers:
  assumes "undisturbed env" "unanswered w"
  shows "answered (refuse env status code message extra w)"
  using assms(2) by (simp add: refuse_def answer_error_def send_json_taken [OF assms(1)] answered_with_def unanswered_def json_headers_def)

definition runs_through :: "(session_exn, 'a) result \<times> 's \<Rightarrow> bool" where
  "runs_through x \<longleftrightarrow> fst x \<noteq> Inl Session_cancelled"

lemma runs_through_simps [simp]:
  "runs_through (Inr a, s)" "runs_through (Inl Session_failed, s)" "runs_through (Inl (Session_refused f), s)"
  "runs_through (asgi_session r, s)" "runs_through (raise_if b Session_failed (Inr ()), s)"
  "runs_through (case q of Inl e \<Rightarrow> Inl (Session_refused e) | Inr l \<Rightarrow> Inr l, s)"
  by (simp_all add: runs_through_def asgi_session_def raise_if_def split: sum.split)

lemma runs_through_run_then [intro]: "runs_through m \<Longrightarrow> (\<And>a s. runs_through (k a s)) \<Longrightarrow> runs_through (run_then m k)"
  by (auto simp: runs_through_def run_then_def split: prod.splits sum.splits)

lemma runs_through_remove:
  assumes "\<And>sid. ends sid \<noteq> Termination_cancelled"
  shows "runs_through (remove_sdk_session ends sid terminate s)" "runs_through (remove_sdk_sessions ends sids s)"
proof -
  show one: "runs_through (remove_sdk_session ends sid terminate s)" for sid terminate s
    using assms [of sid] by (simp add: runs_through_def remove_sdk_session_def Let_def split: session_ending.split)
  show "runs_through (remove_sdk_sessions ends sids s)"
    by (induction sids arbitrary: s) (auto intro: one)
qed

lemma runs_through_release:
  assumes "\<And>sid. ends sid \<noteq> Termination_cancelled"
  shows "runs_through (release_session ends sid remove terminate s)" "runs_through (return_reservation s)" "runs_through (abort_session ends l s)"
proof -
  show rel: "runs_through (release_session ends sid remove terminate s)" for sid remove terminate s
    by (auto simp: release_session_def runs_through_remove [OF assms] split: prod.split option.split)
  show ret: "runs_through (return_reservation s)" by (simp add: return_reservation_def)
  show "runs_through (abort_session ends l s)"
    by (auto simp: abort_session_def rel ret split: option.split)
qed

lemma runs_through_register: "runs_through (register_session g now ok named owner s)"
  unfolding register_session_def
  by (rule runs_through_run_then) (auto simp: return_reservation_def split: option.split)

lemma runs_through_complete:
  assumes "\<And>sid. ends sid \<noteq> Termination_cancelled"
  shows "runs_through (complete_session g ends now l resp m s)"
proof -
  have settle: "runs_through (case named of None \<Rightarrow> (Inr (), t) | Some sid \<Rightarrow> if registered then (Inr (), t) else remove_sdk_session ends sid True t)"
    for named registered t
    by (auto simp: runs_through_remove [OF assms] split: option.split)
  show ?thesis
    unfolding complete_session_def Let_def
    by (auto simp: runs_through_release [OF assms] split: option.split intro!: runs_through_run_then runs_through_register settle)
qed

lemma runs_through_admit:
  assumes "\<And>sid. ends sid \<noteq> Termination_cancelled"
  shows "runs_through (admit_session g ends now hs c s)"
  by (auto simp: admit_session_def Let_def split: prod.split intro!: runs_through_run_then runs_through_remove assms)

lemma abort_in_fields:
  assumes "undisturbed env"
  shows "fst (abort_in env l w) \<noteq> Inl Session_cancelled" "hw_sent (snd (abort_in env l w)) = hw_sent w"
proof -
  have "runs_through (abort_session (he_ends env) l (hw_sessions w))"
    by (rule runs_through_release(3)) (rule undisturbedD(2) [OF assms])
  then show "fst (abort_in env l w) \<noteq> Inl Session_cancelled" "hw_sent (snd (abort_in env l w)) = hw_sent w"
    by (cases "abort_session (he_ends env) l (hw_sessions w)"; simp add: abort_in_def runs_through_def)+
qed

lemma on_exception_answers:
  assumes "undisturbed env" "unanswered w"
  shows "answered (on_exception env l lease_done False w)"
proof -
  obtain r t where e: "(if lease_done then (Inr (), w) else abort_in env l w) = (r, t)"
    by (cases "if lease_done then (Inr (), w) else abort_in env l w")
  have "r \<noteq> Inl Session_cancelled" "unanswered t"
    using e assms(2) abort_in_fields [OF assms(1), of l w] by (auto simp: unanswered_def split: if_splits)
  then show ?thesis using refuse_answers [OF assms(1), of t 500 Rpc_internal "''Internal error''" None]
    by (simp add: on_exception_def e split: sum.split session_exn.split)
qed

lemma give_up_time_out_answers:
  assumes "undisturbed env" "unanswered w"
  shows "answered (time_out env c l w)"
proof -
  obtain r t where e: "abort_in env l w = (r, t)" by (cases "abort_in env l w")
  have r: "r \<noteq> Inl Session_cancelled" and t: "unanswered t"
    using e assms(2) abort_in_fields [OF assms(1), of l w] by (auto simp: unanswered_def)
  have "answered (Http_returned, snd (answer_error env 504 Rpc_internal ''Request timeout'' (Some (timeout_data c)) t))"
    and "fst (answer_error env 504 Rpc_internal ''Request timeout'' (Some (timeout_data c)) t) = Inr ()"
    using t by (simp_all add: answer_error_def send_json_taken [OF assms(1)] answered_with_def unanswered_def json_headers_def)
  then show ?thesis
    using r on_exception_answers [OF assms(1) t]
    by (cases "answer_error env 504 Rpc_internal ''Request timeout'' (Some (timeout_data c)) t")
      (auto simp: time_out_def e split: sum.split session_exn.split)
qed

lemma limiter_feed_quiet:
  assumes "unanswered w"
  shows "filter is_response (al_sent (limiter_feed cl maximum ms (fresh_limiter (hw_sent w)))) = []"
    and "\<not> al_committed (limiter_feed cl maximum ms (fresh_limiter (hw_sent w)))"
proof -
  have "held_back maximum (fresh_limiter (hw_sent w))"
    using assms by (auto simp: held_back_def fresh_limiter_def unanswered_def list_ex_iff filter_empty_conv)
  from held_back_feed [OF this, of cl ms]
  show "filter is_response (al_sent (limiter_feed cl maximum ms (fresh_limiter (hw_sent w)))) = []"
    and "\<not> al_committed (limiter_feed cl maximum ms (fresh_limiter (hw_sent w)))"
    by (auto simp: held_back_def list_ex_iff filter_empty_conv)
qed

lemma deliver_answers:
  assumes u: "undisturbed env" and l: "filter is_response (al_sent resp) = []" "\<not> al_committed resp" and w: "unanswered w"
  shows "answered (deliver g env lease m resp w)"
proof -
  obtain r s where c: "complete_session (session_config_of g) (he_ends env) (he_completed env) lease resp m (hw_sessions w) = (r, s)"
    by (cases "complete_session (session_config_of g) (he_ends env) (he_completed env) lease resp m (hw_sessions w)")
  have "runs_through (complete_session (session_config_of g) (he_ends env) (he_completed env) lease resp m (hw_sessions w))"
    by (rule runs_through_complete) (rule undisturbedD(2) [OF u])
  then have r: "r \<noteq> Inl Session_cancelled" by (simp add: c runs_through_def)
  have w': "unanswered (w\<lparr>hw_sessions := s\<rparr>)" "unanswered (with_limiter (w\<lparr>hw_sessions := s\<rparr>) resp)"
    using w l(1) by (simp_all add: unanswered_def with_limiter_def)
  show ?thesis
  proof (cases r)
    case (Inl e)
    then show ?thesis using r on_exception_answers [OF u w'(1), of lease True]
      by (simp add: deliver_def c split: session_exn.split)
  next
    case (Inr v)
    show ?thesis
    proof (cases "\<exists>status hs pairs. al_start resp = Some (status, hs) \<and> response_header_pairs hs = Inr pairs \<and> al_ready resp")
      case False
      obtain e where f: "limiter_flush (he_client env) resp = (Inl e, resp)"
        using flush_not_ready [OF False, of "he_client env"] by blast
      have "e \<noteq> Asgi_cancelled" using f False
        by (auto simp: limiter_flush_def undisturbedD(1) [OF u] split: option.splits sum.splits if_splits elim: response_header_pairs.elims)
      then show ?thesis using f on_exception_answers [OF u w'(2), of lease True] l(2)
        by (simp add: deliver_def c Inr split: asgi_exn.split)
    next
      case True
      then obtain status hs pairs where x: "al_start resp = Some (status, hs)" "response_header_pairs hs = Inr pairs" "al_ready resp" by blast
      show ?thesis using l(1)
        by (simp add: deliver_def c Inr flush_ready(1) [OF x] limiter_send_def send_to_def undisturbedD(1) [OF u]
            with_limiter_def answered_with_def)
    qed
  qed
qed

lemma run_protocol_answers:
  assumes "undisturbed env" "unanswered w"
  shows "answered (run_protocol g env m c l w)"
proof -
  note q = limiter_feed_quiet [OF assms(2), of "he_client env" "hl_response_body (hx_limits g)"]
  have w: "unanswered (with_limiter w (limiter_feed (he_client env) (hl_response_body (hx_limits g)) ms (fresh_limiter (hw_sent w))))" for ms
    using q(1) by (simp add: unanswered_def with_limiter_def)
  show ?thesis
    using undisturbedD(4,5) [OF assms(1), of c l] on_exception_answers [OF assms(1) w] give_up_time_out_answers [OF assms(1) w]
      deliver_answers [OF assms(1) q w]
    by (cases "he_sdk env c l") (auto simp: run_protocol_def Let_def split: sdk_end.splits)
qed

text \<open>C36. When the client takes what it is sent and nobody cancels, every HTTP request is answered by
  exactly one whole response, whatever the headers, the provider, the session table, the registry of
  the library and the library itself do: a library that raises, sends too much, ends without a
  response or runs out of time is answered for.\<close>

theorem http_request_answered:
  assumes "undisturbed env" "sc_http sc" "filter is_response (hw_sent w) = []"
  shows "fst (http_call g env sc w) = Http_returned \<and> (\<exists>status pairs body.
    filter is_response (hw_sent (snd (http_call g env sc w))) =
      [Response_start status (Header_pairs pairs), Response_body (Some body) False])"
proof -
  have w: "unanswered w" using assms(3) by (simp add: unanswered_def)
  note refuse_ok = refuse_answers [OF assms(1)]
  have admitted: "answered (serve_admitted g env r c w)" for r c
  proof -
    obtain x s where a: "admit_session (session_config_of g) (he_ends env) (he_now env) (rm_headers r) c (hw_sessions w) = (x, s)"
      by (cases "admit_session (session_config_of g) (he_ends env) (he_now env) (rm_headers r) c (hw_sessions w)")
    have "runs_through (admit_session (session_config_of g) (he_ends env) (he_now env) (rm_headers r) c (hw_sessions w))"
      by (rule runs_through_admit) (rule undisturbedD(2) [OF assms(1)])
    then have x: "x \<noteq> Inl Session_cancelled" by (simp add: a runs_through_def)
    have v: "unanswered (w\<lparr>hw_sessions := s\<rparr>)" "unanswered (w\<lparr>hw_sessions := s, hw_calls := k\<rparr>)" for k
      using w by (simp_all add: unanswered_def)
    show ?thesis using x refuse_ok [OF v(1)] run_protocol_answers [OF assms(1) v(2)]
      by (cases x) (simp_all add: serve_admitted_def a split: session_exn.split)
  qed
  have protocol: "answered (serve_protocol g env sc w)"
    using refuse_ok [OF w] admitted undisturbedD(3) [OF assms(1)]
    by (auto simp: serve_protocol_def authenticate_def Let_def split: sum.split creation.splits)
  obtain x sent where e: "route_operations g env sc (hw_sent w) = (x, sent)" by (cases "route_operations g env sc (hw_sent w)")
  have ops: "x = Inr False \<or> (x = Inr True \<and> answered_with sent)"
  proof (cases "sc_path sc")
    case None
    then show ?thesis using e by (simp add: route_operations_def)
  next
    case (Some p)
    then show ?thesis
      using serve_operations_taken [OF assms(1,3), of "hx_config g" "hx_accepting g" "hx_operations g" "hx_fallback g" p "sc_method sc"] e
      by (auto simp: route_operations_def is_ok_iff)
  qed
  have "answered (http_call g env sc w)"
    using ops protocol refuse_ok [OF w] assms(2) by (auto simp: http_call_def e)
  then show ?thesis by (simp add: answered_with_def)
qed

subsection \<open>A sample\<close>

definition sample_http_setup :: "bool \<Rightarrow> http_setup" where
  "sample_http_setup stateless = \<lparr>hx_config = default_http_config\<lparr>hc_stateless := stateless\<rparr>, hx_limits = default_http_limits,
     hx_handshake = [''2025-06-18''], hx_accepting = True, hx_operations = None, hx_fallback = []\<rparr>"

definition sample_http_env :: "asgi_message list \<Rightarrow> http_env" where
  "sample_http_env ms = \<lparr>he_client = (\<lambda>sent m. Returns), he_context = (\<lambda>r k. Created sample_context), he_token = Token 0,
     he_sdk = (\<lambda>c l. Sdk_finished Sdk_returns ms False), he_ends = (\<lambda>sid. Terminated), he_now = Fin 1, he_completed = Fin 2,
     he_render = (\<lambda>v. ''{}'')\<rparr>"

definition sample_scope :: http_scope where
  "sample_scope = \<lparr>sc_http = True, sc_path = Some ''/mcp'', sc_method = Some ''POST'', sc_headers = Some [Some (''accept'', ''json'')],
     sc_client = Some ''10.0.0.1''\<rparr>"

definition sample_world :: http_world where
  "sample_world = \<lparr>hw_sessions = no_sessions, hw_sent = [], hw_calls = []\<rparr>"

definition ok_response :: "asgi_message list" where
  "ok_response = [Response_start (Some 200) (Header_pairs []), Response_body (Some ''ok'') False]"

definition sample_metadata :: request_metadata where
  "sample_metadata = \<lparr>rm_method = ''POST'', rm_path = ''/mcp'', rm_headers = [(''accept'', ''json'')], rm_peer = Some ''10.0.0.1''\<rparr>"

lemma sample_limits_ok: "check_http_limits default_http_limits = Inr ()"
  by (simp add: check_http_limits_def default_http_limits_def http_duration_def del: for_each.simps)

lemma sample_route:
  "route_operations (sample_http_setup b) env sample_scope sent = (Inr False, sent)"
proof -
  have "operations_path ''/mcp'' = ''/mcp''" by code_simp
  then show ?thesis
    by (simp add: route_operations_def sample_scope_def serve_operations_def sample_http_setup_def default_http_config_def Let_def)
qed

lemma sample_request:
  "http_headers default_http_limits (sc_headers sample_scope) = Inr [(''accept'', ''json'')]"
  "request_of default_http_config sample_scope [(''accept'', ''json'')] = sample_metadata"
  by code_simp+

lemma sample_setup [simp]:
  "hx_config (sample_http_setup b) = default_http_config\<lparr>hc_stateless := b\<rparr>" "hx_limits (sample_http_setup b) = default_http_limits"
  "hx_accepting (sample_http_setup b)" "protocol_path (default_http_config\<lparr>hc_stateless := b\<rparr>) (sc_path sample_scope)"
  "sc_http sample_scope" "hw_calls sample_world = []" "hw_sessions sample_world = no_sessions"
  by (simp_all add: sample_http_setup_def protocol_path_def sample_scope_def default_http_config_def sample_world_def)

lemma sample_served:
  "http_call (sample_http_setup b) (sample_http_env ms) sample_scope sample_world =
     serve_admitted (sample_http_setup b) (sample_http_env ms) sample_metadata sample_context sample_world"
proof -
  have r: "request_of (default_http_config\<lparr>hc_stateless := b\<rparr>) sample_scope [(''accept'', ''json'')] = sample_metadata"
    using sample_request(2) by (simp add: request_of_def)
  have a: "authenticate (sample_http_env ms) sample_metadata = Created sample_context"
    by (simp add: authenticate_def sample_http_env_def sample_context_def)
  show ?thesis by (simp add: http_call_def sample_route serve_protocol_def sample_request(1) named_headers_def Let_def r a)
qed

lemma sample_call:
  "hw_calls (snd (http_call (sample_http_setup True) (sample_http_env ok_response) sample_scope sample_world)) =
     [(sample_metadata, sample_context, no_lease)]"
  by (simp add: sample_served serve_admitted_def admit_session_def session_config_of_def default_http_config_def Let_def)

theorem library_call_guarded_witness:
  "he_context (sample_http_env ok_response) sample_metadata (Token 0) = Created sample_context \<and>
   header_bytes [(''accept'', ''json'')] = 10 \<and> int 10 \<le> hl_request_header_bytes default_http_limits"
  using library_call_guarded [of "sample_http_setup True" sample_metadata sample_context no_lease "sample_http_env ok_response"
      sample_scope sample_world] sample_call
  by (simp add: sample_limits_ok) (simp add: sample_http_env_def sample_metadata_def default_http_limits_def)

lemma sample_undisturbed: "undisturbed (sample_http_env ms)"
  by (simp add: undisturbed_def sample_http_env_def)

theorem http_request_answered_witness:
  "fst (http_call (sample_http_setup False) (sample_http_env []) sample_scope sample_world) = Http_returned \<and>
   length (filter is_response (hw_sent (snd (http_call (sample_http_setup False) (sample_http_env []) sample_scope sample_world)))) = 2"
  using http_request_answered [OF sample_undisturbed [of "[]"], of sample_scope sample_world "sample_http_setup False"]
  by (auto simp: sample_world_def)

text \<open>
  A library that ends without a response is answered for, and the reservation of its session is never
  returned: as many such requests as there may be sessions, and every new session is refused.
\<close>

lemma silent_library_leaks:
  "hs_pending (hw_sessions (snd (http_call (sample_http_setup False) (sample_http_env []) sample_scope sample_world))) = 1"
proof -
  let ?l = "no_lease\<lparr>le_reserved := True, le_owner := Some sample_owner\<rparr>" and ?s = "no_sessions\<lparr>hs_pending := Suc 0\<rparr>"
  have a: "admit_session (session_config_of (sample_http_setup False)) ends now (rm_headers sample_metadata) sample_context no_sessions =
      (Inr ?l, ?s)" for ends now
    by (simp add: admit_session_def lock_admit_def admit_locked_def named_headers_def session_config_of_def sample_metadata_def no_sessions_def
        session_owner_of_def ctx_tenant_def ctx_issuer_def ctx_subject_def sample_context_def sample_identity_def
        default_http_config_def default_http_limits_def Let_def)
  have k: "complete_session g ends now ?l (fresh_limiter sent) m ?s = (Inl Session_failed, ?s)" for g ends now sent m
    by (rule incomplete_response_leaks) (simp_all add: fresh_limiter_def)
  show ?thesis
    unfolding sample_served
    by (simp add: serve_admitted_def a run_protocol_def sample_http_env_def limiter_feed_def deliver_def k
        on_exception_def refuse_def answer_error_def send_json_def send_to_def with_limiter_def)
qed

end
