(* ===== verification/Http_Tools.thy ===== *)
theory Http_Tools
  imports Http_Transport
begin

section \<open>Tools of the streamable HTTP transport\<close>

text \<open>
  Models the protocol side of \<^verbatim>\<open>src/tesserix_mcp_runtime/adapters/streamable_http.py\<close>: the cursors and
  pages of the tool list, the authority a call may repeat in its metadata, the table of the calls in
  flight with their cancellation, the answer of a tool call, the telemetry of the protocol, and the
  start and stop of the transport. The application and a protocol-native endpoint are environments;
  the values they give are finite JSON.
\<close>

subsection \<open>URL-safe base64\<close>

definition b64_char :: "nat \<Rightarrow> char" where
  "b64_char n =
     (if n < 26 then char_of (65 + n) else if n < 52 then char_of (71 + n) else if n < 62 then char_of (n - 4)
      else if n = 62 then CHR ''-'' else CHR ''_'')"

text \<open>The decoder translates the two URL-safe characters, and takes the standard ones as well.\<close>

definition b64_value :: "char \<Rightarrow> nat option" where
  "b64_value c =
     (let n = ord_of c in
      if 65 \<le> n \<and> n \<le> 90 then Some (n - 65) else if 97 \<le> n \<and> n \<le> 122 then Some (n - 71)
      else if 48 \<le> n \<and> n \<le> 57 then Some (n + 4) else if c = CHR ''-'' \<or> c = CHR ''+'' then Some 62
      else if c = CHR ''_'' \<or> c = CHR ''/'' then Some 63 else None)"

text \<open>\<^verbatim>\<open>urlsafe_b64encode(payload).rstrip(b"=")\<close>: the values of the groups of six bits, without padding.\<close>

fun b64_groups :: "nat list \<Rightarrow> nat list" where
  "b64_groups [] = []"
| "b64_groups [a] = [a div 4, a mod 4 * 16]"
| "b64_groups [a, b] = [a div 4, a mod 4 * 16 + b div 16, b mod 16 * 4]"
| "b64_groups (a # b # c # r) = [a div 4, a mod 4 * 16 + b div 16, b mod 16 * 4 + c div 64, c mod 64] @ b64_groups r"

fun b64_octets :: "nat list \<Rightarrow> nat list" where
  "b64_octets (x # y # z # w # r) = [x * 4 + y div 16, y mod 16 * 16 + z div 4, z mod 4 * 64 + w] @ b64_octets r"
| "b64_octets [x, y, z] = [x * 4 + y div 16, y mod 16 * 16 + z div 4]"
| "b64_octets [x, y] = [x * 4 + y div 16]"
| "b64_octets r = []"

definition b64_encode :: "string \<Rightarrow> string" where
  "b64_encode s = map b64_char (b64_groups (map ord_of s))"

text \<open>
  \<^verbatim>\<open>b64decode(..., validate=True)\<close> of the supported interpreters: characters of the alphabet, then
  padding, as much as the last group needs; padding after a whole group is skipped.
\<close>

definition b64_decode :: "string \<Rightarrow> string option" where
  "b64_decode t =
     (let d = takeWhile (\<lambda>c. c \<noteq> CHR ''='') t; p = drop (length d) t; vs = map b64_value d in
      if list_ex (\<lambda>c. c \<noteq> CHR ''='') p \<or> list_ex (\<lambda>v. v = None) vs then None
      else if (d = [] \<and> p \<noteq> []) \<or> length d mod 4 = 1 \<or> (length d mod 4 = 2 \<and> length p \<noteq> 2) \<or> (length d mod 4 = 3 \<and> length p \<noteq> 1)
      then None
      else Some (map char_of (b64_octets (map the vs))))"

lemma b64_value_char: "n < 64 \<Longrightarrow> b64_value (b64_char n) = Some n"
proof -
  have "list_all (\<lambda>n. b64_value (b64_char n) = Some n) [0..<64]" by code_simp
  then show "n < 64 \<Longrightarrow> b64_value (b64_char n) = Some n" by (simp add: list_all_iff)
qed

lemma b64_char_no_pad: "n < 64 \<Longrightarrow> b64_char n \<noteq> CHR ''=''"
  using b64_value_char [of n] by (auto simp: b64_value_def ord_of_def)

lemma b64_groups_small: "list_all (\<lambda>n. n < 256) s \<Longrightarrow> list_all (\<lambda>n. n < 64) (b64_groups s)"
proof (induction s rule: b64_groups.induct)
  case (4 a b c r)
  then show ?case by auto
qed auto

lemma b64_octets_groups: "list_all (\<lambda>n. n < 256) s \<Longrightarrow> b64_octets (b64_groups s) = s"
proof (induction s rule: b64_groups.induct)
  case (2 a)
  then show ?case by simp
next
  case (3 a b)
  have "(a mod 4 * 16 + b div 16) div 16 = a mod 4" "(a mod 4 * 16 + b div 16) mod 16 = b div 16"
    using 3 by auto
  then show ?case by simp
next
  case (4 a b c r)
  have "(a mod 4 * 16 + b div 16) div 16 = a mod 4" "(a mod 4 * 16 + b div 16) mod 16 = b div 16"
    "(b mod 16 * 4 + c div 64) div 4 = b mod 16" "(b mod 16 * 4 + c div 64) mod 4 = c div 64"
    using 4 by auto
  then show ?case using 4 by simp
qed simp

lemma b64_groups_length: "length (b64_groups s) mod 4 = (if length s mod 3 = 0 then 0 else length s mod 3 + 1)"
  by (induction s rule: b64_groups.induct) (auto simp: mod_Suc)

lemma ord_of_less: "ord_of c < 256"
  by (simp add: ord_of_def)

definition b64_padding :: "string \<Rightarrow> string" where
  "b64_padding t = replicate ((4 - length t mod 4) mod 4) CHR ''=''"

lemma b64_round_trip: "b64_decode (b64_encode s @ b64_padding (b64_encode s)) = Some s"
proof -
  let ?g = "b64_groups (map ord_of s)"
  have small: "list_all (\<lambda>n. n < 256) (map ord_of s)" by (simp add: list_all_iff ord_of_less)
  have g: "list_all (\<lambda>n. n < 64) ?g" by (rule b64_groups_small [OF small])
  have nopad: "c \<noteq> CHR ''=''" if "c \<in> set (b64_encode s)" for c
    using that g by (auto simp: b64_encode_def list_all_iff dest: b64_char_no_pad)
  have tw: "takeWhile (\<lambda>c. c \<noteq> CHR ''='') (b64_encode s @ b64_padding (b64_encode s)) = b64_encode s"
    using nopad by (auto simp: takeWhile_append2 b64_padding_def takeWhile_eq_Nil_iff split: nat.split)
  have vs: "map b64_value (b64_encode s) = map Some ?g"
    using g by (auto simp: b64_encode_def list_all_iff b64_value_char)
  have m: "length (b64_encode s) mod 4 \<noteq> 1" "b64_encode s = [] \<Longrightarrow> b64_padding (b64_encode s) = []"
    "length (b64_encode s) mod 4 = 2 \<Longrightarrow> length (b64_padding (b64_encode s)) = 2"
    "length (b64_encode s) mod 4 = 3 \<Longrightarrow> length (b64_padding (b64_encode s)) = 1"
    using b64_groups_length [of "map ord_of s"] by (auto simp: b64_padding_def b64_encode_def split: if_splits)
  have o: "map char_of (b64_octets ?g) = s"
    using b64_octets_groups [OF small] by (simp add: ord_of_def comp_def)
  have p: "\<not> list_ex (\<lambda>c. c \<noteq> CHR ''='') (b64_padding (b64_encode s))"
    by (auto simp: b64_padding_def list_ex_iff)
  show ?thesis
    unfolding b64_decode_def Let_def tw using m p by (auto simp: vs list_ex_iff o comp_def)
qed

subsection \<open>Cursors\<close>

datatype mcp_error = Mcp_error rpc_code string "pyval option"

abbreviation invalid_cursor :: mcp_error where
  "invalid_cursor \<equiv> Mcp_error Invalid_params ''Invalid cursor'' None"

abbreviation mcp_internal :: mcp_error where
  "mcp_internal \<equiv> Mcp_error Rpc_internal ''Internal error'' None"

definition encode_cursor :: "string \<Rightarrow> int \<Rightarrow> string" where
  "encode_cursor token page = b64_encode (''v1:'' @ token @ '':'' @ int_str page)"

text \<open>\<^verbatim>\<open>payload.split(":", maxsplit=2)\<close> into exactly three parts.\<close>

definition cursor_parts :: "string \<Rightarrow> (string \<times> string \<times> string) option" where
  "cursor_parts payload =
     (let (version, more_parts, rest) = partition_at CHR '':'' payload; (token, last_part, page) = partition_at CHR '':'' rest in
      if more_parts \<and> last_part then Some (version, token, page) else None)"

definition decode_cursor :: "string \<Rightarrow> int \<Rightarrow> string \<Rightarrow> (mcp_error, int) result" where
  "decode_cursor token max_pages cursor =
     raise_if (cursor = [] \<or> length cursor > 256) invalid_cursor
     (case b64_decode (cursor @ b64_padding cursor) of
        None \<Rightarrow> Inl invalid_cursor
      | Some payload \<Rightarrow>
          if \<not> list_all (\<lambda>c. ord_of c < 128) payload then Inl invalid_cursor
          else (case cursor_parts payload of
              None \<Rightarrow> Inl invalid_cursor
            | Some (version, t, page_text) \<Rightarrow>
                (case py_int page_text of
                   None \<Rightarrow> Inl invalid_cursor
                 | Some page \<Rightarrow>
                     raise_if (version \<noteq> ''v1'' \<or> t \<noteq> token \<or> page < 1 \<or> page \<ge> max_pages) invalid_cursor (Inr page))))"

lemma digits_only: "list_all is_digit (nat_digits n)"
proof (induction n rule: nat_digits.induct)
  case (1 n)
  have "list_all is_digit [char_of (48 + k)]" if "k < 10" for k :: nat
  proof -
    have "list_all (\<lambda>k. is_digit (char_of (48 + k))) [0..<10]" by code_simp
    then show ?thesis using that by (simp add: list_all_iff)
  qed
  then show ?case using 1 by (subst nat_digits.simps) simp
qed

lemma split_on_single: "c \<notin> set s \<Longrightarrow> split_on c s = [s]"
  by (induction s) auto

lemma digit_char: "is_digit c \<Longrightarrow> c \<noteq> CHR ''_'' \<and> c \<noteq> CHR ''+'' \<and> c \<noteq> CHR ''-'' \<and> c \<noteq> CHR '':'' \<and> \<not> is_space c \<and> ord_of c < 128"
  by (auto simp: is_digit_def chr_range_def is_space_def ord_of_def)

lemma strip_solid:
  assumes "list_all (\<lambda>c. \<not> is_space c) s"
  shows "strip s = s"
proof -
  have d: "dropWhile is_space t = t" if "list_all (\<lambda>c. \<not> is_space c) t" for t
    using that by (cases t) auto
  have "list_all (\<lambda>c. \<not> is_space c) (rev s)" using assms by (simp add: list_all_iff)
  then show ?thesis by (simp add: strip_def d assms)
qed

lemma nat_digits_nonempty: "nat_digits n \<noteq> []"
  by (subst nat_digits.simps) simp

lemma py_int_digits:
  assumes "length (nat_digits n) \<le> 4300"
  shows "py_int (nat_digits n) = Some (int n)"
proof -
  have ds: "\<forall>c\<in>set (nat_digits n). is_digit c" using digits_only [of n] by (simp add: list_all_iff)
  have st: "strip (nat_digits n) = nat_digits n"
    using ds digit_char by (intro strip_solid) (auto simp: list_all_iff)
  obtain c r where c: "nat_digits n = c # r" using nat_digits_nonempty [of n] by (cases "nat_digits n") auto
  have h: "\<not> one_of ''+-'' c" "\<not> starts_with ''-'' (nat_digits n)"
    using ds digit_char [of c] by (auto simp: c one_of_def starts_with_def)
  have u: "CHR ''_'' \<notin> set (nat_digits n)" using ds digit_char by blast
  show ?thesis
    using assms h(1) split_on_single [OF u] digits_only [of n] h(2) by (simp add: py_int_def st Let_def c [symmetric] digits_value_nat_digits)
      (simp add: c digits_value_nat_digits [of n, unfolded c])
qed

text \<open>What the token of a catalog is: the first 24 digits of a SHA-256.\<close>

definition token_ok :: "string \<Rightarrow> bool" where
  "token_ok t \<longleftrightarrow> length t \<le> 24 \<and> list_all is_hex t"

lemma hex_char: "is_hex c \<Longrightarrow> c \<noteq> CHR '':'' \<and> ord_of c < 128"
  by (auto simp: is_hex_def is_digit_def chr_range_def ord_of_def)

lemma length_b64_groups: "length (b64_groups s) \<le> 2 * length s"
  by (induction s rule: b64_groups.induct) auto

lemma short_digits: "n < 1000 \<Longrightarrow> length (nat_digits n) \<le> 3"
  by (subst nat_digits.simps, subst nat_digits.simps, subst nat_digits.simps) auto

lemma cursor_round_trip:
  assumes "token_ok token" "1 \<le> page" "page < max_pages" "max_pages \<le> 128"
  shows "decode_cursor token max_pages (encode_cursor token page) = Inr page"
proof -
  let ?n = "nat page" and ?p = "''v1:'' @ token @ '':'' @ int_str page"
  have i: "int_str page = nat_digits ?n" "int ?n = page" using assms(2) by (simp_all add: int_str_def)
  have len: "length (nat_digits ?n) \<le> 3" using assms by (intro short_digits) simp
  have "length (encode_cursor token page) \<le> 2 * length ?p"
    using length_b64_groups [of "map ord_of ?p"] by (simp add: encode_cursor_def b64_encode_def)
  then have small: "length (encode_cursor token page) \<le> 256" using assms(1) len i by (simp add: token_ok_def)
  have nonempty: "encode_cursor token page \<noteq> []"
    using b64_round_trip [of ?p] by (auto simp: encode_cursor_def b64_decode_def b64_padding_def)
  have ascii: "list_all (\<lambda>c. ord_of c < 128) ?p"
    using assms(1) digits_only [of ?n] i(1) hex_char digit_char by (auto simp: token_ok_def list_all_iff ord_of_def)
  have "CHR '':'' \<notin> set token" using assms(1) hex_char by (auto simp: token_ok_def list_all_iff)
  then have parts: "cursor_parts ?p = Some (''v1'', token, int_str page)"
    using partition_at_append [of "CHR '':''" token "int_str page"]
    by (simp add: cursor_parts_def)
  have "py_int (int_str page) = Some page" using py_int_digits [of ?n] len assms(2) by (simp add: i)
  then show ?thesis
    unfolding decode_cursor_def encode_cursor_def [symmetric]
    using small nonempty ascii parts assms(2,3) b64_round_trip [of ?p]
    by (simp add: encode_cursor_def raise_if_def)
qed

lemma decode_cursor_range:
  "decode_cursor token max_pages cursor = Inr page \<Longrightarrow> 1 \<le> page \<and> page < max_pages"
  by (auto simp: decode_cursor_def split: option.splits if_splits)

subsection \<open>Pages of tools\<close>

record 't tool_page =
  tg_tools :: "'t list"
  tg_next :: "string option"

definition list_page :: "http_limits \<Rightarrow> string \<Rightarrow> 't list \<Rightarrow> string option \<Rightarrow> (mcp_error, 't tool_page) result" where
  "list_page l token tools cursor =
     and_then (case cursor of None \<Rightarrow> Inr 0 | Some c \<Rightarrow> decode_cursor token (hl_max_pages l) c) (\<lambda>page.
     let start = page * hl_page_size l; count = int (length tools); finish = min (start + hl_page_size l) count in
     raise_if (start \<ge> count \<and> start \<noteq> 0) invalid_cursor
     (Inr \<lparr>tg_tools = take (nat finish - nat start) (drop (nat start) tools),
           tg_next = (if finish < count then Some (encode_cursor token (page + 1)) else None)\<rparr>))"

text \<open>A client that follows the cursors, for at most so many requests.\<close>

fun follow_pages :: "nat \<Rightarrow> http_limits \<Rightarrow> string \<Rightarrow> 't list \<Rightarrow> string option \<Rightarrow> 't list option" where
  "follow_pages 0 l token tools cursor = None"
| "follow_pages (Suc n) l token tools cursor =
     (case list_page l token tools cursor of
        Inl e \<Rightarrow> None
      | Inr p \<Rightarrow> (case tg_next p of None \<Rightarrow> Some (tg_tools p)
                | Some c \<Rightarrow> map_option ((@) (tg_tools p)) (follow_pages n l token tools (Some c))))"

definition page_cursor :: "string \<Rightarrow> nat \<Rightarrow> string option" where
  "page_cursor token k = (if k = 0 then None else Some (encode_cursor token (int k)))"

lemma list_page_at:
  assumes "token_ok token" "1 \<le> hl_page_size l" "hl_max_pages l \<le> 128" "int k < hl_max_pages l"
    and "k = 0 \<or> int k * hl_page_size l < int (length tools)"
  shows "list_page l token tools (page_cursor token k) =
    Inr \<lparr>tg_tools = take (nat (hl_page_size l)) (drop (k * nat (hl_page_size l)) tools),
         tg_next = (if int (Suc k) * hl_page_size l < int (length tools) then page_cursor token (Suc k) else None)\<rparr>"
proof -
  obtain b where s: "hl_page_size l = int b" "nat (hl_page_size l) = b" using assms(2) by (metis nat_int nonneg_int_cases zero_le_one order_trans)
  have c: "(case page_cursor token k of None \<Rightarrow> Inr 0 | Some c \<Rightarrow> decode_cursor token (hl_max_pages l) c) = Inr (int k)"
    using cursor_round_trip [OF assms(1) _ assms(4,3)] by (cases k) (simp_all add: page_cursor_def)
  have n: "nat (int k * int b) = k * b" by (metis nat_int of_nat_mult)
  have e: "int k * int b + int b = int (k * b + b)" by simp
  have tk: "take (nat (min (int k * int b + int b) (int (length tools))) - k * b) (drop (k * b) tools) = take b (drop (k * b) tools)"
  proof (cases "k * b + b \<le> length tools")
    case True
    then have "min (int k * int b + int b) (int (length tools)) = int (k * b + b)" by (simp only: e min_def of_nat_le_iff if_True)
    then show ?thesis by (simp only: nat_int add_diff_cancel_left')
  next
    case False
    then have "min (int k * int b + int b) (int (length tools)) = int (length tools)" by (simp only: e min_def of_nat_le_iff if_False)
    then show ?thesis using False by (simp only: nat_int) simp
  qed
  have more_iff: "min (int k * int b + int b) (int (length tools)) < int (length tools) \<longleftrightarrow> int (Suc k) * int b < int (length tools)"
    by (simp add: min_def algebra_simps)
  have ok: "\<not> (int k * int b \<ge> int (length tools) \<and> int k * int b \<noteq> 0)"
    using assms(5) s by auto
  show ?thesis
    unfolding list_page_def c and_then_simps Let_def using ok tk more_iff
    by (simp add: s n) (simp add: page_cursor_def algebra_simps)
qed

lemma follow_pages_from:
  assumes "token_ok token" "check_http_limits l = Inr ()" "int (length tools) \<le> hl_max_tools l"
  shows "k = 0 \<or> int k * hl_page_size l < int (length tools) \<Longrightarrow> int k < hl_max_pages l \<Longrightarrow> hl_max_pages l \<le> int k + int n \<Longrightarrow>
    follow_pages n l token tools (page_cursor token k) = Some (drop (k * nat (hl_page_size l)) tools)"
proof (induction n arbitrary: k)
  case 0
  then show ?case by simp
next
  case (Suc n)
  have lim: "1 \<le> hl_page_size l" "hl_max_pages l \<le> 128" "hl_max_tools l \<le> hl_page_size l * hl_max_pages l"
    using assms(2) check_http_limits_ok [OF assms(2)] by (simp_all add: check_http_limits_def del: for_each.simps)
  note page = list_page_at [OF assms(1) lim(1,2) Suc.prems(2,1)]
  obtain b where b: "hl_page_size l = int b" "nat (hl_page_size l) = b" using lim(1) by (metis nat_int nonneg_int_cases zero_le_one order_trans)
  have split: "take b (drop (k * b) tools) @ drop (Suc k * b) tools = drop (k * b) tools"
    by (metis append_take_drop_id drop_drop mult_Suc)
  show ?case
  proof (cases "int (Suc k) * hl_page_size l < int (length tools)")
    case True
    have "int (Suc k) * hl_page_size l < hl_max_pages l * hl_page_size l"
      using True assms(3) lim(3) by (simp add: mult.commute)
    then have k: "int (Suc k) < hl_max_pages l" using lim(1) by simp
    have "follow_pages n l token tools (page_cursor token (Suc k)) = Some (drop (Suc k * b) tools)"
      using Suc.IH [of "Suc k"] True k Suc.prems(3) b by simp
    then show ?thesis using page True split b by (simp add: page_cursor_def)
  next
    case False
    have "drop (Suc k * b) tools = []" using False unfolding b(1) of_nat_mult [symmetric]
      by (simp only: of_nat_less_iff not_less drop_all)
    then show ?thesis using page False split b by simp
  qed
qed

text \<open>C40. A client that follows the cursors from the first page gets every tool, once and in order,
  within the number of pages the limits allow: every cursor a page gives is accepted.\<close>

theorem pages_list_every_tool:
  assumes "check_http_limits l = Inr ()" "token_ok token" "int (length tools) \<le> hl_max_tools l"
  shows "follow_pages (nat (hl_max_pages l)) l token tools None = Some tools"
  using follow_pages_from [OF assms(2,1,3), of 0 "nat (hl_max_pages l)"] check_http_limits_ok [OF assms(1)]
  by (simp add: page_cursor_def)

theorem pages_list_every_tool_witness:
  "follow_pages 4 default_http_limits (replicate 24 CHR ''a'') (upt 0 100) None = Some (upt 0 100)"
proof -
  have "token_ok (replicate 24 CHR ''a'')" by (simp add: token_ok_def list_all_iff is_hex_def is_digit_def chr_range_def ord_of_def)
  then show ?thesis
    using pages_list_every_tool [OF sample_limits_ok, of "replicate 24 CHR ''a''" "upt 0 100"] by (simp add: default_http_limits_def)
qed

subsection \<open>Authority in the metadata of a call\<close>

definition expected_authority :: "call_context \<Rightarrow> (string \<times> pyval) list" where
  "expected_authority c =
     [(''tenant'', PStr (ctx_tenant c)), (''subject'', PStr (ctx_subject c)), (''run'', PStr (cc_run_id c)),
      (''scopes'', PStr (join '' '' (ctx_scopes c))), (''traceparent'', of_opt_str (traceparent (cc_trace c))),
      (''tracestate'', of_opt_str (tracestate (cc_trace c))), (''idempotency-key'', of_opt_str (cc_idempotency_key c)),
      (''approval-id'', of_opt_str (cc_approval_id c))]"

definition authority_key :: "string \<Rightarrow> string \<Rightarrow> string" where
  "authority_key prefix name = prefix @ ''/'' @ name"

definition validate_authority_meta :: "call_context \<Rightarrow> (pykey \<times> pyval) list \<Rightarrow> (mcp_error, unit) result" where
  "validate_authority_meta c meta =
     for_each (\<lambda>prefix. for_each (\<lambda>(name, value).
       raise_if (dict_get (authority_key prefix name) meta \<notin> {None, Some value})
         (Mcp_error Invalid_request ''Unauthorized''
           (Some (obj [(''code'', PStr ''authority_mismatch''), (''request_id'', PStr (cc_request_id c))])))
         (Inr ())) (expected_authority c))
     [''tesserix/runtime'', ''tesserix/adk'']"

subsection \<open>Calls in flight\<close>

datatype rpc_id = Id_integer int | Id_string string

fun rpc_id_of :: "pyval \<Rightarrow> rpc_id option" where
  "rpc_id_of (PInt i) = Some (Id_integer i)"
| "rpc_id_of (PStr s) = Some (Id_string s)"
| "rpc_id_of v = None"

type_synonym request_key = "string option \<times> rpc_id"

text \<open>The calls with their cancellation, and, as a ghost, the cancellations set by the table.\<close>

record call_table =
  ct_active :: "(request_key \<times> cancellation) list"
  ct_cancelled :: "cancellation list"

text \<open>The session a request belongs to: its one session header, in any case of letters.\<close>

definition protocol_session_id :: "(string \<times> string) option list option \<Rightarrow> string option" where
  "protocol_session_id raw =
     (case raw of None \<Rightarrow> None
      | Some hs \<Rightarrow>
          (case List.map_filter (\<lambda>h. case h of Some (k, v) \<Rightarrow> if map lower_ascii k = ''mcp-session-id'' then Some v else None | None \<Rightarrow> None) hs of
             [v] \<Rightarrow> Some v | _ \<Rightarrow> None))"

definition protocol_request_key :: "string option \<Rightarrow> pyval \<Rightarrow> request_key option" where
  "protocol_request_key sid request_id = map_option (Pair sid) (rpc_id_of request_id)"

definition cancel_in_table :: "request_key option \<Rightarrow> call_table \<Rightarrow> call_table" where
  "cancel_in_table key t =
     (case key of None \<Rightarrow> t
      | Some k \<Rightarrow> (case map_of (ct_active t) k of None \<Rightarrow> t | Some x \<Rightarrow> t\<lparr>ct_cancelled := ct_cancelled t @ [x]\<rparr>))"

definition cancel_protocol_request_id :: "string option \<Rightarrow> pyval \<Rightarrow> call_table \<Rightarrow> call_table" where
  "cancel_protocol_request_id sid request_id t = cancel_in_table (protocol_request_key sid request_id) t"

text \<open>The body of a request, decoded (\<open>None\<close> when it is no JSON).\<close>

definition cancel_protocol_request_body :: "string option \<Rightarrow> pyval option \<Rightarrow> call_table \<Rightarrow> call_table" where
  "cancel_protocol_request_body sid body t =
     (case body of Some (PDict d) \<Rightarrow>
        if get_none ''method'' d \<noteq> PStr ''notifications/cancelled'' then t
        else (case get_none ''params'' d of PDict p \<Rightarrow> cancel_protocol_request_id sid (get_none ''requestId'' p) t | _ \<Rightarrow> t)
      | _ \<Rightarrow> t)"

definition cancel_protocol_request :: "string option \<Rightarrow> pyval \<Rightarrow> call_table \<Rightarrow> call_table" where
  "cancel_protocol_request sid params t =
     (case params of PDict p \<Rightarrow> cancel_protocol_request_id sid (get_or (get_none ''request_id'' p) ''requestId'' p) t | _ \<Rightarrow> t)"

text \<open>The entry of a call: a call under the same key is cancelled and replaced.\<close>

definition register_call :: "request_key option \<Rightarrow> cancellation \<Rightarrow> call_table \<Rightarrow> call_table" where
  "register_call key x t =
     (case key of None \<Rightarrow> t
      | Some k \<Rightarrow> (let u = cancel_in_table key t in u\<lparr>ct_active := dict_put k x (ct_active u)\<rparr>))"

definition unregister_call :: "request_key option \<Rightarrow> cancellation \<Rightarrow> call_table \<Rightarrow> call_table" where
  "unregister_call key x t =
     (case key of None \<Rightarrow> t
      | Some k \<Rightarrow> if map_of (ct_active t) k = Some x then t\<lparr>ct_active := dict_del k (ct_active t)\<rparr> else t)"

text \<open>
  The body of a request is watched while the library reads it: up to its limit it is kept, and at its
  end a cancellation notice in it is applied. \<open>parse\<close> is \<^verbatim>\<open>json.loads\<close>.
\<close>

datatype request_event = Disconnected | Request_chunk "string option" bool | Other_event

record body_watch =
  bw_body :: string
  bw_bounded :: bool
  bw_complete :: bool
  bw_disconnected :: bool
  bw_calls :: call_table

definition watch_chunk :: "int \<Rightarrow> string option \<Rightarrow> body_watch \<Rightarrow> body_watch" where
  "watch_chunk maximum chunk b =
     (case chunk of None \<Rightarrow> b
      | Some c \<Rightarrow>
          if \<not> bw_bounded b then b
          else if int (length (bw_body b) + length c) \<le> maximum then b\<lparr>bw_body := bw_body b @ c\<rparr>
          else b\<lparr>bw_body := [], bw_bounded := False\<rparr>)"

fun watch_request :: "int \<Rightarrow> (string \<Rightarrow> pyval option) \<Rightarrow> string option \<Rightarrow> request_event \<Rightarrow> body_watch \<Rightarrow> body_watch" where
  "watch_request maximum parse sid Disconnected b = b\<lparr>bw_disconnected := True\<rparr>"
| "watch_request maximum parse sid Other_event b = b"
| "watch_request maximum parse sid (Request_chunk chunk more_body) b =
     (if bw_complete b then b
      else let w = watch_chunk maximum chunk b in
        if more_body then w
        else if bw_bounded w
          then w\<lparr>bw_complete := True, bw_calls := cancel_protocol_request_body sid (parse (bw_body w)) (bw_calls w)\<rparr>
          else w\<lparr>bw_complete := True\<rparr>)"

text \<open>However long the body is, no more than the limit of it is held.\<close>

lemma watch_request_bounded:
  "int (length (bw_body b)) \<le> max maximum 0 \<Longrightarrow> int (length (bw_body (watch_request maximum parse sid e b))) \<le> max maximum 0"
  by (cases e) (auto simp: watch_chunk_def Let_def split: option.split)

text \<open>
  In a stateless transport no request has a session, so the calls of all callers share one key space:
  a call cancels the call of any other caller under the same identifier, and so does a cancellation.
\<close>

lemma stateless_calls_collide:
  assumes "protocol_request_key None i = Some k"
  shows "victim \<in> set (ct_cancelled (register_call (protocol_request_key None i) other (register_call (protocol_request_key None i) victim t)))"
    and "victim \<in> set (ct_cancelled (cancel_protocol_request_id None i (register_call (protocol_request_key None i) victim t)))"
  by (simp_all add: assms register_call_def cancel_in_table_def cancel_protocol_request_id_def Let_def split: option.split)

text \<open>With sessions, a cancellation reaches a call only under the session and the identifier it was registered with.\<close>

lemma cancel_own_session:
  assumes "x \<in> set (ct_cancelled (cancel_protocol_request_id sid i t))" "x \<notin> set (ct_cancelled t)"
  shows "\<exists>k. rpc_id_of i = Some k \<and> map_of (ct_active t) (sid, k) = Some x"
  using assms by (auto simp: cancel_protocol_request_id_def cancel_in_table_def protocol_request_key_def split: option.splits)

subsection \<open>Endpoints\<close>

text \<open>How an awaited call of an endpoint ends when it does not return.\<close>

datatype fault = Fault_cancelled | Fault_mcp mcp_error | Fault_exception

record tool_descriptor =
  td_name :: string
  td_description :: string
  td_input_schema :: pyval
  td_output_schema :: "pyval option"
  td_fingerprint :: string

definition check_tool_descriptor :: "tool_descriptor \<Rightarrow> check" where
  "check_tool_descriptor d =
     for_each (\<lambda>(name, v, maximum). raise_if (\<not> plain_text maximum v) (ValueError (name @ '' must be bounded visible text'')) okay)
       [(''name'', td_name d, 128), (''description'', td_description d, 4096), (''fingerprint'', td_fingerprint d, 128)]"

record protocol_result =
  pr_content :: "pyval list"
  pr_structured :: pyval
  pr_is_error :: bool

definition check_protocol_result :: "protocol_result \<Rightarrow> check" where
  "check_protocol_result r =
     raise_if (length (pr_content r) > 64) (ValueError ''content must be a bounded immutable tuple'') okay"

text \<open>One session of a protocol-native endpoint; a result that is not of the right class is \<open>None\<close>.\<close>

record protocol_endpoint =
  pe_connect :: "(fault, unit) result"
  pe_initialize :: "(fault, unit) result"
  pe_list :: "(fault, tool_descriptor list) result"
  pe_call :: "string \<Rightarrow> pyval \<Rightarrow> (pykey \<times> pyval) list \<Rightarrow> (fault, protocol_result option) result"
  pe_close :: "(fault, unit) result"

text \<open>\<^verbatim>\<open>try: initialize; body finally: close\<close>: an exception of the close replaces the result.\<close>

definition in_protocol_session :: "protocol_endpoint \<Rightarrow> (fault, 'a) result \<Rightarrow> (fault, 'a) result" where
  "in_protocol_session e body =
     and_then (pe_connect e) (\<lambda>_.
     case pe_close e of Inl f \<Rightarrow> Inl f | Inr _ \<Rightarrow> and_then (pe_initialize e) (\<lambda>_. body))"

text \<open>A cancellation and an error of the protocol pass; any other exception is an internal error.\<close>

definition public_fault :: "(fault, 'a) result \<Rightarrow> (fault, 'a) result" where
  "public_fault r = (case r of Inl Fault_exception \<Rightarrow> Inl (Fault_mcp mcp_internal) | x \<Rightarrow> x)"

definition initialize_protocol :: "protocol_endpoint option \<Rightarrow> (fault, unit) result" where
  "initialize_protocol pe = (case pe of None \<Rightarrow> Inr () | Some e \<Rightarrow> public_fault (in_protocol_session e (Inr ())))"

record mcp_tool =
  mt_name :: string
  mt_title :: "string option"
  mt_description :: string
  mt_input_schema :: pyval
  mt_output_schema :: "pyval option"
  mt_read_only :: "bool option"
  mt_idempotent :: "bool option"
  mt_open_world :: "bool option"
  mt_meta :: pyval

definition mcp_tool_of :: "tool_manifest \<Rightarrow> mcp_tool" where
  "mcp_tool_of m =
     (let d = mf_metadata m in
      \<lparr>mt_name = tm_name d, mt_title = Some (tm_title d), mt_description = tm_description d,
       mt_input_schema = mf_input_schema m, mt_output_schema = Some (mf_output_schema m),
       mt_read_only = Some (tm_effect d = Effect_READ), mt_idempotent = Some (tm_idempotency d = Idempotency_REQUIRED),
       mt_open_world = Some (tm_effect d = Effect_EXTERNAL_EFFECT),
       mt_meta = obj [(''com.tesserix/runtime'', metadata_to_dict d)]\<rparr>)"

definition mcp_protocol_tool :: "tool_descriptor \<Rightarrow> mcp_tool" where
  "mcp_protocol_tool d =
     \<lparr>mt_name = td_name d, mt_title = None, mt_description = td_description d, mt_input_schema = td_input_schema d,
      mt_output_schema = td_output_schema d, mt_read_only = None, mt_idempotent = None, mt_open_world = None,
      mt_meta = obj [(''com.tesserix/contract-fingerprint'', PStr (td_fingerprint d))]\<rparr>"

subsection \<open>The transport\<close>

datatype http_endpoint = Application_endpoint | Protocol_endpoint

record transport =
  tr_accepting :: bool
  tr_endpoint :: "http_endpoint option"
  tr_manifests :: "tool_manifest list"
  tr_descriptors :: "tool_descriptor list"
  tr_token :: string
  tr_sessions :: session_state
  tr_calls :: call_table
  tr_telemetry_failures :: nat

definition http_list_tools ::
  "http_limits \<Rightarrow> protocol_endpoint option \<Rightarrow> string option \<Rightarrow> transport \<Rightarrow> (fault, mcp_tool tool_page) result" where
  "http_list_tools l pe cursor s =
     (case pe of
        Some e \<Rightarrow>
          and_then (public_fault (in_protocol_session e (pe_list e))) (\<lambda>listed.
          raise_if (listed \<noteq> tr_descriptors s) (Fault_mcp mcp_internal)
          (case list_page l (tr_token s) (map mcp_protocol_tool (tr_descriptors s)) cursor of Inl x \<Rightarrow> Inl (Fault_mcp x) | Inr p \<Rightarrow> Inr p))
      | None \<Rightarrow> (case list_page l (tr_token s) (map mcp_tool_of (tr_manifests s)) cursor of Inl x \<Rightarrow> Inl (Fault_mcp x) | Inr p \<Rightarrow> Inr p))"

subsection \<open>Calling a tool\<close>

record call_answer =
  ca_content :: "pyval list"
  ca_structured :: pyval
  ca_is_error :: bool

definition text_content :: "string \<Rightarrow> pyval" where
  "text_content s = obj [(''type'', PStr ''text''), (''text'', PStr s)]"

definition answer_protocol :: "(pyval \<Rightarrow> pyval option) \<Rightarrow> protocol_result \<Rightarrow> (fault, call_answer) result" where
  "answer_protocol block r =
     and_then (map_result (\<lambda>v. case block v of Some b \<Rightarrow> Inr b | None \<Rightarrow> Inl (Fault_mcp mcp_internal)) (pr_content r)) (\<lambda>blocks.
     Inr \<lparr>ca_content = blocks, ca_structured = pr_structured r, ca_is_error = pr_is_error r\<rparr>)"

text \<open>
  The answer for a result of the application: the public error as text, or the value, repeated as
  text when both forms and the envelope fit in a response.
\<close>

definition answer_result :: "(rat \<Rightarrow> string) \<Rightarrow> http_limits \<Rightarrow> invocation_result \<Rightarrow> (fault, call_answer) result" where
  "answer_result frepr l r =
     (if ir_status r = Status_FAILURE then
        (case ir_error r of
           None \<Rightarrow> Inl (Fault_mcp mcp_internal)
         | Some e \<Rightarrow>
             (case dumps frepr (error_to_dict e) of
                None \<Rightarrow> Inl Fault_exception
              | Some shown \<Rightarrow> Inr \<lparr>ca_content = [text_content shown], ca_structured = PNone, ca_is_error = True\<rparr>))
      else
        (case dumps frepr (ir_value r) of
           None \<Rightarrow> Inl Fault_exception
         | Some shown \<Rightarrow>
             Inr \<lparr>ca_content = (if int (utf8_length shown + utf8_length (json_string shown) + 512) \<le> hl_response_body l
                                then [text_content shown] else []),
                  ca_structured = ir_value r, ca_is_error = False\<rparr>))"

record tool_call_env =
  tc_context :: "call_context option"
  tc_protocol :: "protocol_endpoint option"
  tc_invoke :: "(string \<Rightarrow> pyval \<Rightarrow> call_context \<Rightarrow> (fault, invocation_result) result) option"
  tc_request_id :: pyval
  tc_headers :: "(string \<times> string) option list option"
  tc_request_token :: "cancellation \<Rightarrow> bool"
  tc_cancelling :: bool
  tc_block :: "pyval \<Rightarrow> pyval option"

datatype endpoint_result = From_protocol protocol_result | From_application invocation_result

text \<open>What the endpoint gives for a call; an exception of a protocol-native one is an internal error.\<close>

definition run_endpoint ::
  "tool_call_env \<Rightarrow> string \<Rightarrow> pyval \<Rightarrow> (pykey \<times> pyval) list \<Rightarrow> call_context \<Rightarrow> (fault, endpoint_result) result" where
  "run_endpoint env name args meta c =
     (case tc_protocol env of
        Some e \<Rightarrow>
          public_fault (and_then (in_protocol_session e (pe_call e name args meta)) (\<lambda>r.
            case r of None \<Rightarrow> Inl (Fault_mcp mcp_internal) | Some p \<Rightarrow> Inr (From_protocol p)))
      | None \<Rightarrow>
          (case tc_invoke env of
             None \<Rightarrow> Inl (Fault_mcp mcp_internal)
           | Some invoke_app \<Rightarrow> and_then (invoke_app name args c) (\<lambda>r. Inr (From_application r))))"

definition answer_tool_call :: "(rat \<Rightarrow> string) \<Rightarrow> http_limits \<Rightarrow> tool_call_env \<Rightarrow> endpoint_result \<Rightarrow> (fault, call_answer) result" where
  "answer_tool_call frepr l env r =
     (case r of From_protocol p \<Rightarrow> answer_protocol (tc_block env) p | From_application i \<Rightarrow> answer_result frepr l i)"

definition http_call_tool ::
  "(rat \<Rightarrow> string) \<Rightarrow> http_limits \<Rightarrow> tool_call_env \<Rightarrow> string \<Rightarrow> pyval \<Rightarrow> (pykey \<times> pyval) list \<Rightarrow> call_table
     \<Rightarrow> (fault, call_answer) result \<times> call_table" where
  "http_call_tool frepr l env name args meta t =
     (if tc_protocol env = None \<and> tc_invoke env = None then (Inl (Fault_mcp mcp_internal), t)
      else (case tc_context env of
          None \<Rightarrow> (Inl (Fault_mcp mcp_internal), t)
        | Some c \<Rightarrow>
            (case validate_authority_meta c meta of
               Inl e \<Rightarrow> (Inl (Fault_mcp e), t)
             | Inr _ \<Rightarrow>
                 (let x = cc_cancellation c; mine = tc_request_token env x;
                      key = (if mine then protocol_request_key (protocol_session_id (tc_headers env)) (tc_request_id env) else None);
                      r = run_endpoint env name args meta c;
                      ended = unregister_call key x (register_call key x t);
                      set_now = mine \<and> (r = Inl Fault_cancelled \<or> is_ok r \<and> tc_cancelling env)
                  in (and_then r (answer_tool_call frepr l env),
                      if set_now then ended\<lparr>ct_cancelled := ct_cancelled ended @ [x]\<rparr> else ended)))))"

subsection \<open>Telemetry of the protocol\<close>

record protocol_event =
  pv_method :: string
  pv_version :: string
  pv_sdk :: string
  pv_outcome :: string

definition make_protocol_event :: "protocol_event \<Rightarrow> (value_error, protocol_event) result" where
  "make_protocol_event e =
     and_then (for_each (\<lambda>(name, v, maximum). raise_if (\<not> plain_text maximum v) (ValueError (name @ '' must be bounded visible text'')) okay)
       [(''method'', pv_method e, 128), (''protocol_version'', pv_version e, 64), (''sdk_version'', pv_sdk e, 64),
        (''outcome'', pv_outcome e, 32)]) (\<lambda>_. Inr e)"

text \<open>
  \<open>redact\<close> is the redactor on a text (\<open>None\<close>: it raises), and the sink says whether it takes an event.
  Whatever fails is counted and goes no further.
\<close>

definition emit_protocol_event ::
  "(string \<Rightarrow> string option) \<Rightarrow> (protocol_event \<Rightarrow> bool) \<Rightarrow> string \<Rightarrow> string option \<Rightarrow> string option \<Rightarrow> string \<Rightarrow> transport \<Rightarrow> protocol_event option \<times> transport" where
  "emit_protocol_event redact_one sink sdk_version method_name version outcome s =
     (case (redact_one (safe_observation method_name 128 ''invalid''), redact_one (safe_observation version 64 ''unknown''),
            redact_one sdk_version, redact_one outcome) of
        (Some m, Some v, Some k, Some out) \<Rightarrow>
          (case make_protocol_event \<lparr>pv_method = m, pv_version = v, pv_sdk = k, pv_outcome = out\<rparr> of
             Inl e \<Rightarrow> (None, s\<lparr>tr_telemetry_failures := Suc (tr_telemetry_failures s)\<rparr>)
           | Inr e \<Rightarrow> if sink e then (Some e, s) else (None, s\<lparr>tr_telemetry_failures := Suc (tr_telemetry_failures s)\<rparr>))
      | _ \<Rightarrow> (None, s\<lparr>tr_telemetry_failures := Suc (tr_telemetry_failures s)\<rparr>))"

text \<open>
  The middleware around a request of the protocol: a cancellation notice is applied, a handshake opens
  a session of the endpoint first, and the end of the request is observed either way.
\<close>

definition protocol_middleware ::
  "(string \<Rightarrow> transport \<Rightarrow> transport) \<Rightarrow> (fault, unit) result \<Rightarrow> (transport \<Rightarrow> (fault, 'a) result \<times> transport)
     \<Rightarrow> string \<Rightarrow> string option \<Rightarrow> pyval \<Rightarrow> transport \<Rightarrow> (fault, 'a) result \<times> transport" where
  "protocol_middleware observe handshake call_next method_name sid params s =
     (let s1 = (if method_name = ''notifications/cancelled''
                then s\<lparr>tr_calls := cancel_protocol_request sid params (tr_calls s)\<rparr> else s);
          (r, s2) = (if method_name \<in> {''initialize'', ''server/discover''}
                     then run_then (handshake, s1) (\<lambda>_ s. call_next s) else call_next s1)
      in (r, observe (case r of Inl f \<Rightarrow> ''failed'' | Inr a \<Rightarrow> ''completed'') s2))"

subsection \<open>Start and stop\<close>

datatype start_error = Start_configuration string string | Listener_fails | Start_cancelled

definition schemas_size :: "(rat \<Rightarrow> string) \<Rightarrow> pyval list \<Rightarrow> nat option" where
  "schemas_size frepr schemas =
     (if list_ex (\<lambda>v. dumps frepr v = None) schemas then None
      else Some (sum_list (map (\<lambda>v. utf8_length (the (dumps frepr v))) schemas)))"

text \<open>
  The pair of schemas of a tool is serialized as an array; an absent output schema is \<^verbatim>\<open>null\<close>.
\<close>

definition schema_pair :: "pyval \<Rightarrow> pyval option \<Rightarrow> pyval" where
  "schema_pair i out = PList [i, (case out of None \<Rightarrow> PNone | Some v \<Rightarrow> v)]"

definition surface_schemas :: "http_endpoint \<Rightarrow> tool_manifest list \<Rightarrow> tool_descriptor list \<Rightarrow> pyval list" where
  "surface_schemas kind ms ds =
     (case kind of Application_endpoint \<Rightarrow> map (\<lambda>m. schema_pair (mf_input_schema m) (Some (mf_output_schema m))) ms
      | Protocol_endpoint \<Rightarrow> map (\<lambda>d. schema_pair (td_input_schema d) (td_output_schema d)) ds)"

definition catalog_entries :: "http_endpoint \<Rightarrow> tool_manifest list \<Rightarrow> tool_descriptor list \<Rightarrow> string list" where
  "catalog_entries kind ms ds =
     (case kind of Application_endpoint \<Rightarrow> map (\<lambda>m. mf_normalized_name m @ '':'' @ mf_contract_fingerprint m) ms
      | Protocol_endpoint \<Rightarrow> map (\<lambda>d. td_name d @ '':'' @ td_fingerprint d) ds)"

definition catalog_token :: "(string \<Rightarrow> string) \<Rightarrow> http_endpoint \<Rightarrow> tool_manifest list \<Rightarrow> tool_descriptor list \<Rightarrow> string" where
  "catalog_token sha kind ms ds = take 24 (sha (join [CHR 0x00] (catalog_entries kind ms ds)))"

definition tools_path :: "http_endpoint \<Rightarrow> string" where
  "tools_path kind = (case kind of Application_endpoint \<Rightarrow> ''endpoint.manifests'' | Protocol_endpoint \<Rightarrow> ''endpoint.protocol_tools'')"

definition start_transport ::
  "(rat \<Rightarrow> string) \<Rightarrow> (string \<Rightarrow> string) \<Rightarrow> http_limits \<Rightarrow> http_endpoint \<Rightarrow> tool_manifest list \<Rightarrow> tool_descriptor list \<Rightarrow> hook_outcome
     \<Rightarrow> transport \<Rightarrow> (start_error, unit) result \<times> transport" where
  "start_transport frepr sha l kind ms ds listener s =
     (let tools = (case kind of Application_endpoint \<Rightarrow> length ms | Protocol_endpoint \<Rightarrow> length ds);
          t = s\<lparr>tr_endpoint := Some kind, tr_manifests := (if kind = Application_endpoint then ms else []),
                tr_descriptors := (if kind = Protocol_endpoint then ds else []), tr_token := catalog_token sha kind ms ds\<rparr>
      in if int tools > hl_max_tools l then (Inl (Start_configuration ''tool_limit_exceeded'' (tools_path kind)), s)
         else (case schemas_size frepr (surface_schemas kind ms ds) of
             None \<Rightarrow> (Inl (Start_configuration ''invalid_protocol_tools'' (tools_path kind)), s)
           | Some n \<Rightarrow>
               if int n > hl_schema_bytes l then (Inl (Start_configuration ''schema_limit_exceeded'' (tools_path kind)), s)
               else (case listener of
                   Returns \<Rightarrow> (Inr (), t\<lparr>tr_accepting := True\<rparr>)
                 | Raises \<Rightarrow> (Inl Listener_fails, t)
                 | Cancels \<Rightarrow> (Inl Start_cancelled, t))))"

definition drain_transport :: "transport \<Rightarrow> transport" where
  "drain_transport s = s\<lparr>tr_accepting := False\<rparr>"

definition stop_transport :: "hook_outcome \<Rightarrow> transport \<Rightarrow> (start_error, unit) result \<times> transport" where
  "stop_transport listener s =
     (let t = drain_transport s in
      case listener of
        Raises \<Rightarrow> (Inl Listener_fails, t)
      | Cancels \<Rightarrow> (Inl Start_cancelled, t)
      | Returns \<Rightarrow> (Inr (), t\<lparr>tr_sessions := (tr_sessions s)\<lparr>hs_sessions := [], hs_pending := 0\<rparr>,
          tr_calls := (tr_calls s)\<lparr>ct_active := []\<rparr>, tr_endpoint := None, tr_manifests := [], tr_descriptors := [], tr_token := []\<rparr>))"

subsection \<open>Calls in flight never outlive their calls\<close>

text \<open>
  Calls interleave: each registers its own cancellation, and unregisters it when it ends; cancellations
  come at any time. The calls that run are a ghost.
\<close>

type_synonym calls_world = "call_table \<times> (request_key \<times> cancellation) list"

inductive calls_step :: "calls_world \<Rightarrow> calls_world \<Rightarrow> bool" where
  call_starts: "x \<notin> snd ` set running \<Longrightarrow> calls_step (t, running) (register_call (Some k) x t, (k, x) # running)"
| call_ends: "(k, x) \<in> set running \<Longrightarrow> calls_step (t, running) (unregister_call (Some k) x t, remove1 (k, x) running)"
| call_cancelled: "calls_step (t, running) (cancel_protocol_request_id sid i t, running)"

inductive_cases calls_stepE: "calls_step a b"

definition calls_inv :: "calls_world \<Rightarrow> bool" where
  "calls_inv w \<longleftrightarrow> distinct (map fst (ct_active (fst w))) \<and> set (ct_active (fst w)) \<subseteq> set (snd w) \<and> distinct (map snd (snd w))"

lemma cancel_in_table_active [simp]: "ct_active (cancel_in_table key t) = ct_active t"
  by (simp add: cancel_in_table_def split: option.split)

lemma unregister_call_inv:
  assumes "calls_inv (t, running)" "(k, x) \<in> set running"
  shows "calls_inv (unregister_call (Some k) x t, remove1 (k, x) running)"
proof -
  have d: "distinct (map fst (ct_active t))" "set (ct_active t) \<subseteq> set running" "distinct (map snd running)"
    using assms(1) by (simp_all add: calls_inv_def)
  have run: "set (remove1 (k, x) running) = set running - {(k, x)}"
    using d(3) by (intro set_remove1_eq) (simp add: distinct_map)
  have left: "(k, x) \<notin> set (ct_active (unregister_call (Some k) x t))"
    using d(1) by (auto simp: unregister_call_def set_dict_del)
  have "set (ct_active (unregister_call (Some k) x t)) \<subseteq> set (ct_active t)"
    by (auto simp: unregister_call_def set_dict_del)
  moreover have "distinct (map fst (ct_active (unregister_call (Some k) x t)))"
    using d(1) by (simp add: unregister_call_def distinct_dict_del)
  ultimately show ?thesis using d(2,3) left by (auto simp: calls_inv_def run distinct_map inj_on_def dest: notin_set_remove1)
qed

lemma calls_step_inv: "calls_step w v \<Longrightarrow> calls_inv w \<Longrightarrow> calls_inv v"
proof (induction rule: calls_step.induct)
  case (call_starts x running t k)
  then show ?case
    using set_dict_put_cases [of "ct_active t" _ _ k x]
    by (fastforce simp: calls_inv_def register_call_def Let_def image_iff intro: distinct_dict_put)
next
  case (call_ends k x running t)
  then show ?case by (rule unregister_call_inv [rotated])
next
  case (call_cancelled t running sid i)
  then show ?case by (simp add: calls_inv_def cancel_protocol_request_id_def)
qed

interpretation calls_machine: invariant_machine "\<lambda>w. ct_active (fst w) = [] \<and> snd w = []" calls_step calls_inv
  by unfold_locales (simp add: calls_inv_def, rule calls_step_inv)

text \<open>However calls and cancellations interleave, the table of the calls in flight has one entry per
  key, each the cancellation of a call that runs under that key; when no call runs it is empty.\<close>

theorem call_table_exact:
  assumes "reachable (\<lambda>w. ct_active (fst w) = [] \<and> snd w = []) calls_step (t, running)"
  shows "distinct (map fst (ct_active t)) \<and> set (ct_active t) \<subseteq> set running \<and> (running = [] \<longrightarrow> ct_active t = [])"
  using calls_machine.reachable_inv [OF assms] by (auto simp: calls_inv_def)

definition sample_key :: request_key where
  "sample_key = (Some sample_session_id, Id_integer 1)"

theorem call_table_exact_witness:
  "ct_active (unregister_call (Some sample_key) (Token 1) (register_call (Some sample_key) (Token 1) \<lparr>ct_active = [], ct_cancelled = []\<rparr>)) = []"
proof -
  let ?t = "\<lparr>ct_active = [], ct_cancelled = []\<rparr>" and ?start = "\<lambda>w. ct_active (fst w) = [] \<and> snd w = []"
  have "reachable ?start calls_step (?t, [])" by (rule reach_start) simp
  moreover have "calls_step (?t, []) (register_call (Some sample_key) (Token 1) ?t, [(sample_key, Token 1)])"
    by (rule call_starts) simp
  ultimately have "reachable ?start calls_step (register_call (Some sample_key) (Token 1) ?t, [(sample_key, Token 1)])"
    by (rule reach_step)
  moreover have "calls_step (register_call (Some sample_key) (Token 1) ?t, [(sample_key, Token 1)])
      (unregister_call (Some sample_key) (Token 1) (register_call (Some sample_key) (Token 1) ?t), remove1 (sample_key, Token 1) [(sample_key, Token 1)])"
    by (rule call_ends) simp
  ultimately have "reachable ?start calls_step (unregister_call (Some sample_key) (Token 1) (register_call (Some sample_key) (Token 1) ?t),
      remove1 (sample_key, Token 1) [(sample_key, Token 1)])"
    by (rule reach_step)
  from call_table_exact [OF this] show ?thesis by simp
qed

end
