(* ===== verification/Http_Listener.thy ===== *)
theory Http_Listener
  imports Http_Tools
begin

section \<open>The listener of the streamable HTTP transport\<close>

text \<open>
  Models \<open>UvicornStreamableHTTPListener\<close> of \<^verbatim>\<open>src/tesserix_mcp_runtime/adapters/streamable_http.py\<close> around the
  third-party server it runs: the state it keeps of the server and its task, and what it does with each
  end of the wait for readiness. The server is an environment: how the wait ends, the address it is
  bound to, and whether its task ends within the grace it is given.
\<close>

record listener =
  ln_running :: bool
  ln_host :: string
  ln_port :: int
  ln_bound_port :: int
  ln_shutdown :: pyfloat
  ln_forced :: nat

definition make_listener :: "string \<Rightarrow> int \<Rightarrow> (value_error, listener) result" where
  "make_listener host port =
     raise_if (host = []) (ValueError ''host must be a non-empty string'')
     (raise_if (\<not> (1 \<le> port \<and> port \<le> 65535)) (ValueError ''port must be between 1 and 65535'')
     (Inr \<lparr>ln_running = False, ln_host = host, ln_port = port, ln_bound_port = port, ln_shutdown = Fin 2, ln_forced = 0\<rparr>))"

text \<open>How the wait ends: the server is ready, with its bound address (\<open>None\<close>: unusable), or not.\<close>

datatype server_wait = Server_ready "int option" | Server_timeout | Server_cancelled | Server_fails

text \<open>\<open>_terminate\<close>: the server is told to exit; a task that does not end in time is forced and cancelled.\<close>

definition terminate_server :: "bool \<Rightarrow> listener \<Rightarrow> listener" where
  "terminate_server ends s = s\<lparr>ln_running := False, ln_forced := (if ends then ln_forced s else Suc (ln_forced s))\<rparr>"

datatype listener_error = Listener_configuration string string | Listener_cancelled | Listener_value value_error

definition listener_start :: "pyfloat \<Rightarrow> server_wait \<Rightarrow> bool \<Rightarrow> listener \<Rightarrow> (listener_error, unit) result \<times> listener" where
  "listener_start timeout wait ends s =
     (if ln_running s then (Inl (Listener_configuration ''listener_already_started'' ''listener''), s)
      else if \<not> is_finite timeout \<or> timeout \<le> Fin 0
      then (Inl (Listener_value (ValueError ''startup_timeout must be a positive finite number'')), s)
      else let t = s\<lparr>ln_running := True, ln_shutdown := timeout\<rparr> in
        case wait of
          Server_ready (Some port) \<Rightarrow> (Inr (), t\<lparr>ln_bound_port := port\<rparr>)
        | Server_ready None \<Rightarrow> (Inl (Listener_configuration ''listener_start_failed'' ''listener''), terminate_server ends t)
        | Server_timeout \<Rightarrow> (Inl (Listener_configuration ''listener_start_timeout'' ''listener''), terminate_server ends t)
        | Server_cancelled \<Rightarrow> (Inl Listener_cancelled, terminate_server ends t)
        | Server_fails \<Rightarrow> (Inl (Listener_configuration ''listener_start_failed'' ''listener''), terminate_server ends t))"

definition listener_stop :: "bool \<Rightarrow> listener \<Rightarrow> listener" where
  "listener_stop ends s = (if \<not> ln_running s then s else terminate_server ends s)"

text \<open>A start leaves a server running exactly when it succeeds, and a stop never leaves one.\<close>

lemma listener_start_running:
  "\<not> ln_running s \<Longrightarrow> ln_running (snd (listener_start timeout wait ends s)) \<longleftrightarrow> fst (listener_start timeout wait ends s) = Inr ()"
  by (simp add: listener_start_def terminate_server_def Let_def split: server_wait.split option.split)

lemma listener_stop_running: "\<not> ln_running (listener_stop ends s)"
  by (simp add: listener_stop_def terminate_server_def)

end
