(* ===== verification/Manifest_Text.thy ===== *)
theory Manifest_Text
  imports Text_Search Urls
begin

section \<open>The texts of an authoring manifest\<close>

text \<open>
  Models \<^verbatim>\<open>tesserix_mcp_manifest/validation.py\<close>, \<^verbatim>\<open>_discovery_text.py\<close>, \<^verbatim>\<open>_secret_fields.py\<close>,
  \<^verbatim>\<open>_annotations.py\<close> and \<^verbatim>\<open>constants.py\<close>, and the two enumerations of \<^verbatim>\<open>models.py\<close> the gateway
  reconciliation shares: which addresses, which prose and which keys a manifest may hold.

  A pattern with a word boundary inside is a \<open>scan\<close>, a matcher that knows the character before its
  position. Percent decoding is a parameter, as is the check of a network location.
\<close>

datatype manifest_lifecycle = Lifecycle_ACTIVE | Lifecycle_DEPRECATED
datatype manifest_visibility = Visibility_PUBLIC | Visibility_INTERNAL | Visibility_PRIVATE

fun lifecycle_value :: "manifest_lifecycle \<Rightarrow> string" where
  "lifecycle_value Lifecycle_ACTIVE = ''active''"
| "lifecycle_value Lifecycle_DEPRECATED = ''deprecated''"

fun visibility_value :: "manifest_visibility \<Rightarrow> string" where
  "visibility_value Visibility_PUBLIC = ''public''"
| "visibility_value Visibility_INTERNAL = ''internal''"
| "visibility_value Visibility_PRIVATE = ''private''"

subsection \<open>Constants\<close>

definition authoring_version :: string where
  "authoring_version = ''1.0''"

definition manifest_max_bytes :: nat where
  "manifest_max_bytes = 65536"

definition manifest_max_depth :: int where
  "manifest_max_depth = 16"

definition manifest_max_nodes :: nat where
  "manifest_max_nodes = 4096"

definition official_schema_url :: string where
  "official_schema_url = ''https://static.modelcontextprotocol.io/schemas/2025-12-11/server.schema.json''"

definition registry_api_version :: string where
  "registry_api_version = ''registry.agentic.dev/v1alpha1''"

definition registry_extension_key :: string where
  "registry_extension_key = ''x-tesserix''"

definition discovery_annotation :: "string \<Rightarrow> string" where
  "discovery_annotation name = ''discovery.agentic.dev/'' @ name"

definition is_reserved_annotation :: "string \<Rightarrow> bool" where
  "is_reserved_annotation key \<longleftrightarrow>
     starts_with ''discovery.agentic.dev/'' key \<or> starts_with ''registry.agentic.dev/'' key"

subsection \<open>Scans\<close>

type_synonym scan = "char option \<times> string \<Rightarrow> (char option \<times> string) list"

definition scan_rx :: "rx \<Rightarrow> scan" where
  "scan_rx r = (\<lambda>(prev, s). map (\<lambda>t. (last_of prev (consumed s t), t)) (rx_match r s))"

text \<open>\<^verbatim>\<open>\b\<close>: one side of the position is a word character and the other is not.\<close>

definition scan_boundary :: scan where
  "scan_boundary = (\<lambda>(prev, s). if prev_is is_word prev \<noteq> next_is is_word s then [(prev, s)] else [])"

fun scan_all :: "scan list \<Rightarrow> scan" where
  "scan_all [] x = [x]"
| "scan_all (f # fs) x = concat (map (scan_all fs) (f x))"

fun positions :: "char option \<Rightarrow> string \<Rightarrow> (char option \<times> string) list" where
  "positions prev [] = [(prev, [])]"
| "positions prev (c # cs) = (prev, c # cs) # positions (Some c) cs"

text \<open>\<open>pattern.search(s) is not None\<close>.\<close>

definition searches :: "scan list \<Rightarrow> string \<Rightarrow> bool" where
  "searches fs s \<longleftrightarrow> list_ex (\<lambda>x. scan_all fs x \<noteq> []) (positions None s)"

text \<open>\<open>re.findall\<close> of a class repeated at least once: the longest runs of its characters.\<close>

fun runs_of :: "(char \<Rightarrow> bool) \<Rightarrow> string \<Rightarrow> string list" where
  "runs_of p [] = []"
| "runs_of p (c # cs) =
     (if \<not> p c then runs_of p cs
      else
        (case (next_is p cs, runs_of p cs) of
           (True, r # rs) \<Rightarrow> (c # r) # rs
         | (_, rs) \<Rightarrow> [c] # rs))"

lemma runs_of_chars: "r \<in> set (runs_of p s) \<Longrightarrow> r \<noteq> [] \<and> list_all p r"
  by (induction s arbitrary: r) (auto split: if_splits list.splits bool.splits)

subsection \<open>Keys that name a secret\<close>

fun camel_boundary :: "string \<Rightarrow> string" where
  "camel_boundary (c # d # cs) =
     (if is_lower_alnum c \<and> is_upper d then c # CHR ''_'' # camel_boundary (d # cs)
      else c # camel_boundary (d # cs))"
| "camel_boundary s = s"

definition secret_words :: "string list" where
  "secret_words = [''authorization'', ''credential'', ''credentials'', ''passwd'', ''password'', ''secret'',
     ''secrets'', ''token'', ''tokens'']"

definition secret_compounds :: "string list" where
  "secret_compounds = [''accesskey'', ''apikey'', ''privatekey'']"

definition key_words :: "string \<Rightarrow> string list" where
  "key_words key = map (map lower_char) (runs_of is_alnum (camel_boundary key))"

definition is_secret_field :: "string \<Rightarrow> bool" where
  "is_secret_field key \<longleftrightarrow>
     list_ex (\<lambda>w. w \<in> set secret_words) (key_words key) \<or> concat (key_words key) \<in> set secret_compounds"

subsection \<open>Discovery text\<close>

definition value_char :: "char \<Rightarrow> bool" where
  "value_char c \<longleftrightarrow> \<not> is_space c \<and> \<not> one_of '',;'' c"

definition spaces_rx :: rx where
  "spaces_rx = Star (Cls is_space)"

definition secret_assignment :: "scan list" where
  "secret_assignment =
     [scan_rx (Seq (alternatives
        [Seq (ilit ''api'') (Seq (Opt (Cls (one_of ''_-''))) (ilit ''key'')),
         Seq (ilit ''access'') (Seq (Opt (Cls (one_of ''_-''))) (ilit ''token'')),
         ilit ''token'', ilit ''secret'', ilit ''password'', ilit ''authorization'', ilit ''credential''])
       (Seq spaces_rx (Seq (Cls (one_of '':='')) (Seq spaces_rx (Plus (Cls value_char))))))]"

definition bearer_value :: "scan list" where
  "bearer_value =
     [scan_boundary, scan_rx (Seq (ilit ''bearer'') (Seq (Plus (Cls is_space)) (Plus (Cls value_char))))]"

definition private_key_block :: "scan list" where
  "private_key_block =
     [scan_rx (Seq (lit ''-----BEGIN '') (Seq (Star (Cls (\<lambda>c. is_upper c \<or> c = CHR '' '')))
        (lit ''PRIVATE KEY-----'')))]"

definition jwt_char :: "char \<Rightarrow> bool" where
  "jwt_char c \<longleftrightarrow> is_alnum c \<or> one_of ''_-'' c"

definition jwt_part_rx :: rx where
  "jwt_part_rx = Seq (Rep (Cls jwt_char) 10 0) (Star (Cls jwt_char))"

definition jwt_value :: "scan list" where
  "jwt_value =
     [scan_boundary,
      scan_rx (Seq (lit ''eyJ'') (Seq jwt_part_rx (Seq (lit ''.'') (Seq jwt_part_rx (Seq (lit ''.'') jwt_part_rx))))),
      scan_boundary]"

definition runtime_uri :: "scan list" where
  "runtime_uri =
     [scan_boundary,
      scan_rx (Seq (Cls is_alpha) (Seq (Rep (Cls (\<lambda>c. is_alnum c \<or> one_of ''+.-'' c)) 1 14) (lit ''://'')))]"

definition environment_assignment :: "scan list" where
  "environment_assignment =
     [scan_boundary,
      scan_rx (Seq (Cls is_upper) (Seq (Rep (Cls (\<lambda>c. is_upper c \<or> is_digit c \<or> c = CHR ''_'')) 2 0)
        (Seq (Star (Cls (\<lambda>c. is_upper c \<or> is_digit c \<or> c = CHR ''_'')))
        (Seq spaces_rx (Seq (lit ''='') (Seq spaces_rx (Plus (Cls value_char))))))))]"

definition unsafe_patterns :: "scan list list" where
  "unsafe_patterns =
     [secret_assignment, bearer_value, private_key_block, jwt_value, runtime_uri, environment_assignment]"

definition discovery_text_ok :: "string \<Rightarrow> bool" where
  "discovery_text_ok v \<longleftrightarrow>
     v = strip v \<and> list_all printable v \<and> \<not> list_ex (\<lambda>c. is_space c \<and> c \<noteq> CHR '' '') v \<and>
     \<not> contains ''  '' v \<and> \<not> contains (replicate 3 (CHR 0x60)) v \<and> \<not> starts_with ''#!'' v \<and>
     \<not> list_ex (\<lambda>p. searches p v) unsafe_patterns"

subsection \<open>Addresses\<close>

definition visible_text :: "string \<Rightarrow> bool" where
  "visible_text s \<longleftrightarrow> list_all (\<lambda>c. printable c \<and> \<not> is_space c) s"

text \<open>
  \<open>_fully_unquote\<close> decodes until nothing changes. A round that changes a text makes it shorter, so
  as many rounds as the text has characters are enough.
\<close>

fun unquote_rounds :: "(string \<Rightarrow> string) \<Rightarrow> nat \<Rightarrow> string \<Rightarrow> string" where
  "unquote_rounds unq 0 s = s"
| "unquote_rounds unq (Suc n) s = (let t = unq s in if t = s then s else unquote_rounds unq n t)"

definition fully_unquote :: "(string \<Rightarrow> string) \<Rightarrow> string \<Rightarrow> string" where
  "fully_unquote unq s = unquote_rounds unq (length s) s"

lemma unquote_rounds_done:
  assumes "\<And>t. unq t \<noteq> t \<Longrightarrow> length (unq t) < length t"
  shows "length s \<le> n \<Longrightarrow> unq (unquote_rounds unq n s) = unquote_rounds unq n s"
proof (induction n arbitrary: s)
  case 0
  then show ?case using assms [of s] by auto
next
  case (Suc n)
  show ?case
  proof (cases "unq s = s")
    case False
    with assms [OF this] Suc.prems have "length (unq s) \<le> n" by simp
    with False Suc.IH show ?thesis by (simp add: Let_def)
  qed simp
qed

lemma fully_unquote_done:
  "(\<And>t. unq t \<noteq> t \<Longrightarrow> length (unq t) < length t) \<Longrightarrow> unq (fully_unquote unq s) = fully_unquote unq s"
  by (simp add: fully_unquote_def unquote_rounds_done)

text \<open>Every refusal of \<open>validated_url\<close>, those of \<open>urlsplit\<close> and \<open>port\<close> included, is a \<^verbatim>\<open>ValueError\<close>.\<close>

definition url_ok :: "(string \<Rightarrow> bool) \<Rightarrow> (string \<Rightarrow> string) \<Rightarrow> bool \<Rightarrow> string \<Rightarrow> bool" where
  "url_ok netloc_ok unq https_only v \<longleftrightarrow>
     visible_text v \<and> utf8_length v \<le> 2048 \<and> \<not> list_ex (one_of ''?#'') v \<and> \<not> invalid_percent v \<and>
     (case urlsplit netloc_ok v of
        None \<Rightarrow> False
      | Some u \<Rightarrow>
          (let decoded_authority = fully_unquote unq (su_netloc u);
               decoded_path = fully_unquote unq (su_path u) in
           su_port u \<noteq> None \<and>
           su_scheme u \<in> (if https_only then {''https''} else {''http'', ''https''}) \<and>
           su_hostname u \<noteq> [] \<and> \<not> has_userinfo u \<and> CHR ''%'' \<notin> set (su_netloc u) \<and>
           CHR ''@'' \<notin> set decoded_authority \<and> CHR 0x5C \<notin> set decoded_authority \<and>
           visible_text decoded_authority \<and>
           visible_text decoded_path \<and> CHR 0x5C \<notin> set decoded_path \<and>
           \<not> list_ex (\<lambda>part. part = ''.'' \<or> part = ''..'') (split_on CHR ''/'' decoded_path)))"

end
