(* ===== verification/Gateway_Routes.thy ===== *)
theory Gateway_Routes
  imports Canonical_Json Timestamps Manifest_Text "HOL-Library.Product_Lexorder"
begin

section \<open>Gateway route identities and eligibility\<close>

text \<open>
  Models the first half of \<^verbatim>\<open>tesserix_mcp_manifest/gateway_reconciliation.py\<close>: the derived route
  identity of a server, the eligibility candidates and their validation, the admission policy and
  \<open>evaluate_gateway_eligibility\<close>, with its loops as recursions over the candidates.

  The classes are pydantic models, whose field constraints and validators are the source's; the
  model states them as one predicate per class. \<open>sha\<close> is \<open>hashlib.sha256(...).hexdigest()\<close>.
\<close>

datatype gw_error = Contract_error | Value_error

subsection \<open>Patterns\<close>

definition label_rx :: "(char \<Rightarrow> bool) \<Rightarrow> (char \<Rightarrow> bool) \<Rightarrow> rx" where
  "label_rx edge inner = Seq (Cls edge) (Opt (Seq (Rep (Cls inner) 0 61) (Cls edge)))"

definition lower_dash :: "char \<Rightarrow> bool" where
  "lower_dash c \<longleftrightarrow> is_lower_alnum c \<or> c = CHR ''-''"

definition tenant_id_rx :: rx where
  "tenant_id_rx = label_rx is_lower_alnum lower_dash"

definition server_name_rx :: rx where
  "server_name_rx =
     (let label = label_rx is_alnum (\<lambda>c. is_alnum c \<or> c = CHR ''-'') in
      Seq label (Seq (Star (Seq (lit ''.'') label)) (Seq (lit ''/'')
        (Seq (Cls is_alnum) (Opt (Seq (Star (Cls (\<lambda>c. is_alnum c \<or> one_of ''._-'' c))) (Cls is_alnum)))))))"

definition version_rx :: rx where
  "version_rx = Seq (Cls is_alnum) (Rep (Cls (\<lambda>c. is_alnum c \<or> one_of ''._+-'' c)) 0 127)"

definition dns_label_rx :: rx where
  "dns_label_rx = label_rx is_lower_alnum lower_dash"

definition route_path_rx :: rx where
  "route_path_rx = Seq (lit ''/mcp/'') (Seq (Plus (Cls lower_dash)) (Seq (lit ''/'') (Plus (Cls lower_dash))))"

definition scope_rx :: rx where
  "scope_rx = Seq (lit ''mcp:'') (Seq (Plus (Cls lower_dash)) (Seq (lit '':'') (Plus (Cls lower_dash))))"

definition environment_rx :: rx where
  "environment_rx = Seq (Cls is_lower) (Rep (Cls lower_dash) 0 31)"

definition request_id_rx :: rx where
  "request_id_rx = Seq (Cls is_alnum) (Rep (Cls (\<lambda>c. is_alnum c \<or> one_of ''._:/@+-'' c)) 0 255)"

text \<open>
  \<open>_REF.fullmatch(ref)\<close> with its groups compared: a tenant contains no slash and a server name no
  at sign, so the groups are the tenant and the server of this decomposition.
\<close>

definition ref_prefix :: "string \<Rightarrow> string \<Rightarrow> string" where
  "ref_prefix tenant server = ''mcpservers/'' @ tenant @ ''/'' @ server @ ''@''"

definition ref_matches :: "string \<Rightarrow> string \<Rightarrow> string \<Rightarrow> bool" where
  "ref_matches ref tenant server \<longleftrightarrow>
     fullmatch tenant_id_rx tenant \<and> fullmatch server_name_rx server \<and>
     starts_with (ref_prefix tenant server) ref \<and>
     fullmatch version_rx (drop (length (ref_prefix tenant server)) ref)"

subsection \<open>Route identities\<close>

definition domain_digest :: "(string \<Rightarrow> string) \<Rightarrow> string \<Rightarrow> string \<Rightarrow> string" where
  "domain_digest sha domain v = sha (domain @ [CHR 0x00] @ v)"

definition to_lower :: "string \<Rightarrow> string" where
  "to_lower s = map (\<lambda>c. if is_upper c then char_of (ord_of c + 32) else c) s"

text \<open>\<open>_NON_DNS.sub("-", s)\<close>: each run of other characters becomes one dash.\<close>

fun squeeze :: "bool \<Rightarrow> string \<Rightarrow> string" where
  "squeeze in_run [] = []"
| "squeeze in_run (c # cs) =
     (if is_lower_alnum c then c # squeeze False cs
      else if in_run then squeeze True cs else CHR ''-'' # squeeze True cs)"

definition dash :: "char \<Rightarrow> bool" where "dash c \<longleftrightarrow> c = CHR ''-''"

definition rstrip_dash :: "string \<Rightarrow> string" where
  "rstrip_dash s = rev (dropWhile dash (rev s))"

definition or_mcp :: "string \<Rightarrow> string" where
  "or_mcp s = (if s = [] then ''mcp'' else s)"

definition slug :: "string \<Rightarrow> string" where
  "slug v = or_mcp (rstrip_dash (dropWhile dash (squeeze False (to_lower v))))"

definition dns_identity :: "string \<Rightarrow> string \<Rightarrow> string" where
  "dns_identity v digest = or_mcp (rstrip_dash (take 46 (slug v))) @ ''-'' @ take 16 digest"

record route_identity =
  ri_tenant_id :: string
  ri_server_name :: string
  ri_identity_digest :: string
  ri_resource_name :: string
  ri_route_path :: string
  ri_scope :: string

definition identity_hash :: "(string \<Rightarrow> string) \<Rightarrow> string \<Rightarrow> string \<Rightarrow> string" where
  "identity_hash sha tenant server = domain_digest sha ''gateway-route-v1'' (tenant @ [CHR 0x00] @ server)"

definition derived_route_values ::
  "(string \<Rightarrow> string) \<Rightarrow> string \<Rightarrow> string \<Rightarrow> route_identity" where
  "derived_route_values sha tenant server =
     (let tenant_segment = dns_identity tenant (domain_digest sha ''gateway-tenant-v1'' tenant);
          server_segment = dns_identity server (domain_digest sha ''gateway-server-v1'' server);
          hash = identity_hash sha tenant server in
      \<lparr>ri_tenant_id = tenant, ri_server_name = server,
       ri_identity_digest = ''sha256:'' @ hash,
       ri_resource_name = dns_identity (''mcp-'' @ tenant @ ''-'' @ server) hash,
       ri_route_path = ''/mcp/'' @ tenant_segment @ ''/'' @ server_segment,
       ri_scope = ''mcp:'' @ tenant_segment @ '':'' @ server_segment\<rparr>)"

definition text_between :: "nat \<Rightarrow> nat \<Rightarrow> string \<Rightarrow> bool" where
  "text_between lo hi s \<longleftrightarrow> lo \<le> length s \<and> length s \<le> hi"

definition tenant_field :: "string \<Rightarrow> bool" where
  "tenant_field s \<longleftrightarrow> text_between 1 63 s \<and> fullmatch tenant_id_rx s"

definition server_field :: "string \<Rightarrow> bool" where
  "server_field s \<longleftrightarrow> text_between 3 200 s \<and> fullmatch server_name_rx s"

definition route_identity_valid :: "(string \<Rightarrow> string) \<Rightarrow> route_identity \<Rightarrow> bool" where
  "route_identity_valid sha r \<longleftrightarrow>
     tenant_field (ri_tenant_id r) \<and> server_field (ri_server_name r) \<and>
     fullmatch sha256_ref (ri_identity_digest r) \<and>
     text_between 1 63 (ri_resource_name r) \<and> fullmatch dns_label_rx (ri_resource_name r) \<and>
     text_between 1 132 (ri_route_path r) \<and> fullmatch route_path_rx (ri_route_path r) \<and>
     text_between 1 131 (ri_scope r) \<and> fullmatch scope_rx (ri_scope r) \<and>
     r = derived_route_values sha (ri_tenant_id r) (ri_server_name r)"

definition derive_gateway_route_identity ::
  "(string \<Rightarrow> string) \<Rightarrow> string \<Rightarrow> string \<Rightarrow> (gw_error, route_identity) result" where
  "derive_gateway_route_identity sha tenant server =
     raise_if (\<not> fullmatch tenant_id_rx tenant) Value_error
     (raise_if (\<not> fullmatch server_name_rx server) Value_error
     (let r = derived_route_values sha tenant server in
      raise_if (\<not> route_identity_valid sha r) Value_error (Inr r)))"

subsection \<open>Candidates, policy and decisions\<close>

datatype gateway_approval = Approval_APPROVED | Approval_PENDING | Approval_DENIED
datatype tenant_state = Tenant_READY | Tenant_PENDING | Tenant_SUSPENDED | Tenant_DEACTIVATED

datatype eligibility_reason =
    ELIGIBLE
  | ACTIVATION_NOT_READY
  | LIFECYCLE_INELIGIBLE
  | VISIBILITY_INELIGIBLE
  | TENANT_NOT_READY
  | GATEWAY_DISABLED
  | GATEWAY_APPROVAL_REQUIRED
  | WRONG_ENVIRONMENT
  | SCOPE_NOT_READY
  | TENANT_QUOTA_EXCEEDED
  | GLOBAL_QUOTA_EXCEEDED

record candidate =
  gc_ref :: string
  gc_tenant_id :: string
  gc_server_name :: string
  gc_registry_digest :: string
  gc_artifact_digest :: string
  gc_activation_generation :: int
  gc_published_at :: string
  gc_lifecycle :: manifest_lifecycle
  gc_visibility :: manifest_visibility
  gc_tenant_state :: tenant_state
  gc_gateway_enabled :: bool
  gc_approval_state :: gateway_approval
  gc_environment :: string
  gc_activation_ready :: bool
  gc_scope_ready :: bool
  gc_currently_routed :: bool

definition max_generation :: int where
  "max_generation = 2 ^ 63 - 1"

definition max_routes :: nat where
  "max_routes = 1000"

definition ref_field :: "string \<Rightarrow> string \<Rightarrow> string \<Rightarrow> bool" where
  "ref_field ref tenant server \<longleftrightarrow> text_between 1 512 ref \<and> ref_matches ref tenant server"

definition environment_field :: "string \<Rightarrow> bool" where
  "environment_field s \<longleftrightarrow> text_between 1 32 s \<and> fullmatch environment_rx s"

definition generation_field :: "int \<Rightarrow> bool" where
  "generation_field g \<longleftrightarrow> 1 \<le> g \<and> g \<le> max_generation"

definition candidate_valid :: "candidate \<Rightarrow> bool" where
  "candidate_valid c \<longleftrightarrow>
     tenant_field (gc_tenant_id c) \<and> server_field (gc_server_name c) \<and>
     fullmatch sha256_ref (gc_registry_digest c) \<and> fullmatch sha256_ref (gc_artifact_digest c) \<and>
     generation_field (gc_activation_generation c) \<and>
     text_between 20 32 (gc_published_at c) \<and> canonical_timestamp (gc_published_at c) \<and>
     environment_field (gc_environment c) \<and>
     ref_field (gc_ref c) (gc_tenant_id c) (gc_server_name c)"

record eligibility_policy =
  gp_target_environment :: string
  gp_tenant_route_limit :: nat
  gp_global_route_limit :: nat
  gp_max_candidates :: nat

definition eligibility_policy_valid :: "eligibility_policy \<Rightarrow> bool" where
  "eligibility_policy_valid p \<longleftrightarrow>
     environment_field (gp_target_environment p) \<and>
     1 \<le> gp_tenant_route_limit p \<and> gp_tenant_route_limit p \<le> 1000 \<and>
     1 \<le> gp_global_route_limit p \<and> gp_global_route_limit p \<le> 1000 \<and>
     1 \<le> gp_max_candidates p \<and> gp_max_candidates p \<le> 2000 \<and>
     gp_tenant_route_limit p \<le> gp_global_route_limit p"

record eligibility_decision =
  gd_candidate :: candidate
  gd_reason :: eligibility_reason
  gd_route :: "route_identity option"

definition decision_eligible :: "eligibility_decision \<Rightarrow> bool" where
  "decision_eligible d \<longleftrightarrow> gd_reason d = ELIGIBLE"

definition decision_valid :: "eligibility_decision \<Rightarrow> bool" where
  "decision_valid d \<longleftrightarrow> (gd_reason d = ELIGIBLE) = (gd_route d \<noteq> None)"

definition base_reason :: "eligibility_policy \<Rightarrow> candidate \<Rightarrow> eligibility_reason" where
  "base_reason p c =
     (if gc_tenant_state c \<noteq> Tenant_READY then TENANT_NOT_READY
      else if \<not> gc_activation_ready c then ACTIVATION_NOT_READY
      else if gc_lifecycle c \<noteq> Lifecycle_ACTIVE then LIFECYCLE_INELIGIBLE
      else if gc_visibility c = Visibility_PRIVATE then VISIBILITY_INELIGIBLE
      else if \<not> gc_gateway_enabled c then GATEWAY_DISABLED
      else if gc_approval_state c \<noteq> Approval_APPROVED then GATEWAY_APPROVAL_REQUIRED
      else if gc_environment c \<noteq> gp_target_environment p then WRONG_ENVIRONMENT
      else if \<not> gc_scope_ready c then SCOPE_NOT_READY
      else ELIGIBLE)"

subsection \<open>Admission\<close>

text \<open>
  The state of the quota loop: the admitted references, the count of each tenant, the global
  count and the reasons of the refused references.
\<close>

record admission =
  am_admitted :: "string list"
  am_tenant_counts :: "string \<rightharpoonup> nat"
  am_global :: nat
  am_reasons :: "string \<rightharpoonup> eligibility_reason"

definition tenant_count :: "admission \<Rightarrow> string \<Rightarrow> nat" where
  "tenant_count a t = (case am_tenant_counts a t of None \<Rightarrow> 0 | Some n \<Rightarrow> n)"

definition count_tenant :: "candidate \<Rightarrow> admission \<Rightarrow> admission" where
  "count_tenant c a =
     a\<lparr>am_tenant_counts := (am_tenant_counts a)(gc_tenant_id c \<mapsto> tenant_count a (gc_tenant_id c) + 1)\<rparr>"

definition admit_pending :: "eligibility_policy \<Rightarrow> candidate \<Rightarrow> admission \<Rightarrow> admission" where
  "admit_pending p c a =
     (if tenant_count a (gc_tenant_id c) \<ge> gp_tenant_route_limit p then
        a\<lparr>am_reasons := (am_reasons a)(gc_ref c \<mapsto> TENANT_QUOTA_EXCEEDED)\<rparr>
      else if am_global a \<ge> gp_global_route_limit p then
        a\<lparr>am_reasons := (am_reasons a)(gc_ref c \<mapsto> GLOBAL_QUOTA_EXCEEDED)\<rparr>
      else
        (count_tenant c a)\<lparr>am_admitted := gc_ref c # am_admitted a, am_global := am_global a + 1\<rparr>)"

definition pending_key :: "candidate \<Rightarrow> nat list \<times> string" where
  "pending_key c = (timestamp_fields (gc_published_at c), gc_ref c)"

definition routed_now :: "eligibility_policy \<Rightarrow> candidate list \<Rightarrow> candidate list" where
  "routed_now p cs = filter (\<lambda>c. gc_currently_routed c \<and> base_reason p c = ELIGIBLE) cs"

definition pending_candidates :: "eligibility_policy \<Rightarrow> candidate list \<Rightarrow> candidate list" where
  "pending_candidates p cs =
     sort_key pending_key (filter (\<lambda>c. \<not> gc_currently_routed c \<and> base_reason p c = ELIGIBLE) cs)"

definition initial_admission :: "eligibility_policy \<Rightarrow> candidate list \<Rightarrow> admission" where
  "initial_admission p cs =
     fold count_tenant (routed_now p cs)
       \<lparr>am_admitted = map gc_ref (routed_now p cs), am_tenant_counts = Map.empty,
        am_global = length (routed_now p cs), am_reasons = Map.empty\<rparr>"

definition final_admission :: "eligibility_policy \<Rightarrow> candidate list \<Rightarrow> admission" where
  "final_admission p cs = fold (admit_pending p) (pending_candidates p cs) (initial_admission p cs)"

definition final_reason :: "eligibility_policy \<Rightarrow> admission \<Rightarrow> candidate \<Rightarrow> eligibility_reason" where
  "final_reason p a c =
     (if base_reason p c = ELIGIBLE \<and> gc_ref c \<notin> set (am_admitted a) then the (am_reasons a (gc_ref c))
      else base_reason p c)"

fun decide ::
  "(string \<Rightarrow> string) \<Rightarrow> eligibility_policy \<Rightarrow> admission \<Rightarrow> (string \<times> string \<times> string) list
     \<Rightarrow> candidate list \<Rightarrow> (gw_error, eligibility_decision list) result" where
  "decide sha p a seen [] = Inr []"
| "decide sha p a seen (c # cs) =
     (let reason = final_reason p a c in
      if reason = ELIGIBLE then
        and_then (derive_gateway_route_identity sha (gc_tenant_id c) (gc_server_name c)) (\<lambda>route.
        let key = (ri_resource_name route, ri_route_path route, ri_scope route);
            d = \<lparr>gd_candidate = c, gd_reason = reason, gd_route = Some route\<rparr> in
        raise_if (key \<in> set seen) Contract_error
        (raise_if (\<not> decision_valid d) Value_error
        (and_then (decide sha p a (key # seen) cs) (\<lambda>ds. Inr (d # ds)))))
      else
        (let d = \<lparr>gd_candidate = c, gd_reason = reason, gd_route = None\<rparr> in
         raise_if (\<not> decision_valid d) Value_error
         (and_then (decide sha p a seen cs) (\<lambda>ds. Inr (d # ds)))))"

definition evaluate_gateway_eligibility ::
  "(string \<Rightarrow> string) \<Rightarrow> eligibility_policy \<Rightarrow> candidate list
     \<Rightarrow> (gw_error, eligibility_decision list) result" where
  "evaluate_gateway_eligibility sha p cs =
     raise_if (length cs > gp_max_candidates p) Contract_error
     (raise_if (\<not> distinct (map gc_ref cs) \<or> \<not> distinct (map (\<lambda>c. (gc_tenant_id c, gc_server_name c)) cs))
       Contract_error
     (raise_if (length (routed_now p cs) > max_routes) Contract_error
     (decide sha p (final_admission p cs) [] cs)))"

subsection \<open>What the quota loop admits\<close>

text \<open>The candidates a run of the loop admits, in order.\<close>

fun newly :: "eligibility_policy \<Rightarrow> admission \<Rightarrow> candidate list \<Rightarrow> candidate list" where
  "newly p a [] = []"
| "newly p a (c # cs) =
     (if tenant_count a (gc_tenant_id c) < gp_tenant_route_limit p \<and> am_global a < gp_global_route_limit p
      then c # newly p (admit_pending p c a) cs else newly p (admit_pending p c a) cs)"

abbreviation of_tenant :: "string \<Rightarrow> candidate list \<Rightarrow> candidate list" where
  "of_tenant t cs \<equiv> filter (\<lambda>c. gc_tenant_id c = t) cs"

lemma tenant_count_count_tenant [simp]:
  "tenant_count (count_tenant c a) t = (if gc_tenant_id c = t then 1 else 0) + tenant_count a t"
  by (simp add: tenant_count_def count_tenant_def)

lemma tenant_count_update [simp]:
  "tenant_count (a\<lparr>am_admitted := x\<rparr>) t = tenant_count a t"
  "tenant_count (a\<lparr>am_global := n\<rparr>) t = tenant_count a t"
  "tenant_count (a\<lparr>am_reasons := r\<rparr>) t = tenant_count a t"
  by (simp_all add: tenant_count_def)

lemma count_tenant_frame [simp]:
  "am_admitted (count_tenant c a) = am_admitted a" "am_global (count_tenant c a) = am_global a"
  "am_reasons (count_tenant c a) = am_reasons a"
  by (simp_all add: count_tenant_def)

lemma admit_pending_refused:
  assumes "\<not> (tenant_count a (gc_tenant_id c) < gp_tenant_route_limit p \<and> am_global a < gp_global_route_limit p)"
  obtains q where "admit_pending p c a = a\<lparr>am_reasons := (am_reasons a)(gc_ref c \<mapsto> q)\<rparr>"
    "q = TENANT_QUOTA_EXCEEDED \<and> gp_tenant_route_limit p \<le> tenant_count a (gc_tenant_id c) \<or>
     q = GLOBAL_QUOTA_EXCEEDED \<and> gp_global_route_limit p \<le> am_global a"
  using assms that by (cases "tenant_count a (gc_tenant_id c) \<ge> gp_tenant_route_limit p")
    (auto simp: admit_pending_def)

lemma admit_pending_admitted:
  assumes "tenant_count a (gc_tenant_id c) < gp_tenant_route_limit p" "am_global a < gp_global_route_limit p"
  shows "admit_pending p c a =
    (count_tenant c a)\<lparr>am_admitted := gc_ref c # am_admitted a, am_global := am_global a + 1\<rparr>"
  using assms by (simp add: admit_pending_def)

lemma fold_admit:
  "am_admitted (fold (admit_pending p) cs a) = rev (map gc_ref (newly p a cs)) @ am_admitted a \<and>
   am_global (fold (admit_pending p) cs a) = am_global a + length (newly p a cs) \<and>
   tenant_count (fold (admit_pending p) cs a) t = tenant_count a t + length (of_tenant t (newly p a cs))"
proof (induction cs arbitrary: a)
  case Nil
  then show ?case by simp
next
  case (Cons c cs)
  show ?case
  proof (cases "tenant_count a (gc_tenant_id c) < gp_tenant_route_limit p \<and> am_global a < gp_global_route_limit p")
    case True
    with Cons [of "admit_pending p c a"] show ?thesis by (simp add: admit_pending_admitted)
  next
    case False
    then obtain q where "admit_pending p c a = a\<lparr>am_reasons := (am_reasons a)(gc_ref c \<mapsto> q)\<rparr>"
      by (rule admit_pending_refused)
    with Cons [of "admit_pending p c a"] False show ?thesis by auto
  qed
qed

lemma newly_subset: "set (newly p a cs) \<subseteq> set cs"
  by (induction cs arbitrary: a) auto

lemma newly_distinct: "distinct cs \<Longrightarrow> distinct (newly p a cs)"
  using newly_subset by (induction cs arbitrary: a) (auto, blast)

lemma fold_admit_quota:
  "tenant_count (fold (admit_pending p) cs a) t \<le> max (gp_tenant_route_limit p) (tenant_count a t) \<and>
   am_global (fold (admit_pending p) cs a) \<le> max (gp_global_route_limit p) (am_global a)"
proof (induction cs arbitrary: a)
  case Nil
  then show ?case by simp
next
  case (Cons c cs)
  show ?case
  proof (cases "tenant_count a (gc_tenant_id c) < gp_tenant_route_limit p \<and> am_global a < gp_global_route_limit p")
    case True
    then show ?thesis using Cons [of "admit_pending p c a"]
      by (auto simp: admit_pending_admitted split: if_splits)
  next
    case False
    then obtain q where "admit_pending p c a = a\<lparr>am_reasons := (am_reasons a)(gc_ref c \<mapsto> q)\<rparr>"
      by (rule admit_pending_refused)
    with Cons [of "admit_pending p c a"] show ?thesis by auto
  qed
qed

lemma fold_admit_reason_kept:
  "r \<notin> gc_ref ` set cs \<Longrightarrow> am_reasons (fold (admit_pending p) cs a) r = am_reasons a r"
proof (induction cs arbitrary: a)
  case (Cons c cs)
  then have "am_reasons (admit_pending p c a) r = am_reasons a r"
    by (auto simp: admit_pending_def)
  with Cons show ?case by auto
qed simp

text \<open>A refused candidate has a reason, and the quota it names is used up in the end.\<close>

lemma fold_admit_refused:
  assumes "distinct (map gc_ref cs)" "c \<in> set cs" "c \<notin> set (newly p a cs)"
  defines "z \<equiv> fold (admit_pending p) cs a"
  shows "am_reasons z (gc_ref c) = Some TENANT_QUOTA_EXCEEDED \<and>
      gp_tenant_route_limit p \<le> tenant_count z (gc_tenant_id c) \<or>
    am_reasons z (gc_ref c) = Some GLOBAL_QUOTA_EXCEEDED \<and> gp_global_route_limit p \<le> am_global z"
  using assms(1-3) unfolding z_def
proof (induction cs arbitrary: a)
  case Nil
  then show ?case by simp
next
  case (Cons d cs)
  show ?case
  proof (cases "c = d")
    case False
    with Cons.prems have "c \<in> set cs" "c \<notin> set (newly p (admit_pending p d a) cs)"
      by (auto split: if_splits)
    with Cons show ?thesis by simp
  next
    case True
    with Cons.prems have no: "\<not> (tenant_count a (gc_tenant_id c) < gp_tenant_route_limit p \<and>
        am_global a < gp_global_route_limit p)" by auto
    then obtain q where q: "admit_pending p c a = a\<lparr>am_reasons := (am_reasons a)(gc_ref c \<mapsto> q)\<rparr>"
      "q = TENANT_QUOTA_EXCEEDED \<and> gp_tenant_route_limit p \<le> tenant_count a (gc_tenant_id c) \<or>
       q = GLOBAL_QUOTA_EXCEEDED \<and> gp_global_route_limit p \<le> am_global a"
      by (rule admit_pending_refused)
    have "am_reasons (fold (admit_pending p) cs (admit_pending p c a)) (gc_ref c) = Some q"
      unfolding q(1) using Cons.prems(1) True by (subst fold_admit_reason_kept) auto
    with q fold_admit [of p cs "admit_pending p c a" "gc_tenant_id c"] True
    show ?thesis by auto
  qed
qed

text \<open>Once a tenant's candidate is refused, every later one of that tenant is refused.\<close>

lemma newly_none:
  assumes "\<not> (tenant_count a t < gp_tenant_route_limit p \<and> am_global a < gp_global_route_limit p)"
  shows "of_tenant t (newly p a cs) = []"
  using assms
proof (induction cs arbitrary: a)
  case Nil
  then show ?case by simp
next
  case (Cons c cs)
  have "\<not> (tenant_count (admit_pending p c a) t < gp_tenant_route_limit p \<and>
      am_global (admit_pending p c a) < gp_global_route_limit p)"
    using Cons.prems by (auto simp: admit_pending_def split: if_splits)
  with Cons show ?case by auto
qed

lemma newly_fifo:
  assumes "distinct (xs @ c # ys)" "d \<in> set ys" "gc_tenant_id c = gc_tenant_id d"
    and "d \<in> set (newly p a (xs @ c # ys))"
  shows "c \<in> set (newly p a (xs @ c # ys))"
  using assms
proof (induction xs arbitrary: a)
  case Nil
  show ?case
  proof (rule ccontr)
    assume no: "c \<notin> set (newly p a ([] @ c # ys))"
    then have full: "\<not> (tenant_count a (gc_tenant_id c) < gp_tenant_route_limit p \<and> am_global a < gp_global_route_limit p)"
      by auto
    then obtain q where "admit_pending p c a = a\<lparr>am_reasons := (am_reasons a)(gc_ref c \<mapsto> q)\<rparr>"
      by (rule admit_pending_refused)
    with full have "of_tenant (gc_tenant_id c) (newly p (admit_pending p c a) ys) = []"
      by (intro newly_none) auto
    with full Nil show False by (auto simp: filter_empty_conv)
  qed
next
  case (Cons x xs)
  then show ?case by (auto split: if_splits)
qed

lemma fold_count_tenant:
  "am_admitted (fold count_tenant cs a) = am_admitted a \<and> am_global (fold count_tenant cs a) = am_global a \<and>
   tenant_count (fold count_tenant cs a) t = tenant_count a t + length (of_tenant t cs)"
  by (induction cs arbitrary: a) auto

lemma initial_admission_simps [simp]:
  "am_admitted (initial_admission p cs) = map gc_ref (routed_now p cs)"
  "am_global (initial_admission p cs) = length (routed_now p cs)"
  "tenant_count (initial_admission p cs) t = length (of_tenant t (routed_now p cs))"
  by (simp_all add: initial_admission_def fold_count_tenant) (simp add: tenant_count_def)

text \<open>The candidates that get a route: those already routed and those newly admitted.\<close>

definition routed_after :: "eligibility_policy \<Rightarrow> candidate list \<Rightarrow> candidate list" where
  "routed_after p cs = routed_now p cs @ newly p (initial_admission p cs) (pending_candidates p cs)"

lemma set_pending [simp]:
  "set (pending_candidates p cs) = {c \<in> set cs. \<not> gc_currently_routed c \<and> base_reason p c = ELIGIBLE}"
  by (auto simp: pending_candidates_def)

lemma set_routed_now [simp]:
  "set (routed_now p cs) = {c \<in> set cs. gc_currently_routed c \<and> base_reason p c = ELIGIBLE}"
  by (auto simp: routed_now_def)

lemma routed_after_subset:
  "set (routed_after p cs) \<subseteq> {c \<in> set cs. base_reason p c = ELIGIBLE}"
  using newly_subset [of p "initial_admission p cs" "pending_candidates p cs"]
  by (auto simp: routed_after_def)

lemma distinct_map_filter_sort:
  "distinct (map f cs) \<Longrightarrow> distinct (map f (sort_key k (filter P cs)))"
  by (simp add: distinct_map) (auto simp: inj_on_def)

lemma distinct_pending: "distinct (map gc_ref cs) \<Longrightarrow> distinct (map gc_ref (pending_candidates p cs))"
  unfolding pending_candidates_def by (rule distinct_map_filter_sort)

lemma distinct_routed_after:
  assumes "distinct (map gc_ref cs)"
  shows "distinct (routed_after p cs)"
proof -
  have "distinct (pending_candidates p cs)" "distinct (routed_now p cs)"
    using assms distinct_pending [OF assms, of p] by (auto simp: distinct_map routed_now_def)
  then show ?thesis
    using newly_subset [of p "initial_admission p cs" "pending_candidates p cs"]
    by (auto simp: routed_after_def newly_distinct)
qed

lemma final_admission_simps:
  "set (am_admitted (final_admission p cs)) = gc_ref ` set (routed_after p cs)"
  "am_global (final_admission p cs) = length (routed_after p cs)"
  "tenant_count (final_admission p cs) t = length (of_tenant t (routed_after p cs))"
  using fold_admit [of p "pending_candidates p cs" "initial_admission p cs" t]
  by (auto simp: final_admission_def routed_after_def)

lemma ref_determines:
  "distinct (map gc_ref cs) \<Longrightarrow> c \<in> set cs \<Longrightarrow> d \<in> set cs \<Longrightarrow> gc_ref c = gc_ref d \<Longrightarrow> c = d"
  by (simp add: distinct_map inj_on_def)

lemma final_reason_eligible:
  assumes "distinct (map gc_ref cs)" "c \<in> set cs"
  shows "final_reason p (final_admission p cs) c = ELIGIBLE \<longleftrightarrow> c \<in> set (routed_after p cs)"
proof (cases "c \<in> set (routed_after p cs)")
  case True
  with routed_after_subset [of p cs] show ?thesis
    by (auto simp: final_reason_def final_admission_simps)
next
  case False
  have ref: "gc_ref c \<notin> gc_ref ` set (routed_after p cs)"
    using False ref_determines [OF assms(1,2)] routed_after_subset [of p cs] by auto
  show ?thesis
  proof (cases "base_reason p c = ELIGIBLE")
    case True
    with False assms have "c \<in> set (pending_candidates p cs)"
      "c \<notin> set (newly p (initial_admission p cs) (pending_candidates p cs))"
      by (auto simp: routed_after_def)
    from fold_admit_refused [OF distinct_pending [OF assms(1)] this] True ref False
    show ?thesis
      by (auto simp: final_reason_def final_admission_simps(1))
        (auto simp: final_admission_def)
  next
    case f: False
    with ref False show ?thesis by (simp add: final_reason_def)
  qed
qed

lemma final_reason_refused:
  assumes "distinct (map gc_ref cs)" "c \<in> set cs" "base_reason p c = ELIGIBLE" "c \<notin> set (routed_after p cs)"
  shows "final_reason p (final_admission p cs) c = TENANT_QUOTA_EXCEEDED \<and>
      gp_tenant_route_limit p \<le> length (of_tenant (gc_tenant_id c) (routed_after p cs)) \<or>
    final_reason p (final_admission p cs) c = GLOBAL_QUOTA_EXCEEDED \<and>
      gp_global_route_limit p \<le> length (routed_after p cs)"
proof -
  have c: "c \<in> set (pending_candidates p cs)"
    "c \<notin> set (newly p (initial_admission p cs) (pending_candidates p cs))"
    using assms by (auto simp: routed_after_def)
  have "gc_ref c \<notin> gc_ref ` set (routed_after p cs)"
    using assms(4) ref_determines [OF assms(1,2)] routed_after_subset [of p cs] by auto
  then have "final_reason p (final_admission p cs) c = the (am_reasons (final_admission p cs) (gc_ref c))"
    using assms(3) by (simp add: final_reason_def final_admission_simps(1))
  with fold_admit_refused [OF distinct_pending [OF assms(1)] c]
  show ?thesis
    unfolding final_admission_def [symmetric] final_admission_simps by auto
qed

text \<open>The loop over the decisions.\<close>

definition route_key :: "eligibility_decision \<Rightarrow> (string \<times> string \<times> string) option" where
  "route_key d = map_option (\<lambda>r. (ri_resource_name r, ri_route_path r, ri_scope r)) (gd_route d)"

lemma decide_Inr:
  assumes "decide sha p a seen cs = Inr ds"
  shows "map gd_candidate ds = cs \<and>
    (\<forall>d\<in>set ds. gd_reason d = final_reason p a (gd_candidate d) \<and>
      (if gd_reason d = ELIGIBLE
       then \<exists>r. gd_route d = Some r \<and> derive_gateway_route_identity sha (gc_tenant_id (gd_candidate d))
          (gc_server_name (gd_candidate d)) = Inr r
       else gd_route d = None)) \<and>
    distinct (map route_key (filter decision_eligible ds)) \<and>
    (\<forall>d\<in>set ds. \<forall>k. route_key d = Some k \<longrightarrow> k \<notin> set seen)"
  using assms
proof (induction cs arbitrary: seen ds)
  case Nil
  then show ?case by simp
next
  case (Cons c cs)
  show ?case
  proof (cases "final_reason p a c = ELIGIBLE")
    case True
    with Cons.prems obtain r rest where r:
      "derive_gateway_route_identity sha (gc_tenant_id c) (gc_server_name c) = Inr r"
      "(ri_resource_name r, ri_route_path r, ri_scope r) \<notin> set seen"
      "decide sha p a ((ri_resource_name r, ri_route_path r, ri_scope r) # seen) cs = Inr rest"
      "ds = \<lparr>gd_candidate = c, gd_reason = ELIGIBLE, gd_route = Some r\<rparr> # rest"
      by (auto simp: Let_def)
    define k where "k = (ri_resource_name r, ri_route_path r, ri_scope r)"
    define d where "d = \<lparr>gd_candidate = c, gd_reason = ELIGIBLE, gd_route = Some r\<rparr>"
    have d: "route_key d = Some k" "gd_candidate d = c" "gd_reason d = ELIGIBLE" "gd_route d = Some r"
      by (simp_all add: d_def k_def route_key_def)
    note IH = Cons.IH [OF r(3), folded k_def]
    then have "\<forall>d\<in>set rest. \<forall>j. route_key d = Some j \<longrightarrow> j \<notin> set (k # seen)" by blast
    then have "Some k \<notin> route_key ` set (filter decision_eligible rest)"
      by (metis (mono_tags, lifting) imageE list.set_intros(1) mem_Collect_eq set_filter)
    with IH r(1,2) True d show ?thesis
      unfolding r(4) d_def [symmetric] k_def [symmetric] by (auto simp: decision_eligible_def)
  next
    case False
    with Cons.prems obtain rest where r: "decide sha p a seen cs = Inr rest"
      "ds = \<lparr>gd_candidate = c, gd_reason = final_reason p a c, gd_route = None\<rparr> # rest"
      by (auto simp: Let_def)
    from Cons.IH [OF r(1)] r False show ?thesis
      by (auto simp: route_key_def decision_eligible_def)
  qed
qed

lemma evaluate_Inr:
  assumes "evaluate_gateway_eligibility sha p cs = Inr ds"
  shows "map gd_candidate ds = cs" "distinct (map gc_ref cs)"
    "distinct (map (\<lambda>c. (gc_tenant_id c, gc_server_name c)) cs)"
    "\<And>d. d \<in> set ds \<Longrightarrow> decision_eligible d \<longleftrightarrow> gd_candidate d \<in> set (routed_after p cs)"
    "\<And>d. d \<in> set ds \<Longrightarrow> gd_reason d = final_reason p (final_admission p cs) (gd_candidate d)"
    "\<And>d. d \<in> set ds \<Longrightarrow> (if decision_eligible d
       then \<exists>r. gd_route d = Some r \<and> derive_gateway_route_identity sha (gc_tenant_id (gd_candidate d))
          (gc_server_name (gd_candidate d)) = Inr r
       else gd_route d = None)"
    "distinct (map route_key (filter decision_eligible ds))"
proof -
  from assms have d: "decide sha p (final_admission p cs) [] cs = Inr ds"
    and u: "distinct (map gc_ref cs)" "distinct (map (\<lambda>c. (gc_tenant_id c, gc_server_name c)) cs)"
    by (auto simp: evaluate_gateway_eligibility_def)
  note D = decide_Inr [OF d]
  then show m: "map gd_candidate ds = cs" by blast
  show "distinct (map gc_ref cs)" "distinct (map (\<lambda>c. (gc_tenant_id c, gc_server_name c)) cs)"
    using u by simp_all
  show "distinct (map route_key (filter decision_eligible ds))" using D by blast
  show r: "gd_reason d = final_reason p (final_admission p cs) (gd_candidate d)" if "d \<in> set ds" for d
    using D that by blast
  show "decision_eligible d \<longleftrightarrow> gd_candidate d \<in> set (routed_after p cs)" if "d \<in> set ds" for d
  proof -
    have "gd_candidate d \<in> set cs" using m that by (metis image_eqI set_map)
    then show ?thesis using r [OF that] final_reason_eligible [OF u(1)] by (simp add: decision_eligible_def)
  qed
  show "if decision_eligible d
       then \<exists>r. gd_route d = Some r \<and> derive_gateway_route_identity sha (gc_tenant_id (gd_candidate d))
          (gc_server_name (gd_candidate d)) = Inr r
       else gd_route d = None" if "d \<in> set ds" for d
    unfolding decision_eligible_def using D that by blast
qed

text \<open>The eligible decisions, counted by their candidates.\<close>

lemma eligible_counts:
  assumes "evaluate_gateway_eligibility sha p cs = Inr ds"
  shows "length (filter (\<lambda>d. decision_eligible d \<and> P (gd_candidate d)) ds) = length (filter P (routed_after p cs))"
proof -
  note E = evaluate_Inr [OF assms]
  have "filter (\<lambda>d. decision_eligible d \<and> P (gd_candidate d)) ds =
      filter (\<lambda>d. (\<lambda>c. c \<in> set (routed_after p cs) \<and> P c) (gd_candidate d)) ds"
    by (rule filter_cong) (auto simp: E(4))
  then have "length (filter (\<lambda>d. decision_eligible d \<and> P (gd_candidate d)) ds) =
      length (filter (\<lambda>c. c \<in> set (routed_after p cs) \<and> P c) (map gd_candidate ds))"
    by (simp only: filter_map length_map o_def)
  also have "\<dots> = card {c \<in> set cs. c \<in> set (routed_after p cs) \<and> P c}"
    unfolding E(1) using E(2) by (subst distinct_card [symmetric]) (auto simp: distinct_map)
  also have "{c \<in> set cs. c \<in> set (routed_after p cs) \<and> P c} = set (filter P (routed_after p cs))"
    using routed_after_subset [of p cs] by auto
  also have "card \<dots> = length (filter P (routed_after p cs))"
    by (rule distinct_card) (simp add: distinct_routed_after E(2))
  finally show ?thesis .
qed

lemma routed_after_quota:
  "length (of_tenant t (routed_after p cs)) \<le> max (gp_tenant_route_limit p) (length (of_tenant t (routed_now p cs)))"
  "length (routed_after p cs) \<le> max (gp_global_route_limit p) (length (routed_now p cs))"
  using fold_admit_quota [of p "pending_candidates p cs" "initial_admission p cs" t]
  unfolding final_admission_def [symmetric] final_admission_simps by simp_all

text \<open>
  A route exists exactly for an eligible server. The decisions are those of the candidates in
  their order; a decision carries a route exactly when it is eligible, and then the tenant is
  ready, the activation is ready, the server is active, not private, enabled, approved, meant for
  the target environment and its scope is ready, and the route is the identity derived from the
  tenant and the server name, different in its resource name, path or scope from every other
  route of the result.
\<close>

theorem eligible_iff_routed:
  assumes "evaluate_gateway_eligibility sha p cs = Inr ds"
  shows "map gd_candidate ds = cs \<and>
    (\<forall>d\<in>set ds. (gd_route d \<noteq> None) = (gd_reason d = ELIGIBLE)) \<and>
    (\<forall>d\<in>set ds. \<forall>r. gd_route d = Some r \<longrightarrow>
       (let c = gd_candidate d in
        gc_tenant_state c = Tenant_READY \<and> gc_activation_ready c \<and> gc_lifecycle c = Lifecycle_ACTIVE \<and>
        gc_visibility c \<noteq> Visibility_PRIVATE \<and> gc_gateway_enabled c \<and>
        gc_approval_state c = Approval_APPROVED \<and> gc_environment c = gp_target_environment p \<and>
        gc_scope_ready c \<and> r = derived_route_values sha (gc_tenant_id c) (gc_server_name c))) \<and>
    distinct (map route_key (filter decision_eligible ds))"
proof -
  note E = evaluate_Inr [OF assms]
  have base: "base_reason p (gd_candidate d) = ELIGIBLE" if "d \<in> set ds" "decision_eligible d" for d
    using E(4) [OF that(1)] that(2) routed_after_subset [of p cs] by blast
  have route: "(gd_route d \<noteq> None) = decision_eligible d" if "d \<in> set ds" for d
    using E(6) [OF that] by (auto split: if_splits)
  have "gc_tenant_state c = Tenant_READY \<and> gc_activation_ready c \<and> gc_lifecycle c = Lifecycle_ACTIVE \<and>
      gc_visibility c \<noteq> Visibility_PRIVATE \<and> gc_gateway_enabled c \<and>
      gc_approval_state c = Approval_APPROVED \<and> gc_environment c = gp_target_environment p \<and>
      gc_scope_ready c" if "base_reason p c = ELIGIBLE" for c
    using that by (auto simp: base_reason_def split: if_splits)
  moreover have "r = derived_route_values sha (gc_tenant_id (gd_candidate d)) (gc_server_name (gd_candidate d))"
    if "d \<in> set ds" "gd_route d = Some r" for d r
    using E(6) [OF that(1)] that(2)
    by (auto simp: derive_gateway_route_identity_def Let_def split: if_splits)
  ultimately show ?thesis
    using E(1,7) route base unfolding Let_def decision_eligible_def by blast
qed

text \<open>
  C6. The quotas hold, without evicting a routed server and without refusing one needlessly. The
  eligible servers of a tenant never exceed the larger of the tenant limit and the number it
  already has routed, and likewise globally; a server that is routed and still meets the rules
  stays eligible; a server refused for a quota meets all the rules, is not routed, and that quota
  is indeed used up.
\<close>

theorem eligibility_quotas:
  assumes "evaluate_gateway_eligibility sha p cs = Inr ds"
  shows "(\<forall>t. length (filter (\<lambda>d. decision_eligible d \<and> gc_tenant_id (gd_candidate d) = t) ds) \<le>
      max (gp_tenant_route_limit p) (length (of_tenant t (routed_now p cs)))) \<and>
    length (filter decision_eligible ds) \<le> max (gp_global_route_limit p) (length (routed_now p cs)) \<and>
    (\<forall>d\<in>set ds. gc_currently_routed (gd_candidate d) \<and> base_reason p (gd_candidate d) = ELIGIBLE \<longrightarrow>
       decision_eligible d) \<and>
    (\<forall>d\<in>set ds. base_reason p (gd_candidate d) = ELIGIBLE \<and> \<not> decision_eligible d \<longrightarrow>
       \<not> gc_currently_routed (gd_candidate d) \<and>
       (gd_reason d = TENANT_QUOTA_EXCEEDED \<and> gp_tenant_route_limit p \<le>
          length (filter (\<lambda>e. decision_eligible e \<and> gc_tenant_id (gd_candidate e) = gc_tenant_id (gd_candidate d)) ds) \<or>
        gd_reason d = GLOBAL_QUOTA_EXCEEDED \<and> gp_global_route_limit p \<le> length (filter decision_eligible ds)))"
proof -
  note E = evaluate_Inr [OF assms]
  note counts = eligible_counts [OF assms, of "\<lambda>c. gc_tenant_id c = t" for t]
    eligible_counts [OF assms, of "\<lambda>c. True", simplified]
  have cand: "gd_candidate d \<in> set cs" if "d \<in> set ds" for d
    using E(1) that by (metis image_eqI set_map)
  have kept: "decision_eligible d"
    if "d \<in> set ds" "gc_currently_routed (gd_candidate d)" "base_reason p (gd_candidate d) = ELIGIBLE" for d
    using that cand [OF that(1)] by (simp add: E(4) routed_after_def)
  have refused: "gd_reason d = TENANT_QUOTA_EXCEEDED \<and>
        gp_tenant_route_limit p \<le> length (of_tenant (gc_tenant_id (gd_candidate d)) (routed_after p cs)) \<or>
      gd_reason d = GLOBAL_QUOTA_EXCEEDED \<and> gp_global_route_limit p \<le> length (routed_after p cs)"
    if "d \<in> set ds" "base_reason p (gd_candidate d) = ELIGIBLE" "\<not> decision_eligible d" for d
    using final_reason_refused [OF E(2) cand [OF that(1)] that(2)] that E(4,5) by simp
  show ?thesis
    unfolding counts using routed_after_quota(1) [of _ p cs] routed_after_quota(2) [of p cs] kept refused by blast
qed


subsection \<open>Derived identities\<close>

lemma fullmatch_label:
  "fullmatch (label_rx p q) s \<longleftrightarrow>
     (\<exists>c. s = [c] \<and> p c) \<or> (\<exists>c m d. s = c # m @ [d] \<and> p c \<and> p d \<and> list_all q m \<and> length m \<le> 61)"
  (is "?A \<longleftrightarrow> ?B")
proof -
  have inner: "fullmatch (Seq (Rep (Cls q) 0 61) (Cls p)) v \<longleftrightarrow>
      (\<exists>m d. v = m @ [d] \<and> p d \<and> list_all q m \<and> length m \<le> 61)" for v
    by (auto simp: fullmatch_Seq)
  show ?thesis unfolding label_rx_def fullmatch_Seq_Cls fullmatch_Opt inner by auto
qed

text \<open>The shape of a DNS label: edges that are letters or digits, inner dashes allowed.\<close>

lemma fullmatch_labelI:
  assumes "s \<noteq> []" "length s \<le> 63" "p (hd s)" "p (last s)" "list_all q s"
  shows "fullmatch (label_rx p q) s"
proof (cases "length s = 1")
  case True
  with assms(3) show ?thesis unfolding fullmatch_label by (auto simp: length_Suc_conv)
next
  case False
  with assms(1) obtain c v where s: "s = c # v" "v \<noteq> []" by (cases s) auto
  then obtain m d where "v = m @ [d]" by (metis rev_exhaust)
  with s assms show ?thesis unfolding fullmatch_label by (intro disjI2) auto
qed

lemma squeeze_chars: "list_all lower_dash (squeeze r s)"
  by (induction r s rule: squeeze.induct) (auto simp: lower_dash_def)

lemma rstrip_dash_prefix: "\<exists>v. s = rstrip_dash s @ v \<and> list_all dash v"
proof -
  have "rev s = takeWhile dash (rev s) @ dropWhile dash (rev s)" by simp
  then have "s = rev (dropWhile dash (rev s)) @ rev (takeWhile dash (rev s))"
    by (metis rev_append rev_rev_ident)
  moreover have "list_all dash (rev (takeWhile dash (rev s)))"
    by (auto simp: list_all_iff dest: set_takeWhileD)
  ultimately show ?thesis unfolding rstrip_dash_def by blast
qed

lemma rstrip_dash_last: "rstrip_dash s \<noteq> [] \<Longrightarrow> \<not> dash (last (rstrip_dash s))"
  unfolding rstrip_dash_def by (simp only: last_rev rev_is_Nil_conv) (rule hd_dropWhile)

definition label_start :: "string \<Rightarrow> bool" where
  "label_start s \<longleftrightarrow> s \<noteq> [] \<and> is_lower_alnum (hd s) \<and> list_all lower_dash s"

lemma lower_dash_cases: "lower_dash c \<Longrightarrow> \<not> dash c \<Longrightarrow> is_lower_alnum c"
  by (auto simp: lower_dash_def dash_def)

lemma alnum_not_dash: "is_lower_alnum c \<Longrightarrow> \<not> dash c"
  by (auto simp: dash_def is_lower_alnum_def is_lower_def is_digit_def chr_range_def ord_of_def)

lemma mcp_start [simp]: "label_start ''mcp''"
  by (simp add: label_start_def lower_dash_def is_lower_alnum_def is_lower_def chr_range_def ord_of_def)

lemma rstrip_label_start:
  assumes "label_start s"
  shows "label_start (rstrip_dash s)" "length (rstrip_dash s) \<le> length s"
proof -
  obtain v where v: "s = rstrip_dash s @ v" "list_all dash v" using rstrip_dash_prefix by blast
  have "rstrip_dash s \<noteq> []"
  proof
    assume "rstrip_dash s = []"
    with v assms have "dash (hd s)" by (cases v) (auto simp: label_start_def)
    with assms alnum_not_dash show False by (auto simp: label_start_def)
  qed
  moreover from this v(1) have "hd s = hd (rstrip_dash s)" by (metis hd_append2)
  moreover have "list_all lower_dash (rstrip_dash s)"
    using assms v(1) unfolding label_start_def by (metis list_all_append)
  ultimately show "label_start (rstrip_dash s)" using assms by (simp add: label_start_def)
  show "length (rstrip_dash s) \<le> length s" using v(1) by (metis le_add1 length_append)
qed

lemma slug_start: "label_start (slug v)"
proof (cases "dropWhile dash (squeeze False (to_lower v)) = []")
  case True
  show ?thesis unfolding slug_def True by (simp add: or_mcp_def rstrip_dash_def)
next
  case False
  let ?s = "dropWhile dash (squeeze False (to_lower v))"
  have "list_all lower_dash ?s"
    using squeeze_chars [of False "to_lower v"] by (auto simp: list_all_iff dest: set_dropWhileD)
  moreover have "\<not> dash (hd ?s)" using False by (rule hd_dropWhile)
  ultimately have "label_start ?s"
    using False by (cases ?s) (auto simp: label_start_def intro: lower_dash_cases)
  then have "label_start (rstrip_dash ?s)" by (rule rstrip_label_start)
  then show ?thesis by (simp add: slug_def or_mcp_def label_start_def)
qed

definition hex_digest :: "(string \<Rightarrow> string) \<Rightarrow> bool" where
  "hex_digest sha \<longleftrightarrow> (\<forall>s. length (sha s) = 64 \<and> list_all is_hex (sha s))"

lemma hex_lower_alnum: "is_hex c \<Longrightarrow> is_lower_alnum c"
  by (auto simp: is_hex_def is_lower_alnum_def is_lower_def chr_range_def ord_of_def)

text \<open>An identity segment is a label of at most 63 characters that ends with 16 hex digits.\<close>

lemma dns_identity_label:
  assumes "length d = 64" "list_all is_hex d"
  shows "label_start (dns_identity v d)" "length (dns_identity v d) \<le> 63"
    "is_lower_alnum (last (dns_identity v d))" "drop (length (dns_identity v d) - 16) (dns_identity v d) = take 16 d"
proof -
  let ?p = "rstrip_dash (take 46 (slug v))"
  have "label_start (take 46 (slug v))"
    using slug_start [of v] by (cases "slug v") (auto simp: label_start_def list_all_iff dest: in_set_takeD)
  from rstrip_label_start [OF this] have p: "label_start ?p" "length ?p \<le> 46" by auto
  then have eq: "dns_identity v d = ?p @ ''-'' @ take 16 d"
    by (simp add: dns_identity_def or_mcp_def label_start_def)
  have h: "length (take 16 d) = 16" "list_all is_hex (take 16 d)"
    using assms by (auto simp: list_all_iff dest: in_set_takeD)
  show "length (dns_identity v d) \<le> 63" unfolding eq using p h by simp
  show "label_start (dns_identity v d)"
    unfolding eq using p h by (auto simp: label_start_def list_all_iff lower_dash_def intro: hex_lower_alnum)
  have "take 16 d \<noteq> []" using h(1) by force
  moreover from this have "last (take 16 d) \<in> set (take 16 d)" by (rule last_in_set)
  ultimately show "is_lower_alnum (last (dns_identity v d))"
    unfolding eq using h(2) by (auto simp: list_all_iff intro: hex_lower_alnum)
  show "drop (length (dns_identity v d) - 16) (dns_identity v d) = take 16 d"
    unfolding eq using h(1) by simp
qed

lemma fullmatch_PlusI: "s \<noteq> [] \<Longrightarrow> list_all p s \<Longrightarrow> fullmatch (Plus (Cls p)) s"
  by (cases s) (auto simp: fullmatch_Seq_Cls)

text \<open>
  C11. Every server gets a valid route identity. For a canonical tenant and server name and any
  digest of 64 hexadecimal digits, the derivation succeeds: the resource name is a DNS label of at
  most 63 characters however long the names are, and the path and the scope satisfy the patterns
  and bounds the Gateway checks, so the constraints of the model never refuse a derived value.
\<close>

theorem derived_identity_valid:
  assumes "hex_digest sha" "tenant_field tenant" "server_field server"
  shows "derive_gateway_route_identity sha tenant server = Inr (derived_route_values sha tenant server) \<and>
    route_identity_valid sha (derived_route_values sha tenant server)"
proof -
  have hex: "length (sha s) = 64" "list_all is_hex (sha s)" for s
    using assms(1) by (auto simp: hex_digest_def)
  note label = dns_identity_label [OF hex]
  have pieces: "dns_identity v (sha s) \<noteq> []" "list_all lower_dash (dns_identity v (sha s))" for v s
    using label(1) by (auto simp: label_start_def)
  have dns: "fullmatch dns_label_rx (dns_identity v (sha s))" for v s
    unfolding dns_label_rx_def using label [of v s] by (intro fullmatch_labelI) (auto simp: label_start_def)
  have seg: "fullmatch (Plus (Cls lower_dash)) (dns_identity v (sha s))" for v s
    by (intro fullmatch_PlusI pieces)
  have path: "fullmatch route_path_rx (''/mcp/'' @ dns_identity v (sha s) @ ''/'' @ dns_identity w (sha u))"
    for v s w u
    unfolding route_path_rx_def fullmatch_Seq_lit fullmatch_Seq [of "Plus (Cls lower_dash)"]
    using seg by blast
  have scope: "fullmatch scope_rx (''mcp:'' @ dns_identity v (sha s) @ '':'' @ dns_identity w (sha u))"
    for v s w u
    unfolding scope_rx_def fullmatch_Seq_lit fullmatch_Seq [of "Plus (Cls lower_dash)"]
    using seg by blast
  have len: "1 \<le> length (dns_identity v (sha s))" "length (dns_identity v (sha s)) \<le> 63" for v s
    using pieces(1) [of v s] label(2) by (auto simp: Suc_le_eq)
  have sum: "length (dns_identity v (sha s)) + length (dns_identity w (sha u)) \<le> 126" for v s w u
    using add_mono [OF len(2) [of v s] len(2) [of w u]] by simp
  let ?r = "derived_route_values sha tenant server"
  have "text_between 1 132 (ri_route_path ?r)" "text_between 1 131 (ri_scope ?r)"
    by (simp_all only: derived_route_values_def Let_def text_between_def domain_digest_def route_identity.simps)
      (simp_all add: sum)
  moreover have "fullmatch sha256_ref (ri_identity_digest ?r)"
    unfolding fullmatch_sha256_ref by (simp add: derived_route_values_def Let_def identity_hash_def domain_digest_def hex)
  ultimately have "route_identity_valid sha ?r"
    using assms(2,3) dns path scope len
    by (simp add: route_identity_valid_def derived_route_values_def Let_def domain_digest_def identity_hash_def text_between_def)
  then show ?thesis
    using assms(2,3) by (simp add: derive_gateway_route_identity_def Let_def tenant_field_def server_field_def)
qed

lemma label_no_null:
  assumes "fullmatch tenant_id_rx s"
  shows "CHR 0x00 \<notin> set s"
proof
  assume "CHR 0x00 \<in> set s"
  moreover have "\<forall>c\<in>set s. lower_dash c"
    using assms unfolding tenant_id_rx_def fullmatch_label
    by (auto simp: lower_dash_def list_all_iff)
  ultimately have "lower_dash CHR 0x00" by blast
  then show False
    by (simp add: lower_dash_def is_lower_alnum_def is_lower_def is_digit_def chr_range_def ord_of_def)
qed

lemma separator_unique:
  "a @ x # b = c @ x # d \<Longrightarrow> x \<notin> set a \<Longrightarrow> x \<notin> set c \<Longrightarrow> a = c \<and> b = d"
proof (induction a arbitrary: c)
  case Nil
  then show ?case by (cases c) auto
next
  case (Cons y a)
  then show ?case by (cases c) auto
qed

text \<open>The text whose digest identifies a route.\<close>

definition identity_text :: "string \<Rightarrow> string \<Rightarrow> string" where
  "identity_text tenant server = ''gateway-route-v1'' @ [CHR 0x00] @ tenant @ [CHR 0x00] @ server"

text \<open>
  Two servers never share an identity digest: unless the digest collides on the two identity
  texts, the routes of two different servers (another tenant or another name) have different
  identity digests, because the separator cannot occur in a tenant name.
\<close>

theorem identity_digest_separates:
  assumes "inj_on sha {identity_text tenant server, identity_text tenant' server'}"
    and "derive_gateway_route_identity sha tenant server = Inr r"
    and "derive_gateway_route_identity sha tenant' server' = Inr r'"
    and "(tenant, server) \<noteq> (tenant', server')"
  shows "ri_identity_digest r \<noteq> ri_identity_digest r'"
proof
  assume eq: "ri_identity_digest r = ri_identity_digest r'"
  have r: "fullmatch tenant_id_rx tenant" "fullmatch tenant_id_rx tenant'"
    "ri_identity_digest r = ''sha256:'' @ sha (identity_text tenant server)"
    "ri_identity_digest r' = ''sha256:'' @ sha (identity_text tenant' server')"
    using assms(2,3) by (auto simp: derive_gateway_route_identity_def derived_route_values_def Let_def
        identity_hash_def domain_digest_def identity_text_def)
  with eq assms(1) have "identity_text tenant server = identity_text tenant' server'"
    by (auto dest: inj_onD)
  then have "tenant @ CHR 0x00 # server = tenant' @ CHR 0x00 # server'" by (simp add: identity_text_def)
  then have "tenant = tenant' \<and> server = server'"
    by (rule separator_unique) (use r label_no_null in auto)
  with assms(4) show False by simp
qed

definition sample_sha :: "string \<Rightarrow> string" where
  "sample_sha s = replicate 63 CHR ''0'' @ [hex_digit (length s mod 16)]"

lemma sample_derived:
  "is_ok (derive_gateway_route_identity sample_sha ''acme'' ''com.acme/docs'')"
  "is_ok (derive_gateway_route_identity sample_sha ''acme'' ''com.acme/search'')"
  by code_simp+

theorem identity_digest_separates_witness:
  "\<exists>r r'. derive_gateway_route_identity sample_sha ''acme'' ''com.acme/docs'' = Inr r \<and>
     derive_gateway_route_identity sample_sha ''acme'' ''com.acme/search'' = Inr r' \<and>
     ri_identity_digest r \<noteq> ri_identity_digest r'"
proof -
  obtain r r' where "derive_gateway_route_identity sample_sha ''acme'' ''com.acme/docs'' = Inr r"
    "derive_gateway_route_identity sample_sha ''acme'' ''com.acme/search'' = Inr r'"
    using sample_derived unfolding is_ok_iff by blast
  moreover have "inj_on sample_sha {identity_text ''acme'' ''com.acme/docs'', identity_text ''acme'' ''com.acme/search''}"
    by (simp add: inj_on_def sample_sha_def identity_text_def hex_digit_def)
  ultimately show ?thesis using identity_digest_separates [of sample_sha] by blast
qed

lemma sample_sha_hex: "hex_digest sample_sha"
proof -
  have "is_hex (hex_digit n)" if "n < 16" for n
    using that by (simp add: is_hex_def is_digit_def chr_range_def ord_of_def hex_digit_def)
  then have "is_hex (hex_digit (n mod 16))" for n by simp
  moreover have "is_hex CHR ''0''" by code_simp
  ultimately show ?thesis by (simp add: hex_digest_def sample_sha_def list_all_iff)
qed

theorem derived_identity_valid_witness:
  "tenant_field ''acme'' \<and> server_field ''com.acme/docs'' \<and>
   derive_gateway_route_identity sample_sha ''acme'' ''com.acme/docs'' =
     Inr (derived_route_values sample_sha ''acme'' ''com.acme/docs'')"
proof -
  have "tenant_field ''acme''" "server_field ''com.acme/docs''" by code_simp+
  with derived_identity_valid [OF sample_sha_hex this] show ?thesis by simp
qed

text \<open>Three servers of one tenant, one of them routed, under a tenant limit of two.\<close>

definition sample_candidate :: "string \<Rightarrow> string \<Rightarrow> bool \<Rightarrow> candidate" where
  "sample_candidate leaf published routed =
     (let name = ''com.acme/'' @ leaf in
      \<lparr>gc_ref = ref_prefix ''acme'' name @ ''1.0'', gc_tenant_id = ''acme'', gc_server_name = name,
       gc_registry_digest = ''sha256:'' @ replicate 64 CHR ''a'', gc_artifact_digest = ''sha256:'' @ replicate 64 CHR ''b'',
       gc_activation_generation = 1, gc_published_at = published, gc_lifecycle = Lifecycle_ACTIVE,
       gc_visibility = Visibility_PUBLIC, gc_tenant_state = Tenant_READY, gc_gateway_enabled = True,
       gc_approval_state = Approval_APPROVED, gc_environment = ''prod'', gc_activation_ready = True,
       gc_scope_ready = True, gc_currently_routed = routed\<rparr>)"

definition sample_candidates :: "candidate list" where
  "sample_candidates =
     [sample_candidate ''late'' ''2026-02-01T00:00:00Z'' False,
      sample_candidate ''first'' ''2026-01-01T00:00:00Z'' False,
      sample_candidate ''live'' ''2026-03-01T00:00:00Z'' True]"

definition sample_gateway_policy :: "nat \<Rightarrow> eligibility_policy" where
  "sample_gateway_policy n = \<lparr>gp_target_environment = ''prod'', gp_tenant_route_limit = n,
     gp_global_route_limit = 10, gp_max_candidates = 100\<rparr>"

definition sample_decisions :: "nat \<Rightarrow> eligibility_decision list" where
  "sample_decisions n =
     (case evaluate_gateway_eligibility sample_sha (sample_gateway_policy n) sample_candidates of
        Inr ds \<Rightarrow> ds | Inl e \<Rightarrow> [])"

text \<open>Valid candidates whose derived routes differ are always decided.\<close>

definition candidate_key :: "(string \<Rightarrow> string) \<Rightarrow> candidate \<Rightarrow> string \<times> string \<times> string" where
  "candidate_key sha c = (let r = derived_route_values sha (gc_tenant_id c) (gc_server_name c) in
     (ri_resource_name r, ri_route_path r, ri_scope r))"

lemma decide_total:
  assumes "hex_digest sha" "\<forall>c\<in>set cs. tenant_field (gc_tenant_id c) \<and> server_field (gc_server_name c)"
    and "distinct (map (candidate_key sha) cs)" "\<forall>c\<in>set cs. candidate_key sha c \<notin> set seen"
  shows "is_ok (decide sha p a seen cs)"
  using assms
proof (induction cs arbitrary: seen)
  case Nil
  then show ?case by simp
next
  case (Cons c cs)
  from Cons.prems have d: "derive_gateway_route_identity sha (gc_tenant_id c) (gc_server_name c) =
      Inr (derived_route_values sha (gc_tenant_id c) (gc_server_name c))"
    by (intro derived_identity_valid [THEN conjunct1]) auto
  have "is_ok (decide sha p a (candidate_key sha c # seen) cs)"
    using Cons.prems by (intro Cons.IH) (auto simp: image_iff)
  moreover have "is_ok (decide sha p a seen cs)"
    using Cons.prems by (intro Cons.IH) auto
  ultimately show ?case
    using Cons.prems(4) d by (auto simp: Let_def is_ok_iff candidate_key_def decision_valid_def)
qed

lemma sample_fields:
  "tenant_field ''acme''" "server_field ''com.acme/late''" "server_field ''com.acme/first''"
  "server_field ''com.acme/live''"
  by code_simp+

lemma sample_keys: "distinct (map (candidate_key sample_sha) sample_candidates)"
  by code_simp

lemma sample_decided:
  "is_ok (decide sample_sha p a [] sample_candidates)"
  using sample_fields
  by (intro decide_total [OF sample_sha_hex _ sample_keys])
    (auto simp: sample_candidates_def sample_candidate_def Let_def)

lemma sample_evaluated:
  "evaluate_gateway_eligibility sample_sha (sample_gateway_policy n) sample_candidates = Inr (sample_decisions n)"
proof -
  have "length sample_candidates = 3" "distinct (map gc_ref sample_candidates)"
    "distinct (map (\<lambda>c. (gc_tenant_id c, gc_server_name c)) sample_candidates)"
    by code_simp+
  moreover have "length (routed_now (sample_gateway_policy n) sample_candidates) \<le> 3"
    using length_filter_le [of _ sample_candidates] calculation(1) unfolding routed_now_def by metis
  ultimately have "is_ok (evaluate_gateway_eligibility sample_sha (sample_gateway_policy n) sample_candidates)"
    using sample_decided by (simp add: evaluate_gateway_eligibility_def max_routes_def sample_gateway_policy_def)
  then show ?thesis by (auto simp: sample_decisions_def is_ok_iff)
qed

lemma sample_final:
  "map (final_reason (sample_gateway_policy 2) (final_admission (sample_gateway_policy 2) sample_candidates))
     sample_candidates = [TENANT_QUOTA_EXCEEDED, ELIGIBLE, ELIGIBLE]"
  "map (final_reason (sample_gateway_policy 3) (final_admission (sample_gateway_policy 3) sample_candidates))
     sample_candidates = [ELIGIBLE, ELIGIBLE, ELIGIBLE]"
  by code_simp+

lemma sample_reasons:
  "map gd_reason (sample_decisions 2) = [TENANT_QUOTA_EXCEEDED, ELIGIBLE, ELIGIBLE]"
  "map gd_reason (sample_decisions 3) = [ELIGIBLE, ELIGIBLE, ELIGIBLE]"
proof -
  have "map gd_reason (sample_decisions n) =
      map (final_reason (sample_gateway_policy n) (final_admission (sample_gateway_policy n) sample_candidates))
        (map gd_candidate (sample_decisions n))" for n
    using evaluate_Inr(5) [OF sample_evaluated [of n]] by simp
  then show "map gd_reason (sample_decisions 2) = [TENANT_QUOTA_EXCEEDED, ELIGIBLE, ELIGIBLE]"
    "map gd_reason (sample_decisions 3) = [ELIGIBLE, ELIGIBLE, ELIGIBLE]"
    unfolding evaluate_Inr(1) [OF sample_evaluated] by (simp_all only: sample_final)
qed

theorem eligible_iff_routed_witness:
  "evaluate_gateway_eligibility sample_sha (sample_gateway_policy 2) sample_candidates = Inr (sample_decisions 2) \<and>
   map gd_candidate (sample_decisions 2) = sample_candidates \<and>
   map (\<lambda>d. gd_route d \<noteq> None) (sample_decisions 2) = [False, True, True]"
proof -
  note E = eligible_iff_routed [OF sample_evaluated [of 2]]
  then have "map (\<lambda>d. gd_route d \<noteq> None) (sample_decisions 2) =
      map (\<lambda>r. r = ELIGIBLE) (map gd_reason (sample_decisions 2))"
    by (simp add: o_def)
  with E show ?thesis unfolding sample_reasons using sample_evaluated by simp
qed

theorem eligibility_quotas_witness:
  "evaluate_gateway_eligibility sample_sha (sample_gateway_policy 2) sample_candidates = Inr (sample_decisions 2) \<and>
   length (filter decision_eligible (sample_decisions 2)) \<le> 10"
proof -
  have "length (routed_now (sample_gateway_policy 2) sample_candidates) = 1" by code_simp
  with eligibility_quotas [OF sample_evaluated [of 2]] sample_evaluated [of 2] show ?thesis
    by (simp add: sample_gateway_policy_def)
qed


end
