(* ===== verification/Gateway_Snapshot.thy ===== *)
theory Gateway_Snapshot
  imports Gateway_Routes
begin

section \<open>Gateway snapshots and their pages\<close>

text \<open>
  Models the second half of \<^verbatim>\<open>tesserix_mcp_manifest/gateway_reconciliation.py\<close>: route records, tenant
  projections, the canonical snapshot with its digest, and the assembly of a snapshot from
  cursor-bound pages. The conversion from and to JSON documents is pydantic's and is not modelled;
  the digest of the canonical document is.
\<close>

subsection \<open>Route records and tenants\<close>

record route_record =
  rr_ref :: string
  rr_tenant_id :: string
  rr_server_name :: string
  rr_registry_digest :: string
  rr_artifact_digest :: string
  rr_rendered_digest :: string
  rr_resource_count :: nat
  rr_activation_generation :: int
  rr_identity_digest :: string
  rr_resource_name :: string
  rr_route_path :: string
  rr_scope :: string
  rr_policy_name :: string

definition route_record_valid :: "(string \<Rightarrow> string) \<Rightarrow> route_record \<Rightarrow> bool" where
  "route_record_valid sha r \<longleftrightarrow>
     tenant_field (rr_tenant_id r) \<and> server_field (rr_server_name r) \<and>
     fullmatch sha256_ref (rr_registry_digest r) \<and> fullmatch sha256_ref (rr_artifact_digest r) \<and>
     fullmatch sha256_ref (rr_rendered_digest r) \<and>
     3 \<le> rr_resource_count r \<and> rr_resource_count r \<le> 4 \<and> generation_field (rr_activation_generation r) \<and>
     fullmatch sha256_ref (rr_identity_digest r) \<and>
     text_between 1 63 (rr_resource_name r) \<and> fullmatch dns_label_rx (rr_resource_name r) \<and>
     text_between 1 132 (rr_route_path r) \<and> fullmatch route_path_rx (rr_route_path r) \<and>
     text_between 1 131 (rr_scope r) \<and> fullmatch scope_rx (rr_scope r) \<and>
     text_between 1 63 (rr_policy_name r) \<and> fullmatch dns_label_rx (rr_policy_name r) \<and>
     (case derive_gateway_route_identity sha (rr_tenant_id r) (rr_server_name r) of
        Inl e \<Rightarrow> False
      | Inr expected \<Rightarrow>
          rr_identity_digest r = ri_identity_digest expected \<and>
          rr_resource_name r = ri_resource_name expected \<and> rr_route_path r = ri_route_path expected \<and>
          rr_scope r = ri_scope expected \<and> rr_policy_name r = ri_resource_name expected) \<and>
     ref_field (rr_ref r) (rr_tenant_id r) (rr_server_name r)"

definition route_from_decision ::
  "(string \<Rightarrow> string) \<Rightarrow> eligibility_decision \<Rightarrow> string \<Rightarrow> nat \<Rightarrow> (gw_error, route_record) result" where
  "route_from_decision sha d rendered_digest resource_count =
     raise_if (\<not> decision_eligible d) Contract_error
     (case gd_route d of
        None \<Rightarrow> Inl Contract_error
      | Some route \<Rightarrow>
          (let c = gd_candidate d;
               r = \<lparr>rr_ref = gc_ref c, rr_tenant_id = gc_tenant_id c, rr_server_name = gc_server_name c,
                 rr_registry_digest = gc_registry_digest c, rr_artifact_digest = gc_artifact_digest c,
                 rr_rendered_digest = rendered_digest, rr_resource_count = resource_count,
                 rr_activation_generation = gc_activation_generation c,
                 rr_identity_digest = ri_identity_digest route, rr_resource_name = ri_resource_name route,
                 rr_route_path = ri_route_path route, rr_scope = ri_scope route,
                 rr_policy_name = ri_resource_name route\<rparr> in
           raise_if (\<not> route_record_valid sha r) Value_error (Inr r)))"

record tenant_snapshot =
  ts_tenant_id :: string
  ts_generation :: int
  ts_state :: tenant_state
  ts_desired_route_count :: nat
  ts_complete :: bool
  ts_prune_authorized :: bool
  ts_request_id :: string

definition request_id_field :: "string \<Rightarrow> bool" where
  "request_id_field s \<longleftrightarrow> text_between 1 256 s \<and> fullmatch request_id_rx s"

definition tenant_snapshot_valid :: "tenant_snapshot \<Rightarrow> bool" where
  "tenant_snapshot_valid t \<longleftrightarrow>
     tenant_field (ts_tenant_id t) \<and> generation_field (ts_generation t) \<and>
     ts_desired_route_count t \<le> 1000 \<and> ts_complete t \<and> request_id_field (ts_request_id t) \<and>
     \<not> (ts_state t \<noteq> Tenant_READY \<and> ts_desired_route_count t \<noteq> 0) \<and>
     \<not> (ts_state t = Tenant_PENDING \<and> ts_prune_authorized t)"

subsection \<open>The canonical document\<close>

fun tenant_state_value :: "tenant_state \<Rightarrow> string" where
  "tenant_state_value Tenant_READY = ''ready''"
| "tenant_state_value Tenant_PENDING = ''pending''"
| "tenant_state_value Tenant_SUSPENDED = ''suspended''"
| "tenant_state_value Tenant_DEACTIVATED = ''deactivated''"

definition route_document :: "route_record \<Rightarrow> pyval" where
  "route_document r = obj
     [(''ref'', PStr (rr_ref r)), (''tenantId'', PStr (rr_tenant_id r)),
      (''serverName'', PStr (rr_server_name r)), (''registryDigest'', PStr (rr_registry_digest r)),
      (''artifactDigest'', PStr (rr_artifact_digest r)), (''renderedDigest'', PStr (rr_rendered_digest r)),
      (''resourceCount'', PInt (int (rr_resource_count r))),
      (''activationGeneration'', PInt (rr_activation_generation r)),
      (''identityDigest'', PStr (rr_identity_digest r)), (''resourceName'', PStr (rr_resource_name r)),
      (''routePath'', PStr (rr_route_path r)), (''scope'', PStr (rr_scope r)),
      (''policyName'', PStr (rr_policy_name r))]"

definition tenant_document :: "tenant_snapshot \<Rightarrow> pyval" where
  "tenant_document t = obj
     [(''tenantId'', PStr (ts_tenant_id t)), (''generation'', PInt (ts_generation t)),
      (''state'', PStr (tenant_state_value (ts_state t))),
      (''desiredRouteCount'', PInt (int (ts_desired_route_count t))), (''complete'', PBool (ts_complete t)),
      (''pruneAuthorized'', PBool (ts_prune_authorized t)), (''requestId'', PStr (ts_request_id t))]"

definition schema_version :: string where
  "schema_version = ''v1alpha1''"

definition snapshot_document ::
  "string \<Rightarrow> int \<Rightarrow> route_record list \<Rightarrow> tenant_snapshot list \<Rightarrow> pyval" where
  "snapshot_document environment generation routes tenants = obj
     [(''complete'', PBool True), (''environment'', PStr environment), (''generation'', PInt generation),
      (''routeCount'', PInt (int (length routes))),
      (''resourceCount'', PInt (int (sum_list (map rr_resource_count routes)))),
      (''routes'', PList (map route_document routes)), (''schemaVersion'', PStr schema_version),
      (''tenantCount'', PInt (int (length tenants))), (''tenants'', PList (map tenant_document tenants))]"

text \<open>The document has no float, and its strings are ASCII, so \<open>ensure_ascii\<close> changes nothing.\<close>

definition gateway_snapshot_digest ::
  "(string \<Rightarrow> string) \<Rightarrow> string \<Rightarrow> int \<Rightarrow> route_record list \<Rightarrow> tenant_snapshot list \<Rightarrow> string" where
  "gateway_snapshot_digest sha environment generation routes tenants =
     ''sha256:'' @ sha (case dumps (\<lambda>q. []) (snapshot_document environment generation routes tenants) of
       Some encoded \<Rightarrow> encoded | None \<Rightarrow> [])"

lemma snapshot_document_json:
  "dumps frepr (snapshot_document environment generation routes tenants) \<noteq> None"
  unfolding dumps_Some_iff
  by (auto simp: snapshot_document_def route_document_def tenant_document_def obj_def)

subsection \<open>Snapshots\<close>

record snapshot =
  sn_schema_version :: string
  sn_environment :: string
  sn_generation :: int
  sn_observed_at :: string
  sn_complete :: bool
  sn_route_count :: nat
  sn_resource_count :: nat
  sn_tenant_count :: nat
  sn_routes :: "route_record list"
  sn_tenants :: "tenant_snapshot list"
  sn_snapshot_digest :: string
  sn_request_id :: string

definition unique_columns :: "route_record list \<Rightarrow> bool" where
  "unique_columns routes \<longleftrightarrow> list_all (\<lambda>column. distinct (map column routes))
     [rr_ref, rr_identity_digest, rr_resource_name, rr_route_path, rr_scope]"

definition tenant_ready :: "tenant_snapshot list \<Rightarrow> string \<Rightarrow> bool" where
  "tenant_ready tenants t \<longleftrightarrow> list_ex (\<lambda>x. ts_tenant_id x = t \<and> ts_state x = Tenant_READY) tenants"

definition snapshot_valid :: "(string \<Rightarrow> string) \<Rightarrow> snapshot \<Rightarrow> bool" where
  "snapshot_valid sha s \<longleftrightarrow>
     sn_schema_version s = schema_version \<and> environment_field (sn_environment s) \<and>
     generation_field (sn_generation s) \<and> text_between 20 32 (sn_observed_at s) \<and>
     canonical_timestamp (sn_observed_at s) \<and> sn_complete s \<and>
     sn_route_count s \<le> 1000 \<and> sn_resource_count s \<le> 4000 \<and> sn_tenant_count s \<le> 1000 \<and>
     list_all (route_record_valid sha) (sn_routes s) \<and> length (sn_routes s) \<le> 1000 \<and>
     list_all tenant_snapshot_valid (sn_tenants s) \<and> length (sn_tenants s) \<le> 1000 \<and>
     fullmatch sha256_ref (sn_snapshot_digest s) \<and> request_id_field (sn_request_id s) \<and>
     sn_route_count s = length (sn_routes s) \<and>
     sn_resource_count s = sum_list (map rr_resource_count (sn_routes s)) \<and>
     sn_tenant_count s = length (sn_tenants s) \<and>
     sn_routes s = sort_key rr_resource_name (sn_routes s) \<and>
     sn_tenants s = sort_key ts_tenant_id (sn_tenants s) \<and>
     unique_columns (sn_routes s) \<and> distinct (map ts_tenant_id (sn_tenants s)) \<and>
     list_all (\<lambda>r. tenant_ready (sn_tenants s) (rr_tenant_id r)) (sn_routes s) \<and>
     list_all (\<lambda>t. ts_desired_route_count t = count_list (map rr_tenant_id (sn_routes s)) (ts_tenant_id t))
       (sn_tenants s) \<and>
     sn_snapshot_digest s =
       gateway_snapshot_digest sha (sn_environment s) (sn_generation s) (sn_routes s) (sn_tenants s)"

definition snapshot_create ::
  "(string \<Rightarrow> string) \<Rightarrow> string \<Rightarrow> int \<Rightarrow> string \<Rightarrow> route_record list \<Rightarrow> tenant_snapshot list \<Rightarrow> string
     \<Rightarrow> (gw_error, snapshot) result" where
  "snapshot_create sha environment generation observed_at routes tenants request_id =
     (let ordered_routes = sort_key rr_resource_name routes;
          ordered_tenants = sort_key ts_tenant_id tenants;
          s = \<lparr>sn_schema_version = schema_version, sn_environment = environment, sn_generation = generation,
            sn_observed_at = observed_at, sn_complete = True, sn_route_count = length ordered_routes,
            sn_resource_count = sum_list (map rr_resource_count ordered_routes),
            sn_tenant_count = length ordered_tenants, sn_routes = ordered_routes,
            sn_tenants = ordered_tenants,
            sn_snapshot_digest = gateway_snapshot_digest sha environment generation ordered_routes ordered_tenants,
            sn_request_id = request_id\<rparr> in
      raise_if (\<not> snapshot_valid sha s) Value_error (Inr s))"

subsection \<open>Pages\<close>

record page =
  pg_schema_version :: string
  pg_environment :: string
  pg_generation :: int
  pg_observed_at :: string
  pg_snapshot_digest :: string
  pg_page_index :: nat
  pg_page_size :: nat
  pg_route_count :: nat
  pg_resource_count :: nat
  pg_tenant_count :: nat
  pg_cursor :: "string option"
  pg_next_cursor :: "string option"
  pg_complete :: bool
  pg_routes :: "route_record list"
  pg_tenants :: "tenant_snapshot list"
  pg_request_id :: string

definition page_valid :: "(string \<Rightarrow> string) \<Rightarrow> page \<Rightarrow> bool" where
  "page_valid sha p \<longleftrightarrow>
     pg_schema_version p = schema_version \<and> environment_field (pg_environment p) \<and>
     generation_field (pg_generation p) \<and> text_between 20 32 (pg_observed_at p) \<and>
     canonical_timestamp (pg_observed_at p) \<and> fullmatch sha256_ref (pg_snapshot_digest p) \<and>
     pg_page_index p \<le> 9 \<and> 1 \<le> pg_page_size p \<and> pg_page_size p \<le> 100 \<and>
     pg_route_count p \<le> 1000 \<and> pg_resource_count p \<le> 4000 \<and> pg_tenant_count p \<le> 1000 \<and>
     (case pg_cursor p of None \<Rightarrow> True | Some c \<Rightarrow> request_id_field c) \<and>
     (case pg_next_cursor p of None \<Rightarrow> True | Some c \<Rightarrow> request_id_field c) \<and>
     list_all (route_record_valid sha) (pg_routes p) \<and> length (pg_routes p) \<le> 100 \<and>
     list_all tenant_snapshot_valid (pg_tenants p) \<and> length (pg_tenants p) \<le> 100 \<and>
     request_id_field (pg_request_id p) \<and>
     pg_complete p = (pg_next_cursor p = None) \<and>
     \<not> (pg_page_index p = 0 \<and> pg_cursor p \<noteq> None) \<and>
     \<not> (pg_page_index p > 0 \<and> pg_cursor p = None)"

definition pages_for :: "nat \<Rightarrow> nat \<Rightarrow> nat" where
  "pages_for k n = (n + k - 1) div k"

definition expected_pages :: "page \<Rightarrow> nat" where
  "expected_pages first =
     max 1 (max (pages_for (pg_page_size first) (pg_route_count first))
                (pages_for (pg_page_size first) (pg_tenant_count first)))"

definition page_differs :: "page \<Rightarrow> page \<Rightarrow> bool" where
  "page_differs first p \<longleftrightarrow>
     pg_schema_version p \<noteq> pg_schema_version first \<or> pg_environment p \<noteq> pg_environment first \<or>
     pg_generation p \<noteq> pg_generation first \<or> pg_observed_at p \<noteq> pg_observed_at first \<or>
     pg_snapshot_digest p \<noteq> pg_snapshot_digest first \<or> pg_page_size p \<noteq> pg_page_size first \<or>
     pg_route_count p \<noteq> pg_route_count first \<or> pg_resource_count p \<noteq> pg_resource_count first \<or>
     pg_tenant_count p \<noteq> pg_tenant_count first \<or> pg_request_id p \<noteq> pg_request_id first"

definition expected_items :: "nat \<Rightarrow> nat \<Rightarrow> nat \<Rightarrow> nat" where
  "expected_items k m index = min k (m - index * k)"

text \<open>The loop over the pages, with the cursor the next page must have and the cursors seen.\<close>

fun assemble_loop ::
  "page \<Rightarrow> nat \<Rightarrow> nat \<Rightarrow> string option \<Rightarrow> string list \<Rightarrow> page list
     \<Rightarrow> (gw_error, route_record list \<times> tenant_snapshot list) result" where
  "assemble_loop first expected index cursor seen [] = Inr ([], [])"
| "assemble_loop first expected index cursor seen (p # ps) =
     raise_if (page_differs first p \<or> pg_page_index p \<noteq> index \<or> pg_cursor p \<noteq> cursor \<or>
               pg_complete p \<noteq> (index = expected - 1)) Contract_error
     (raise_if (length (pg_routes p) \<noteq> expected_items (pg_page_size first) (pg_route_count first) index \<or>
                length (pg_tenants p) \<noteq> expected_items (pg_page_size first) (pg_tenant_count first) index)
       Contract_error
     (raise_if (case pg_next_cursor p of None \<Rightarrow> False | Some c \<Rightarrow> c \<in> set seen) Contract_error
     (and_then (assemble_loop first expected (index + 1) (pg_next_cursor p)
         (case pg_next_cursor p of None \<Rightarrow> seen | Some c \<Rightarrow> c # seen) ps) (\<lambda>(routes, tenants).
      Inr (pg_routes p @ routes, pg_tenants p @ tenants)))))"

definition assemble_pages ::
  "(string \<Rightarrow> string) \<Rightarrow> page list \<Rightarrow> (gw_error, snapshot) result" where
  "assemble_pages sha pages =
     raise_if (pages = [] \<or> length pages > 10) Contract_error
     (let first = hd pages; expected = expected_pages first in
      raise_if (expected \<noteq> length pages \<or> expected > 10) Contract_error
      (and_then (assemble_loop first expected 0 None [] pages) (\<lambda>(routes, tenants).
       raise_if (routes \<noteq> sort_key rr_resource_name routes) Contract_error
       (raise_if (tenants \<noteq> sort_key ts_tenant_id tenants) Contract_error
       (case snapshot_create sha (pg_environment first) (pg_generation first) (pg_observed_at first)
            routes tenants (pg_request_id first) of
          Inl e \<Rightarrow> Inl Contract_error
        | Inr s \<Rightarrow>
            raise_if (sn_resource_count s \<noteq> pg_resource_count first \<or>
                      sn_snapshot_digest s \<noteq> pg_snapshot_digest first) Contract_error (Inr s))))))"

subsection \<open>Canonical order\<close>

lemma unique_columns_perm: "mset rs = mset rs' \<Longrightarrow> unique_columns rs = unique_columns rs'"
  unfolding unique_columns_def list_all_iff
  by (intro ball_cong refl) (metis mset_eq_imp_distinct_iff mset_map)

lemma sort_key_perm:
  assumes "mset xs = mset ys" "distinct (map f xs)"
  shows "sort_key f xs = sort_key f ys"
  using assms by (rule sort_key_perm_unique)

lemma unique_columns_names: "unique_columns rs \<Longrightarrow> distinct (map rr_resource_name rs)"
  by (simp add: unique_columns_def)

lemma snapshot_create_ok:
  "snapshot_create sha env gen obs rs ts rid = Inr s \<Longrightarrow>
     snapshot_valid sha s \<and> sn_environment s = env \<and> sn_generation s = gen \<and> sn_observed_at s = obs \<and>
     sn_routes s = sort_key rr_resource_name rs \<and> sn_tenants s = sort_key ts_tenant_id ts \<and>
     sn_request_id s = rid"
  by (auto simp: snapshot_create_def Let_def)

lemma snapshot_create_error:
  "snapshot_create sha env gen obs rs ts rid = Inl e \<Longrightarrow> e = Value_error"
  by (auto simp: snapshot_create_def Let_def raise_if_def split: if_splits)

lemma snapshot_create_unique:
  assumes "is_ok (snapshot_create sha env gen obs rs ts rid)"
  shows "unique_columns rs" "distinct (map ts_tenant_id ts)"
proof -
  obtain s where "snapshot_create sha env gen obs rs ts rid = Inr s"
    using assms unfolding is_ok_iff by blast
  then have "unique_columns (sort_key rr_resource_name rs)" "distinct (map ts_tenant_id (sort_key ts_tenant_id ts))"
    by (auto simp: snapshot_create_def Let_def snapshot_valid_def)
  then show "unique_columns rs" "distinct (map ts_tenant_id ts)"
    using unique_columns_perm [of "sort_key rr_resource_name rs" rs]
    by (simp, metis mset_eq_imp_distinct_iff mset_map mset_sort)
qed

lemma snapshot_create_sorted:
  assumes "mset rs = mset rs'" "mset ts = mset ts'" "unique_columns rs" "distinct (map ts_tenant_id ts)"
  shows "snapshot_create sha env gen obs rs ts rid = snapshot_create sha env gen obs rs' ts' rid"
  using sort_key_perm [OF assms(1) unique_columns_names [OF assms(3)]] sort_key_perm [OF assms(2,4)]
  by (simp add: snapshot_create_def)

text \<open>
  The snapshot is canonical: it does not depend on the order in which routes and tenants are
  given. Two lists with the same routes and the same tenants give the same snapshot, with the
  same digest, or are both refused.
\<close>

theorem snapshot_create_order:
  assumes "mset routes = mset routes'" "mset tenants = mset tenants'"
  shows "snapshot_create sha env gen obs routes tenants rid = snapshot_create sha env gen obs routes' tenants' rid"
proof (cases "is_ok (snapshot_create sha env gen obs routes tenants rid) \<or>
    is_ok (snapshot_create sha env gen obs routes' tenants' rid)")
  case True
  then show ?thesis
  proof
    assume "is_ok (snapshot_create sha env gen obs routes tenants rid)"
    from snapshot_create_sorted [OF assms snapshot_create_unique [OF this]] show ?thesis .
  next
    assume "is_ok (snapshot_create sha env gen obs routes' tenants' rid)"
    from snapshot_create_sorted [OF assms [symmetric] snapshot_create_unique [OF this]] show ?thesis ..
  qed
next
  case False
  then show ?thesis
    using snapshot_create_error by (metis is_ok.simps(2) sumE)
qed

subsection \<open>Assembly\<close>

lemma assemble_loop_concat:
  "assemble_loop first n i cur seen ps = Inr (rs, ts) \<Longrightarrow>
     rs = concat (map pg_routes ps) \<and> ts = concat (map pg_tenants ps) \<and>
     (\<forall>p\<in>set ps. \<not> page_differs first p) \<and>
     (\<forall>j<length ps. pg_page_index (ps ! j) = i + j \<and>
        length (pg_routes (ps ! j)) = expected_items (pg_page_size first) (pg_route_count first) (i + j) \<and>
        length (pg_tenants (ps ! j)) = expected_items (pg_page_size first) (pg_tenant_count first) (i + j))"
proof (induction ps arbitrary: i cur seen rs ts)
  case Nil
  then show ?case by simp
next
  case (Cons p ps)
  then obtain rs' ts' where
    rest: "assemble_loop first n (i + 1) (pg_next_cursor p)
        (case pg_next_cursor p of None \<Rightarrow> seen | Some c \<Rightarrow> c # seen) ps = Inr (rs', ts')"
    and p: "\<not> page_differs first p" "pg_page_index p = i"
      "length (pg_routes p) = expected_items (pg_page_size first) (pg_route_count first) i"
      "length (pg_tenants p) = expected_items (pg_page_size first) (pg_tenant_count first) i"
    and eq: "rs = pg_routes p @ rs'" "ts = pg_tenants p @ ts'"
    by auto
  note IH = Cons.IH [OF rest]
  have "pg_page_index ((p # ps) ! j) = i + j \<and>
        length (pg_routes ((p # ps) ! j)) = expected_items (pg_page_size first) (pg_route_count first) (i + j) \<and>
        length (pg_tenants ((p # ps) ! j)) = expected_items (pg_page_size first) (pg_tenant_count first) (i + j)"
    if "j < length (p # ps)" for j
    using that IH p by (cases j) auto
  with IH p(1) eq show ?case by auto
qed

text \<open>The pages a total is spread over hold it exactly.\<close>

lemma expected_items_sum: "(\<Sum>i<n. expected_items k m i) = min m (n * k)"
  by (induction n) (auto simp: expected_items_def min_def)

lemma pages_for_enough:
  assumes "1 \<le> k"
  shows "n \<le> pages_for k n * k"
proof -
  have "(n + k - 1) mod k < k" using assms by simp
  moreover have "pages_for k n * k + (n + k - 1) mod k = n + k - 1"
    by (simp add: pages_for_def)
  ultimately show ?thesis using assms by linarith
qed

lemma length_concat_nth: "length (concat (map f ps)) = (\<Sum>i<length ps. length (f (ps ! i)))"
proof (induction ps rule: rev_induct)
  case (snoc p ps)
  have "(\<Sum>i<length ps. length (f ((ps @ [p]) ! i))) = (\<Sum>i<length ps. length (f (ps ! i)))"
    by (rule sum.cong) (simp_all add: nth_append)
  with snoc show ?case by simp
qed simp

lemma assemble_pages_cases:
  assumes "assemble_pages sha pages = Inr s"
  obtains routes tenants where "pages \<noteq> []" "length pages \<le> 10" "length pages = expected_pages (hd pages)"
    "assemble_loop (hd pages) (expected_pages (hd pages)) 0 None [] pages = Inr (routes, tenants)"
    "sort_key rr_resource_name routes = routes" "sort_key ts_tenant_id tenants = tenants"
    "snapshot_create sha (pg_environment (hd pages)) (pg_generation (hd pages)) (pg_observed_at (hd pages))
       routes tenants (pg_request_id (hd pages)) = Inr s"
    "sn_resource_count s = pg_resource_count (hd pages)" "sn_snapshot_digest s = pg_snapshot_digest (hd pages)"
proof -
  from assms obtain r where r:
    "\<not> (pages = [] \<or> length pages > 10)" "\<not> (expected_pages (hd pages) \<noteq> length pages \<or> expected_pages (hd pages) > 10)"
    "assemble_loop (hd pages) (expected_pages (hd pages)) 0 None [] pages = Inr r"
    and rest: "(case r of (routes, tenants) \<Rightarrow>
       raise_if (routes \<noteq> sort_key rr_resource_name routes) Contract_error
       (raise_if (tenants \<noteq> sort_key ts_tenant_id tenants) Contract_error
       (case snapshot_create sha (pg_environment (hd pages)) (pg_generation (hd pages)) (pg_observed_at (hd pages))
            routes tenants (pg_request_id (hd pages)) of
          Inl e \<Rightarrow> Inl Contract_error
        | Inr s \<Rightarrow>
            raise_if (sn_resource_count s \<noteq> pg_resource_count (hd pages) \<or>
                      sn_snapshot_digest s \<noteq> pg_snapshot_digest (hd pages)) Contract_error (Inr s)))) = Inr s"
    unfolding assemble_pages_def Let_def raise_if_Inr and_then_Inr by blast
  obtain routes tenants where rt: "r = (routes, tenants)" by (cases r)
  from rest [unfolded rt prod.case raise_if_Inr] obtain u where u:
    "\<not> routes \<noteq> sort_key rr_resource_name routes" "\<not> tenants \<noteq> sort_key ts_tenant_id tenants"
    "snapshot_create sha (pg_environment (hd pages)) (pg_generation (hd pages)) (pg_observed_at (hd pages))
       routes tenants (pg_request_id (hd pages)) = Inr u"
    "raise_if (sn_resource_count u \<noteq> pg_resource_count (hd pages) \<or>
       sn_snapshot_digest u \<noteq> pg_snapshot_digest (hd pages)) Contract_error (Inr u) = Inr s"
    by (cases "snapshot_create sha (pg_environment (hd pages)) (pg_generation (hd pages))
        (pg_observed_at (hd pages)) routes tenants (pg_request_id (hd pages))") auto
  from u(4) have "u = s" "sn_resource_count u = pg_resource_count (hd pages)"
    "sn_snapshot_digest u = pg_snapshot_digest (hd pages)" by auto
  with r rt u(1-3) that [of routes tenants] show thesis by (metis not_le)
qed

text \<open>
  C5. Assembly fails closed. If pages are assembled into a snapshot, then nothing was lost,
  repeated or reordered: the routes and tenants of the snapshot are those of the pages, in their
  order, as many as every page announces; all pages agree on the environment, generation,
  timestamp, counts, request and digest; the pages are numbered from 0 without a gap; and the
  snapshot is valid, so that its digest, which is the announced one, is the digest of its contents.
\<close>

theorem assemble_pages_exact:
  assumes "assemble_pages sha pages = Inr s" and "list_all (page_valid sha) pages"
  shows "sn_routes s = concat (map pg_routes pages) \<and> sn_tenants s = concat (map pg_tenants pages) \<and>
    snapshot_valid sha s \<and>
    (\<forall>i<length pages. let p = pages ! i in pg_page_index p = i \<and>
       pg_environment p = sn_environment s \<and> pg_generation p = sn_generation s \<and>
       pg_observed_at p = sn_observed_at s \<and> pg_request_id p = sn_request_id s \<and>
       pg_route_count p = sn_route_count s \<and> pg_tenant_count p = sn_tenant_count s \<and>
       pg_resource_count p = sn_resource_count s \<and> pg_snapshot_digest p = sn_snapshot_digest s)"
  using assms(1)
proof (cases rule: assemble_pages_cases)
  case (1 routes tenants)
  let ?f = "hd pages"
  note loop = assemble_loop_concat [OF 1(4)] and made = snapshot_create_ok [OF 1(7)]
  have contents: "sn_routes s = routes" "sn_tenants s = tenants"
    using made 1(5,6) by simp_all
  have first: "1 \<le> pg_page_size ?f"
    using assms(2) 1(1) by (cases pages) (auto simp: page_valid_def)
  have enough: "pg_route_count ?f \<le> length pages * pg_page_size ?f" "pg_tenant_count ?f \<le> length pages * pg_page_size ?f"
    using order_trans [OF pages_for_enough [OF first] mult_le_mono1] 1(3)
    by (simp_all add: expected_pages_def)
  have "length routes = (\<Sum>i<length pages. expected_items (pg_page_size ?f) (pg_route_count ?f) i)"
    "length tenants = (\<Sum>i<length pages. expected_items (pg_page_size ?f) (pg_tenant_count ?f) i)"
    using loop by (simp_all add: length_concat_nth)
  then have counts: "length routes = pg_route_count ?f" "length tenants = pg_tenant_count ?f"
    using enough by (simp_all add: expected_items_sum)
  have valid: "sn_route_count s = length routes" "sn_tenant_count s = length tenants"
    using made contents by (simp_all add: snapshot_valid_def)
  have "\<not> page_differs ?f (pages ! i)" if "i < length pages" for i using loop that by auto
  with loop made contents counts valid 1(8,9) show ?thesis
    unfolding Let_def by (auto simp: page_differs_def)
qed

subsection \<open>Splitting a snapshot into pages\<close>

text \<open>
  How a Registry serves a snapshot: pages of \<open>k\<close> routes and tenants, each bound to the next one by
  a cursor. This is the counterpart of the assembly; the pages themselves come from a service.
\<close>

definition page_count :: "nat \<Rightarrow> snapshot \<Rightarrow> nat" where
  "page_count k s = max 1 (max (pages_for k (length (sn_routes s))) (pages_for k (length (sn_tenants s))))"

definition page_of :: "nat \<Rightarrow> (nat \<Rightarrow> string) \<Rightarrow> snapshot \<Rightarrow> nat \<Rightarrow> page" where
  "page_of k cursor s i =
     \<lparr>pg_schema_version = sn_schema_version s, pg_environment = sn_environment s,
      pg_generation = sn_generation s, pg_observed_at = sn_observed_at s,
      pg_snapshot_digest = sn_snapshot_digest s, pg_page_index = i, pg_page_size = k,
      pg_route_count = sn_route_count s, pg_resource_count = sn_resource_count s,
      pg_tenant_count = sn_tenant_count s,
      pg_cursor = (if i = 0 then None else Some (cursor i)),
      pg_next_cursor = (if i = page_count k s - 1 then None else Some (cursor (i + 1))),
      pg_complete = (i = page_count k s - 1),
      pg_routes = take k (drop (i * k) (sn_routes s)), pg_tenants = take k (drop (i * k) (sn_tenants s)),
      pg_request_id = sn_request_id s\<rparr>"

definition paginate :: "nat \<Rightarrow> (nat \<Rightarrow> string) \<Rightarrow> snapshot \<Rightarrow> page list" where
  "paginate k cursor s = map (page_of k cursor s) [0..<page_count k s]"

lemma page_of_simps [simp]:
  "\<not> page_differs (page_of k cursor s j) (page_of k cursor s i)"
  "pg_page_index (page_of k cursor s i) = i" "pg_page_size (page_of k cursor s i) = k"
  "pg_cursor (page_of k cursor s i) = (if i = 0 then None else Some (cursor i))"
  "pg_next_cursor (page_of k cursor s i) = (if i = page_count k s - 1 then None else Some (cursor (i + 1)))"
  "pg_complete (page_of k cursor s i) = (i = page_count k s - 1)"
  "pg_routes (page_of k cursor s i) = take k (drop (i * k) (sn_routes s))"
  "pg_tenants (page_of k cursor s i) = take k (drop (i * k) (sn_tenants s))"
  "pg_route_count (page_of k cursor s i) = sn_route_count s"
  "pg_tenant_count (page_of k cursor s i) = sn_tenant_count s"
  "pg_resource_count (page_of k cursor s i) = sn_resource_count s"
  "pg_environment (page_of k cursor s i) = sn_environment s"
  "pg_generation (page_of k cursor s i) = sn_generation s"
  "pg_observed_at (page_of k cursor s i) = sn_observed_at s"
  "pg_request_id (page_of k cursor s i) = sn_request_id s"
  "pg_snapshot_digest (page_of k cursor s i) = sn_snapshot_digest s"
  by (simp_all add: page_of_def page_differs_def)

lemma page_count_pos [simp]: "0 < page_count k s"
  by (simp add: page_count_def)

lemma page_count_enough:
  assumes "1 \<le> k"
  shows "length (sn_routes s) \<le> page_count k s * k" "length (sn_tenants s) \<le> page_count k s * k"
  using order_trans [OF pages_for_enough [OF assms] mult_le_mono1] by (simp_all add: page_count_def)

lemma take_drop_step: "take k (drop (i * k) xs) @ drop (k + i * k) xs = drop (i * k) xs"
  by (metis append_take_drop_id drop_drop)

lemma assemble_loop_pages:
  assumes "1 \<le> k" and "inj_on cursor {1..<page_count k s}"
    and "sn_route_count s = length (sn_routes s)" "sn_tenant_count s = length (sn_tenants s)"
    and "i \<le> page_count k s" "set seen \<subseteq> cursor ` {1..i}"
    and "i < page_count k s \<longrightarrow> cur = pg_cursor (page_of k cursor s i)"
  shows "assemble_loop (page_of k cursor s 0) (page_count k s) i cur seen
      (map (page_of k cursor s) [i..<page_count k s]) =
    Inr (drop (i * k) (sn_routes s), drop (i * k) (sn_tenants s))"
  using assms(5-7)
proof (induction "page_count k s - i" arbitrary: i cur seen)
  case 0
  then show ?case using page_count_enough [OF assms(1), of s] by simp
next
  case (Suc n)
  let ?n = "page_count k s"
  from Suc.hyps(2) have i: "i < ?n" by simp
  have split: "[i..<?n] = i # [i + 1..<?n]" using i by (simp add: upt_conv_Cons)
  define seen' where "seen' = (case pg_next_cursor (page_of k cursor s i) of None \<Rightarrow> seen | Some c \<Rightarrow> c # seen)"
  have fresh: "cursor (i + 1) \<notin> set seen" if "i \<noteq> ?n - 1"
  proof
    assume "cursor (i + 1) \<in> set seen"
    with Suc.prems(2) obtain j where j: "j \<in> {1..i}" "cursor (i + 1) = cursor j" by auto
    with i that have "i + 1 = j" by (intro inj_onD [OF assms(2)]) auto
    with j show False by simp
  qed
  have "assemble_loop (page_of k cursor s 0) ?n (i + 1) (pg_next_cursor (page_of k cursor s i)) seen'
      (map (page_of k cursor s) [i + 1..<?n]) =
      Inr (drop ((i + 1) * k) (sn_routes s), drop ((i + 1) * k) (sn_tenants s))"
  proof (rule Suc.hyps(1))
    show "n = ?n - (i + 1)" using Suc.hyps(2) by simp
    show "i + 1 \<le> ?n" using i by simp
    have "set seen' \<subseteq> insert (cursor (i + 1)) (set seen)" by (auto simp: seen'_def)
    moreover have "insert (cursor (i + 1)) (cursor ` {1..i}) \<subseteq> cursor ` {1..i + 1}" by auto
    ultimately show "set seen' \<subseteq> cursor ` {1..i + 1}" using Suc.prems(2) by blast
  qed auto
  then show ?case
    unfolding split seen'_def
    using i Suc.prems(3) fresh assms(3,4)
    by (auto simp: expected_items_def take_drop_step)
qed

lemma snapshot_create_valid:
  assumes "snapshot_valid sha s"
  shows "snapshot_create sha (sn_environment s) (sn_generation s) (sn_observed_at s) (sn_routes s)
    (sn_tenants s) (sn_request_id s) = Inr s"
proof -
  have sorted: "sort_key rr_resource_name (sn_routes s) = sn_routes s" "sort_key ts_tenant_id (sn_tenants s) = sn_tenants s"
    using assms unfolding snapshot_valid_def by metis+
  have "\<lparr>sn_schema_version = schema_version, sn_environment = sn_environment s, sn_generation = sn_generation s,
      sn_observed_at = sn_observed_at s, sn_complete = True, sn_route_count = length (sn_routes s),
      sn_resource_count = sum_list (map rr_resource_count (sn_routes s)),
      sn_tenant_count = length (sn_tenants s), sn_routes = sn_routes s, sn_tenants = sn_tenants s,
      sn_snapshot_digest = gateway_snapshot_digest sha (sn_environment s) (sn_generation s) (sn_routes s) (sn_tenants s),
      sn_request_id = sn_request_id s\<rparr> = s"
    using assms by (cases s) (simp add: snapshot_valid_def)
  with assms show ?thesis by (simp add: snapshot_create_def sorted Let_def)
qed

lemma assemble_pages_of:
  assumes "snapshot_valid sha s" and "1 \<le> k" and "page_count k s \<le> 10"
    and "inj_on cursor {1..<page_count k s}"
  shows "assemble_pages sha (paginate k cursor s) = Inr s"
proof -
  have counts: "sn_route_count s = length (sn_routes s)" "sn_tenant_count s = length (sn_tenants s)"
    "sort_key rr_resource_name (sn_routes s) = sn_routes s" "sort_key ts_tenant_id (sn_tenants s) = sn_tenants s"
    using assms(1) unfolding snapshot_valid_def by metis+
  have first: "hd (paginate k cursor s) = page_of k cursor s 0"
    by (simp add: paginate_def hd_map upt_conv_Cons)
  have expected: "expected_pages (page_of k cursor s 0) = page_count k s"
    by (simp add: expected_pages_def page_count_def counts)
  have "assemble_loop (page_of k cursor s 0) (page_count k s) 0 None [] (paginate k cursor s) =
      Inr (sn_routes s, sn_tenants s)"
    unfolding paginate_def using assemble_loop_pages [OF assms(2,4) counts(1,2), of 0 "[]" None] by simp
  moreover have "paginate k cursor s \<noteq> []" "length (paginate k cursor s) = page_count k s"
    using page_count_pos [of k s] by (auto simp: paginate_def simp del: page_count_pos)
  ultimately show ?thesis
    unfolding assemble_pages_def first Let_def expected
    using assms(3) snapshot_create_valid [OF assms(1)] counts by simp
qed

subsection \<open>A concrete snapshot\<close>

definition sample_tenant :: tenant_snapshot where
  "sample_tenant = \<lparr>ts_tenant_id = ''acme'', ts_generation = 1, ts_state = Tenant_PENDING,
     ts_desired_route_count = 0, ts_complete = True, ts_prune_authorized = False, ts_request_id = ''r1''\<rparr>"

definition sample_snapshot :: snapshot where
  "sample_snapshot = \<lparr>sn_schema_version = schema_version, sn_environment = ''prod'', sn_generation = 1,
     sn_observed_at = ''2026-01-01T00:00:00Z'', sn_complete = True, sn_route_count = 0,
     sn_resource_count = 0, sn_tenant_count = 2, sn_routes = [],
     sn_tenants = [sample_tenant, sample_tenant\<lparr>ts_tenant_id := ''beta''\<rparr>],
     sn_snapshot_digest = gateway_snapshot_digest sample_sha ''prod'' 1 []
       [sample_tenant, sample_tenant\<lparr>ts_tenant_id := ''beta''\<rparr>],
     sn_request_id = ''r1''\<rparr>"

lemma sample_snapshot_valid: "snapshot_valid sample_sha sample_snapshot"
  by code_simp

definition sample_cursor :: "nat \<Rightarrow> string" where
  "sample_cursor i = replicate i CHR ''c''"

lemma sample_page_count: "page_count (Suc 0) sample_snapshot = 2"
  by (simp add: page_count_def pages_for_def sample_snapshot_def)

lemma sample_paginated:
  "assemble_pages sample_sha (paginate 1 sample_cursor sample_snapshot) = Inr sample_snapshot"
  by (rule assemble_pages_of [OF sample_snapshot_valid])
    (simp_all add: sample_page_count sample_cursor_def inj_on_def)

lemma sample_pages_valid: "list_all (page_valid sample_sha) (paginate 1 sample_cursor sample_snapshot)"
  by code_simp

theorem assemble_pages_exact_witness:
  "concat (map pg_tenants (paginate 1 sample_cursor sample_snapshot)) =
     [sample_tenant, sample_tenant\<lparr>ts_tenant_id := ''beta''\<rparr>]"
  using assemble_pages_exact [OF sample_paginated sample_pages_valid] by (simp add: sample_snapshot_def)

text \<open>
  C12. Assembly is the inverse of splitting: a valid snapshot served in pages of any size, at most
  ten of them and with different cursors, is assembled back to itself.
\<close>

theorem assemble_paginate:
  assumes "snapshot_valid sha s" and "1 \<le> k" and "page_count k s \<le> 10"
    and "inj_on cursor {1..<page_count k s}"
  shows "assemble_pages sha (paginate k cursor s) = Inr s"
  using assms by (rule assemble_pages_of)

theorem assemble_paginate_witness:
  "length (paginate 1 sample_cursor sample_snapshot) = 2 \<and>
   assemble_pages sample_sha (paginate 1 sample_cursor sample_snapshot) = Inr sample_snapshot"
  using assemble_paginate [OF sample_snapshot_valid, of 1 sample_cursor]
  by (simp add: sample_page_count sample_cursor_def inj_on_def paginate_def)

theorem snapshot_create_order_witness:
  "snapshot_create sample_sha ''prod'' 1 ''2026-01-01T00:00:00Z'' []
     [sample_tenant\<lparr>ts_tenant_id := ''beta''\<rparr>, sample_tenant] ''r1'' = Inr sample_snapshot"
proof -
  have "snapshot_create sample_sha ''prod'' 1 ''2026-01-01T00:00:00Z'' [] (sn_tenants sample_snapshot) ''r1'' =
      Inr sample_snapshot"
    using snapshot_create_valid [OF sample_snapshot_valid] by (simp add: sample_snapshot_def)
  with snapshot_create_order [of "[]" "[]" "[sample_tenant\<lparr>ts_tenant_id := ''beta''\<rparr>, sample_tenant]"
      "sn_tenants sample_snapshot" sample_sha "''prod''" 1 "''2026-01-01T00:00:00Z''" "''r1''"]
  show ?thesis by (simp add: sample_snapshot_def)
qed

end
