(* ===== verification/Activation.thy ===== *)
theory Activation
  imports Contracts Timestamps
begin

section \<open>Gateway activation status\<close>

text \<open>
  Models \<^verbatim>\<open>tesserix_mcp_publisher/activation.py\<close> and the errors of
  \<^verbatim>\<open>tesserix_mcp_publisher/errors.py\<close>: the activation target, the validation of the status
  document the Registry returns, the phase derived from its conditions, its operator projection,
  and the waiter that polls it under one deadline.

  A document is a decoded JSON value. A time is its canonical text. The Registry client and the
  clock are the environment of the waiter.
\<close>

subsection \<open>Publication errors\<close>

datatype publication_code =
    Code_ACTIVATION_CONTRACT_INVALID
  | Code_ACTIVATION_FAILED
  | Code_ACTIVATION_SUPERSEDED
  | Code_ACTIVATION_TIMEOUT
  | Code_ARTIFACT_DIGEST_MISMATCH
  | Code_COMMAND_FAILED
  | Code_COMMAND_OUTPUT_INVALID
  | Code_CONFLICT
  | Code_EVIDENCE_REQUIRED
  | Code_INVALID_ARGUMENT
  | Code_MANIFEST_INVALID
  | Code_OFFICIAL_PUBLICATION_FAILED
  | Code_SECRET_MATERIAL
  | Code_UNKNOWN_OUTCOME
  | Code_UNAVAILABLE

fun publication_code_value :: "publication_code \<Rightarrow> string" where
  "publication_code_value Code_ACTIVATION_CONTRACT_INVALID = ''activation_contract_invalid''"
| "publication_code_value Code_ACTIVATION_FAILED = ''activation_failed''"
| "publication_code_value Code_ACTIVATION_SUPERSEDED = ''activation_superseded''"
| "publication_code_value Code_ACTIVATION_TIMEOUT = ''activation_timeout''"
| "publication_code_value Code_ARTIFACT_DIGEST_MISMATCH = ''artifact_digest_mismatch''"
| "publication_code_value Code_COMMAND_FAILED = ''command_failed''"
| "publication_code_value Code_COMMAND_OUTPUT_INVALID = ''command_output_invalid''"
| "publication_code_value Code_CONFLICT = ''immutable_version_conflict''"
| "publication_code_value Code_EVIDENCE_REQUIRED = ''evidence_required''"
| "publication_code_value Code_INVALID_ARGUMENT = ''invalid_argument''"
| "publication_code_value Code_MANIFEST_INVALID = ''manifest_invalid''"
| "publication_code_value Code_OFFICIAL_PUBLICATION_FAILED = ''official_publication_failed''"
| "publication_code_value Code_SECRET_MATERIAL = ''secret_material''"
| "publication_code_value Code_UNKNOWN_OUTCOME = ''publication_outcome_unknown''"
| "publication_code_value Code_UNAVAILABLE = ''publisher_unavailable''"

fun publication_message :: "publication_code \<Rightarrow> string" where
  "publication_message Code_ACTIVATION_CONTRACT_INVALID = ''Activation status contract is invalid.''"
| "publication_message Code_ACTIVATION_FAILED = ''Gateway activation reached a terminal state.''"
| "publication_message Code_ACTIVATION_SUPERSEDED = ''Activation target was superseded.''"
| "publication_message Code_ACTIVATION_TIMEOUT = ''Gateway activation did not complete before deadline.''"
| "publication_message Code_ARTIFACT_DIGEST_MISMATCH = ''Artifact evidence does not match delivery.''"
| "publication_message Code_COMMAND_FAILED = ''Delegated publisher command failed.''"
| "publication_message Code_COMMAND_OUTPUT_INVALID = ''Delegated publisher returned invalid output.''"
| "publication_message Code_CONFLICT = ''Immutable version already has different content.''"
| "publication_message Code_EVIDENCE_REQUIRED = ''Complete supply-chain evidence is required.''"
| "publication_message Code_INVALID_ARGUMENT = ''Command arguments are invalid.''"
| "publication_message Code_MANIFEST_INVALID = ''Publication manifest is invalid.''"
| "publication_message Code_OFFICIAL_PUBLICATION_FAILED = ''Official Registry publication failed.''"
| "publication_message Code_SECRET_MATERIAL = ''Publisher output contained protected material.''"
| "publication_message Code_UNKNOWN_OUTCOME = ''Publication outcome must be reconciled.''"
| "publication_message Code_UNAVAILABLE = ''Delegated publisher is unavailable.''"

record publication_error =
  ue_code :: publication_code
  ue_request_id :: string
  ue_retryable :: bool

definition publication_error_to_dict :: "publication_error \<Rightarrow> pyval" where
  "publication_error_to_dict e = obj
     [(''code'', PStr (publication_code_value (ue_code e))),
      (''message'', PStr (publication_message (ue_code e))),
      (''request_id'', PStr (ue_request_id e)),
      (''retryable'', PBool (ue_retryable e))]"

definition publication_error_of :: "publication_code \<Rightarrow> string \<Rightarrow> bool \<Rightarrow> publication_error" where
  "publication_error_of code rid retry = \<lparr>ue_code = code, ue_request_id = rid, ue_retryable = retry\<rparr>"

definition contract_error :: "string \<Rightarrow> publication_error" where
  "contract_error rid = publication_error_of Code_ACTIVATION_CONTRACT_INVALID rid False"

subsection \<open>Vocabulary\<close>

datatype activation_phase =
    Phase_DRAFT | Phase_PUBLISHED | Phase_DEPLOYED | Phase_PROBED | Phase_ACTIVE | Phase_DEGRADED
  | Phase_DEPRECATED | Phase_RETIRED | Phase_FAILED

datatype desired_state = Desired_DRAFT | Desired_PUBLISHED | Desired_DEPRECATED | Desired_RETIRED

datatype condition_status = Condition_TRUE | Condition_FALSE | Condition_UNKNOWN

datatype activation_actor = Actor_REGISTRY | Actor_GATEWAY_RECONCILER | Actor_PROTOCOL_PROBER

datatype condition_type =
    Type_PUBLISHED | Type_DEPLOYMENT_READY | Type_PROBE_READY | Type_ROUTE_READY | Type_HEALTHY
  | Type_FAILED

text \<open>The enumerations with their values; \<open>EnumType(value)\<close> is the lookup by value.\<close>

definition phase_values :: "(string \<times> activation_phase) list" where
  "phase_values = [(''draft'', Phase_DRAFT), (''published'', Phase_PUBLISHED), (''deployed'', Phase_DEPLOYED),
     (''probed'', Phase_PROBED), (''active'', Phase_ACTIVE), (''degraded'', Phase_DEGRADED),
     (''deprecated'', Phase_DEPRECATED), (''retired'', Phase_RETIRED), (''failed'', Phase_FAILED)]"

definition desired_values :: "(string \<times> desired_state) list" where
  "desired_values = [(''draft'', Desired_DRAFT), (''published'', Desired_PUBLISHED),
     (''deprecated'', Desired_DEPRECATED), (''retired'', Desired_RETIRED)]"

definition status_values :: "(string \<times> condition_status) list" where
  "status_values = [(''True'', Condition_TRUE), (''False'', Condition_FALSE), (''Unknown'', Condition_UNKNOWN)]"

definition actor_values :: "(string \<times> activation_actor) list" where
  "actor_values = [(''registry'', Actor_REGISTRY), (''gateway-reconciler'', Actor_GATEWAY_RECONCILER),
     (''protocol-prober'', Actor_PROTOCOL_PROBER)]"

definition type_values :: "(string \<times> condition_type) list" where
  "type_values = [(''Published'', Type_PUBLISHED), (''DeploymentReady'', Type_DEPLOYMENT_READY),
     (''ProbeReady'', Type_PROBE_READY), (''RouteReady'', Type_ROUTE_READY), (''Healthy'', Type_HEALTHY),
     (''Failed'', Type_FAILED)]"

fun condition_owner :: "condition_type \<Rightarrow> activation_actor" where
  "condition_owner Type_PUBLISHED = Actor_REGISTRY"
| "condition_owner Type_DEPLOYMENT_READY = Actor_GATEWAY_RECONCILER"
| "condition_owner Type_PROBE_READY = Actor_PROTOCOL_PROBER"
| "condition_owner Type_ROUTE_READY = Actor_GATEWAY_RECONCILER"
| "condition_owner Type_HEALTHY = Actor_PROTOCOL_PROBER"
| "condition_owner Type_FAILED = Actor_REGISTRY"

definition readiness_sequence :: "condition_type list" where
  "readiness_sequence =
     [Type_PUBLISHED, Type_DEPLOYMENT_READY, Type_PROBE_READY, Type_HEALTHY, Type_ROUTE_READY]"

fun phase_summary :: "activation_phase \<Rightarrow> string" where
  "phase_summary Phase_DRAFT = ''Artifact has not been committed to Registry.''"
| "phase_summary Phase_PUBLISHED = ''Immutable Registry version exists; Gateway deployment has not been accepted.''"
| "phase_summary Phase_DEPLOYED = ''Digest-bound backend and probe route are accepted; authenticated probe is pending.''"
| "phase_summary Phase_PROBED = ''Authenticated MCP discovery and bounded operation succeeded; public route promotion is pending.''"
| "phase_summary Phase_ACTIVE = ''Digest-bound deployment, probe, health, and public route are accepted.''"
| "phase_summary Phase_DEGRADED = ''A previously active version is unhealthy; last-known-good routing remains in effect.''"
| "phase_summary Phase_DEPRECATED = ''The version remains observable but is scheduled for retirement.''"
| "phase_summary Phase_RETIRED = ''The version is withdrawn and must not be routed or discovered.''"
| "phase_summary Phase_FAILED = ''Activation ended before public routing; inspect condition reasons and request IDs.''"

subsection \<open>Patterns and the target\<close>

definition ref_segment_rx :: rx where
  "ref_segment_rx = Seq (Cls is_alnum) (Rep (Cls (\<lambda>c. is_alnum c \<or> one_of ''._-'' c)) 0 254)"

definition ref_rx :: rx where
  "ref_rx = Seq (lit ''mcpservers/'') (Seq ref_segment_rx (Seq (lit ''/'') (Seq ref_segment_rx
     (Seq (Star (Seq (lit ''/'') ref_segment_rx)) (Seq (lit ''@'')
       (Seq (Cls is_alnum) (Rep (Cls (\<lambda>c. is_alnum c \<or> one_of ''._+-'' c)) 0 127)))))))"

definition reason_rx :: rx where
  "reason_rx = Seq (Cls is_upper) (Rep (Cls is_alnum) 0 63)"

definition safe_id_rx :: rx where
  "safe_id_rx = Seq (Cls is_alnum) (Rep (Cls (\<lambda>c. is_alnum c \<or> one_of ''._:/@+-'' c)) 0 255)"

definition max_activation_generation :: int where
  "max_activation_generation = 2 ^ 63 - 1"

record activation_target =
  at_ref :: string
  at_registry_digest :: string
  at_artifact_digest :: string
  at_generation :: "int option"

definition check_activation_target :: "activation_target \<Rightarrow> (publication_error, unit) result" where
  "check_activation_target t =
     raise_if (length (at_ref t) > 2048 \<or> \<not> fullmatch ref_rx (at_ref t) \<or>
         \<not> fullmatch sha256_ref (at_registry_digest t) \<or> \<not> fullmatch sha256_ref (at_artifact_digest t) \<or>
         (case at_generation t of None \<Rightarrow> False | Some g \<Rightarrow> \<not> (1 \<le> g \<and> g \<le> max_activation_generation)))
       (publication_error_of Code_INVALID_ARGUMENT ''activation-validation'' False) (Inr ())"

text \<open>The parts of a reference: \<open>split("/", 1)\<close> and \<open>rsplit("@", 1)\<close>.\<close>

definition before_first :: "char \<Rightarrow> string \<Rightarrow> string" where
  "before_first c s = takeWhile (\<lambda>x. x \<noteq> c) s"

definition after_first :: "char \<Rightarrow> string \<Rightarrow> string" where
  "after_first c s = tl (dropWhile (\<lambda>x. x \<noteq> c) s)"

definition before_last :: "char \<Rightarrow> string \<Rightarrow> string" where
  "before_last c s = (if c \<in> set s then rev (tl (dropWhile (\<lambda>x. x \<noteq> c) (rev s))) else s)"

definition after_last :: "char \<Rightarrow> string \<Rightarrow> string" where
  "after_last c s = rev (takeWhile (\<lambda>x. x \<noteq> c) (rev s))"

definition target_namespace :: "activation_target \<Rightarrow> string" where
  "target_namespace t = before_first CHR ''/'' (remove_prefix ''mcpservers/'' (at_ref t))"

definition target_name :: "activation_target \<Rightarrow> string" where
  "target_name t = before_last CHR ''@'' (after_first CHR ''/'' (remove_prefix ''mcpservers/'' (at_ref t)))"

definition target_version :: "activation_target \<Rightarrow> string" where
  "target_version t = after_last CHR ''@'' (at_ref t)"

subsection \<open>Reading a status document\<close>

record activation_condition =
  co_type :: condition_type
  co_status :: condition_status
  co_actor :: activation_actor
  co_reason :: string
  co_observed_generation :: int
  co_registry_digest :: string
  co_artifact_digest :: string
  co_last_transition_time :: string
  co_request_id :: string

record activation_status =
  ac_ref :: string
  ac_registry_digest :: string
  ac_artifact_digest :: string
  ac_generation :: int
  ac_desired_state :: desired_state
  ac_phase :: activation_phase
  ac_published_at :: "string option"
  ac_active_at :: "string option"
  ac_observed_at :: string
  ac_conditions :: "activation_condition list"

type_synonym 'a parsed = "(publication_error, 'a) result"

fun as_mapping :: "string \<Rightarrow> pyval \<Rightarrow> document parsed" where
  "as_mapping rid (PDict d) =
     (if list_all (\<lambda>kv. is_kstr (fst kv)) d then Inr d else Inl (contract_error rid))"
| "as_mapping rid v = Inl (contract_error rid)"

definition has_keys :: "string list \<Rightarrow> document \<Rightarrow> bool" where
  "has_keys keys d \<longleftrightarrow> set (map fst d) = KStr ` set keys"

fun as_text :: "string \<Rightarrow> rx \<Rightarrow> pyval \<Rightarrow> string parsed" where
  "as_text rid pattern (PStr s) = (if fullmatch pattern s then Inr s else Inl (contract_error rid))"
| "as_text rid pattern v = Inl (contract_error rid)"

fun as_timestamp :: "string \<Rightarrow> pyval \<Rightarrow> string parsed" where
  "as_timestamp rid (PStr s) =
     (if length s \<le> 32 \<and> canonical_timestamp s then Inr s else Inl (contract_error rid))"
| "as_timestamp rid v = Inl (contract_error rid)"

fun as_optional_timestamp :: "string \<Rightarrow> pyval \<Rightarrow> string option parsed" where
  "as_optional_timestamp rid PNone = Inr None"
| "as_optional_timestamp rid v = and_then (as_timestamp rid v) (\<lambda>s. Inr (Some s))"

fun as_enum :: "string \<Rightarrow> (string \<times> 'a) list \<Rightarrow> pyval \<Rightarrow> 'a parsed" where
  "as_enum rid table (PStr s) =
     (case map_of table s of Some a \<Rightarrow> Inr a | None \<Rightarrow> Inl (contract_error rid))"
| "as_enum rid table v = Inl (contract_error rid)"

fun as_generation :: "string \<Rightarrow> pyval \<Rightarrow> int parsed" where
  "as_generation rid (PInt g) =
     (if 1 \<le> g \<and> g \<le> max_activation_generation then Inr g else Inl (contract_error rid))"
| "as_generation rid v = Inl (contract_error rid)"

definition condition_keys :: "string list" where
  "condition_keys = [''type'', ''status'', ''actor'', ''reason'', ''observedGeneration'', ''registryDigest'',
     ''artifactDigest'', ''lastTransitionTime'', ''requestId'']"

definition top_level_keys :: "string list" where
  "top_level_keys = [''schemaVersion'', ''ref'', ''registryDigest'', ''artifactDigest'', ''generation'',
     ''desiredState'', ''phase'', ''publishedAt'', ''activeAt'', ''observedAt'', ''conditions'']"

definition condition_from_document :: "string \<Rightarrow> pyval \<Rightarrow> activation_condition parsed" where
  "condition_from_document rid v =
     and_then (as_mapping rid v) (\<lambda>d.
     raise_if (\<not> has_keys condition_keys d) (contract_error rid)
     (and_then (as_enum rid type_values (get_none ''type'' d)) (\<lambda>ty.
      and_then (as_enum rid actor_values (get_none ''actor'' d)) (\<lambda>actor.
      raise_if (actor \<noteq> condition_owner ty) (contract_error rid)
      (and_then (as_generation rid (get_none ''observedGeneration'' d)) (\<lambda>generation.
       and_then (as_enum rid status_values (get_none ''status'' d)) (\<lambda>status.
       and_then (as_text rid reason_rx (get_none ''reason'' d)) (\<lambda>reason.
       and_then (as_text rid sha256_ref (get_none ''registryDigest'' d)) (\<lambda>registry.
       and_then (as_text rid sha256_ref (get_none ''artifactDigest'' d)) (\<lambda>artifact.
       and_then (as_timestamp rid (get_none ''lastTransitionTime'' d)) (\<lambda>time.
       and_then (as_text rid safe_id_rx (get_none ''requestId'' d)) (\<lambda>request.
       Inr \<lparr>co_type = ty, co_status = status, co_actor = actor, co_reason = reason,
            co_observed_generation = generation, co_registry_digest = registry,
            co_artifact_digest = artifact, co_last_transition_time = time,
            co_request_id = request\<rparr>))))))))))))"

definition condition_is_true :: "activation_status \<Rightarrow> condition_type \<Rightarrow> bool" where
  "condition_is_true s ty \<longleftrightarrow>
     list_ex (\<lambda>c. co_type c = ty \<and> co_status c = Condition_TRUE) (ac_conditions s)"

definition derived_phase :: "string \<Rightarrow> activation_status \<Rightarrow> activation_phase parsed" where
  "derived_phase rid s =
     (let published = condition_is_true s Type_PUBLISHED;
          failed = condition_is_true s Type_FAILED in
      if ac_desired_state s = Desired_DRAFT then
        (if ac_published_at s \<noteq> None \<or> ac_active_at s \<noteq> None \<or> published then Inl (contract_error rid)
         else Inr Phase_DRAFT)
      else if ac_published_at s = None \<or> \<not> published then Inl (contract_error rid)
      else if ac_desired_state s = Desired_RETIRED then
        (if ac_active_at s = None then Inl (contract_error rid) else Inr Phase_RETIRED)
      else if ac_desired_state s = Desired_DEPRECATED then
        (if ac_active_at s = None then Inl (contract_error rid) else Inr Phase_DEPRECATED)
      else if failed then
        (if ac_active_at s \<noteq> None then Inl (contract_error rid) else Inr Phase_FAILED)
      else if list_all (condition_is_true s) readiness_sequence then
        (if ac_active_at s = None then Inl (contract_error rid) else Inr Phase_ACTIVE)
      else if ac_active_at s \<noteq> None then Inr Phase_DEGRADED
      else if condition_is_true s Type_DEPLOYMENT_READY \<and> condition_is_true s Type_PROBE_READY \<and>
          condition_is_true s Type_HEALTHY then Inr Phase_PROBED
      else if condition_is_true s Type_DEPLOYMENT_READY then Inr Phase_DEPLOYED
      else Inr Phase_PUBLISHED)"

fun as_condition_list :: "string \<Rightarrow> pyval \<Rightarrow> pyval list parsed" where
  "as_condition_list rid (PList xs) = (if length xs \<le> 6 then Inr xs else Inl (contract_error rid))"
| "as_condition_list rid v = Inl (contract_error rid)"

definition later_option :: "string option \<Rightarrow> string \<Rightarrow> bool" where
  "later_option v w \<longleftrightarrow> (case v of None \<Rightarrow> False | Some x \<Rightarrow> earlier w x)"

definition times_disordered :: "string option \<Rightarrow> string option \<Rightarrow> string \<Rightarrow> bool" where
  "times_disordered published active observed \<longleftrightarrow>
     later_option published observed \<or> later_option active observed \<or>
     (case (published, active) of (Some p, Some a) \<Rightarrow> earlier a p | _ \<Rightarrow> False)"

definition status_from_document :: "string \<Rightarrow> pyval \<Rightarrow> activation_status parsed" where
  "status_from_document rid v =
     and_then (as_mapping rid v) (\<lambda>d.
     raise_if (\<not> has_keys top_level_keys d \<or> get_none ''schemaVersion'' d \<noteq> PStr ''v1alpha1'') (contract_error rid)
     (and_then (as_generation rid (get_none ''generation'' d)) (\<lambda>generation.
      and_then (as_condition_list rid (get_none ''conditions'' d)) (\<lambda>raw.
      and_then (as_text rid ref_rx (get_none ''ref'' d)) (\<lambda>ref.
      raise_if (length ref > 2048) (contract_error rid)
      (and_then (as_text rid sha256_ref (get_none ''registryDigest'' d)) (\<lambda>registry.
       and_then (as_text rid sha256_ref (get_none ''artifactDigest'' d)) (\<lambda>artifact.
       and_then (as_timestamp rid (get_none ''observedAt'' d)) (\<lambda>observed.
       and_then (map_result (condition_from_document rid) raw) (\<lambda>conditions.
       raise_if (\<not> distinct (map co_type conditions)) (contract_error rid)
       (raise_if (list_ex (\<lambda>c. co_observed_generation c \<noteq> generation \<or> co_registry_digest c \<noteq> registry \<or>
            co_artifact_digest c \<noteq> artifact \<or> earlier observed (co_last_transition_time c)) conditions)
          (contract_error rid)
       (and_then (as_enum rid desired_values (get_none ''desiredState'' d)) (\<lambda>desired.
        and_then (as_optional_timestamp rid (get_none ''publishedAt'' d)) (\<lambda>published.
        and_then (as_optional_timestamp rid (get_none ''activeAt'' d)) (\<lambda>active.
        raise_if (times_disordered published active observed) (contract_error rid)
        (and_then (as_enum rid phase_values (get_none ''phase'' d)) (\<lambda>phase.
         let s = \<lparr>ac_ref = ref, ac_registry_digest = registry, ac_artifact_digest = artifact,
               ac_generation = generation, ac_desired_state = desired, ac_phase = phase,
               ac_published_at = published, ac_active_at = active, ac_observed_at = observed,
               ac_conditions = conditions\<rparr> in
         and_then (derived_phase rid s) (\<lambda>derived.
         raise_if (derived \<noteq> phase) (contract_error rid) (Inr s)))))))))))))))))))"


subsection \<open>The operator projection\<close>

definition value_of :: "(string \<times> 'a) list \<Rightarrow> 'a \<Rightarrow> string" where
  "value_of table a = (case find (\<lambda>p. snd p = a) table of Some p \<Rightarrow> fst p | None \<Rightarrow> [])"

definition text_or_none :: "string option \<Rightarrow> pyval" where
  "text_or_none v = (case v of None \<Rightarrow> PNone | Some s \<Rightarrow> PStr s)"

definition terminal_phases :: "activation_phase list" where
  "terminal_phases = [Phase_DEPRECATED, Phase_RETIRED, Phase_FAILED]"

definition blocking_conditions :: "activation_status \<Rightarrow> condition_type list" where
  "blocking_conditions s = filter (\<lambda>ty. \<not> condition_is_true s ty) readiness_sequence"

text \<open>The error is the \<open>ValueError\<close> of an unsafe request identifier.\<close>

definition explain :: "activation_status \<Rightarrow> string \<Rightarrow> (unit, pyval) result" where
  "explain s rid = raise_if (\<not> fullmatch safe_id_rx rid) () (Inr (obj
     [(''active_at'', text_or_none (ac_active_at s)),
      (''artifact_digest'', PStr (ac_artifact_digest s)),
      (''blocking_conditions'', PList (map (\<lambda>ty. PStr (value_of type_values ty)) (blocking_conditions s))),
      (''conditions'', PList (map (\<lambda>c. obj
         [(''type'', PStr (value_of type_values (co_type c))),
          (''status'', PStr (value_of status_values (co_status c))),
          (''reason'', PStr (co_reason c)),
          (''request_id'', PStr (co_request_id c))]) (ac_conditions s))),
      (''desired_state'', PStr (value_of desired_values (ac_desired_state s))),
      (''generation'', PInt (ac_generation s)),
      (''observed_at'', PStr (ac_observed_at s)),
      (''phase'', PStr (value_of phase_values (ac_phase s))),
      (''published_at'', text_or_none (ac_published_at s)),
      (''ref'', PStr (ac_ref s)),
      (''registry_digest'', PStr (ac_registry_digest s)),
      (''request_id'', PStr rid),
      (''retryable'', PBool (ac_phase s \<notin> set (Phase_ACTIVE # terminal_phases))),
      (''summary'', PStr (phase_summary (ac_phase s))),
      (''terminal'', PBool (ac_phase s \<in> set terminal_phases))]))"

subsection \<open>The waiter\<close>

text \<open>
  A wait error carries a publication error and, for \<open>_ActivationWaitError\<close>, the last status;
  \<open>Wait_raised\<close> is any other exception of the client or the interruption of a sleep.
\<close>

datatype 'x wait_error =
    Wait_error publication_error "activation_status option"
  | Wait_raised 'x

datatype 'x fetch =
    Fetch_status activation_status
  | Fetch_timeout
  | Fetch_error publication_error
  | Fetch_raised 'x

text \<open>\<open>_ActivationWaitError.to_dict\<close>: the projection is added to the error document.\<close>

definition wait_error_to_dict ::
  "publication_error \<Rightarrow> activation_status option \<Rightarrow> (unit, pyval) result" where
  "wait_error_to_dict e status =
     (case status of
        None \<Rightarrow> Inr (publication_error_to_dict e)
      | Some s \<Rightarrow> and_then (explain s (ue_request_id e)) (\<lambda>d.
          Inr (PDict ((case publication_error_to_dict e of PDict kvs \<Rightarrow> kvs | _ \<Rightarrow> []) @
            [(KStr ''activation'', d)]))))"

definition superseded_error :: "string \<Rightarrow> 'x wait_error" where
  "superseded_error rid = Wait_error (publication_error_of Code_ACTIVATION_SUPERSEDED rid False) None"

definition terminal_error :: "activation_status \<Rightarrow> string \<Rightarrow> 'x wait_error" where
  "terminal_error s rid = Wait_error (publication_error_of Code_ACTIVATION_FAILED rid False) (Some s)"

text \<open>Both timeout errors: with the last status when there is one.\<close>

definition wait_timeout :: "activation_status option \<Rightarrow> string \<Rightarrow> 'x wait_error" where
  "wait_timeout last_status rid =
     Wait_error (publication_error_of Code_ACTIVATION_TIMEOUT rid True) last_status"

fun progress_rank :: "activation_phase \<Rightarrow> nat option" where
  "progress_rank Phase_DRAFT = Some 0"
| "progress_rank Phase_PUBLISHED = Some 1"
| "progress_rank Phase_DEPLOYED = Some 2"
| "progress_rank Phase_PROBED = Some 3"
| "progress_rank Phase_ACTIVE = Some 4"
| "progress_rank _ = None"

definition reached :: "activation_phase \<Rightarrow> activation_phase \<Rightarrow> bool" where
  "reached actual target \<longleftrightarrow> actual = target \<or>
     (case (progress_rank actual, progress_rank target) of (Some a, Some t) \<Rightarrow> t \<le> a | _ \<Rightarrow> False)"

definition matches_target :: "activation_status \<Rightarrow> activation_target \<Rightarrow> int \<Rightarrow> bool" where
  "matches_target s t generation \<longleftrightarrow>
     ac_ref s = at_ref t \<and> ac_registry_digest s = at_registry_digest t \<and>
     ac_artifact_digest s = at_artifact_digest t \<and> ac_generation s = generation"

definition validate_identity :: "string \<Rightarrow> ('x wait_error, unit) result" where
  "validate_identity rid = raise_if (\<not> fullmatch safe_id_rx rid)
     (Wait_error (publication_error_of Code_INVALID_ARGUMENT ''activation-validation'' False) None) (Inr ())"

definition validate_parameters ::
  "pyfloat \<Rightarrow> pyfloat \<Rightarrow> string \<Rightarrow> ('x wait_error, unit) result" where
  "validate_parameters timeout poll rid =
     and_then (validate_identity rid) (\<lambda>_.
     raise_if (\<not> is_finite timeout \<or> \<not> (Fin (1/10) \<le> timeout \<and> timeout \<le> Fin 900) \<or>
         \<not> is_finite poll \<or> \<not> (Fin (1/10) \<le> poll \<and> poll \<le> Fin 30) \<or> poll > timeout)
       (Wait_error (publication_error_of Code_INVALID_ARGUMENT rid False) None) (Inr ()))"

text \<open>The first argument is what the one call of the client gives.\<close>

definition observe ::
  "('x wait_error, activation_status) result \<Rightarrow> activation_target \<Rightarrow> string \<Rightarrow>
    ('x wait_error, activation_status) result" where
  "observe fetched t rid =
     and_then (validate_identity rid) (\<lambda>_.
     and_then fetched (\<lambda>s.
     raise_if (\<not> matches_target s t (case at_generation t of Some g \<Rightarrow> g | None \<Rightarrow> ac_generation s))
       (superseded_error rid) (Inr s)))"

text \<open>
  What one round of the loop sees: the clock at the top, what the client does within the time
  left, the clock when it has answered (read for the deadline), the clock before the sleep, and
  what interrupts a sleep of a given length.
\<close>

record 'x poll_env =
  pe_top :: rat
  pe_fetch :: "'x fetch"
  pe_after :: rat
  pe_before_sleep :: rat
  pe_sleep :: "rat \<Rightarrow> 'x option"

record wait_args =
  wg_target :: activation_target
  wg_phase :: activation_phase
  wg_deadline :: rat
  wg_poll :: rat
  wg_request_id :: string

record wait_state =
  ws_generation :: "int option"
  ws_status :: "activation_status option"
  ws_observed_at :: "string option"

datatype 'x round = Round_done "('x wait_error, activation_status) result" | Round_again wait_state

definition sleep_delay :: "wait_args \<Rightarrow> 'x poll_env \<Rightarrow> rat" where
  "sleep_delay g env = min (wg_poll g) (wg_deadline g - pe_before_sleep env)"

definition sleep_then :: "wait_args \<Rightarrow> 'x poll_env \<Rightarrow> wait_state \<Rightarrow> 'x round" where
  "sleep_then g env w =
     (case pe_sleep env (sleep_delay g env) of Some x \<Rightarrow> Round_done (Inl (Wait_raised x)) | None \<Rightarrow> Round_again w)"

definition examine_status ::
  "wait_args \<Rightarrow> 'x poll_env \<Rightarrow> activation_status \<Rightarrow> wait_state \<Rightarrow> 'x round" where
  "examine_status g env s w =
     (let rid = wg_request_id g;
          generation = (case ws_generation w of Some n \<Rightarrow> n | None \<Rightarrow> ac_generation s) in
      if wg_deadline g - pe_after env \<le> 0 then Round_done (Inl (wait_timeout (Some s) rid))
      else if (case ws_observed_at w of Some v \<Rightarrow> earlier (ac_observed_at s) v | None \<Rightarrow> False)
        then Round_done (Inl (Wait_error (contract_error rid) None))
      else if \<not> matches_target s (wg_target g) generation then Round_done (Inl (superseded_error rid))
      else if reached (ac_phase s) (wg_phase g) then Round_done (Inr s)
      else if ac_phase s \<in> set terminal_phases then Round_done (Inl (terminal_error s rid))
      else if wg_deadline g - pe_before_sleep env \<le> 0 then Round_done (Inl (wait_timeout (Some s) rid))
      else sleep_then g env \<lparr>ws_generation = Some generation, ws_status = Some s,
             ws_observed_at = Some (ac_observed_at s)\<rparr>)"

definition poll_round :: "wait_args \<Rightarrow> 'x poll_env \<Rightarrow> wait_state \<Rightarrow> 'x round" where
  "poll_round g env w =
     (if wg_deadline g - pe_top env \<le> 0 then Round_done (Inl (wait_timeout (ws_status w) (wg_request_id g)))
      else
        (case pe_fetch env of
           Fetch_timeout \<Rightarrow> Round_done (Inl (wait_timeout (ws_status w) (wg_request_id g)))
         | Fetch_raised x \<Rightarrow> Round_done (Inl (Wait_raised x))
         | Fetch_error e \<Rightarrow>
             (if \<not> ue_retryable e then Round_done (Inl (Wait_error e None))
              else if wg_deadline g - pe_before_sleep env \<le> 0
                then Round_done (Inl (wait_timeout (ws_status w) (wg_request_id g)))
              else sleep_then g env w)
         | Fetch_status s \<Rightarrow> examine_status g env s w))"

text \<open>The loop, with fuel for the rounds; \<open>None\<close> is a loop that has not ended.\<close>

fun wait_loop ::
  "nat \<Rightarrow> wait_args \<Rightarrow> (nat \<Rightarrow> 'x poll_env) \<Rightarrow> nat \<Rightarrow> wait_state \<Rightarrow>
    ('x wait_error, activation_status) result option" where
  "wait_loop 0 g polls i w = None"
| "wait_loop (Suc fuel) g polls i w =
     (case poll_round g (polls i) w of
        Round_done r \<Rightarrow> Some r
      | Round_again w' \<Rightarrow> wait_loop fuel g polls (Suc i) w')"

definition initial_wait :: "activation_target \<Rightarrow> wait_state" where
  "initial_wait t = \<lparr>ws_generation = at_generation t, ws_status = None, ws_observed_at = None\<rparr>"

fun finite_value :: "pyfloat \<Rightarrow> rat" where
  "finite_value (Fin q) = q"
| "finite_value _ = 0"

definition wait_args_of ::
  "activation_target \<Rightarrow> activation_phase \<Rightarrow> pyfloat \<Rightarrow> pyfloat \<Rightarrow> string \<Rightarrow> rat \<Rightarrow> wait_args" where
  "wait_args_of t phase timeout poll rid start =
     \<lparr>wg_target = t, wg_phase = phase, wg_deadline = start + finite_value timeout,
      wg_poll = finite_value poll, wg_request_id = rid\<rparr>"

definition wait_activation ::
  "nat \<Rightarrow> activation_target \<Rightarrow> activation_phase \<Rightarrow> pyfloat \<Rightarrow> pyfloat \<Rightarrow> string \<Rightarrow> rat \<Rightarrow>
    (nat \<Rightarrow> 'x poll_env) \<Rightarrow> ('x wait_error, activation_status) result option" where
  "wait_activation fuel t phase timeout poll rid start polls =
     (case validate_parameters timeout poll rid of
        Inl e \<Rightarrow> Some (Inl e)
      | Inr _ \<Rightarrow> wait_loop fuel (wait_args_of t phase timeout poll rid start) polls 0 (initial_wait t))"

subsection \<open>The status contract\<close>

text \<open>
  \<open>valid_status\<close> is what a validated status promises, stated without the parser; the phase is
  determined by the desired state, the condition truth values and whether the version was active.
\<close>

definition ready :: "activation_status \<Rightarrow> bool" where
  "ready s \<longleftrightarrow> (\<forall>ty\<in>set readiness_sequence. condition_is_true s ty)"

definition was_active :: "activation_status \<Rightarrow> bool" where
  "was_active s \<longleftrightarrow> ac_active_at s \<noteq> None"

definition phase_consistent :: "activation_status \<Rightarrow> bool" where
  "phase_consistent s \<longleftrightarrow>
     (ac_phase s = Phase_DRAFT \<longleftrightarrow> ac_desired_state s = Desired_DRAFT) \<and>
     (ac_phase s = Phase_RETIRED \<longleftrightarrow> ac_desired_state s = Desired_RETIRED) \<and>
     (ac_phase s = Phase_DEPRECATED \<longleftrightarrow> ac_desired_state s = Desired_DEPRECATED) \<and>
     (ac_phase s = Phase_FAILED \<longleftrightarrow>
        ac_desired_state s = Desired_PUBLISHED \<and> condition_is_true s Type_FAILED) \<and>
     (ac_phase s = Phase_ACTIVE \<longleftrightarrow> ac_desired_state s = Desired_PUBLISHED \<and>
        \<not> condition_is_true s Type_FAILED \<and> ready s) \<and>
     (ac_phase s = Phase_DEGRADED \<longleftrightarrow> ac_desired_state s = Desired_PUBLISHED \<and>
        \<not> condition_is_true s Type_FAILED \<and> \<not> ready s \<and> was_active s) \<and>
     (was_active s \<longleftrightarrow> ac_phase s \<in> {Phase_ACTIVE, Phase_DEGRADED, Phase_DEPRECATED, Phase_RETIRED}) \<and>
     (ac_published_at s \<noteq> None \<longleftrightarrow> ac_phase s \<noteq> Phase_DRAFT) \<and>
     (condition_is_true s Type_PUBLISHED \<longleftrightarrow> ac_phase s \<noteq> Phase_DRAFT)"

definition bound_to :: "activation_status \<Rightarrow> activation_condition \<Rightarrow> bool" where
  "bound_to s c \<longleftrightarrow>
     co_actor c = condition_owner (co_type c) \<and> co_observed_generation c = ac_generation s \<and>
     co_registry_digest c = ac_registry_digest s \<and> co_artifact_digest c = ac_artifact_digest s \<and>
     \<not> earlier (ac_observed_at s) (co_last_transition_time c)"

definition times_ordered :: "activation_status \<Rightarrow> bool" where
  "times_ordered s \<longleftrightarrow>
     \<not> later_option (ac_published_at s) (ac_observed_at s) \<and>
     \<not> later_option (ac_active_at s) (ac_observed_at s) \<and>
     (\<forall>p a. ac_published_at s = Some p \<longrightarrow> ac_active_at s = Some a \<longrightarrow> \<not> earlier a p)"

definition valid_status :: "activation_status \<Rightarrow> bool" where
  "valid_status s \<longleftrightarrow>
     phase_consistent s \<and> times_ordered s \<and> (\<forall>c\<in>set (ac_conditions s). bound_to s c) \<and>
     distinct (map co_type (ac_conditions s)) \<and> 1 \<le> ac_generation s \<and>
     ac_generation s \<le> max_activation_generation"

lemma derived_phase_consistent:
  assumes "derived_phase rid s = Inr (ac_phase s)"
  shows "phase_consistent s"
proof -
  have seq: "ready s \<longleftrightarrow> list_all (condition_is_true s) readiness_sequence"
    by (simp add: ready_def list_all_iff)
  have pub: "ready s \<Longrightarrow> condition_is_true s Type_PUBLISHED"
    by (simp add: ready_def readiness_sequence_def)
  show ?thesis
    using assms pub unfolding derived_phase_def phase_consistent_def seq [symmetric] was_active_def Let_def
    by (cases "ac_desired_state s") (simp_all split: if_splits)
qed

lemma condition_from_document_owner:
  "condition_from_document rid v = Inr c \<Longrightarrow> co_actor c = condition_owner (co_type c)"
  unfolding condition_from_document_def by auto

lemma as_generation_range:
  "as_generation rid v = Inr g \<Longrightarrow> 1 \<le> g \<and> g \<le> max_activation_generation"
  by (cases v) (auto split: if_splits)

lemma status_from_document_valid:
  assumes "status_from_document rid v = Inr s"
  shows "valid_status s"
proof -
  obtain d generation raw conditions where
    gen: "as_generation rid (get_none ''generation'' d) = Inr generation" and
    conds: "map_result (condition_from_document rid) raw = Inr conditions" and
    gs: "ac_generation s = generation" and cs: "ac_conditions s = conditions" and
    dis: "distinct (map co_type conditions)" and
    bound: "\<not> list_ex (\<lambda>c. co_observed_generation c \<noteq> generation \<or> co_registry_digest c \<noteq> ac_registry_digest s \<or>
       co_artifact_digest c \<noteq> ac_artifact_digest s \<or> earlier (ac_observed_at s) (co_last_transition_time c)) conditions" and
    times: "\<not> times_disordered (ac_published_at s) (ac_active_at s) (ac_observed_at s)" and
    phase: "derived_phase rid s = Inr (ac_phase s)"
    using assms unfolding status_from_document_def by (auto simp: Let_def)
  have "times_ordered s"
    using times by (auto simp: times_ordered_def times_disordered_def)
  have owner: "\<And>c. c \<in> set conditions \<Longrightarrow> co_actor c = condition_owner (co_type c)"
    using map_result_Inr_set [OF conds] condition_from_document_owner by blast
  show ?thesis
    unfolding valid_status_def bound_to_def gs cs
    using derived_phase_consistent [OF phase] \<open>times_ordered s\<close> dis bound owner as_generation_range [OF gen]
    by (auto simp: list_ex_iff)
qed

subsection \<open>The waiter: what it returns and that it ends\<close>

text \<open>
  \<open>wait_invariant\<close> says what the local variables of the loop record of the statuses examined so
  far; \<open>passed_over\<close> is a status that was examined and made the loop go on.
\<close>

definition passed_over :: "wait_args \<Rightarrow> int \<Rightarrow> activation_status \<Rightarrow> bool" where
  "passed_over g n s \<longleftrightarrow> matches_target s (wg_target g) n \<and> \<not> reached (ac_phase s) (wg_phase g) \<and>
     ac_phase s \<notin> set terminal_phases"

definition wait_invariant :: "wait_args \<Rightarrow> activation_status list \<Rightarrow> wait_state \<Rightarrow> bool" where
  "wait_invariant g seen w \<longleftrightarrow>
     (case ws_generation w of
        None \<Rightarrow> seen = [] \<and> at_generation (wg_target g) = None
      | Some n \<Rightarrow> (\<forall>s\<in>set seen. passed_over g n s) \<and>
          (case at_generation (wg_target g) of None \<Rightarrow> True | Some m \<Rightarrow> m = n)) \<and>
     (ws_observed_at w = (if seen = [] then None else Some (ac_observed_at (last seen)))) \<and>
     (ws_status w = (if seen = [] then None else Some (last seen))) \<and>
     sorted (map (\<lambda>s. timestamp_fields (ac_observed_at s)) seen)"

fun fetched_statuses :: "'x poll_env list \<Rightarrow> activation_status list" where
  "fetched_statuses [] = []"
| "fetched_statuses (env # envs) =
     (case pe_fetch env of Fetch_status s \<Rightarrow> s # fetched_statuses envs | _ \<Rightarrow> fetched_statuses envs)"

lemma fetched_statuses_append [simp]:
  "fetched_statuses (xs @ ys) = fetched_statuses xs @ fetched_statuses ys"
  by (induction xs) (auto split: fetch.splits)

lemma sleep_then_again [simp]:
  "sleep_then g env w = Round_again w' \<longleftrightarrow> w' = w \<and> pe_sleep env (sleep_delay g env) = None"
  "sleep_then g env w \<noteq> Round_done (Inr s)"
  by (auto simp: sleep_then_def split: option.splits)

lemma sorted_snoc:
  fixes f :: "'a \<Rightarrow> 'b::linorder"
  assumes "sorted (map f xs)" "xs \<noteq> [] \<Longrightarrow> f (last xs) \<le> f x"
  shows "sorted (map f (xs @ [x]))"
  using assms by (cases xs rule: rev_cases) (auto simp: sorted_append)

lemma examine_again_invariant:
  assumes inv: "wait_invariant g seen w"
    and step: "examine_status g env s w = Round_again w'"
  shows "wait_invariant g (seen @ [s]) w'"
proof -
  define n where "n = (case ws_generation w of Some n \<Rightarrow> n | None \<Rightarrow> ac_generation s)"
  have w': "w' = \<lparr>ws_generation = Some n, ws_status = Some s, ws_observed_at = Some (ac_observed_at s)\<rparr>"
    and pass: "passed_over g n s"
    and order: "\<And>v. ws_observed_at w = Some v \<Longrightarrow> \<not> earlier (ac_observed_at s) v"
    using step unfolding examine_status_def n_def [symmetric] passed_over_def
    by (auto simp: Let_def split: if_splits option.splits)
  have gen: "\<forall>t\<in>set seen. passed_over g n t"
    "case at_generation (wg_target g) of None \<Rightarrow> True | Some m \<Rightarrow> m = n"
    using inv by (auto simp: wait_invariant_def n_def split: option.splits)
  have "sorted (map (\<lambda>s. timestamp_fields (ac_observed_at s)) (seen @ [s]))"
  proof (rule sorted_snoc)
    show "sorted (map (\<lambda>s. timestamp_fields (ac_observed_at s)) seen)"
      using inv by (simp add: wait_invariant_def)
    assume "seen \<noteq> []"
    then have "ws_observed_at w = Some (ac_observed_at (last seen))"
      using inv by (simp add: wait_invariant_def)
    from order [OF this] show "timestamp_fields (ac_observed_at (last seen)) \<le> timestamp_fields (ac_observed_at s)"
      by (simp add: earlier_def)
  qed
  then show ?thesis
    using gen pass by (simp add: wait_invariant_def w')
qed

lemma poll_round_invariant:
  assumes "wait_invariant g seen w" "poll_round g env w = Round_again w'"
  shows "wait_invariant g (seen @ fetched_statuses [env]) w'"
  using assms unfolding poll_round_def
  by (auto split: if_splits fetch.splits dest: examine_again_invariant)

text \<open>What a returned status promises, given the statuses examined before it.\<close>

definition reached_target :: "wait_args \<Rightarrow> activation_status list \<Rightarrow> activation_status \<Rightarrow> bool" where
  "reached_target g seen s \<longleftrightarrow>
     matches_target s (wg_target g) (ac_generation s) \<and>
     (\<forall>n. at_generation (wg_target g) = Some n \<longrightarrow> ac_generation s = n) \<and>
     reached (ac_phase s) (wg_phase g) \<and> (\<forall>t\<in>set seen. passed_over g (ac_generation s) t) \<and>
     sorted (map (\<lambda>t. timestamp_fields (ac_observed_at t)) (seen @ [s]))"

lemma poll_round_done:
  assumes inv: "wait_invariant g seen w" and step: "poll_round g env w = Round_done (Inr s)"
  shows "pe_fetch env = Fetch_status s \<and> pe_top env < wg_deadline g \<and> pe_after env < wg_deadline g \<and>
    reached_target g seen s"
proof -
  define n where "n = (case ws_generation w of Some n \<Rightarrow> n | None \<Rightarrow> ac_generation s)"
  have f: "pe_fetch env = Fetch_status s" "pe_top env < wg_deadline g" "pe_after env < wg_deadline g"
    and m: "matches_target s (wg_target g) n" and rc: "reached (ac_phase s) (wg_phase g)"
    and order: "\<And>v. ws_observed_at w = Some v \<Longrightarrow> \<not> earlier (ac_observed_at s) v"
    using step unfolding poll_round_def examine_status_def n_def
    by (auto simp: Let_def split: if_splits fetch.splits option.splits)
  have n: "ac_generation s = n"
    using m by (simp add: matches_target_def)
  have "sorted (map (\<lambda>s. timestamp_fields (ac_observed_at s)) (seen @ [s]))"
  proof (rule sorted_snoc)
    show "sorted (map (\<lambda>s. timestamp_fields (ac_observed_at s)) seen)"
      using inv by (simp add: wait_invariant_def)
    assume "seen \<noteq> []"
    then have "ws_observed_at w = Some (ac_observed_at (last seen))"
      using inv by (simp add: wait_invariant_def)
    from order [OF this] show "timestamp_fields (ac_observed_at (last seen)) \<le> timestamp_fields (ac_observed_at s)"
      by (simp add: earlier_def)
  qed
  moreover have "\<forall>t\<in>set seen. passed_over g n t" "\<forall>k. at_generation (wg_target g) = Some k \<longrightarrow> k = n"
    using inv by (auto simp: wait_invariant_def n_def split: option.splits)
  ultimately show ?thesis
    using f m rc n by (auto simp: reached_target_def)
qed

lemma wait_loop_reached:
  assumes "wait_loop fuel g polls i w = Some (Inr s)" "wait_invariant g (fetched_statuses (map polls [0..<i])) w"
  shows "\<exists>k. pe_fetch (polls k) = Fetch_status s \<and> pe_top (polls k) < wg_deadline g \<and>
    pe_after (polls k) < wg_deadline g \<and> reached_target g (fetched_statuses (map polls [0..<k])) s"
  using assms
proof (induction fuel arbitrary: i w)
  case (Suc fuel)
  show ?case
  proof (cases "poll_round g (polls i) w")
    case (Round_done r)
    then show ?thesis
      using Suc.prems poll_round_done [of g "fetched_statuses (map polls [0..<i])" w "polls i" s] by auto
  next
    case (Round_again w')
    have "wait_invariant g (fetched_statuses (map polls [0..<Suc i])) w'"
      using poll_round_invariant [OF Suc.prems(2) Round_again] by simp
    with Suc.IH [of "Suc i" w'] Suc.prems(1) Round_again show ?thesis by simp
  qed
qed simp

text \<open>
  Time. \<open>clock_advances\<close> is what a monotonic clock and a delay that really waits give: the next
  round starts no earlier than the sleep took.
\<close>

definition clock_advances :: "wait_args \<Rightarrow> (nat \<Rightarrow> 'x poll_env) \<Rightarrow> bool" where
  "clock_advances g polls \<longleftrightarrow>
     (\<forall>i. pe_top (polls i) \<le> pe_before_sleep (polls i) \<and>
          pe_before_sleep (polls i) + sleep_delay g (polls i) \<le> pe_top (polls (Suc i)))"

lemma clock_progress:
  assumes "clock_advances g polls" "0 \<le> wg_poll g"
  shows "min (wg_deadline g) (pe_top (polls 0) + of_nat i * wg_poll g) \<le> pe_top (polls i)"
proof (induction i)
  case (Suc i)
  have "pe_before_sleep (polls i) + sleep_delay g (polls i) \<le> pe_top (polls (Suc i))"
    "pe_top (polls i) \<le> pe_before_sleep (polls i)"
    using assms(1) by (simp_all add: clock_advances_def)
  then have "min (wg_deadline g) (pe_top (polls i) + wg_poll g) \<le> pe_top (polls (Suc i))"
    unfolding sleep_delay_def by linarith
  moreover have "of_nat (Suc i) * wg_poll g = of_nat i * wg_poll g + wg_poll g"
    by (simp add: algebra_simps)
  ultimately show ?case using Suc.IH assms(2) by linarith
qed simp

lemma wait_loop_ends:
  assumes "pe_top (polls k) \<ge> wg_deadline g" "i \<le> k" "k - i < fuel"
  shows "\<exists>r. wait_loop fuel g polls i w = Some r"
  using assms
proof (induction fuel arbitrary: i w)
  case (Suc fuel)
  show ?case
  proof (cases "poll_round g (polls i) w")
    case (Round_again w')
    have "i \<noteq> k"
      using Round_again Suc.prems(1) by (auto simp: poll_round_def)
    then have "Suc i \<le> k" "k - Suc i < fuel"
      using Suc.prems by auto
    then show ?thesis
      using Suc.IH [of "Suc i" w'] Suc.prems(1) Round_again by simp
  qed simp
qed simp

lemma validate_parameters_range:
  assumes "validate_parameters timeout poll rid = Inr ()"
  shows "0 < finite_value poll" "finite_value timeout \<le> 9000 * finite_value poll"
proof -
  obtain p q where pq: "poll = Fin p" "timeout = Fin q" "1/10 \<le> p" "q \<le> 900"
    using assms unfolding validate_parameters_def by (auto simp: is_finite_iff)
  then show "0 < finite_value poll" "finite_value timeout \<le> 9000 * finite_value poll"
    by simp_all
qed

lemma wait_activation_ends_helper:
  assumes "clock_advances (wait_args_of t phase timeout poll rid start) polls" "start \<le> pe_top (polls 0)"
  shows "\<exists>r. wait_activation 9001 t phase timeout poll rid start polls = Some r"
proof (cases "validate_parameters timeout poll rid :: ('a wait_error, unit) result")
  case (Inr u)
  let ?g = "wait_args_of t phase timeout poll rid start"
  have range: "0 < wg_poll ?g" "wg_deadline ?g \<le> start + 9000 * wg_poll ?g"
    using validate_parameters_range [of timeout poll rid] Inr by (simp_all add: wait_args_of_def)
  have "min (wg_deadline ?g) (pe_top (polls 0) + of_nat 9000 * wg_poll ?g) \<le> pe_top (polls 9000)"
    using clock_progress [OF assms(1), of 9000] range(1) by simp
  then have "wg_deadline ?g \<le> pe_top (polls 9000)"
    using range(2) assms(2) by simp
  then have "\<exists>r. wait_loop 9001 ?g polls 0 (initial_wait t) = Some r"
    by (rule wait_loop_ends) simp_all
  then show ?thesis
    using Inr by (simp add: wait_activation_def)
qed (simp add: wait_activation_def)

lemma initial_wait_invariant: "wait_invariant (wait_args_of t phase timeout poll rid start) [] (initial_wait t)"
  by (simp add: wait_invariant_def initial_wait_def wait_args_of_def split: option.splits)

subsection \<open>Properties\<close>

definition sample_digest_ref :: string where
  "sample_digest_ref = ''sha256:'' @ replicate 64 CHR ''a''"

definition sample_condition_document :: "string \<Rightarrow> string \<Rightarrow> pyval" where
  "sample_condition_document ty actor = obj
     [(''type'', PStr ty), (''status'', PStr ''True''), (''actor'', PStr actor), (''reason'', PStr ''Ready''),
      (''observedGeneration'', PInt 3), (''registryDigest'', PStr sample_digest_ref),
      (''artifactDigest'', PStr sample_digest_ref), (''lastTransitionTime'', PStr ''2026-01-01T00:00:00Z''),
      (''requestId'', PStr ''req-1'')]"

definition sample_status_document :: pyval where
  "sample_status_document = obj
     [(''schemaVersion'', PStr ''v1alpha1''), (''ref'', PStr ''mcpservers/team/search@1.0.0''),
      (''registryDigest'', PStr sample_digest_ref), (''artifactDigest'', PStr sample_digest_ref),
      (''generation'', PInt 3), (''desiredState'', PStr ''published''), (''phase'', PStr ''published''),
      (''publishedAt'', PStr ''2026-01-01T00:00:00Z''), (''activeAt'', PNone),
      (''observedAt'', PStr ''2026-01-01T00:06:00Z''),
      (''conditions'', PList [sample_condition_document ''Published'' ''registry''])]"

definition sample_status :: activation_status where
  "sample_status = (case status_from_document ''req-1'' sample_status_document of
     Inr s \<Rightarrow> s | Inl e \<Rightarrow> undefined)"

lemma sample_status_ok: "is_ok (status_from_document ''req-1'' sample_status_document)"
  by code_simp

lemma sample_status_document: "status_from_document ''req-1'' sample_status_document = Inr sample_status"
  using sample_status_ok by (auto simp: is_ok_iff sample_status_def)

text \<open>
  A status document that validation accepts describes one immutable version consistently:
  every condition was written by the actor that owns its type, for the generation and the digests
  of the status and not after its observation time, no type appears twice, the times are ordered,
  and the phase is exactly what the desired state and the true conditions imply: active means all
  five readiness conditions are true and the version was activated, degraded that a version once
  active is not ready, and the version was active in no other phase than active, degraded,
  deprecated and retired.
\<close>

theorem accepted_status_valid:
  assumes "status_from_document rid v = Inr s"
  shows "valid_status s"
  using assms by (rule status_from_document_valid)

theorem accepted_status_valid_witness: "valid_status sample_status"
  using accepted_status_valid [OF sample_status_document] .

definition sample_target :: activation_target where
  "sample_target = \<lparr>at_ref = ''mcpservers/team/search@1.0.0'', at_registry_digest = sample_digest_ref,
     at_artifact_digest = sample_digest_ref, at_generation = None\<rparr>"

definition sample_active :: activation_status where
  "sample_active = \<lparr>ac_ref = ''mcpservers/team/search@1.0.0'', ac_registry_digest = sample_digest_ref,
     ac_artifact_digest = sample_digest_ref, ac_generation = 3, ac_desired_state = Desired_PUBLISHED,
     ac_phase = Phase_ACTIVE, ac_published_at = Some ''2026-01-01T00:00:00Z'',
     ac_active_at = Some ''2026-01-01T00:05:00Z'', ac_observed_at = ''2026-01-01T00:06:00Z'', ac_conditions = []\<rparr>"

definition sample_polls :: "nat \<Rightarrow> unit poll_env" where
  "sample_polls i = \<lparr>pe_top = of_nat i, pe_fetch = (if i = 0
       then Fetch_error (publication_error_of Code_UNAVAILABLE ''req-1'' True) else Fetch_status sample_active),
     pe_after = of_nat i, pe_before_sleep = of_nat i, pe_sleep = (\<lambda>_. None)\<rparr>"

text \<open>
  C9. A wait ends: for a clock that advances by the delays slept, the loop returns or raises within
  9001 rounds for every accepted pair of timeout (at most 900 seconds) and poll interval (at least
  a tenth of a second), whatever the Registry answers.
\<close>

theorem wait_ends:
  assumes "clock_advances (wait_args_of t phase timeout poll rid start) polls" "start \<le> pe_top (polls 0)"
  shows "\<exists>r. wait_activation 9001 t phase timeout poll rid start polls = Some r"
  using assms by (rule wait_activation_ends_helper)

lemma sample_clock_advances:
  "clock_advances (wait_args_of sample_target Phase_ACTIVE (Fin 30) (Fin 1) ''req-1'' 0) sample_polls"
  by (simp add: clock_advances_def sample_polls_def sleep_delay_def wait_args_of_def)

theorem wait_ends_witness:
  "\<exists>r. wait_activation 9001 sample_target Phase_ACTIVE (Fin 30) (Fin 1) ''req-1'' 0 sample_polls = Some r"
  by (rule wait_ends [OF sample_clock_advances]) (simp add: sample_polls_def)

text \<open>
  C8. A wait that returns a status got it from the Registry before the deadline, and it is bound to
  the target: the same reference, digests and, when the target has one, generation, in a phase at or
  past the requested one. Every status examined before it was of the same generation, had not
  reached the phase, was not terminal, and no observation time went back.
\<close>

theorem wait_sound:
  assumes "wait_activation fuel t phase timeout poll rid start polls = Some (Inr s)"
  shows "\<exists>k. pe_fetch (polls k) = Fetch_status s \<and> pe_after (polls k) < start + finite_value timeout \<and>
    reached_target (wait_args_of t phase timeout poll rid start) (fetched_statuses (map polls [0..<k])) s"
proof -
  let ?g = "wait_args_of t phase timeout poll rid start"
  have "wait_loop fuel ?g polls 0 (initial_wait t) = Some (Inr s)"
    using assms by (auto simp: wait_activation_def split: sum.splits)
  from wait_loop_reached [OF this] initial_wait_invariant show ?thesis
    by (fastforce simp: wait_args_of_def)
qed

lemma sample_wait:
  "wait_activation 2 sample_target Phase_ACTIVE (Fin 30) (Fin 1) ''req-1'' 0 sample_polls = Some (Inr sample_active)"
proof -
  have "fullmatch safe_id_rx ''req-1''" by code_simp
  then show ?thesis
    by (simp add: wait_activation_def validate_parameters_def validate_identity_def numeral_2_eq_2
        poll_round_def examine_status_def sleep_then_def sample_polls_def wait_args_of_def initial_wait_def
        sample_target_def sample_active_def matches_target_def reached_def publication_error_of_def)
qed

theorem wait_sound_witness:
  "\<exists>k. pe_fetch (sample_polls k) = Fetch_status sample_active \<and> pe_after (sample_polls k) < 0 + finite_value (Fin 30) \<and>
    reached_target (wait_args_of sample_target Phase_ACTIVE (Fin 30) (Fin 1) ''req-1'' 0)
      (fetched_statuses (map sample_polls [0..<k])) sample_active"
  by (rule wait_sound [OF sample_wait])

end
