(* ===== verification/Registry_Artifact.thy ===== *)
theory Registry_Artifact
  imports Canonical_Json Urls
begin

section \<open>Registry artifacts\<close>

text \<open>
  Models the values of \<^verbatim>\<open>src/tesserix_mcp_runtime/registry_discovery.py\<close> up to the exact artifact:
  the bounded text and JSON of the Registry, the canonical encoding Go's encoder gives (its string
  escapes, its float format, sorted keys), the content digest, and the query, the search stub and
  the artifact with the checks of their constructors.

  A mapping or sequence the code freezes holds the same values afterwards, so freezing is the check
  of its bounds. \<open>frepr\<close> is the \<open>repr\<close> of a float, \<open>sha\<close> the hexadecimal SHA-256 of a text, \<open>netloc_ok\<close>
  the library's check of a network location. A negative zero is not a value of the model's floats.
\<close>

subsection \<open>Bounded text and JSON\<close>

definition visible_text :: "nat \<Rightarrow> string \<Rightarrow> bool" where
  "visible_text maximum s \<longleftrightarrow>
     s \<noteq> [] \<and> s = strip s \<and> length s \<le> maximum \<and> (\<forall>c\<in>set s. \<not> (ord_of c < 32 \<or> ord_of c = 127))"

definition require_visible :: "string \<Rightarrow> string \<Rightarrow> nat \<Rightarrow> check" where
  "require_visible name s maximum =
     raise_if (\<not> visible_text maximum s) (ValueError (name @ '' must be bounded visible text'')) okay"

definition canonical_https_origin :: "(string \<Rightarrow> bool) \<Rightarrow> string \<Rightarrow> string \<Rightarrow> (value_error, string) result" where
  "canonical_https_origin netloc_ok name s =
     (case urlsplit netloc_ok s of
        None \<Rightarrow> Inl (ValueError ''Invalid IPv6 URL'')
      | Some u \<Rightarrow>
          raise_if (su_scheme u \<noteq> ''https'' \<or> su_hostname u = [] \<or> has_userinfo u \<or>
              su_path u \<notin> {[], ''/''} \<or> su_query u \<noteq> [] \<or> su_fragment u \<noteq> [])
            (ValueError (name @ '' must be an HTTPS origin without credentials or path''))
            (Inr (''https://'' @ su_netloc u)))"

record freeze_limits =
  fl_depth :: nat
  fl_nodes :: nat
  fl_entries :: nat
  fl_items :: nat
  fl_text :: nat

definition attribute_limits :: freeze_limits where
  "attribute_limits = \<lparr>fl_depth = 8, fl_nodes = 512, fl_entries = 50, fl_items = 100, fl_text = 512\<rparr>"

definition unbounded_json :: value_error where
  "unbounded_json = ValueError ''attributes must be bounded JSON''"

text \<open>\<open>_freeze_json\<close>, with the count of the nodes seen so far.\<close>

definition enter_node :: "freeze_limits \<Rightarrow> nat \<Rightarrow> nat \<Rightarrow> (value_error, nat) result" where
  "enter_node l depth n = raise_if (depth > fl_depth l \<or> n + 1 > fl_nodes l) unbounded_json (Inr (n + 1))"

function (sequential) freeze_json :: "freeze_limits \<Rightarrow> nat \<Rightarrow> pyval \<Rightarrow> nat \<Rightarrow> (value_error, nat) result"
  and freeze_items :: "freeze_limits \<Rightarrow> nat \<Rightarrow> pyval list \<Rightarrow> nat \<Rightarrow> (value_error, nat) result"
  and freeze_entries :: "freeze_limits \<Rightarrow> nat \<Rightarrow> (pykey \<times> pyval) list \<Rightarrow> nat \<Rightarrow> (value_error, nat) result"
where
  "freeze_json l depth PNone n = enter_node l depth n"
| "freeze_json l depth (PBool b) n = enter_node l depth n"
| "freeze_json l depth (PInt i) n = enter_node l depth n"
| "freeze_json l depth (PFloat x) n =
     and_then (enter_node l depth n) (\<lambda>m. raise_if (\<not> is_finite x) unbounded_json (Inr m))"
| "freeze_json l depth (PStr s) n =
     and_then (enter_node l depth n) (\<lambda>m. raise_if (length s > fl_text l) unbounded_json (Inr m))"
| "freeze_json l depth (PList xs) n =
     and_then (enter_node l depth n) (\<lambda>m.
     raise_if (length xs > fl_items l) unbounded_json (freeze_items l (depth + 1) xs m))"
| "freeze_json l depth (PDict d) n =
     and_then (enter_node l depth n) (\<lambda>m.
     raise_if (length d > fl_entries l) unbounded_json (freeze_entries l (depth + 1) d m))"
| "freeze_json l depth POther n = and_then (enter_node l depth n) (\<lambda>m. Inl unbounded_json)"
| "freeze_items l depth [] n = Inr n"
| "freeze_items l depth (x # xs) n = and_then (freeze_json l depth x n) (freeze_items l depth xs)"
| "freeze_entries l depth [] n = Inr n"
| "freeze_entries l depth ((k, v) # d) n =
     (case k of
        KOther i \<Rightarrow> Inl unbounded_json
      | KStr s \<Rightarrow>
          and_then (require_visible ''attribute key'' s 128) (\<lambda>_.
          and_then (freeze_json l depth v n) (freeze_entries l depth d)))"
  by pat_completeness auto

termination
  by (relation "measure (\<lambda>x. case x of
      Inl (l, depth, v, n) \<Rightarrow> size v
    | Inr (Inl (l, depth, xs, n)) \<Rightarrow> size_list size xs
    | Inr (Inr (l, depth, d, n)) \<Rightarrow> size_list (size_prod (\<lambda>k. 0) size) d)") auto

text \<open>A frozen mapping with text keys, else the error of the caller.\<close>

definition frozen_object :: "freeze_limits \<Rightarrow> string \<Rightarrow> pyval \<Rightarrow> check" where
  "frozen_object l message v =
     and_then (freeze_json l 0 v 0) (\<lambda>_.
     (case v of PDict d \<Rightarrow> okay | _ \<Rightarrow> Inl (ValueError message)))"

type_synonym text_map = "(string \<times> string) list"

definition freeze_text_mapping :: "string \<Rightarrow> nat \<Rightarrow> text_map \<Rightarrow> check" where
  "freeze_text_mapping name maximum d =
     raise_if (length d > maximum) (ValueError (name @ '' must be a bounded string mapping''))
     (for_each (\<lambda>(k, v). and_then (require_visible (name @ '' key'') k 256) (\<lambda>_.
        require_visible (name @ '' value'') v 512)) d)"

lemma freeze_json_is_json:
  "freeze_json l depth v n = Inr m \<Longrightarrow> is_json_value v"
  "freeze_items l depth xs n = Inr m \<Longrightarrow> \<forall>x\<in>set xs. is_json_value x"
  "freeze_entries l depth d n = Inr m \<Longrightarrow> \<forall>(k, v)\<in>set d. is_kstr k \<and> is_json_value v"
  by (induction l depth v n and l depth xs n and l depth d n arbitrary: m and m and m
      rule: freeze_json_freeze_items_freeze_entries.induct)
    (fastforce split: pykey.splits)+

lemma frozen_object_ok:
  "frozen_object l message v = Inr u \<longleftrightarrow> (\<exists>d. v = PDict d) \<and> (\<exists>n. freeze_json l 0 v 0 = Inr n)"
  by (cases v) (auto simp: frozen_object_def simp del: freeze_json.simps)

subsection \<open>Go's canonical encoding\<close>

definition unicode_escape :: "string \<Rightarrow> string" where
  "unicode_escape hex = backslash # ''u'' @ hex"

text \<open>The line separators \<^verbatim>\<open>U+2028\<close> and \<^verbatim>\<open>U+2029\<close> are not code points of the model's texts.\<close>

definition go_char :: "char \<Rightarrow> string" where
  "go_char c =
     (if c = CHR ''<'' then unicode_escape ''003c''
      else if c = CHR ''>'' then unicode_escape ''003e''
      else if c = CHR ''&'' then unicode_escape ''0026''
      else [c])"

definition go_json_string :: "string \<Rightarrow> string" where
  "go_json_string s = concat (map go_char (json_string s))"

definition remove_suffix :: "string \<Rightarrow> string \<Rightarrow> string" where
  "remove_suffix p s = (if ends_with p s then take (length s - length p) s else s)"

text \<open>\<open>int(raw_exponent)\<close> for a signed decimal.\<close>

definition decimal_value :: "string \<Rightarrow> int" where
  "decimal_value s = foldl (\<lambda>n c. 10 * n + (int (ord_of c) - 48)) 0 s"

definition signed_value :: "string \<Rightarrow> int" where
  "signed_value s =
     (case s of
        [] \<Rightarrow> 0
      | c # cs \<Rightarrow>
          if c = CHR ''-'' then - decimal_value cs
          else if c = CHR ''+'' then decimal_value cs
          else decimal_value s)"

text \<open>
  \<open>format(Decimal(rendered), "f")\<close> for a mantissa with at most one point and an exponent; the
  mantissa of \<open>repr\<close> starts with a digit other than zero.
\<close>

definition fixed_notation :: "string \<Rightarrow> int \<Rightarrow> string" where
  "fixed_notation mantissa e =
     (let negative = starts_with ''-'' mantissa;
          unsigned = (if negative then tl mantissa else mantissa);
          (whole, _, fraction) = partition_at (CHR ''.'') unsigned;
          digits = whole @ fraction;
          scale = e - int (length fraction);
          point = int (length digits) + scale;
          text = (if scale \<ge> 0 then digits @ replicate (nat scale) (CHR ''0'')
                  else if point > 0 then take (nat point) digits @ ''.'' @ drop (nat point) digits
                  else ''0.'' @ replicate (nat (- point)) (CHR ''0'') @ digits) in
      if negative then ''-'' @ text else text)"

definition strip_right :: "char \<Rightarrow> string \<Rightarrow> string" where
  "strip_right c s = rev (dropWhile (\<lambda>x. x = c) (rev s))"

definition go_json_float :: "(rat \<Rightarrow> string) \<Rightarrow> pyfloat \<Rightarrow> (value_error, string) result" where
  "go_json_float frepr x =
     (case x of
        Fin q \<Rightarrow>
          (let rendered = map lower_ascii (frepr q);
               (mantissa, scientific, raw) = partition_at (CHR ''e'') rendered in
           if \<not> scientific then Inr (remove_suffix ''.0'' rendered)
           else
             (let e = signed_value raw in
              if -6 \<le> e \<and> e < 21 then
                (let fixed = fixed_notation mantissa e in
                 Inr (if CHR ''.'' \<in> set fixed then strip_right (CHR ''.'') (strip_right (CHR ''0'') fixed) else fixed))
              else Inr (remove_suffix ''.0'' mantissa @ ''e'' @ (if e \<ge> 0 then ''+'' else ''-'') @ int_str \<bar>e\<bar>)))
      | _ \<Rightarrow> Inl (ValueError ''artifact content must be finite JSON''))"

text \<open>\<open>_go_json\<close>: the entries of an object by the order of their keys.\<close>

primrec go_json :: "(rat \<Rightarrow> string) \<Rightarrow> pyval \<Rightarrow> (value_error, string) result"
  and go_items :: "(rat \<Rightarrow> string) \<Rightarrow> pyval list \<Rightarrow> (value_error, string list) result"
  and go_entries :: "(rat \<Rightarrow> string) \<Rightarrow> (pykey \<times> pyval) list \<Rightarrow> (value_error, (string \<times> string) list) result"
  and go_entry :: "(rat \<Rightarrow> string) \<Rightarrow> pykey \<times> pyval \<Rightarrow> (value_error, string \<times> string) result"
where
  "go_json frepr PNone = Inr ''null''"
| "go_json frepr (PBool b) = Inr (if b then ''true'' else ''false'')"
| "go_json frepr (PInt i) = Inr (int_str i)"
| "go_json frepr (PFloat x) = go_json_float frepr x"
| "go_json frepr (PStr s) = Inr (go_json_string s)"
| "go_json frepr (PList xs) =
     and_then (go_items frepr xs) (\<lambda>items. Inr (''['' @ join '','' items @ '']''))"
| "go_json frepr (PDict d) =
     and_then (go_entries frepr d) (\<lambda>entries.
     Inr (''{'' @ join '','' (map (\<lambda>(k, v). go_json_string k @ '':'' @ v) (sort_key fst entries)) @ ''}''))"
| "go_json frepr POther = Inl (ValueError ''artifact content must be finite JSON'')"
| "go_items frepr [] = Inr []"
| "go_items frepr (x # xs) = and_then (go_json frepr x) (\<lambda>t. and_then (go_items frepr xs) (\<lambda>ts. Inr (t # ts)))"
| "go_entries frepr [] = Inr []"
| "go_entries frepr (e # d) = and_then (go_entry frepr e) (\<lambda>t. and_then (go_entries frepr d) (\<lambda>ts. Inr (t # ts)))"
| "go_entry frepr (Pair k v) =
     (case k of
        KOther i \<Rightarrow> Inl (ValueError ''artifact content must be a JSON object'')
      | KStr s \<Rightarrow> and_then (go_json frepr v) (\<lambda>t. Inr (s, t)))"

definition text_object :: "text_map \<Rightarrow> pyval" where
  "text_object d = obj (map (\<lambda>(k, v). (k, PStr v)) d)"

definition registry_artifact_digest ::
  "(rat \<Rightarrow> string) \<Rightarrow> (string \<Rightarrow> string) \<Rightarrow> string \<Rightarrow> string \<Rightarrow> string \<Rightarrow> string \<Rightarrow> text_map \<Rightarrow> pyval
     \<Rightarrow> (value_error, string) result" where
  "registry_artifact_digest frepr sha kind name namespace tag labels spec =
     and_then (go_json frepr (text_object labels)) (\<lambda>l.
     and_then (go_json frepr spec) (\<lambda>s.
     (let field = (\<lambda>k v. [quote] @ k @ [quote] @ '':'' @ v);
          canonical = ''{'' @ join '','' [field ''kind'' (go_json_string kind), field ''name'' (go_json_string name),
            field ''namespace'' (go_json_string namespace), field ''tag'' (go_json_string tag),
            field ''labels'' l, field ''spec'' s] @ ''}'' in
      Inr (''sha256:'' @ sha canonical))))"

lemma go_float_finite: "is_finite x \<Longrightarrow> \<exists>t. go_json_float frepr x = Inr t"
  by (auto simp: is_finite_iff go_json_float_def Let_def split: prod.split)

lemma go_items_ok: "(\<And>x. x \<in> set xs \<Longrightarrow> \<exists>t. go_json frepr x = Inr t) \<Longrightarrow> \<exists>ts. go_items frepr xs = Inr ts"
  by (induction xs) (fastforce simp del: go_json.simps)+

lemma go_entries_ok:
  "(\<And>k v. (k, v) \<in> set d \<Longrightarrow> is_kstr k \<and> (\<exists>t. go_json frepr v = Inr t)) \<Longrightarrow> \<exists>ts. go_entries frepr d = Inr ts"
proof (induction d)
  case (Cons e d)
  obtain k v where e: "e = (k, v)" by (cases e) auto
  with Cons.prems obtain s t where "k = KStr s" "go_json frepr v = Inr t"
    by (cases k) fastforce+
  with Cons e show ?case by (fastforce simp del: go_json.simps)
qed simp

text \<open>Every JSON value has a canonical encoding.\<close>

lemma go_json_ok: "is_json_value v \<Longrightarrow> \<exists>t. go_json frepr v = Inr t"
proof (induction v)
  case (PList xs)
  then have "\<exists>ts. go_items frepr xs = Inr ts" by (intro go_items_ok) auto
  then show ?case by auto
next
  case (PDict d)
  then have "\<exists>ts. go_entries frepr d = Inr ts" by (intro go_entries_ok) fastforce
  then show ?case by auto
qed (auto intro: go_float_finite)

subsection \<open>Query, requirement and policy\<close>

definition registry_kinds :: "string list" where
  "registry_kinds =
     [''Agent'', ''Blueprint'', ''Dataset'', ''EvalSuite'', ''GatewayResource'', ''MCPServer'', ''Prompt'',
      ''Skill'', ''Tool'', ''Workflow'']"

definition max_search_results :: nat where "max_search_results = 20"

definition adk_name_rx :: rx where
  "adk_name_rx = Rep (Cls (\<lambda>c. is_alnum c \<or> one_of ''_-'' c)) 1 63"

definition capability_rx :: rx where
  "capability_rx = Seq (lit ''cap/'') (Seq (Plus (Cls is_lower_alnum))
     (Star (Seq (lit ''-'') (Plus (Cls is_lower_alnum)))))"

record registry_query =
  rq_intent :: string
  rq_kinds :: "string list"
  rq_namespace :: "string option"
  rq_limit :: int

definition check_registry_query :: "registry_query \<Rightarrow> check" where
  "check_registry_query q =
     and_then (require_visible ''intent'' (rq_intent q) 512) (\<lambda>_.
     raise_if (rq_kinds q = [] \<or> length (rq_kinds q) > length registry_kinds \<or> \<not> distinct (rq_kinds q) \<or>
         \<not> list_all (\<lambda>k. k \<in> set registry_kinds) (rq_kinds q))
       (ValueError ''kinds must be unique supported Registry kinds'')
     (and_then (check_optional (\<lambda>n. require_visible ''namespace'' n 256) (rq_namespace q)) (\<lambda>_.
     raise_if (\<not> (1 \<le> rq_limit q \<and> rq_limit q \<le> 20))
       (ValueError ''limit must be between 1 and 20'') okay)))"

definition require_unique_text_tuple :: "string \<Rightarrow> string list \<Rightarrow> nat \<Rightarrow> nat \<Rightarrow> check" where
  "require_unique_text_tuple name vs items text =
     raise_if (length vs > items \<or> \<not> distinct vs) (ValueError (name @ '' must be a bounded unique tuple''))
     (for_each (\<lambda>v. require_visible name v text) vs)"

definition require_adk_surface_bounds :: "int \<Rightarrow> int \<Rightarrow> check" where
  "require_adk_surface_bounds tools bytes =
     raise_if (\<not> (1 \<le> tools \<and> tools \<le> 128)) (ValueError ''max_tools must match the ADK bound'')
     (raise_if (\<not> (1 \<le> bytes \<and> bytes \<le> 4 * 1024 * 1024)) (ValueError ''max_schema_bytes must match the ADK bound'') okay)"

record tool_requirement =
  qr_name :: string
  qr_input_fingerprint :: "string option"
  qr_output_fingerprint :: "string option"
  qr_compatible_input :: "pyval option"

definition requirement_limits :: freeze_limits where
  "requirement_limits = \<lparr>fl_depth = 32, fl_nodes = 4096, fl_entries = 256, fl_items = 512, fl_text = 4096\<rparr>"

definition check_tool_requirement :: "tool_requirement \<Rightarrow> check" where
  "check_tool_requirement q =
     and_then (require_visible ''tool requirement name'' (qr_name q) 128) (\<lambda>_.
     and_then (for_each (check_optional (\<lambda>f. raise_if (\<not> fullmatch hex64 f)
         (ValueError ''expected fingerprints must be lowercase SHA-256 digests'') okay))
       [qr_input_fingerprint q, qr_output_fingerprint q]) (\<lambda>_.
     raise_if (qr_input_fingerprint q = None \<and> qr_output_fingerprint q = None \<and> qr_compatible_input q = None)
       (ValueError ''tool requirement must pin a fingerprint or schema'')
     (check_optional (frozen_object requirement_limits ''compatible_input_schema must be a JSON object'')
       (qr_compatible_input q))))"

record resolution_policy =
  rp_server_name :: string
  rp_gateway_origin :: string
  rp_protocols :: "string list"
  rp_capabilities :: "string list"
  rp_lifecycles :: "string list"
  rp_allow :: "string list"
  rp_deny :: "string list"
  rp_prefix :: string
  rp_requirements :: "tool_requirement list"
  rp_max_tools :: int
  rp_max_schema_bytes :: int

text \<open>The constructor puts the canonical origin in place of the given one.\<close>

definition make_resolution_policy ::
  "(string \<Rightarrow> bool) \<Rightarrow> resolution_policy \<Rightarrow> (value_error, resolution_policy) result" where
  "make_resolution_policy netloc_ok p =
     raise_if (\<not> fullmatch adk_name_rx (rp_server_name p))
       (ValueError ''server_name must use the portable ADK name grammar'')
     (and_then (canonical_https_origin netloc_ok ''gateway_origin'' (rp_gateway_origin p)) (\<lambda>origin.
      and_then (require_unique_text_tuple ''supported_protocol_versions'' (rp_protocols p) 16 64) (\<lambda>_.
      raise_if (rp_protocols p = []) (ValueError ''supported_protocol_versions must not be empty'')
      (and_then (require_unique_text_tuple ''required_capabilities'' (rp_capabilities p) 32 132) (\<lambda>_.
      raise_if (\<not> list_all (fullmatch capability_rx) (rp_capabilities p))
        (ValueError ''required_capabilities must use the controlled capability grammar'')
      (and_then (require_unique_text_tuple ''allowed_lifecycles'' (rp_lifecycles p) 8 64) (\<lambda>_.
      raise_if (rp_lifecycles p = []) (ValueError ''allowed_lifecycles must not be empty'')
      (and_then (require_unique_text_tuple ''tool_allow'' (rp_allow p) 128 128) (\<lambda>_.
      and_then (require_unique_text_tuple ''tool_deny'' (rp_deny p) 128 128) (\<lambda>_.
      raise_if (filter (\<lambda>a. a \<in> set (rp_deny p)) (rp_allow p) \<noteq> [])
        (ValueError (join '', '' (sort (filter (\<lambda>a. a \<in> set (rp_deny p)) (rp_allow p))) @ '' is both allowed and denied''))
      (raise_if (''*'' \<in> set (rp_deny p)) (ValueError (''tool_deny cannot contain '' @ [CHR 0x27, CHR ''*'', CHR 0x27]))
      (raise_if (rp_prefix p \<noteq> [] \<and> \<not> fullmatch adk_name_rx (rp_prefix p))
        (ValueError ''tool_prefix must use the portable ADK name grammar'')
      (raise_if (\<not> distinct (map qr_name (rp_requirements p)))
        (ValueError ''tool_requirements must not contain duplicate names'')
      (and_then (require_adk_surface_bounds (rp_max_tools p) (rp_max_schema_bytes p)) (\<lambda>_.
      Inr (p\<lparr>rp_gateway_origin := origin\<rparr>))))))))))))))))"

subsection \<open>Search stub and artifact\<close>

record search_stub =
  st_kind :: string
  st_name :: string
  st_namespace :: string
  st_tag :: string
  st_arn :: string
  st_digest :: string
  st_ref :: string
  st_fetch_path :: string
  st_title :: string
  st_description :: string
  st_visibility :: string
  st_labels :: text_map
  st_annotations :: text_map
  st_attributes :: pyval

definition require_identity :: "string \<Rightarrow> string \<Rightarrow> string \<Rightarrow> string \<Rightarrow> string \<Rightarrow> string \<Rightarrow> string \<Rightarrow> check" where
  "require_identity kind name namespace tag arn ref digest =
     raise_if (kind \<notin> set registry_kinds) (ValueError ''kind must be a supported Registry kind'')
     (and_then (for_each (\<lambda>(n, v, m). require_visible n v m)
        [(''name'', name, 512), (''namespace'', namespace, 256), (''tag'', tag, 256), (''arn'', arn, 2048),
         (''ref'', ref, 2048)]) (\<lambda>_.
      raise_if (\<not> fullmatch sha256_ref digest) (ValueError ''digest must be a Registry SHA-256 digest'') okay))"

definition fetch_path_ok :: "string \<Rightarrow> split_url \<Rightarrow> bool" where
  "fetch_path_ok path u \<longleftrightarrow>
     path \<noteq> [] \<and> length path \<le> 2048 \<and> su_scheme u = [] \<and> su_netloc u = [] \<and> su_fragment u = [] \<and>
     starts_with ''/v0/'' (su_path u) \<and> \<not> starts_with ''//'' (su_path u) \<and> backslash \<notin> set path"

definition check_search_stub :: "(string \<Rightarrow> bool) \<Rightarrow> search_stub \<Rightarrow> check" where
  "check_search_stub netloc_ok s =
     and_then (require_identity (st_kind s) (st_name s) (st_namespace s) (st_tag s) (st_arn s) (st_ref s) (st_digest s)) (\<lambda>_.
     and_then (for_each (\<lambda>(n, v, m). if v \<noteq> [] then require_visible n v m else okay)
       [(''title'', st_title s, 512), (''description'', st_description s, 512), (''visibility'', st_visibility s, 64)]) (\<lambda>_.
     (case urlsplit netloc_ok (st_fetch_path s) of
        None \<Rightarrow> Inl (ValueError ''Invalid IPv6 URL'')
      | Some u \<Rightarrow>
          raise_if (\<not> fetch_path_ok (st_fetch_path s) u)
            (ValueError ''fetch_path must be a bounded same-origin Registry v0 path'')
          (and_then (frozen_object attribute_limits ''attributes must be a bounded JSON object'' (st_attributes s)) (\<lambda>_.
           and_then (freeze_text_mapping ''labels'' 50 (st_labels s)) (\<lambda>_.
           freeze_text_mapping ''annotations'' 50 (st_annotations s)))))))"

record registry_artifact =
  rt_api_version :: string
  rt_kind :: string
  rt_name :: string
  rt_namespace :: string
  rt_tag :: string
  rt_arn :: string
  rt_digest :: string
  rt_ref :: string
  rt_labels :: text_map
  rt_spec :: pyval

definition spec_limits :: freeze_limits where
  "spec_limits = \<lparr>fl_depth = 32, fl_nodes = 32768, fl_entries = 1024, fl_items = 1024, fl_text = 16384\<rparr>"

definition check_registry_artifact :: "(rat \<Rightarrow> string) \<Rightarrow> registry_artifact \<Rightarrow> check" where
  "check_registry_artifact frepr a =
     raise_if (rt_api_version a \<noteq> ''registry.agentic.dev/v1alpha1'')
       (ValueError ''api_version must be the supported Registry contract'')
     (and_then (require_identity (rt_kind a) (rt_name a) (rt_namespace a) (rt_tag a) (rt_arn a) (rt_ref a) (rt_digest a)) (\<lambda>_.
      and_then (frozen_object spec_limits ''spec must be a bounded JSON object'' (rt_spec a)) (\<lambda>_.
      and_then (go_json frepr (rt_spec a)) (\<lambda>text.
      raise_if (utf8_length text > 524288) (ValueError ''spec must be at most 512 KiB'')
        (freeze_text_mapping ''labels'' 256 (rt_labels a))))))"

definition computed_digest ::
  "(rat \<Rightarrow> string) \<Rightarrow> (string \<Rightarrow> string) \<Rightarrow> registry_artifact \<Rightarrow> (value_error, string) result" where
  "computed_digest frepr sha a =
     registry_artifact_digest frepr sha (rt_kind a) (rt_name a) (rt_namespace a) (rt_tag a) (rt_labels a) (rt_spec a)"

lemma text_object_json: "is_json_value (text_object d)"
  by (auto simp: text_object_def obj_def)

text \<open>A checked artifact always has a content digest.\<close>

lemma computed_digest_ok:
  assumes "check_registry_artifact frepr a = okay"
  shows "\<exists>d. computed_digest frepr sha a = Inr d"
proof -
  from assms obtain n where "freeze_json spec_limits 0 (rt_spec a) 0 = Inr n"
    by (auto simp: check_registry_artifact_def frozen_object_ok)
  from go_json_ok [OF freeze_json_is_json(1) [OF this]] obtain t where "go_json frepr (rt_spec a) = Inr t" ..
  moreover obtain l where "go_json frepr (text_object (rt_labels a)) = Inr l"
    using go_json_ok [OF text_object_json] by blast
  ultimately show ?thesis by (simp add: computed_digest_def registry_artifact_digest_def)
qed

end
