(* ===== verification/Publisher.thy ===== *)
theory Publisher
  imports Activation Redaction Registry_Artifact
begin

section \<open>Publication values and the delegated commands\<close>

text \<open>
  Models \<^verbatim>\<open>tesserix_mcp_publisher/models.py\<close> and \<^verbatim>\<open>commands.py\<close>: the values of a publication with the
  checks of their constructors, and the bounded child process that runs the command lines of the
  Registries. Output of a process is its bytes, one \<open>char\<close> for each. How a process ends is an
  environment.
\<close>

subsection \<open>Failures\<close>

datatype pub_exn =
    Pub_error publication_error
  | Pub_cancelled
  | Pub_type_error
  | Pub_value_error
  | Pub_os_error
  | Pub_other

type_synonym 'a attempt = "(pub_exn, 'a) result"

definition pub_fail :: "publication_code \<Rightarrow> string \<Rightarrow> 'a attempt" where
  "pub_fail code rid = Inl (Pub_error (publication_error_of code rid False))"

definition model_fail :: "publication_code \<Rightarrow> 'a attempt" where
  "model_fail code = pub_fail code ''publication-validation''"

definition unknown_outcome :: "string \<Rightarrow> pub_exn" where
  "unknown_outcome rid = Pub_error (publication_error_of Code_UNKNOWN_OUTCOME rid False)"

lemma pub_fail_not_Inr [simp]: "pub_fail code rid \<noteq> Inr a" "model_fail code \<noteq> Inr a"
  by (simp_all add: pub_fail_def model_fail_def)

subsection \<open>Values of a publication\<close>

definition media_type_rx :: rx where
  "media_type_rx = Seq (Cls is_alnum) (Rep (Cls (\<lambda>c. is_alnum c \<or> one_of ''!#$&^_.+-/'' c)) 0 126)"

definition safe_ref_rx :: rx where
  "safe_ref_rx = Seq (Cls is_alnum) (Rep (Cls (\<lambda>c. is_alnum c \<or> one_of ''._:/@+-'' c)) 0 2047)"

record evidence_reference =
  er_uri :: string
  er_digest :: string
  er_media_type :: string

text \<open>An address \<open>urlsplit\<close> refuses raises its own \<^verbatim>\<open>ValueError\<close>.\<close>

definition check_evidence_reference :: "(string \<Rightarrow> bool) \<Rightarrow> evidence_reference \<Rightarrow> unit attempt" where
  "check_evidence_reference netloc_ok e =
     (case urlsplit netloc_ok (er_uri e) of
        None \<Rightarrow> Inl Pub_value_error
      | Some u \<Rightarrow>
          if length (er_uri e) > 2048 \<or> su_scheme u \<notin> {''https'', ''oci''} \<or> su_netloc u = [] \<or> has_userinfo u \<or>
             su_query u \<noteq> [] \<or> su_fragment u \<noteq> [] \<or> backslash \<in> set (er_uri e) \<or>
             \<not> fullmatch sha256_ref (er_digest e) \<or> \<not> fullmatch media_type_rx (er_media_type e)
          then model_fail Code_MANIFEST_INVALID else Inr ())"

definition reference_to_document :: "evidence_reference \<Rightarrow> pyval" where
  "reference_to_document e = obj
     [(''digest'', PStr (er_digest e)), (''mediaType'', PStr (er_media_type e)), (''uri'', PStr (er_uri e))]"

record publication_evidence =
  ev_artifact :: evidence_reference
  ev_sbom :: evidence_reference
  ev_provenance :: evidence_reference

definition evidence_to_document :: "publication_evidence \<Rightarrow> pyval" where
  "evidence_to_document e = obj
     [(''artifact'', reference_to_document (ev_artifact e)),
      (''provenance'', reference_to_document (ev_provenance e)),
      (''sbom'', reference_to_document (ev_sbom e))]"

record prepared_publication =
  pr_name :: string
  pr_namespace :: string
  pr_version :: string
  pr_ref :: string
  pr_server_json :: string
  pr_registry_manifest :: string
  pr_registry_digest :: string
  pr_evidence :: publication_evidence

definition check_prepared :: "prepared_publication \<Rightarrow> unit attempt" where
  "check_prepared p =
     (if pr_name p = [] \<or> pr_namespace p = [] \<or> pr_version p = [] \<or> length (pr_ref p) > 2048 \<or>
         \<not> starts_with ''mcpservers/'' (pr_ref p) \<or> length (pr_server_json p) > 512 * 1024 \<or>
         length (pr_registry_manifest p) > 1024 * 1024 \<or> \<not> fullmatch sha256_ref (pr_registry_digest p)
      then model_fail Code_MANIFEST_INVALID else Inr ())"

datatype pub_status = Outcome_DRY_RUN | Outcome_PARTIAL | Outcome_VERIFIED

datatype official_status = Official_FAILED | Official_NOT_REQUESTED | Official_PUBLISHED | Official_VALIDATED

fun pub_status_value :: "pub_status \<Rightarrow> string" where
  "pub_status_value Outcome_DRY_RUN = ''dry_run''"
| "pub_status_value Outcome_PARTIAL = ''partial''"
| "pub_status_value Outcome_VERIFIED = ''verified''"

fun official_status_value :: "official_status \<Rightarrow> string" where
  "official_status_value Official_FAILED = ''failed''"
| "official_status_value Official_NOT_REQUESTED = ''not_requested''"
| "official_status_value Official_PUBLISHED = ''published''"
| "official_status_value Official_VALIDATED = ''validated''"

record publish_receipt =
  re_created :: bool

record published_artifact =
  pa_name :: string
  pa_namespace :: string
  pa_version :: string
  pa_ref :: string
  pa_digest :: string
  pa_signature :: string
  pa_signed_by :: string

definition artifact_ok :: "published_artifact \<Rightarrow> bool" where
  "artifact_ok a \<longleftrightarrow>
     pa_name a \<noteq> [] \<and> pa_namespace a \<noteq> [] \<and> pa_version a \<noteq> [] \<and> fullmatch safe_ref_rx (pa_ref a) \<and>
     fullmatch sha256_ref (pa_digest a) \<and> 1 \<le> length (pa_signature a) \<and> length (pa_signature a) \<le> 512 \<and>
     1 \<le> length (pa_signed_by a) \<and> length (pa_signed_by a) \<le> 256 \<and> list_all printable (pa_signed_by a)"

definition make_artifact :: "published_artifact \<Rightarrow> published_artifact attempt" where
  "make_artifact a = (if artifact_ok a then Inr a else model_fail Code_COMMAND_OUTPUT_INVALID)"

record publication_outcome =
  oc_status :: pub_status
  oc_official :: official_status
  oc_request_id :: string
  oc_idempotency_key :: string
  oc_ref :: string
  oc_digest :: string
  oc_artifact_digest :: string
  oc_version :: string
  oc_created :: "bool option"
  oc_artifact :: "published_artifact option"

definition outcome_ok :: "publication_outcome \<Rightarrow> bool" where
  "outcome_ok r \<longleftrightarrow>
     oc_request_id r \<noteq> [] \<and> oc_idempotency_key r \<noteq> [] \<and> fullmatch safe_ref_rx (oc_ref r) \<and>
     fullmatch sha256_ref (oc_digest r) \<and> fullmatch sha256_ref (oc_artifact_digest r)"

definition make_outcome :: "publication_outcome \<Rightarrow> publication_outcome attempt" where
  "make_outcome r = (if outcome_ok r then Inr r else model_fail Code_COMMAND_OUTPUT_INVALID)"

definition outcome_to_dict :: "publication_outcome \<Rightarrow> pyval" where
  "outcome_to_dict r = obj
     [(''artifact_digest'', PStr (oc_artifact_digest r)),
      (''created'', (case oc_created r of None \<Rightarrow> PNone | Some b \<Rightarrow> PBool b)),
      (''digest'', PStr (oc_digest r)),
      (''idempotency_key'', PStr (oc_idempotency_key r)),
      (''official_status'', PStr (official_status_value (oc_official r))),
      (''ref'', PStr (oc_ref r)),
      (''request_id'', PStr (oc_request_id r)),
      (''signed_by'', of_opt_str (map_option pa_signed_by (oc_artifact r))),
      (''status'', PStr (pub_status_value (oc_status r))),
      (''version'', PStr (oc_version r))]"

subsection \<open>Bounded commands\<close>

definition command_request_id_rx :: rx where
  "command_request_id_rx = Seq (Cls is_alnum) (Rep (Cls (\<lambda>c. is_alnum c \<or> one_of ''._:-'' c)) 0 127)"

record command_limits =
  cl_timeout :: pyfloat
  cl_arguments :: int
  cl_argument_bytes :: int
  cl_stdout :: int
  cl_stderr :: int

definition default_command_limits :: command_limits where
  "default_command_limits =
     \<lparr>cl_timeout = Fin 30, cl_arguments = 16, cl_argument_bytes = 4096, cl_stdout = 512 * 1024, cl_stderr = 64 * 1024\<rparr>"

definition between :: "int \<Rightarrow> int \<Rightarrow> int \<Rightarrow> bool" where
  "between low high i \<longleftrightarrow> low \<le> i \<and> i \<le> high"

definition command_limits_ok :: "command_limits \<Rightarrow> bool" where
  "command_limits_ok l \<longleftrightarrow>
     Fin (1 / 100) \<le> cl_timeout l \<and> cl_timeout l \<le> Fin 120 \<and> between 1 32 (cl_arguments l) \<and>
     between 1 8192 (cl_argument_bytes l) \<and> between 1 (1024 * 1024) (cl_stdout l) \<and> between 1 (256 * 1024) (cl_stderr l)"

record command_result =
  cr_exit_code :: int
  cr_stdout :: string
  cr_stderr :: string

definition make_command_result :: "int \<Rightarrow> string \<Rightarrow> string \<Rightarrow> command_result attempt" where
  "make_command_result code out err =
     (if between 0 255 code then Inr \<lparr>cr_exit_code = code, cr_stdout = out, cr_stderr = err\<rparr> else Inl Pub_value_error)"

text \<open>
  \<open>_read_bounded\<close>: each \<open>read\<close> gives at least one byte while any is left, at most what was asked
  for, and otherwise what \<open>arrived\<close> so far, which is up to the child. \<open>None\<close> is \<open>_OutputLimitError\<close>.
\<close>

definition read_size :: "(nat \<Rightarrow> nat) \<Rightarrow> nat \<Rightarrow> nat \<Rightarrow> nat" where
  "read_size arrived maximum n = max 1 (min (arrived n) (min 65536 (maximum + 1 - n)))"

lemma read_size_pos: "0 < read_size arrived maximum n"
  by (simp add: read_size_def)

function read_bounded :: "(nat \<Rightarrow> nat) \<Rightarrow> nat \<Rightarrow> string \<Rightarrow> string \<Rightarrow> string option" where
  "read_bounded arrived maximum left out =
     (if left = [] then Some out
      else
        (let n = read_size arrived maximum (length out);
             out' = out @ take n left in
         if length out' > maximum then None else read_bounded arrived maximum (drop n left) out'))"
  by pat_completeness auto

termination
  by (relation "measure (\<lambda>(arrived, maximum, left, out). length left)") (simp_all add: read_size_pos Let_def)

declare read_bounded.simps [simp del]

text \<open>Whatever arrives when, the output is read to its end or refused for its length alone.\<close>

lemma read_bounded_Nil [simp]: "read_bounded arrived maximum [] out = Some out"
  by (subst read_bounded.simps) simp

lemma read_bounded_step:
  "left \<noteq> [] \<Longrightarrow> read_bounded arrived maximum left out =
     (let n = read_size arrived maximum (length out) in
      if length (out @ take n left) > maximum then None
      else read_bounded arrived maximum (drop n left) (out @ take n left))"
  by (subst read_bounded.simps) (simp add: Let_def)

lemma read_bounded_exact:
  "length out \<le> maximum \<Longrightarrow>
     read_bounded arrived maximum left out = (if length (out @ left) \<le> maximum then Some (out @ left) else None)"
proof (induction arrived maximum left out rule: read_bounded.induct)
  case (1 arrived maximum left out)
  define n where "n = read_size arrived maximum (length out)"
  show ?case
  proof (cases "left = []")
    case left: False
    show ?thesis
    proof (cases "length (out @ take n left) > maximum")
      case True
      then have "\<not> length (out @ left) \<le> maximum" by auto
      with True show ?thesis by (simp add: read_bounded_step [OF left] n_def [symmetric] Let_def)
    next
      case False
      then have "read_bounded arrived maximum left out = read_bounded arrived maximum (drop n left) (out @ take n left)"
        by (simp add: read_bounded_step [OF left] n_def [symmetric] Let_def)
      also have "\<dots> = (if length ((out @ take n left) @ drop n left) \<le> maximum
          then Some ((out @ take n left) @ drop n left) else None)"
        using False by (intro "1.IH" [OF left n_def refl]) simp_all
      finally show ?thesis by (simp only: append_assoc append_take_drop_id)
    qed
  qed (use "1.prems" in simp)
qed

text \<open>How a child process ends, as the environment decides it.\<close>

datatype process =
    Spawn_failed
  | Process_cancelled
  | Process_timed_out
  | Process_ended int string string

definition argument_unsafe :: "secret_redactor \<Rightarrow> command_limits \<Rightarrow> string \<Rightarrow> bool" where
  "argument_unsafe r l s \<longleftrightarrow>
     s = [] \<or> int (utf8_length s) > cl_argument_bytes l \<or> list_ex (\<lambda>c. ord_of c \<in> {0, 10, 13}) s"

text \<open>An exception of the redactor passes through \<open>run\<close>.\<close>

fun check_arguments :: "secret_redactor \<Rightarrow> command_limits \<Rightarrow> string \<Rightarrow> string list \<Rightarrow> unit attempt" where
  "check_arguments r l rid [] = Inr ()"
| "check_arguments r l rid (a # as) =
     (if argument_unsafe r l a then pub_fail Code_SECRET_MATERIAL rid
      else
        (case redact_text r a of
           Inl e \<Rightarrow> Inl Pub_other
         | Inr t \<Rightarrow> if t \<noteq> a then pub_fail Code_SECRET_MATERIAL rid else check_arguments r l rid as))"

definition run_command ::
  "secret_redactor \<Rightarrow> command_limits \<Rightarrow> (string list \<Rightarrow> process) \<Rightarrow> (nat \<Rightarrow> nat) \<Rightarrow> string list \<Rightarrow> string
     \<Rightarrow> command_result attempt" where
  "run_command r l spawn arrived arguments rid =
     (if arguments = [] \<or> int (length arguments) > cl_arguments l \<or> \<not> fullmatch command_request_id_rx rid
      then pub_fail Code_COMMAND_FAILED ''publication-command''
      else
        and_then (check_arguments r l rid arguments) (\<lambda>_.
        (case spawn arguments of
           Spawn_failed \<Rightarrow> pub_fail Code_UNAVAILABLE rid
         | Process_cancelled \<Rightarrow> Inl Pub_cancelled
         | Process_timed_out \<Rightarrow> Inl (Pub_error (publication_error_of Code_UNAVAILABLE rid True))
         | Process_ended code out err \<Rightarrow>
             (case (read_bounded arrived (nat (cl_stdout l)) out [], read_bounded arrived (nat (cl_stderr l)) err []) of
                (Some o', Some e') \<Rightarrow> make_command_result code o' e'
              | _ \<Rightarrow> pub_fail Code_COMMAND_OUTPUT_INVALID rid))))"

end
