(* ===== verification/Json_Codec.thy ===== *)
theory Json_Codec
  imports Canonical_Json
begin

section \<open>Decoded texts and the hooks of the JSON parser\<close>

text \<open>
  The functions of libraries that read a text: a codec holds the decoding of UTF-8, the JSON parser,
  the printing of a float and SHA-256. The parser gives the syntax tree, to which the model applies
  the hooks of the code: \<open>_unique_object\<close> of \<^verbatim>\<open>tesserix_mcp_publisher/delegates.py\<close> here.
\<close>

text \<open>
  The syntax tree of a JSON text as the parser hands it to its hooks: an object with its pairs in
  order, \<open>Raw_constant\<close> for \<^verbatim>\<open>NaN\<close> and the infinities, \<open>Raw_broken\<close> where the text is no JSON.
\<close>

datatype raw_json =
    Raw_leaf pyval
  | Raw_constant
  | Raw_broken
  | Raw_list "raw_json list"
  | Raw_object "(string \<times> raw_json) list"

fun unique_object :: "document \<Rightarrow> (string \<times> pyval) list \<Rightarrow> document option" where
  "unique_object result [] = Some result"
| "unique_object result ((k, v) # pairs) =
     (if KStr k \<in> fst ` set result then None else unique_object (result @ [(KStr k, v)]) pairs)"

text \<open>Both hooks raise an exception the caller maps to the same error, so \<open>None\<close> stands for either.\<close>

fun apply_hooks :: "raw_json \<Rightarrow> pyval option"
  and apply_items :: "raw_json list \<Rightarrow> pyval list option"
  and apply_pairs :: "(string \<times> raw_json) list \<Rightarrow> (string \<times> pyval) list option"
where
  "apply_hooks (Raw_leaf v) = Some v"
| "apply_hooks Raw_constant = None"
| "apply_hooks Raw_broken = None"
| "apply_hooks (Raw_list xs) = map_option PList (apply_items xs)"
| "apply_hooks (Raw_object kvs) =
     Option.bind (apply_pairs kvs) (\<lambda>pairs. map_option PDict (unique_object [] pairs))"
| "apply_items [] = Some []"
| "apply_items (x # xs) =
     Option.bind (apply_hooks x) (\<lambda>v. map_option ((#) v) (apply_items xs))"
| "apply_pairs [] = Some []"
| "apply_pairs ((k, x) # kvs) =
     Option.bind (apply_hooks x) (\<lambda>v. map_option ((#) (k, v)) (apply_pairs kvs))"

record codec =
  cd_decode :: "string \<Rightarrow> string option"
  cd_parse :: "string \<Rightarrow> raw_json option"
  cd_frepr :: "rat \<Rightarrow> string"
  cd_sha :: "string \<Rightarrow> string"

end
