(* ===== verification/Delegates.thy ===== *)
theory Delegates
  imports Publisher Json_Codec
begin

section \<open>The publishers that delegate to command lines\<close>

text \<open>
  Models \<^verbatim>\<open>tesserix_mcp_publisher/delegates.py\<close>: how the output of a delegated command is bounded,
  checked for secrets, classified and decoded by the codec of \<open>Json_Codec\<close>, and the operations of the
  two publishers. The result of a command is what the runner of \<open>Publisher\<close> returns for its arguments.
\<close>

subsection \<open>Decoded output\<close>

fun mapping_of :: "pyval \<Rightarrow> document option" where
  "mapping_of (PDict d) = (if list_all (\<lambda>kv. is_kstr (fst kv)) d then Some d else None)"
| "mapping_of v = None"

fun mapping :: "pyval \<Rightarrow> document attempt" where
  "mapping v = (case mapping_of v of None \<Rightarrow> Inl Pub_value_error | Some d \<Rightarrow> Inr d)"

definition text_at :: "document \<Rightarrow> string \<Rightarrow> string attempt" where
  "text_at d k = (case get_none k d of PStr s \<Rightarrow> Inr s | _ \<Rightarrow> Inl Pub_value_error)"

fun string_entry :: "pykey \<times> pyval \<Rightarrow> (pub_exn, string \<times> string) result" where
  "string_entry (KStr k, PStr s) = Inr (k, s)"
| "string_entry _ = Inl Pub_value_error"

definition string_mapping :: "pyval \<Rightarrow> text_map attempt" where
  "string_mapping v = and_then (mapping v) (map_result string_entry)"

text \<open>\<open>x == 1\<close> for a decoded value.\<close>

definition equals_one :: "pyval \<Rightarrow> bool" where
  "equals_one v \<longleftrightarrow> v \<in> {PInt 1, PBool True, PFloat (Fin 1)}"

text \<open>\<^verbatim>\<open>except (TypeError, ValueError): raise PublicationError(COMMAND_OUTPUT_INVALID)\<close>.\<close>

fun output_guard :: "string \<Rightarrow> 'a attempt \<Rightarrow> 'a attempt" where
  "output_guard rid (Inl Pub_type_error) = pub_fail Code_COMMAND_OUTPUT_INVALID rid"
| "output_guard rid (Inl Pub_value_error) = pub_fail Code_COMMAND_OUTPUT_INVALID rid"
| "output_guard rid r = r"

subsection \<open>Checked output\<close>

record delegate =
  dg_run :: "string list \<Rightarrow> string \<Rightarrow> command_result attempt"
  dg_private :: "string \<Rightarrow> string \<Rightarrow> string attempt"
  dg_redactor :: secret_redactor
  dg_limits :: command_limits
  dg_codec :: codec
  dg_executable :: string

definition check_agentic_executable :: "string \<Rightarrow> check" where
  "check_agentic_executable s =
     raise_if (s = [] \<or> length s > 1024 \<or> list_ex (\<lambda>c. ord_of c \<in> {0, 10, 13}) s)
       (ValueError ''agentic executable must be a bounded path'') okay"

definition check_official_executable :: "string \<Rightarrow> check" where
  "check_official_executable s =
     raise_if (s = []) (ValueError ''official publisher executable must be a path'') okay"

text \<open>\<open>str.lower\<close> on the code points 0 to 255.\<close>

definition lower_latin :: "char \<Rightarrow> char" where
  "lower_latin c =
     (if 192 \<le> ord_of c \<and> ord_of c \<le> 222 \<and> ord_of c \<noteq> 215 then char_of (ord_of c + 32) else lower_ascii c)"

definition newline :: char where "newline = CHR 0x0A"

definition unavailable_markers :: "string list" where
  "unavailable_markers = [''429'', ''502'', ''503'', ''connection'', ''timeout'', ''unavailable'']"

definition classify_failure :: "string \<Rightarrow> publication_code \<times> bool" where
  "classify_failure safe =
     (if occurs ''409'' safe \<or> occurs ''conflict'' safe then (Code_CONFLICT, False)
      else if list_ex (\<lambda>m. occurs m safe) unavailable_markers then (Code_UNAVAILABLE, True)
      else (Code_COMMAND_FAILED, False))"

text \<open>A text the redactor changes, or fails on, counts as protected material.\<close>

definition clean_text :: "secret_redactor \<Rightarrow> string \<Rightarrow> bool" where
  "clean_text r s \<longleftrightarrow> redact_text r s = Inr s"

definition checked :: "delegate \<Rightarrow> string \<Rightarrow> command_result \<Rightarrow> string attempt" where
  "checked dg rid r =
     (if int (length (cr_stdout r)) > cl_stdout (dg_limits dg) \<or> int (length (cr_stderr r)) > cl_stderr (dg_limits dg)
      then pub_fail Code_COMMAND_OUTPUT_INVALID rid
      else
        (case (cd_decode (dg_codec dg) (cr_stdout r), cd_decode (dg_codec dg) (cr_stderr r)) of
           (Some out, Some err) \<Rightarrow>
             if \<not> (clean_text (dg_redactor dg) out \<and> clean_text (dg_redactor dg) err) then pub_fail Code_SECRET_MATERIAL rid
             else if cr_exit_code r \<noteq> 0 then
               (let (code, retry) = classify_failure (map lower_latin (out @ [newline] @ err)) in
                Inl (Pub_error (publication_error_of code rid retry)))
             else Inr (cr_stdout r)
         | _ \<Rightarrow> pub_fail Code_COMMAND_OUTPUT_INVALID rid))"

definition output_document :: "delegate \<Rightarrow> string \<Rightarrow> command_result \<Rightarrow> document attempt" where
  "output_document dg rid r =
     and_then (checked dg rid r) (\<lambda>raw.
     (case Option.bind (Option.bind (cd_parse (dg_codec dg) raw) apply_hooks) mapping_of of
        None \<Rightarrow> pub_fail Code_COMMAND_OUTPUT_INVALID rid
      | Some d \<Rightarrow> Inr d))"

subsection \<open>The Agentic Registry\<close>

definition manifest_file :: string where "manifest_file = ''mcpserver.json''"

definition remote_validate :: "delegate \<Rightarrow> prepared_publication \<Rightarrow> string \<Rightarrow> string \<Rightarrow> unit attempt" where
  "remote_validate dg p key rid =
     and_then (dg_run dg [dg_executable dg, ''status''] rid) (\<lambda>status.
     and_then (checked dg rid status) (\<lambda>_.
     and_then (dg_private dg manifest_file (pr_registry_manifest p)) (\<lambda>path.
     and_then (dg_run dg [dg_executable dg, ''apply'', ''-f'', path, ''--dry-run'', ''--idempotency-key'', key] rid) (\<lambda>r.
     and_then (output_document dg rid r) (\<lambda>d.
     if get_none ''dry_run'' d \<noteq> PBool True \<or> \<not> equals_one (get_none ''count'' d)
     then pub_fail Code_COMMAND_OUTPUT_INVALID rid else Inr ())))))"

definition applied_item :: "prepared_publication \<Rightarrow> pyval \<Rightarrow> publish_receipt attempt" where
  "applied_item p v =
     and_then (mapping v) (\<lambda>d.
     and_then (text_at d ''kind'') (\<lambda>kind.
     raise_if (kind \<noteq> ''MCPServer'') Pub_value_error
     (and_then (text_at d ''name'') (\<lambda>name.
     raise_if (name \<noteq> pr_name p) Pub_value_error
     (and_then (text_at d ''namespace'') (\<lambda>namespace.
     raise_if (namespace \<noteq> pr_namespace p) Pub_value_error
     (and_then (text_at d ''tag'') (\<lambda>tag.
     raise_if (tag \<noteq> pr_version p) Pub_value_error
     (case get_none ''created'' d of
        PBool b \<Rightarrow> Inr \<lparr>re_created = b\<rparr>
      | _ \<Rightarrow> Inl Pub_value_error)))))))))"

definition agentic_publish :: "delegate \<Rightarrow> prepared_publication \<Rightarrow> string \<Rightarrow> string \<Rightarrow> publish_receipt attempt" where
  "agentic_publish dg p key rid =
     and_then (dg_private dg manifest_file (pr_registry_manifest p)) (\<lambda>path.
     and_then (dg_run dg [dg_executable dg, ''apply'', ''-f'', path, ''--idempotency-key'', key] rid) (\<lambda>r.
     and_then (output_document dg rid r) (\<lambda>d.
     (case (equals_one (get_none ''count'' d), get_none ''applied'' d) of
        (True, PList [item]) \<Rightarrow> output_guard rid (applied_item p item)
      | _ \<Rightarrow> pub_fail Code_COMMAND_OUTPUT_INVALID rid))))"

definition pull :: "delegate \<Rightarrow> string \<Rightarrow> string \<Rightarrow> string \<Rightarrow> document attempt" where
  "pull dg name version rid =
     and_then (dg_run dg [dg_executable dg, ''pull'', ''mcpservers'', name, ''--tag'', version] rid) (output_document dg rid)"

text \<open>\<open>_artifact\<close>: the object is accepted only under the digest its content has.\<close>

definition content_digest :: "codec \<Rightarrow> document \<Rightarrow> document \<Rightarrow> document \<Rightarrow> string attempt" where
  "content_digest cd d metadata spec =
     and_then (string_mapping (get_none ''labels'' metadata)) (\<lambda>labels.
     and_then (text_at d ''kind'') (\<lambda>kind.
     and_then (text_at metadata ''name'') (\<lambda>name.
     and_then (text_at metadata ''namespace'') (\<lambda>namespace.
     and_then (text_at metadata ''tag'') (\<lambda>tag.
     (case registry_artifact_digest (cd_frepr cd) (cd_sha cd) kind name namespace tag labels (PDict spec) of
        Inl e \<Rightarrow> Inl Pub_value_error
      | Inr digest \<Rightarrow> Inr digest))))))"

definition artifact_of :: "codec \<Rightarrow> document \<Rightarrow> published_artifact attempt" where
  "artifact_of cd d =
     and_then (mapping (get_none ''metadata'' d)) (\<lambda>metadata.
     and_then (mapping (get_none ''spec'' d)) (\<lambda>spec.
     and_then (text_at metadata ''digest'') (\<lambda>digest.
     and_then (content_digest cd d metadata spec) (\<lambda>computed.
     raise_if (digest \<noteq> computed) Pub_value_error
     (and_then (text_at metadata ''name'') (\<lambda>name.
      and_then (text_at metadata ''namespace'') (\<lambda>namespace.
      and_then (text_at metadata ''tag'') (\<lambda>tag.
      and_then (text_at metadata ''ref'') (\<lambda>ref.
      and_then (text_at metadata ''signature'') (\<lambda>signature.
      and_then (text_at metadata ''signedBy'') (\<lambda>signed_by.
      make_artifact \<lparr>pa_name = name, pa_namespace = namespace, pa_version = tag, pa_ref = ref, pa_digest = digest,
        pa_signature = signature, pa_signed_by = signed_by\<rparr>)))))))))))"

definition agentic_fetch :: "delegate \<Rightarrow> prepared_publication \<Rightarrow> string \<Rightarrow> published_artifact attempt" where
  "agentic_fetch dg p rid =
     and_then (pull dg (pr_name p) (pr_version p) rid) (\<lambda>d. output_guard rid (artifact_of (dg_codec dg) d))"

definition agentic_verify :: "delegate \<Rightarrow> published_artifact \<Rightarrow> string \<Rightarrow> unit attempt" where
  "agentic_verify dg a rid =
     and_then (dg_run dg [dg_executable dg, ''verify'', ''mcpservers'', pa_name a, ''--tag'', pa_version a] rid) (\<lambda>r.
     and_then (checked dg rid r) (\<lambda>_. Inr ()))"

text \<open>\<open>fetch_activation\<close>: the pulled object must be the target before its status is read.\<close>

definition superseded_exn :: "string \<Rightarrow> pub_exn" where
  "superseded_exn rid = Pub_error (publication_error_of Code_ACTIVATION_SUPERSEDED rid False)"

fun contract_guard :: "string \<Rightarrow> 'a attempt \<Rightarrow> 'a attempt" where
  "contract_guard rid (Inl Pub_type_error) = Inl (Pub_error (contract_error rid))"
| "contract_guard rid (Inl Pub_value_error) = Inl (Pub_error (contract_error rid))"
| "contract_guard rid r = r"

definition is_target :: "activation_target \<Rightarrow> published_artifact \<Rightarrow> bool" where
  "is_target t a \<longleftrightarrow>
     pa_name a = target_name t \<and> pa_namespace a = target_namespace t \<and> pa_version a = target_version t \<and>
     pa_ref a = at_ref t \<and> pa_digest a = at_registry_digest t"

definition activation_in :: "activation_target \<Rightarrow> string \<Rightarrow> document \<Rightarrow> activation_status attempt" where
  "activation_in t rid d =
     and_then (mapping (get_none ''spec'' d)) (\<lambda>spec.
     and_then (mapping (get_none ''status'' d)) (\<lambda>status.
     and_then (mapping (get_none ''x-tesserix'' spec)) (\<lambda>extension.
     and_then (mapping (get_none ''publication'' extension)) (\<lambda>publication.
     and_then (mapping (get_none ''artifact'' publication)) (\<lambda>artifact.
     and_then (text_at artifact ''digest'') (\<lambda>digest.
     raise_if (digest \<noteq> at_artifact_digest t) (superseded_exn rid)
     (case status_from_document rid (get_none ''activation'' status) of
        Inl e \<Rightarrow> Inl (Pub_error e)
      | Inr s \<Rightarrow> Inr s)))))))"

definition fetch_activation :: "delegate \<Rightarrow> activation_target \<Rightarrow> string \<Rightarrow> activation_status attempt" where
  "fetch_activation dg t rid =
     and_then (pull dg (target_name t) (target_version t) rid) (\<lambda>d.
     and_then (output_guard rid (artifact_of (dg_codec dg) d)) (\<lambda>a.
     raise_if (\<not> is_target t a) (superseded_exn rid)
     (and_then (contract_guard rid (activation_in t rid d)) (\<lambda>s.
      raise_if (ac_ref s \<noteq> at_ref t \<or> ac_registry_digest s \<noteq> at_registry_digest t \<or>
          ac_artifact_digest s \<noteq> at_artifact_digest t \<or>
          (case at_generation t of None \<Rightarrow> False | Some g \<Rightarrow> ac_generation s \<noteq> g))
        (superseded_exn rid) (Inr s)))))"

subsection \<open>The official Registry\<close>

definition server_file :: string where "server_file = ''server.json''"

definition official_validate :: "delegate \<Rightarrow> prepared_publication \<Rightarrow> string \<Rightarrow> unit attempt" where
  "official_validate dg p rid =
     and_then (dg_private dg server_file (pr_server_json p)) (\<lambda>path.
     and_then (dg_run dg [dg_executable dg, ''validate'', path] rid) (\<lambda>r.
     and_then (checked dg rid r) (\<lambda>_. Inr ())))"

definition official_publish :: "delegate \<Rightarrow> prepared_publication \<Rightarrow> string \<Rightarrow> unit attempt" where
  "official_publish dg p rid =
     and_then (dg_private dg server_file (pr_server_json p)) (\<lambda>path.
     and_then (dg_run dg [dg_executable dg, ''publish'', path] rid) (\<lambda>r.
     (case checked dg rid r of
        Inl e \<Rightarrow> pub_fail Code_OFFICIAL_PUBLICATION_FAILED rid
      | Inr raw \<Rightarrow> Inr ())))"

subsection \<open>What the publishers promise\<close>

lemma checked_exit: "checked dg rid r = Inr raw \<Longrightarrow> cr_exit_code r = 0 \<and> raw = cr_stdout r"
  by (auto simp: checked_def pub_fail_def Let_def split: if_splits option.splits prod.splits)

text \<open>A refused output is reported as a publication error of the request.\<close>

lemma checked_fails:
  "checked dg rid r = Inl e \<Longrightarrow> \<exists>code retry. e = Pub_error (publication_error_of code rid retry)"
  by (auto simp: checked_def pub_fail_def Let_def split: if_splits option.splits prod.splits)

text \<open>No checked output carries a text the redactor would change.\<close>

lemma checked_clean:
  assumes "checked dg rid r = Inr raw"
  shows "\<exists>out. cd_decode (dg_codec dg) raw = Some out \<and> redact_text (dg_redactor dg) out = Inr out"
  using assms checked_exit [OF assms]
  by (auto simp: checked_def clean_text_def Let_def split: if_splits option.splits prod.splits)

lemma applied_item_matches:
  assumes "applied_item p v = Inr receipt"
  shows "\<exists>d. v = PDict d \<and> get_none ''name'' d = PStr (pr_name p) \<and>
    get_none ''namespace'' d = PStr (pr_namespace p) \<and> get_none ''tag'' d = PStr (pr_version p) \<and>
    get_none ''created'' d = PBool (re_created receipt)"
  using assms
  by (cases v) (auto simp: applied_item_def text_at_def split: if_splits pyval.splits)

lemma artifact_of_ok: "artifact_of cd d = Inr a \<Longrightarrow> artifact_ok a"
  by (auto simp: artifact_of_def make_artifact_def split: if_splits)

lemma output_guard_Inr [simp]: "output_guard rid r = Inr a \<longleftrightarrow> r = Inr a"
  by (cases "(rid, r)" rule: output_guard.cases) (auto simp: pub_fail_def)

lemma contract_guard_Inr [simp]: "contract_guard rid r = Inr a \<longleftrightarrow> r = Inr a"
  by (cases "(rid, r)" rule: contract_guard.cases) auto

lemma agentic_fetch_ok: "agentic_fetch dg p rid = Inr a \<Longrightarrow> artifact_ok a"
  by (auto simp: agentic_fetch_def artifact_of_ok)

end
