(* ===== verification/Publication.thy ===== *)
theory Publication
  imports Delegates
begin

section \<open>The publication workflow\<close>

text \<open>
  Models \<^verbatim>\<open>tesserix_mcp_publisher/workflow.py\<close>, its two ports of \<^verbatim>\<open>contracts.py\<close> and the exit codes of
  \<^verbatim>\<open>cli.py\<close>. A client is a record of its operations; the workflow returns, with its result, the calls
  it made in order. The clients of the command line are the delegates of \<open>Delegates\<close>.
\<close>

subsection \<open>The ports\<close>

record tesserix_client =
  tc_remote_validate :: "prepared_publication \<Rightarrow> string \<Rightarrow> string \<Rightarrow> unit attempt"
  tc_publish :: "prepared_publication \<Rightarrow> string \<Rightarrow> string \<Rightarrow> publish_receipt attempt"
  tc_fetch :: "prepared_publication \<Rightarrow> string \<Rightarrow> published_artifact attempt"
  tc_verify :: "published_artifact \<Rightarrow> string \<Rightarrow> unit attempt"

record official_client =
  fc_validate :: "prepared_publication \<Rightarrow> string \<Rightarrow> unit attempt"
  fc_publish :: "prepared_publication \<Rightarrow> string \<Rightarrow> unit attempt"

definition agentic_client :: "delegate \<Rightarrow> tesserix_client" where
  "agentic_client dg =
     \<lparr>tc_remote_validate = remote_validate dg, tc_publish = agentic_publish dg, tc_fetch = agentic_fetch dg,
      tc_verify = agentic_verify dg\<rparr>"

definition official_cli_client :: "delegate \<Rightarrow> official_client" where
  "official_cli_client dg = \<lparr>fc_validate = official_validate dg, fc_publish = official_publish dg\<rparr>"

subsection \<open>The workflow\<close>

datatype pub_call =
    Call_remote_validate
  | Call_publish
  | Call_fetch
  | Call_verify published_artifact
  | Call_official_validate
  | Call_official_publish

type_synonym calls = "pub_call list"

definition call :: "pub_call \<Rightarrow> 'a attempt \<Rightarrow> calls \<Rightarrow> 'a attempt \<times> calls" where
  "call c r calls = (r, calls @ [c])"

definition idempotency_key_rx :: rx where
  "idempotency_key_rx = Seq (Cls is_alnum) (Rep (Cls (\<lambda>c. is_alnum c \<or> one_of ''._:+-'' c)) 7 192)"

definition request_refused :: "official_client option \<Rightarrow> string \<Rightarrow> string \<Rightarrow> bool \<Rightarrow> bool" where
  "request_refused official key rid publish_official \<longleftrightarrow>
     \<not> fullmatch idempotency_key_rx key \<or> \<not> fullmatch command_request_id_rx rid \<or> (publish_official \<and> official = None)"

definition outcome_for ::
  "prepared_publication \<Rightarrow> string \<Rightarrow> string \<Rightarrow> pub_status \<Rightarrow> official_status \<Rightarrow> (publish_receipt \<times> published_artifact) option
     \<Rightarrow> publication_outcome" where
  "outcome_for p key rid status official published =
     \<lparr>oc_status = status, oc_official = official, oc_request_id = rid, oc_idempotency_key = key,
      oc_ref = (case published of None \<Rightarrow> pr_ref p | Some (receipt, a) \<Rightarrow> pa_ref a),
      oc_digest = (case published of None \<Rightarrow> pr_registry_digest p | Some (receipt, a) \<Rightarrow> pa_digest a),
      oc_artifact_digest = er_digest (ev_artifact (pr_evidence p)),
      oc_version = (case published of None \<Rightarrow> pr_version p | Some (receipt, a) \<Rightarrow> pa_version a),
      oc_created = map_option (\<lambda>(receipt, a). re_created receipt) published,
      oc_artifact = map_option snd published\<rparr>"

definition dry_run ::
  "tesserix_client \<Rightarrow> official_client option \<Rightarrow> prepared_publication \<Rightarrow> string \<Rightarrow> string \<Rightarrow> bool
     \<Rightarrow> publication_outcome attempt \<times> calls" where
  "dry_run tc official p key rid publish_official =
     run_then (call Call_remote_validate (tc_remote_validate tc p key rid) []) (\<lambda>_ calls.
     (case (publish_official, official) of
        (True, Some fc) \<Rightarrow>
          run_then (call Call_official_validate (fc_validate fc p rid) calls) (\<lambda>_ calls.
          (make_outcome (outcome_for p key rid Outcome_DRY_RUN Official_VALIDATED None), calls))
      | _ \<Rightarrow> (make_outcome (outcome_for p key rid Outcome_DRY_RUN Official_NOT_REQUESTED None), calls)))"

definition exact :: "prepared_publication \<Rightarrow> published_artifact \<Rightarrow> bool" where
  "exact p a \<longleftrightarrow>
     pa_name a = pr_name p \<and> pa_namespace a = pr_namespace p \<and> pa_version a = pr_version p \<and>
     pa_ref a = pr_ref p \<and> pa_digest a = pr_registry_digest p"

text \<open>The \<^verbatim>\<open>try\<close> block after the write, without its handler.\<close>

definition read_back ::
  "tesserix_client \<Rightarrow> prepared_publication \<Rightarrow> string \<Rightarrow> calls \<Rightarrow> published_artifact attempt \<times> calls" where
  "read_back tc p rid calls =
     run_then (call Call_fetch (tc_fetch tc p rid) calls) (\<lambda>a calls.
     if \<not> exact p a then (pub_fail Code_COMMAND_OUTPUT_INVALID rid, calls)
     else run_then (call (Call_verify a) (tc_verify tc a rid) calls) (\<lambda>_ calls. (Inr a, calls)))"

text \<open>\<^verbatim>\<open>except (PublicationError, CancelledError, TypeError, ValueError)\<close>.\<close>

fun unknown_guard :: "string \<Rightarrow> 'a attempt \<Rightarrow> 'a attempt" where
  "unknown_guard rid (Inr a) = Inr a"
| "unknown_guard rid (Inl Pub_os_error) = Inl Pub_os_error"
| "unknown_guard rid (Inl Pub_other) = Inl Pub_other"
| "unknown_guard rid (Inl e) = Inl (unknown_outcome rid)"

text \<open>The official target: a publication error makes the outcome partial, any other exception passes.\<close>

definition official_target ::
  "official_client \<Rightarrow> prepared_publication \<Rightarrow> string \<Rightarrow> calls \<Rightarrow> (pub_status \<times> official_status) attempt \<times> calls" where
  "official_target fc p rid calls =
     (case run_then (call Call_official_validate (fc_validate fc p rid) calls) (\<lambda>_.
             call Call_official_publish (fc_publish fc p rid)) of
        (Inr u, calls') \<Rightarrow> (Inr (Outcome_VERIFIED, Official_PUBLISHED), calls')
      | (Inl (Pub_error e), calls') \<Rightarrow> (Inr (Outcome_PARTIAL, Official_FAILED), calls')
      | (Inl e, calls') \<Rightarrow> (Inl e, calls'))"

definition publish_run ::
  "tesserix_client \<Rightarrow> official_client option \<Rightarrow> prepared_publication \<Rightarrow> string \<Rightarrow> string \<Rightarrow> bool
     \<Rightarrow> publication_outcome attempt \<times> calls" where
  "publish_run tc official p key rid publish_official =
     run_then (call Call_publish (tc_publish tc p key rid) []) (\<lambda>receipt calls.
     run_then (let (r, calls') = read_back tc p rid calls in (unknown_guard rid r, calls')) (\<lambda>a calls.
     run_then
       (case (publish_official, official) of
          (True, Some fc) \<Rightarrow> official_target fc p rid calls
        | _ \<Rightarrow> (Inr (Outcome_VERIFIED, Official_NOT_REQUESTED), calls)) (\<lambda>(status, official_status) calls.
     (make_outcome (outcome_for p key rid status official_status (Some (receipt, a))), calls))))"

definition publication_execute ::
  "tesserix_client \<Rightarrow> official_client option \<Rightarrow> prepared_publication \<Rightarrow> string \<Rightarrow> string \<Rightarrow> bool \<Rightarrow> bool
     \<Rightarrow> publication_outcome attempt \<times> calls" where
  "publication_execute tc official p key rid dry publish_official =
     (if request_refused official key rid publish_official
      then (pub_fail Code_MANIFEST_INVALID
        (if fullmatch command_request_id_rx rid then rid else ''publication-validation''), [])
      else if dry then dry_run tc official p key rid publish_official
      else publish_run tc official p key rid publish_official)"

subsection \<open>The command line\<close>

definition publication_summary :: "prepared_publication \<Rightarrow> string \<Rightarrow> pyval" where
  "publication_summary p status = obj
     [(''artifact_digest'', PStr (er_digest (ev_artifact (pr_evidence p)))),
      (''name'', PStr (pr_name p)),
      (''namespace'', PStr (pr_namespace p)),
      (''provenance_digest'', PStr (er_digest (ev_provenance (pr_evidence p)))),
      (''ref'', PStr (pr_ref p)),
      (''registry_digest'', PStr (pr_registry_digest p)),
      (''sbom_digest'', PStr (er_digest (ev_sbom (pr_evidence p)))),
      (''status'', PStr status),
      (''version'', PStr (pr_version p))]"

fun exit_code :: "publication_code \<Rightarrow> int" where
  "exit_code Code_INVALID_ARGUMENT = 2"
| "exit_code Code_MANIFEST_INVALID = 2"
| "exit_code Code_EVIDENCE_REQUIRED = 2"
| "exit_code Code_ARTIFACT_DIGEST_MISMATCH = 2"
| "exit_code Code_CONFLICT = 3"
| "exit_code Code_ACTIVATION_SUPERSEDED = 3"
| "exit_code Code_UNAVAILABLE = 4"
| "exit_code Code_UNKNOWN_OUTCOME = 5"
| "exit_code Code_ACTIVATION_FAILED = 7"
| "exit_code Code_ACTIVATION_TIMEOUT = 8"
| "exit_code _ = 1"

text \<open>
  What \<open>run\<close> writes and returns for the result of a publication; \<open>None\<close> is an exception that
  leaves it.
\<close>

fun publish_exit :: "publication_outcome attempt \<Rightarrow> (pyval \<times> int) option" where
  "publish_exit (Inr r) = Some (outcome_to_dict r, if oc_status r = Outcome_PARTIAL then 6 else 0)"
| "publish_exit (Inl (Pub_error e)) = Some (publication_error_to_dict e, exit_code (ue_code e))"
| "publish_exit (Inl Pub_cancelled) = None"
| "publish_exit (Inl Pub_other) = None"
| "publish_exit (Inl e) =
     (let err = publication_error_of Code_MANIFEST_INVALID ''publication-validation'' False in
      Some (publication_error_to_dict err, exit_code (ue_code err)))"

definition publish_command ::
  "delegate \<Rightarrow> delegate option \<Rightarrow> prepared_publication \<Rightarrow> string \<Rightarrow> string \<Rightarrow> bool \<Rightarrow> publication_outcome attempt \<times> calls" where
  "publish_command dg official p key rid dry =
     publication_execute (agentic_client dg) (map_option official_cli_client official) p key rid dry (official \<noteq> None)"

subsection \<open>What the workflow shows\<close>

definition verified ::
  "tesserix_client \<Rightarrow> prepared_publication \<Rightarrow> string \<Rightarrow> string \<Rightarrow> publish_receipt \<Rightarrow> published_artifact \<Rightarrow> bool" where
  "verified tc p key rid receipt a \<longleftrightarrow>
     tc_publish tc p key rid = Inr receipt \<and> tc_fetch tc p rid = Inr a \<and> exact p a \<and> tc_verify tc a rid = Inr ()"

definition written :: "published_artifact \<Rightarrow> calls" where
  "written a = [Call_publish, Call_fetch, Call_verify a]"

text \<open>After a verified write only the official target can end a run otherwise than with an outcome.\<close>

lemma publish_run_verified:
  assumes "verified tc p key rid receipt a"
  shows "publish_run tc official p key rid po =
    run_then
       (case (po, official) of
          (True, Some fc) \<Rightarrow> official_target fc p rid (written a)
        | _ \<Rightarrow> (Inr (Outcome_VERIFIED, Official_NOT_REQUESTED), written a)) (\<lambda>(status, official_status) calls.
     (make_outcome (outcome_for p key rid status official_status (Some (receipt, a))), calls))"
  using assms by (simp add: verified_def written_def publish_run_def call_def read_back_def
      split: bool.split option.split)

lemma unknown_guard_Inl: "\<exists>e'. unknown_guard rid (Inl e) = Inl e' \<and> (\<forall>x. e' = Pub_error x \<longrightarrow> Pub_error x = unknown_outcome rid)"
  by (cases e) auto

lemma read_back_cases:
  obtains (failed) e calls' where "read_back tc p rid calls = (Inl e, calls')"
      "set calls' \<subseteq> set calls \<union> {Call_fetch} \<union> range Call_verify"
  | (exact) a where "tc_fetch tc p rid = Inr a" "exact p a" "tc_verify tc a rid = Inr ()"
proof (cases "tc_fetch tc p rid")
  case (Inl e)
  then show ?thesis by (intro failed) (auto simp: read_back_def call_def)
next
  case (Inr a)
  then show ?thesis
    using failed [of _ "calls @ [Call_fetch]"] failed [of _ "calls @ [Call_fetch, Call_verify a]"] exact
    by (cases "tc_verify tc a rid"; cases "exact p a") (auto simp: read_back_def call_def pub_fail_def)
qed

text \<open>Without a verified write there is no outcome, and a publication error after the write is the unknown one.\<close>

lemma publish_run_unverified:
  assumes "\<And>receipt a. \<not> verified tc p key rid receipt a" and "publish_run tc official p key rid po = (r, calls)"
  shows "\<exists>e. r = Inl e \<and> Call_official_publish \<notin> set calls \<and>
    (Call_fetch \<in> set calls \<longrightarrow> (\<forall>x. e = Pub_error x \<longrightarrow> e = unknown_outcome rid))"
proof (cases "tc_publish tc p key rid")
  case (Inl e)
  with assms(2) show ?thesis by (auto simp: publish_run_def call_def)
next
  case (Inr receipt)
  show ?thesis
  proof (cases rule: read_back_cases [of tc p rid "[Call_publish]"])
    case (failed e calls')
    obtain e' where e': "unknown_guard rid (Inl e :: published_artifact attempt) = Inl e'"
      "\<forall>x. e' = Pub_error x \<longrightarrow> Pub_error x = unknown_outcome rid"
      using unknown_guard_Inl [of rid e] by blast
    have "publish_run tc official p key rid po = (Inl e', calls')"
      by (simp add: publish_run_def call_def Inr failed(1) e'(1))
    with failed(2) e'(2) assms(2) show ?thesis by auto
  next
    case (exact a)
    with Inr assms(1) [of receipt a] show ?thesis by (simp add: verified_def)
  qed
qed

lemma dry_run_result:
  assumes "dry_run tc official p key rid po = (r, calls)"
  shows "set calls \<subseteq> {Call_remote_validate, Call_official_validate} \<and>
    (\<forall>out. r = Inr out \<longrightarrow> oc_status out = Outcome_DRY_RUN \<and> oc_official out \<noteq> Official_FAILED)"
  using assms
  by (cases "tc_remote_validate tc p key rid"; cases "po"; cases official; cases "fc_validate (the official) p rid")
    (auto simp: dry_run_def call_def make_outcome_def outcome_for_def split: if_splits)

lemma official_target_cases:
  obtains (published) "official_target fc p rid calls =
      (Inr (Outcome_VERIFIED, Official_PUBLISHED), calls @ [Call_official_validate, Call_official_publish])"
      "fc_validate fc p rid = Inr ()" "fc_publish fc p rid = Inr ()"
  | (failed) calls' where "official_target fc p rid calls = (Inr (Outcome_PARTIAL, Official_FAILED), calls')"
      "calls' \<in> {calls @ [Call_official_validate], calls @ [Call_official_validate, Call_official_publish]}"
  | (escaped) e calls' where "official_target fc p rid calls = (Inl e, calls')" "\<forall>x. e \<noteq> Pub_error x"
      "calls' \<in> {calls @ [Call_official_validate], calls @ [Call_official_validate, Call_official_publish]}"
proof (cases "fc_validate fc p rid")
  case (Inl e)
  then show ?thesis
    by (cases e) (auto simp: official_target_def call_def intro: failed escaped)
next
  case v: (Inr u)
  show ?thesis
  proof (cases "fc_publish fc p rid")
    case (Inl e)
    with v show ?thesis
      by (cases e) (auto simp: official_target_def call_def intro: failed escaped)
  next
    case (Inr u)
    with v show ?thesis by (intro published) (simp_all add: official_target_def call_def)
  qed
qed

text \<open>
  The law a client must keep for an outcome always to be made: what it fetches satisfies the contract
  of a published artifact.
\<close>

locale publication_client =
  fixes tc :: tesserix_client
  assumes fetched_ok: "tc_fetch tc p rid = Inr a \<Longrightarrow> artifact_ok a"
begin

lemma outcome_made:
  assumes "verified tc p key rid receipt a" and "\<not> request_refused official key rid po"
    and "fullmatch sha256_ref (er_digest (ev_artifact (pr_evidence p)))"
  shows "make_outcome (outcome_for p key rid status official_status (Some (receipt, a))) =
    Inr (outcome_for p key rid status official_status (Some (receipt, a)))"
proof -
  have "artifact_ok a" using assms(1) by (auto simp: verified_def fetched_ok)
  moreover have "key \<noteq> []" "rid \<noteq> []"
    using assms(2) by (auto simp: request_refused_def idempotency_key_rx_def command_request_id_rx_def fullmatch_Seq)
  ultimately show ?thesis
    using assms(3) by (simp add: make_outcome_def outcome_ok_def outcome_for_def artifact_ok_def)
qed

lemma publish_run_ends:
  assumes "verified tc p key rid receipt a" and "\<not> request_refused official key rid po"
    and "fullmatch sha256_ref (er_digest (ev_artifact (pr_evidence p)))"
    and "publish_run tc official p key rid po = (r, calls)"
  shows "((\<exists>status ofs. r = Inr (outcome_for p key rid status ofs (Some (receipt, a))) \<and> status \<noteq> Outcome_DRY_RUN \<and>
      (status = Outcome_PARTIAL \<longleftrightarrow> ofs = Official_FAILED) \<and> (po \<longleftrightarrow> ofs \<noteq> Official_NOT_REQUESTED)) \<or>
    (\<exists>e. r = Inl e \<and> (\<forall>x. e \<noteq> Pub_error x))) \<and>
    calls \<in> {written a, written a @ [Call_official_validate], written a @ [Call_official_validate, Call_official_publish]}"
proof -
  note run = publish_run_verified [OF assms(1)] and made = outcome_made [OF assms(1-3)]
  show ?thesis
  proof (cases "po")
    case False
    with assms(4) show ?thesis by (auto simp: run made)
  next
    case True
    with assms(2) obtain fc where fc: "official = Some fc" by (auto simp: request_refused_def)
    show ?thesis
      by (cases rule: official_target_cases [of fc p rid "written a"])
        (use assms(4) True fc in \<open>auto simp: run made\<close>)
  qed
qed

end

interpretation agentic: publication_client "agentic_client dg" for dg
  by unfold_locales (simp add: agentic_client_def agentic_fetch_ok)

subsection \<open>The publication over the command lines\<close>

text \<open>
  C25. A publication over the delegated command lines: a dry run publishes nothing; the official
  Registry is written only after the Agentic Registry accepted the version and its exact, signed
  object was read back and verified; an outcome of a real run is the verified artifact, partial
  exactly when the official target failed; and once the first write has been accepted, every
  publication error is the unknown outcome, which is not retryable.
\<close>

theorem publication_verified_first:
  assumes "publish_command dg official p key rid dry = (r, calls)"
    and "fullmatch sha256_ref (er_digest (ev_artifact (pr_evidence p)))"
  shows "(dry \<longrightarrow> Call_publish \<notin> set calls \<and> Call_official_publish \<notin> set calls) \<and>
    (Call_official_publish \<in> set calls \<longrightarrow>
       (\<exists>receipt a. verified (agentic_client dg) p key rid receipt a \<and>
          calls = written a @ [Call_official_validate, Call_official_publish])) \<and>
    (\<forall>out. r = Inr out \<longrightarrow> (oc_status out = Outcome_DRY_RUN \<longleftrightarrow> dry) \<and>
       (oc_status out = Outcome_PARTIAL \<longleftrightarrow> oc_official out = Official_FAILED) \<and>
       (\<not> dry \<longrightarrow> (\<exists>receipt a. verified (agentic_client dg) p key rid receipt a \<and> oc_artifact out = Some a \<and>
          oc_ref out = pr_ref p \<and> oc_digest out = pr_registry_digest p \<and> oc_created out = Some (re_created receipt)))) \<and>
    (\<forall>e. r = Inl (Pub_error e) \<longrightarrow> Call_fetch \<in> set calls \<longrightarrow>
       ue_code e = Code_UNKNOWN_OUTCOME \<and> \<not> ue_retryable e)"
proof -
  define oc where "oc = map_option official_cli_client official"
  define po where "po \<longleftrightarrow> official \<noteq> None"
  have exec: "publication_execute (agentic_client dg) oc p key rid dry po = (r, calls)"
    using assms(1) by (simp add: publish_command_def oc_def po_def)
  consider (refused) "request_refused oc key rid po" | (dry) "\<not> request_refused oc key rid po" dry
    | (publish) "\<not> request_refused oc key rid po" "\<not> dry" by blast
  then show ?thesis
  proof cases
    case refused
    with exec show ?thesis by (auto simp: publication_execute_def)
  next
    case dry
    with exec have "dry_run (agentic_client dg) oc p key rid po = (r, calls)"
      by (simp add: publication_execute_def)
    from dry_run_result [OF this] dry(2) show ?thesis by auto
  next
    case publish
    with exec have run: "publish_run (agentic_client dg) oc p key rid po = (r, calls)"
      by (simp add: publication_execute_def)
    show ?thesis
    proof (cases "\<exists>receipt a. verified (agentic_client dg) p key rid receipt a")
      case False
      then have "\<And>receipt a. \<not> verified (agentic_client dg) p key rid receipt a" by blast
      from publish_run_unverified [OF this run] publish(2) show ?thesis
        by (auto simp: unknown_outcome_def publication_error_of_def)
    next
      case True
      then obtain receipt a where v: "verified (agentic_client dg) p key rid receipt a" by blast
      have "pa_ref a = pr_ref p" "pa_digest a = pr_registry_digest p"
        using v by (simp_all add: verified_def exact_def)
      with agentic.publish_run_ends [OF v publish(1) assms(2) run] v publish(2) show ?thesis
        by (auto simp: outcome_for_def written_def)
    qed
  qed
qed

subsection \<open>Sample\<close>

definition sample_hash :: string where "sample_hash = replicate 64 (CHR ''a'')"

definition sample_reference :: evidence_reference where
  "sample_reference = \<lparr>er_uri = ''oci://r/a'', er_digest = ''sha256:'' @ sample_hash, er_media_type = ''a/b''\<rparr>"

definition sample_prepared :: prepared_publication where
  "sample_prepared = \<lparr>pr_name = ''orders'', pr_namespace = ''shop'', pr_version = ''1.0.0'',
     pr_ref = ''mcpservers/shop/orders@1.0.0'', pr_server_json = ''{}'', pr_registry_manifest = ''{}'',
     pr_registry_digest = ''sha256:'' @ sample_hash,
     pr_evidence = \<lparr>ev_artifact = sample_reference, ev_sbom = sample_reference, ev_provenance = sample_reference\<rparr>\<rparr>"

definition raw_text :: "string \<Rightarrow> string \<Rightarrow> string \<times> raw_json" where
  "raw_text k v = (k, Raw_leaf (PStr v))"

definition sample_applied :: raw_json where
  "sample_applied = Raw_object [(''count'', Raw_leaf (PInt 1)), (''applied'', Raw_list [Raw_object
     [raw_text ''kind'' ''MCPServer'', raw_text ''name'' ''orders'', raw_text ''namespace'' ''shop'',
      raw_text ''tag'' ''1.0.0'', (''created'', Raw_leaf (PBool True))]])]"

definition sample_pulled :: raw_json where
  "sample_pulled = Raw_object [raw_text ''kind'' ''MCPServer'', (''metadata'', Raw_object
     [raw_text ''name'' ''orders'', raw_text ''namespace'' ''shop'', raw_text ''tag'' ''1.0.0'',
      raw_text ''ref'' ''mcpservers/shop/orders@1.0.0'', raw_text ''digest'' (''sha256:'' @ sample_hash),
      raw_text ''signature'' ''sig'', raw_text ''signedBy'' ''ci'', (''labels'', Raw_object [])]),
     (''spec'', Raw_object [])]"

definition sample_codec :: codec where
  "sample_codec = \<lparr>cd_decode = Some,
     cd_parse = (\<lambda>s. if s = ''a'' then Some sample_applied else if s = ''p'' then Some sample_pulled else None),
     cd_frepr = (\<lambda>q. ''0''), cd_sha = (\<lambda>s. sample_hash)\<rparr>"

text \<open>
  The result of each command line. The official publisher is killed by a signal when \<open>killed\<close>, and
  then the runner raises.
\<close>

definition sample_command :: "bool \<Rightarrow> string list \<Rightarrow> string \<Rightarrow> command_result attempt" where
  "sample_command killed arguments rid =
     (if arguments ! 1 = ''apply'' then make_command_result 0 ''a'' []
      else if arguments ! 1 = ''pull'' then make_command_result 0 ''p'' []
      else if arguments ! 1 = ''publish'' \<and> killed then make_command_result (-9) [] []
      else make_command_result 0 [] [])"

definition sample_delegate :: "bool \<Rightarrow> delegate" where
  "sample_delegate killed = \<lparr>dg_run = sample_command killed,
     dg_private = (\<lambda>name content. Inr (''/tmp/'' @ name)), dg_redactor = sample_redactor,
     dg_limits = default_command_limits, dg_codec = sample_codec, dg_executable = ''agentic''\<rparr>"

abbreviation sample_publish :: "bool \<Rightarrow> publication_outcome attempt \<times> calls" where
  "sample_publish killed \<equiv> publish_command (sample_delegate killed) (Some (sample_delegate killed)) sample_prepared
     ''publish-0001'' ''r1'' False"

lemma sample_clean: "clean_text sample_redactor []" "clean_text sample_redactor ''a''" "clean_text sample_redactor ''p''"
  by code_simp+

lemma sample_checked:
  "out \<in> {[], ''a'', ''p''} \<Longrightarrow>
     checked (sample_delegate killed) rid \<lparr>cr_exit_code = 0, cr_stdout = out, cr_stderr = []\<rparr> = Inr out"
  using sample_clean
  by (auto simp: checked_def sample_delegate_def sample_codec_def default_command_limits_def)

lemma sample_delegate_fields:
  "dg_run (sample_delegate killed) = sample_command killed"
  "dg_private (sample_delegate killed) name content = Inr (''/tmp/'' @ name)"
  "dg_codec (sample_delegate killed) = sample_codec"
  "dg_executable (sample_delegate killed) = ''agentic''"
  "cd_parse sample_codec ''a'' = Some sample_applied" "cd_parse sample_codec ''p'' = Some sample_pulled"
  by (simp_all add: sample_delegate_def sample_codec_def)

definition sample_document :: "raw_json \<Rightarrow> document" where
  "sample_document x = the (Option.bind (apply_hooks x) mapping_of)"

lemma sample_documents:
  "output_document (sample_delegate killed) rid \<lparr>cr_exit_code = 0, cr_stdout = ''a'', cr_stderr = []\<rparr> =
     Inr (sample_document sample_applied)"
  "output_document (sample_delegate killed) rid \<lparr>cr_exit_code = 0, cr_stdout = ''p'', cr_stderr = []\<rparr> =
     Inr (sample_document sample_pulled)"
  by (simp_all add: output_document_def sample_checked sample_delegate_fields)
    (simp_all add: sample_applied_def sample_pulled_def raw_text_def sample_document_def)

lemma sample_command_lines:
  "sample_command killed [x, ''apply'', f, y, i, k] rid = Inr \<lparr>cr_exit_code = 0, cr_stdout = ''a'', cr_stderr = []\<rparr>"
  "sample_command killed [x, ''pull'', m, n, i, v] rid = Inr \<lparr>cr_exit_code = 0, cr_stdout = ''p'', cr_stderr = []\<rparr>"
  "sample_command killed [x, ''verify'', m, n, i, v] rid = Inr \<lparr>cr_exit_code = 0, cr_stdout = [], cr_stderr = []\<rparr>"
  "sample_command killed [x, ''validate'', y] rid = Inr \<lparr>cr_exit_code = 0, cr_stdout = [], cr_stderr = []\<rparr>"
  "sample_command False [x, ''publish'', y] rid = Inr \<lparr>cr_exit_code = 0, cr_stdout = [], cr_stderr = []\<rparr>"
  "sample_command True [x, ''publish'', y] rid = Inl Pub_value_error"
  by (simp_all add: sample_command_def make_command_result_def between_def)

lemma sample_artifact:
  "case artifact_of sample_codec (sample_document sample_pulled) of Inr a \<Rightarrow> exact sample_prepared a | _ \<Rightarrow> False"
  by code_simp

lemma sample_applied_item:
  "equals_one (get_none ''count'' (sample_document sample_applied))"
  "case get_none ''applied'' (sample_document sample_applied) of
     PList [x] \<Rightarrow> applied_item sample_prepared x = Inr \<lparr>re_created = True\<rparr> | _ \<Rightarrow> False"
  by code_simp+

lemma sample_commands:
  "agentic_publish (sample_delegate killed) sample_prepared key rid = Inr \<lparr>re_created = True\<rparr>"
  "\<exists>a. agentic_fetch (sample_delegate killed) sample_prepared rid = Inr a \<and> exact sample_prepared a"
  "agentic_verify (sample_delegate killed) a rid = Inr ()"
  "official_validate (sample_delegate killed) p rid = Inr ()"
  "official_publish (sample_delegate False) p rid = Inr ()"
  "official_publish (sample_delegate True) p rid = Inl Pub_value_error"
  using sample_applied_item sample_artifact
  by (auto simp: agentic_publish_def agentic_fetch_def agentic_verify_def official_validate_def official_publish_def
      pull_def sample_delegate_fields sample_command_lines sample_documents sample_checked split: pyval.splits list.splits sum.splits)

lemma sample_verified:
  "\<exists>a. verified (agentic_client (sample_delegate killed)) sample_prepared key rid \<lparr>re_created = True\<rparr> a"
  using sample_commands(2) [of killed rid] by (auto simp: verified_def agentic_client_def sample_commands)

lemma sample_identity: "fullmatch idempotency_key_rx ''publish-0001''" "fullmatch command_request_id_rx ''r1''"
  by code_simp+

lemma sample_accepted: "\<not> request_refused official ''publish-0001'' ''r1'' (official \<noteq> None)"
  by (auto simp: request_refused_def sample_identity)

text \<open>
  The child of the official publisher ends by a signal: its negative exit code is not one a
  \<open>CommandResult\<close> takes, so a \<^verbatim>\<open>ValueError\<close> leaves the workflow after the verified write, and the
  command line reports an invalid manifest where a partial outcome is due.
\<close>

lemma killed_official_publisher:
  "fst (sample_publish True) = Inl Pub_value_error \<and>
   publish_exit (fst (sample_publish True)) =
     Some (publication_error_to_dict (publication_error_of Code_MANIFEST_INVALID ''publication-validation'' False), 2)"
proof -
  obtain a where v: "verified (agentic_client (sample_delegate True)) sample_prepared ''publish-0001'' ''r1'' \<lparr>re_created = True\<rparr> a"
    using sample_verified by blast
  have "fst (sample_publish True) = Inl Pub_value_error"
    using sample_accepted [of "Some (official_cli_client (sample_delegate True))"]
    by (simp add: publish_command_def publication_execute_def publish_run_verified [OF v] official_target_def call_def
        official_cli_client_def sample_commands)
  then show ?thesis by (simp add: publication_error_of_def)
qed

theorem publication_verified_first_witness:
  "\<exists>out a. sample_publish False = (Inr out, written a @ [Call_official_validate, Call_official_publish]) \<and>
     oc_artifact out = Some a \<and> oc_digest out = ''sha256:'' @ sample_hash"
proof -
  obtain a where v: "verified (agentic_client (sample_delegate False)) sample_prepared ''publish-0001'' ''r1'' \<lparr>re_created = True\<rparr> a"
    using sample_verified by blast
  have digest: "fullmatch sha256_ref (er_digest (ev_artifact (pr_evidence sample_prepared)))"
    by code_simp
  have ran: "sample_publish False =
      (Inr (outcome_for sample_prepared ''publish-0001'' ''r1'' Outcome_VERIFIED Official_PUBLISHED (Some (\<lparr>re_created = True\<rparr>, a))),
       written a @ [Call_official_validate, Call_official_publish])"
    using sample_accepted [of "Some (official_cli_client (sample_delegate False))"]
      agentic.outcome_made [OF v _ digest, of "Some (official_cli_client (sample_delegate False))" True]
    by (simp add: publish_command_def publication_execute_def publish_run_verified [OF v] official_target_def call_def
        official_cli_client_def sample_commands written_def)
  from publication_verified_first [OF ran digest] show ?thesis
    unfolding ran by (auto simp: outcome_for_def sample_prepared_def)
qed

end
