(* ===== verification/Tool_Schema.thy ===== *)
theory Tool_Schema
  imports Schema_Meaning Urls
begin

section \<open>Registration of tools\<close>

text \<open>
  Models \<^verbatim>\<open>src/tesserix_mcp_runtime/tool.py\<close>: the limits of schemas and of public text, the validator
  that admits the closed and bounded subset of JSON Schema, and the catalog of tools.

  A schema is a decoded value. The recursion of the validator is bounded by the depth of its limits,
  so it is total without fuel; the nodes seen and the depth at which each definition was visited are
  its state. \<open>frepr\<close> is the \<open>repr\<close> of a float.
\<close>

subsection \<open>Limits\<close>

datatype violation =
    Violation string string
  | Duplicate_tool_name string string string string

fun violation_code :: "violation \<Rightarrow> string" where
  "violation_code (Violation code path) = code"
| "violation_code (Duplicate_tool_name n p m q) = ''duplicate_tool_name''"

fun violation_path :: "violation \<Rightarrow> string" where
  "violation_path (Violation code path) = path"
| "violation_path (Duplicate_tool_name n p m q) = q"

definition normalize_tool_name :: "string \<Rightarrow> string" where
  "normalize_tool_name s = map lower_ascii s"

record schema_policy =
  sp_schema_bytes :: int
  sp_depth :: int
  sp_properties :: int
  sp_string_length :: int
  sp_array_items :: int
  sp_definitions :: int
  sp_schema_nodes :: int
  sp_union_variants :: int

definition default_schema_policy :: schema_policy where
  "default_schema_policy = \<lparr>sp_schema_bytes = 65536, sp_depth = 16, sp_properties = 128, sp_string_length = 65536,
     sp_array_items = 1024, sp_definitions = 128, sp_schema_nodes = 4096, sp_union_variants = 16\<rparr>"

definition positive_limit :: "string \<times> int \<times> int \<Rightarrow> check" where
  "positive_limit = (\<lambda>(name, i, maximum).
     raise_if (\<not> (1 \<le> i \<and> i \<le> maximum))
       (ValueError (name @ '' must be a positive integer at most '' @ int_str maximum)) okay)"

definition check_schema_policy :: "schema_policy \<Rightarrow> check" where
  "check_schema_policy p = for_each positive_limit
     [(''max_schema_bytes'', sp_schema_bytes p, 262144), (''max_depth'', sp_depth p, 32),
      (''max_properties'', sp_properties p, 256), (''max_string_length'', sp_string_length p, 65536),
      (''max_array_items'', sp_array_items p, 4096), (''max_definitions'', sp_definitions p, 256),
      (''max_schema_nodes'', sp_schema_nodes p, 16384), (''max_union_variants'', sp_union_variants p, 64)]"

record metadata_policy =
  mp_description_bytes :: int
  mp_description_tokens :: int
  mp_summary_bytes :: int
  mp_summary_tokens :: int
  mp_when_to_use_bytes :: int
  mp_when_to_use_tokens :: int
  mp_examples :: int
  mp_example_bytes :: int
  mp_example_tokens :: int
  mp_total_example_bytes :: int
  mp_total_example_tokens :: int

definition default_metadata_policy :: metadata_policy where
  "default_metadata_policy = \<lparr>mp_description_bytes = 4096, mp_description_tokens = 512, mp_summary_bytes = 512,
     mp_summary_tokens = 128, mp_when_to_use_bytes = 2048, mp_when_to_use_tokens = 256, mp_examples = 8,
     mp_example_bytes = 1024, mp_example_tokens = 128, mp_total_example_bytes = 4096, mp_total_example_tokens = 512\<rparr>"

definition check_metadata_policy :: "metadata_policy \<Rightarrow> check" where
  "check_metadata_policy p = for_each positive_limit
     [(''max_description_bytes'', mp_description_bytes p, 4096), (''max_description_tokens'', mp_description_tokens p, 512),
      (''max_summary_bytes'', mp_summary_bytes p, 512), (''max_summary_tokens'', mp_summary_tokens p, 128),
      (''max_when_to_use_bytes'', mp_when_to_use_bytes p, 2048), (''max_when_to_use_tokens'', mp_when_to_use_tokens p, 256),
      (''max_examples'', mp_examples p, 8), (''max_example_bytes'', mp_example_bytes p, 1024),
      (''max_example_tokens'', mp_example_tokens p, 128), (''max_total_example_bytes'', mp_total_example_bytes p, 4096),
      (''max_total_example_tokens'', mp_total_example_tokens p, 512)]"

text \<open>The characters \<^verbatim>\<open>\w\<close> of a Unicode pattern among the code points 0 to 255.\<close>

definition word_char :: "char \<Rightarrow> bool" where
  "word_char c \<longleftrightarrow> is_alnum c \<or> c = CHR ''_'' \<or> ord_of c \<in> {170, 178, 179, 181, 185, 186, 188, 189, 190} \<or>
     (192 \<le> ord_of c \<and> ord_of c \<noteq> 215 \<and> ord_of c \<noteq> 247)"

text \<open>\<^verbatim>\<open>\w+|[^\w\s]\<close>: the words and the single other characters; the Boolean says we are inside a word.\<close>

fun count_tokens :: "bool \<Rightarrow> string \<Rightarrow> nat" where
  "count_tokens inside [] = 0"
| "count_tokens inside (c # cs) =
     (if word_char c then (if inside then 0 else 1) + count_tokens True cs
      else (if is_space c then 0 else 1) + count_tokens False cs)"

definition portable_token_count :: "string \<Rightarrow> nat" where
  "portable_token_count s = count_tokens False s"

type_synonym 'a validated = "(violation, 'a) result"

definition validate_text_budget :: "string \<Rightarrow> string \<Rightarrow> int \<Rightarrow> int \<Rightarrow> unit validated" where
  "validate_text_budget s path max_bytes max_tokens =
     raise_if (int (utf8_length s) > max_bytes \<or> int (portable_token_count s) > max_tokens)
       (Violation ''metadata_limit_exceeded'' path) (Inr ())"

definition index_path :: "string \<Rightarrow> nat \<Rightarrow> string" where
  "index_path path i = path @ ''['' @ nat_digits i @ '']''"

definition enumerated :: "string \<Rightarrow> 'a list \<Rightarrow> (string \<times> 'a) list" where
  "enumerated path xs = zip (map (index_path path) [0..<length xs]) xs"

definition validate_metadata :: "metadata_policy \<Rightarrow> tool_metadata \<Rightarrow> unit validated" where
  "validate_metadata p m =
     and_then (validate_text_budget (tm_description m) ''metadata.description''
       (mp_description_bytes p) (mp_description_tokens p)) (\<lambda>_.
     (case tm_discovery m of
        None \<Rightarrow> Inr ()
      | Some d \<Rightarrow>
          and_then (validate_text_budget (td_summary d) ''metadata.discovery.summary''
            (mp_summary_bytes p) (mp_summary_tokens p)) (\<lambda>_.
          and_then (validate_text_budget (td_when_to_use d) ''metadata.discovery.when_to_use''
            (mp_when_to_use_bytes p) (mp_when_to_use_tokens p)) (\<lambda>_.
          raise_if (int (length (td_examples d)) > mp_examples p)
            (Violation ''metadata_limit_exceeded'' ''metadata.discovery.examples'')
          (and_then (for_each (\<lambda>(path, e). validate_text_budget e path (mp_example_bytes p) (mp_example_tokens p))
              (enumerated ''metadata.discovery.examples'' (td_examples d))) (\<lambda>_.
           raise_if (int (sum_list (map utf8_length (td_examples d))) > mp_total_example_bytes p \<or>
               int (sum_list (map portable_token_count (td_examples d))) > mp_total_example_tokens p)
             (Violation ''metadata_limit_exceeded'' ''metadata.discovery.examples'') (Inr ())))))))"

subsection \<open>Keywords\<close>

definition schema_types :: "string list" where
  "schema_types = [''array'', ''boolean'', ''integer'', ''null'', ''number'', ''object'', ''string'']"

definition common_keywords :: "string list" where
  "common_keywords = [''$comment'', ''$ref'', ''anyOf'', ''const'', ''default'', ''description'', ''enum'', ''examples'',
     ''title'', ''type'']"

definition numeric_keywords :: "string list" where
  "numeric_keywords = [''exclusiveMaximum'', ''exclusiveMinimum'', ''maximum'', ''minimum'', ''multipleOf'']"

definition type_keywords :: "string \<Rightarrow> string list" where
  "type_keywords ty =
     (if ty = ''array'' then [''items'', ''maxItems'', ''minItems'', ''uniqueItems'']
      else if ty = ''integer'' \<or> ty = ''number'' then numeric_keywords
      else if ty = ''object'' then
        [''additionalProperties'', ''maxProperties'', ''minProperties'', ''propertyNames'', ''properties'', ''required'']
      else if ty = ''string'' then [''format'', ''maxLength'', ''minLength'']
      else [])"

definition root_keywords :: "string list" where
  "root_keywords = [''$defs'', ''$id'', ''$schema'']"

definition definition_name_rx :: rx where
  "definition_name_rx = Seq (Cls (\<lambda>c. is_alpha c \<or> c = CHR ''_'')) (Rep (Cls (\<lambda>c. is_alnum c \<or> one_of ''_.-'' c)) 0 127)"

definition unsupported_keywords :: "bool \<Rightarrow> schema \<Rightarrow> string list" where
  "unsupported_keywords at_root s =
     (let supported = common_keywords @
            (case get_none ''type'' s of PStr ty \<Rightarrow> type_keywords ty | _ \<Rightarrow> []) @
            (if at_root then root_keywords else []) in
      filter (\<lambda>k. k \<notin> set supported) (map (\<lambda>kv. key_name (fst kv)) s))"

definition check_keywords :: "bool \<Rightarrow> string \<Rightarrow> schema \<Rightarrow> unit validated" where
  "check_keywords at_root path s =
     (case sort (unsupported_keywords at_root s) of
        [] \<Rightarrow> Inr ()
      | k # ks \<Rightarrow> Inl (Violation ''unsupported_schema_keyword'' (path @ ''.'' @ k)))"

fun non_negative_integer :: "pyval \<Rightarrow> int option" where
  "non_negative_integer (PInt i) = (if i \<ge> 0 then Some i else None)"
| "non_negative_integer v = None"

text \<open>A bound a schema has to give: missing or negative, too large, or fine.\<close>

definition required_bound :: "string \<Rightarrow> string \<Rightarrow> int \<Rightarrow> pyval \<Rightarrow> unit validated" where
  "required_bound code path maximum v =
     (case non_negative_integer v of
        None \<Rightarrow> Inl (Violation code path)
      | Some i \<Rightarrow> raise_if (i > maximum) (Violation ''schema_limit_exceeded'' path) (Inr ()))"

definition enum_value_ok :: "string \<Rightarrow> pyval \<Rightarrow> bool" where
  "enum_value_ok ty v =
     (case v of
        PNone \<Rightarrow> ty = ''null''
      | PStr s \<Rightarrow> ty = ''string''
      | PBool b \<Rightarrow> ty = ''boolean''
      | PInt i \<Rightarrow> ty = ''integer'' \<or> ty = ''number''
      | PFloat x \<Rightarrow> ty = ''number'' \<and> is_finite x
      | _ \<Rightarrow> False)"

definition validate_enum :: "schema_policy \<Rightarrow> string \<Rightarrow> string \<Rightarrow> schema \<Rightarrow> unit validated" where
  "validate_enum p ty path s =
     (case get_none ''enum'' s of
        PNone \<Rightarrow> Inr ()
      | PList vs \<Rightarrow>
          raise_if (vs = [] \<or> int (length vs) > sp_properties p) (Violation ''invalid_schema'' (path @ ''.enum''))
          (for_each (\<lambda>(path', v). raise_if (\<not> enum_value_ok ty v) (Violation ''invalid_schema'' path') (Inr ()))
             (enumerated (path @ ''.enum'') vs))
      | _ \<Rightarrow> Inl (Violation ''invalid_schema'' (path @ ''.enum'')))"

text \<open>\<open>max(len(value) for value in enum_values if isinstance(value, str))\<close>.\<close>

definition longest_text :: "pyval list \<Rightarrow> int" where
  "longest_text vs = foldr (\<lambda>v m. case v of PStr s \<Rightarrow> max (int (length s)) m | _ \<Rightarrow> m) vs 0"

definition string_bound :: "schema \<Rightarrow> pyval" where
  "string_bound s =
     (case (get_none ''maxLength'' s, get_none ''enum'' s) of
        (PNone, PList (v # vs)) \<Rightarrow> PInt (longest_text (v # vs))
      | (bound, e) \<Rightarrow> bound)"

definition validate_property_names :: "schema_policy \<Rightarrow> string \<Rightarrow> pyval \<Rightarrow> unit validated" where
  "validate_property_names p path v =
     (case schema_of v of
        None \<Rightarrow> Inl (Violation ''invalid_schema'' (path @ ''.propertyNames''))
      | Some s \<Rightarrow>
          raise_if (\<not> only_keys [''maxLength'', ''minLength''] s) (Violation ''invalid_schema'' (path @ ''.propertyNames''))
          (required_bound ''unbounded_string_schema'' (path @ ''.propertyNames.maxLength'') (sp_string_length p)
            (get_none ''maxLength'' s)))"

fun check_required :: "schema \<Rightarrow> string list \<Rightarrow> (string \<times> pyval) list \<Rightarrow> unit validated" where
  "check_required properties seen [] = Inr ()"
| "check_required properties seen ((path, v) # vs) =
     (case v of
        PStr n \<Rightarrow>
          if \<not> has_key n properties \<or> n \<in> set seen then Inl (Violation ''invalid_object_schema'' path)
          else check_required properties (n # seen) vs
      | _ \<Rightarrow> Inl (Violation ''invalid_object_schema'' path))"

type_synonym children = "(string \<times> pyval) list"

text \<open>The checks of an object schema before its children are validated.\<close>

definition object_children :: "schema_policy \<Rightarrow> string \<Rightarrow> schema \<Rightarrow> children validated" where
  "object_children p path s =
     (if get_none ''properties'' s = PNone \<and> schema_of (get_none ''additionalProperties'' s) \<noteq> None then
        and_then (required_bound ''unbounded_object_schema'' (path @ ''.maxProperties'') (sp_properties p)
          (get_none ''maxProperties'' s)) (\<lambda>_.
        and_then (validate_property_names p path (get_none ''propertyNames'' s)) (\<lambda>_.
        Inr [(path @ ''.additionalProperties'', get_none ''additionalProperties'' s)]))
      else if get_none ''additionalProperties'' s \<noteq> PBool False
      then Inl (Violation ''open_object_schema'' (path @ ''.additionalProperties''))
      else
        (case (if get_none ''properties'' s = PNone then Some [] else schema_of (get_none ''properties'' s)) of
           None \<Rightarrow> Inl (Violation ''invalid_object_schema'' (path @ ''.properties''))
         | Some properties \<Rightarrow>
             raise_if (int (length properties) > sp_properties p) (Violation ''schema_limit_exceeded'' (path @ ''.properties''))
             (case get_or (PList []) ''required'' s of
                PList names \<Rightarrow>
                  and_then (check_required properties [] (enumerated (path @ ''.required'') names)) (\<lambda>_.
                  Inr (map (\<lambda>(k, v). (path @ ''.properties.'' @ key_name k, v)) properties))
              | _ \<Rightarrow> Inl (Violation ''invalid_object_schema'' (path @ ''.required'')))))"

definition variant_children :: "schema_policy \<Rightarrow> string \<Rightarrow> schema \<Rightarrow> children validated" where
  "variant_children p path s =
     (case get_none ''anyOf'' s of
        PNone \<Rightarrow> Inr []
      | PList vs \<Rightarrow>
          if length vs < 2 then Inl (Violation ''invalid_schema'' (path @ ''.anyOf''))
          else if int (length vs) > sp_union_variants p then Inl (Violation ''schema_limit_exceeded'' (path @ ''.anyOf''))
          else Inr (enumerated (path @ ''.anyOf'') vs)
      | _ \<Rightarrow> Inl (Violation ''invalid_schema'' (path @ ''.anyOf'')))"

definition schema_reference :: "string \<Rightarrow> schema \<Rightarrow> string option validated" where
  "schema_reference path s =
     (case get_none ''$ref'' s of
        PNone \<Rightarrow> Inr None
      | PStr r \<Rightarrow>
          if starts_with local_definition_prefix r then Inr (Some (remove_prefix local_definition_prefix r))
          else Inl (Violation ''unsupported_schema_reference'' (path @ ''.$ref''))
      | _ \<Rightarrow> Inl (Violation ''unsupported_schema_reference'' (path @ ''.$ref'')))"

text \<open>What follows the variants and the reference: the type, and the children it has.\<close>

definition typed_children :: "schema_policy \<Rightarrow> bool \<Rightarrow> string \<Rightarrow> schema \<Rightarrow> children validated" where
  "typed_children p at_root path s =
     (case get_none ''type'' s of
        PNone \<Rightarrow>
          if get_none ''anyOf'' s \<noteq> PNone \<or> get_none ''$ref'' s \<noteq> PNone then Inr []
          else Inl (Violation ''invalid_schema'' (path @ ''.type''))
      | PStr ty \<Rightarrow>
          if ty \<notin> set schema_types then Inl (Violation ''unsupported_schema_type'' (path @ ''.type''))
          else if at_root \<and> ty \<noteq> ''object'' then Inl (Violation ''invalid_object_schema'' path)
          else
            and_then (validate_enum p ty path s) (\<lambda>_.
            if ty = ''object'' then object_children p path s
            else if ty = ''string'' then
              and_then (required_bound ''unbounded_string_schema'' (path @ ''.maxLength'') (sp_string_length p)
                (string_bound s)) (\<lambda>_. Inr [])
            else if ty = ''array'' then
              and_then (required_bound ''unbounded_array_schema'' (path @ ''.maxItems'') (sp_array_items p)
                (get_none ''maxItems'' s)) (\<lambda>_. Inr [(path @ ''.items'', get_none ''items'' s)])
            else Inr [])
      | _ \<Rightarrow> Inl (Violation ''unsupported_schema_type'' (path @ ''.type'')))"

subsection \<open>The validator\<close>

record schema_env =
  se_definitions :: schema
  se_policy :: schema_policy
  se_root_path :: string

record schema_state =
  ss_nodes :: int
  ss_depths :: "(string \<times> int) list"

function (sequential) validate_value ::
    "schema_env \<Rightarrow> int \<Rightarrow> bool \<Rightarrow> string list \<Rightarrow> string \<Rightarrow> pyval \<Rightarrow> schema_state \<Rightarrow> schema_state validated"
  and validate_all ::
    "schema_env \<Rightarrow> int \<Rightarrow> string list \<Rightarrow> children \<Rightarrow> schema_state \<Rightarrow> schema_state validated"
  and validate_definition ::
    "schema_env \<Rightarrow> int \<Rightarrow> string list \<Rightarrow> string \<Rightarrow> string \<Rightarrow> schema_state \<Rightarrow> schema_state validated"
where
  "validate_value e depth at_root stack path v st =
     (case schema_of v of
        None \<Rightarrow> Inl (Violation ''invalid_schema'' path)
      | Some s \<Rightarrow>
          if depth > sp_depth (se_policy e) \<or> ss_nodes st + 1 > sp_schema_nodes (se_policy e)
          then Inl (Violation ''schema_limit_exceeded'' path)
          else
            and_then (check_keywords at_root path s) (\<lambda>_.
            and_then (variant_children (se_policy e) path s) (\<lambda>variants.
            and_then (validate_all e (depth + 1) stack variants (st\<lparr>ss_nodes := ss_nodes st + 1\<rparr>)) (\<lambda>st2.
            and_then (schema_reference path s) (\<lambda>reference.
            and_then (case reference of
                None \<Rightarrow> Inr st2
              | Some name \<Rightarrow> validate_definition e (depth + 1) stack (path @ ''.$ref'') name st2) (\<lambda>st3.
            and_then (typed_children (se_policy e) at_root path s) (\<lambda>children.
            validate_all e (depth + 1) stack children st3)))))))"
| "validate_all e depth stack [] st = Inr st"
| "validate_all e depth stack ((path, v) # children) st =
     and_then (validate_value e depth False stack path v st) (validate_all e depth stack children)"
| "validate_definition e depth stack path name st =
     (if \<not> has_key name (se_definitions e) \<or> \<not> fullmatch definition_name_rx name
      then Inl (Violation ''invalid_schema_reference'' path)
      else if name \<in> set stack then Inl (Violation ''recursive_schema'' path)
      else if (case map_of (ss_depths st) name of None \<Rightarrow> False | Some d \<Rightarrow> d \<ge> depth) then Inr st
      else
        validate_value e depth False (stack @ [name]) (se_root_path e @ ''.$defs.'' @ name)
          (get_none name (se_definitions e)) (st\<lparr>ss_depths := dict_put name depth (ss_depths st)\<rparr>))"
  by pat_completeness auto

termination
  by (relation "inv_image (less_than <*lex*> less_than) (\<lambda>x. case x of
      Inl (e, depth, at_root, stack, path, v, st) \<Rightarrow> (nat (sp_depth (se_policy e) + 1 - depth), 0)
    | Inr (Inl (e, depth, stack, children, st)) \<Rightarrow> (nat (sp_depth (se_policy e) + 1 - depth), 1 + length children)
    | Inr (Inr (e, depth, stack, path, name, st)) \<Rightarrow> (nat (sp_depth (se_policy e) + 1 - depth), 1))")
    auto

declare validate_value.simps [simp del] validate_definition.simps [simp del]

fun validate_definitions :: "schema_env \<Rightarrow> string \<Rightarrow> string list \<Rightarrow> schema_state \<Rightarrow> schema_state validated" where
  "validate_definitions e path [] st = Inr st"
| "validate_definitions e path (name # names) st =
     and_then (if name \<in> fst ` set (ss_depths st) then Inr st
               else validate_definition e 2 [] (path @ ''.$defs.'' @ name) name st) (\<lambda>st'.
     validate_definitions e path names st')"

definition validate_schema :: "(rat \<Rightarrow> string) \<Rightarrow> schema_policy \<Rightarrow> string \<Rightarrow> pyval \<Rightarrow> unit validated" where
  "validate_schema frepr p path v =
     (case schema_of v of
        None \<Rightarrow> Inl (Violation ''invalid_schema'' path)
      | Some s \<Rightarrow>
          (case dumps frepr v of
             None \<Rightarrow> Inl (Violation ''invalid_schema'' path)
           | Some text \<Rightarrow>
               raise_if (int (utf8_length text) > sp_schema_bytes p) (Violation ''schema_limit_exceeded'' path)
               (case schema_of (get_or (PDict []) ''$defs'' s) of
                  None \<Rightarrow> Inl (Violation ''invalid_schema'' (path @ ''.$defs''))
                | Some defs \<Rightarrow>
                    raise_if (int (length defs) > sp_definitions p) (Violation ''schema_limit_exceeded'' (path @ ''.$defs''))
                    (raise_if (\<not> list_all (\<lambda>kv. fullmatch definition_name_rx (key_name (fst kv))) defs)
                      (Violation ''invalid_schema'' (path @ ''.$defs''))
                    (let e = \<lparr>se_definitions = defs, se_policy = p, se_root_path = path\<rparr> in
                     and_then (validate_value e 1 True [] path v \<lparr>ss_nodes = 0, ss_depths = []\<rparr>) (\<lambda>st.
                     and_then (validate_definitions e path (map (\<lambda>kv. key_name (fst kv)) defs) st) (\<lambda>_. Inr ())))))))"

end
