(* ===== verification/Tool_Catalog.thy ===== *)
theory Tool_Catalog
  imports Tool_Schema
begin

section \<open>What a registered tool accepts\<close>

text \<open>
  The validator of \<open>Tool_Schema\<close> admits a schema only when its values are bounded: whatever a
  registered schema accepts, in the meaning of \<open>Schema_Meaning\<close>, is no deeper than the depth limit,
  and its strings, lists and objects are no longer than the limits. The second half models the
  catalog of \<^verbatim>\<open>tool.py\<close>, which validates every tool it exposes.
\<close>

subsection \<open>Schemas of a bounded shape\<close>

text \<open>What validation establishes, by the number of levels left below the depth limit.\<close>

definition schema_at :: "(schema \<Rightarrow> bool) \<Rightarrow> pyval \<Rightarrow> bool" where
  "schema_at Q v \<longleftrightarrow> (\<exists>t. schema_of v = Some t \<and> Q t)"

definition shape :: "schema_policy \<Rightarrow> schema \<Rightarrow> (schema \<Rightarrow> bool) \<Rightarrow> schema \<Rightarrow> bool" where
  "shape p defs Q s \<longleftrightarrow>
     (\<exists>path vs. variant_children p path s = Inr vs \<and> (\<forall>c\<in>set vs. schema_at Q (snd c))) \<and>
     (\<exists>path r. schema_reference path s = Inr r \<and> (\<forall>name. r = Some name \<longrightarrow> schema_at Q (get_none name defs))) \<and>
     (\<exists>at_root path cs. typed_children p at_root path s = Inr cs \<and> (\<forall>c\<in>set cs. schema_at Q (snd c)))"

primrec shaped :: "schema_policy \<Rightarrow> schema \<Rightarrow> nat \<Rightarrow> schema \<Rightarrow> bool" where
  "shaped p defs 0 = (\<lambda>s. False)"
| "shaped p defs (Suc n) = shape p defs (shaped p defs n)"

lemma schema_at_mono: "\<lbrakk>schema_at Q v; \<And>t. Q t \<Longrightarrow> R t\<rbrakk> \<Longrightarrow> schema_at R v"
  by (auto simp: schema_at_def)

lemma shape_mono: "\<lbrakk>shape p defs Q s; \<And>t. Q t \<Longrightarrow> R t\<rbrakk> \<Longrightarrow> shape p defs R s"
  unfolding shape_def using schema_at_mono [of Q _ R] by meson

definition below :: "schema_env \<Rightarrow> int \<Rightarrow> pyval \<Rightarrow> bool" where
  "below e depth v \<longleftrightarrow>
     schema_at (shaped (se_policy e) (se_definitions e) (nat (sp_depth (se_policy e) + 1 - depth))) v"

lemma shaped_mono: "shaped p defs n s \<Longrightarrow> n \<le> m \<Longrightarrow> shaped p defs m s"
proof (induction n arbitrary: m s)
  case (Suc n)
  then obtain k where m: "m = Suc k" "n \<le> k" by (cases m) auto
  have "\<And>t. shaped p defs n t \<Longrightarrow> shaped p defs k t" using Suc.IH m(2) by blast
  with Suc.prems(1) show ?case unfolding m(1) shaped.simps by (rule shape_mono)
qed simp

lemma below_mono: "below e d v \<Longrightarrow> depth \<le> d \<Longrightarrow> below e depth v"
  unfolding below_def by (erule schema_at_mono, erule shaped_mono) simp

text \<open>Every definition visited is shaped at the depth it was visited, unless its visit is not over.\<close>

definition visited_ok :: "schema_env \<Rightarrow> string list \<Rightarrow> schema_state \<Rightarrow> bool" where
  "visited_ok e stack st \<longleftrightarrow>
     (\<forall>name d. map_of (ss_depths st) name = Some d \<longrightarrow> name \<notin> set stack \<longrightarrow> below e d (get_none name (se_definitions e)))"

definition pending_kept :: "string list \<Rightarrow> schema_state \<Rightarrow> schema_state \<Rightarrow> bool" where
  "pending_kept stack st st' \<longleftrightarrow> (\<forall>name\<in>set stack. map_of (ss_depths st') name = map_of (ss_depths st) name)"

lemma pending_kept_trans: "pending_kept stack a b \<Longrightarrow> pending_kept stack b c \<Longrightarrow> pending_kept stack a c"
  by (simp add: pending_kept_def)

lemma visited_nodes [simp]: "visited_ok e stack (st\<lparr>ss_nodes := n\<rparr>) = visited_ok e stack st"
  "pending_kept stack (st\<lparr>ss_nodes := n\<rparr>) st' = pending_kept stack st st'"
  by (simp_all add: visited_ok_def pending_kept_def)

lemma validation_shapes:
  "\<lbrakk>validate_value e depth at_root stack path v st = Inr st'; visited_ok e stack st\<rbrakk>
     \<Longrightarrow> below e depth v \<and> visited_ok e stack st' \<and> pending_kept stack st st'"
  "\<lbrakk>validate_all e depth stack children st = Inr st'; visited_ok e stack st\<rbrakk>
     \<Longrightarrow> (\<forall>c\<in>set children. below e depth (snd c)) \<and> visited_ok e stack st' \<and> pending_kept stack st st'"
  "\<lbrakk>validate_definition e depth stack path name st = Inr st'; visited_ok e stack st\<rbrakk>
     \<Longrightarrow> below e depth (get_none name (se_definitions e)) \<and> visited_ok e stack st' \<and> pending_kept stack st st'"
proof (induction e depth at_root stack path v st and e depth stack children st and e depth stack path name st
    arbitrary: st' and st' and st' rule: validate_value_validate_all_validate_definition.induct)
  case (1 e depth at_root stack path v st)
  from "1.prems"(1) obtain s where s: "schema_of v = Some s"
    by (subst (asm) validate_value.simps) (auto split: option.splits)
  from "1.prems"(1) obtain variants st2 r st3 cs where ok: "\<not> (depth > sp_depth (se_policy e) \<or> ss_nodes st + 1 > sp_schema_nodes (se_policy e))"
    and kw: "check_keywords at_root path s = Inr ()"
    and vs: "variant_children (se_policy e) path s = Inr variants"
    and v2: "validate_all e (depth + 1) stack variants (st\<lparr>ss_nodes := ss_nodes st + 1\<rparr>) = Inr st2"
    and r: "schema_reference path s = Inr r"
    and v3: "(case r of None \<Rightarrow> Inr st2
              | Some name \<Rightarrow> validate_definition e (depth + 1) stack (path @ ''.$ref'') name st2) = Inr st3"
    and cs: "typed_children (se_policy e) at_root path s = Inr cs"
    and v4: "validate_all e (depth + 1) stack cs st3 = Inr st'"
    by (subst (asm) validate_value.simps) (auto simp: s split: if_splits)
  have 2: "(\<forall>c\<in>set variants. below e (depth + 1) (snd c)) \<and> visited_ok e stack st2 \<and> pending_kept stack st st2"
    using "1.IH"(1) [OF s ok v2] "1.prems"(2) by simp
  have 3: "(\<forall>name. r = Some name \<longrightarrow> below e (depth + 1) (get_none name (se_definitions e))) \<and>
      visited_ok e stack st3 \<and> pending_kept stack st2 st3"
  proof (cases r)
    case None
    with v3 2 show ?thesis by (simp add: pending_kept_def)
  next
    case (Some name)
    with v3 have "validate_definition e (depth + 1) stack (path @ ''.$ref'') name st2 = Inr st3" by simp
    from "1.IH"(2) [OF s ok Some this] 2 Some show ?thesis by simp
  qed
  have 4: "(\<forall>c\<in>set cs. below e (depth + 1) (snd c)) \<and> visited_ok e stack st' \<and> pending_kept stack st3 st'"
    using "1.IH"(3) [OF s ok v4] 3 by simp
  have n: "nat (sp_depth (se_policy e) + 1 - depth) = Suc (nat (sp_depth (se_policy e) + 1 - (depth + 1)))"
    using ok by arith
  have "below e depth v"
    unfolding below_def n shaped.simps schema_at_def [of "shape _ _ _"] shape_def
    using s vs r cs 2 3 4 unfolding below_def by blast
  moreover have "pending_kept stack st st'"
    using 2 3 4 by (blast intro: pending_kept_trans)
  ultimately show ?case using 4 by simp
next
  case (2 e depth stack st)
  then show ?case by (simp add: pending_kept_def)
next
  case (3 e depth stack path v children st)
  from "3.prems"(1) obtain st1 where a: "validate_value e depth False stack path v st = Inr st1"
    and b: "validate_all e depth stack children st1 = Inr st'" by auto
  from "3.IH"(1) [OF a "3.prems"(2)] "3.IH"(2) [OF b] show ?case
    by (auto intro: pending_kept_trans)
next
  case (4 e depth stack path name st)
  show ?case
  proof (cases "case map_of (ss_depths st) name of None \<Rightarrow> False | Some d \<Rightarrow> d \<ge> depth")
    case True
    with "4.prems"(1) have "name \<notin> set stack" "st' = st"
      by (auto simp: validate_definition.simps split: if_splits)
    with True "4.prems"(2) show ?thesis
      by (auto simp: visited_ok_def pending_kept_def split: option.splits intro: below_mono)
  next
    case False
    let ?st = "st\<lparr>ss_depths := dict_put name depth (ss_depths st)\<rparr>"
    from False "4.prems"(1) have cond: "\<not> (\<not> has_key name (se_definitions e) \<or> \<not> fullmatch definition_name_rx name)"
      "name \<notin> set stack"
      and run: "validate_value e depth False (stack @ [name]) (se_root_path e @ ''.$defs.'' @ name)
        (get_none name (se_definitions e)) ?st = Inr st'"
      by (auto simp: validate_definition.simps split: if_splits)
    have "visited_ok e (stack @ [name]) ?st"
      using "4.prems"(2) by (auto simp: visited_ok_def)
    from "4.IH" [OF cond False run this] have b: "below e depth (get_none name (se_definitions e))"
      and v: "visited_ok e (stack @ [name]) st'" and k: "pending_kept (stack @ [name]) ?st st'" by auto
    have "visited_ok e stack st'"
      unfolding visited_ok_def
    proof (intro allI impI)
      fix n d assume n: "map_of (ss_depths st') n = Some d" "n \<notin> set stack"
      show "below e d (get_none n (se_definitions e))"
      proof (cases "n = name")
        case True
        with k n(1) have "d = depth" by (simp add: pending_kept_def)
        with b True show ?thesis by simp
      next
        case False
        with v n show ?thesis by (simp add: visited_ok_def)
      qed
    qed
    moreover have "pending_kept stack st st'"
      using k cond(2) by (auto simp: pending_kept_def)
    ultimately show ?thesis using b by blast
  qed
qed

subsection \<open>Values of a bounded shape\<close>

fun value_within :: "schema_policy \<Rightarrow> nat \<Rightarrow> pyval \<Rightarrow> bool" where
  "value_within p 0 v = False"
| "value_within p (Suc n) (PStr s) = (int (length s) \<le> sp_string_length p)"
| "value_within p (Suc n) (PList xs) =
     (int (length xs) \<le> sp_array_items p \<and> list_all (value_within p n) xs)"
| "value_within p (Suc n) (PDict d) =
     (int (length d) \<le> sp_properties p \<and> list_all (\<lambda>kv. value_within p n (snd kv)) d)"
| "value_within p (Suc n) v = True"

lemma value_within_Suc: "value_within p n v \<Longrightarrow> value_within p (Suc n) v"
proof (induction p n v rule: value_within.induct)
  case (3 p n xs)
  then show ?case by (auto simp: list_all_iff)
next
  case (4 p n d)
  then show ?case by (fastforce simp: list_all_iff)
qed simp_all

lemma required_bound_ok:
  "required_bound code path maximum v = Inr u \<longleftrightarrow> (\<exists>i. v = PInt i \<and> 0 \<le> i \<and> i \<le> maximum)"
  by (cases v) (auto simp: required_bound_def)

lemma count_ok_upper: "\<lbrakk>count_ok lo hi t n; get_none hi t = PInt i\<rbrakk> \<Longrightarrow> int n \<le> i"
  by (auto simp: count_ok_def)

lemma longest_text: "PStr s \<in> set vs \<Longrightarrow> int (length s) \<le> longest_text vs"
  by (induction vs) (auto simp: longest_text_def split: pyval.splits)

text \<open>A string a schema accepts is within the bound the validator read from it.\<close>

lemma accepted_string:
  assumes "local_ok other t (PStr s)" "string_bound t = PInt i"
  shows "int (length s) \<le> i"
proof (cases "get_none ''maxLength'' t = PNone")
  case True
  with assms(2) obtain v vs where e: "get_none ''enum'' t = PList (v # vs)" "i = longest_text (v # vs)"
    by (auto simp: string_bound_def split: pyval.splits list.splits)
  from assms(1) e(1) have "PStr s \<in> set (v # vs)"
    by (auto simp: local_ok_def value_ok_def)
  then show ?thesis unfolding e(2) by (rule longest_text)
next
  case False
  then have "string_bound t = get_none ''maxLength'' t"
    by (auto simp: string_bound_def split: pyval.splits list.splits)
  with assms show ?thesis
    by (auto simp: local_ok_def shape_ok_def string_ok_def dest: count_ok_upper)
qed

lemma resolve_fewer_pending:
  "resolve doc stack s = Some t \<Longrightarrow> set stack' \<subseteq> set stack \<Longrightarrow> resolve doc stack' s = Some t"
proof (induction doc stack s arbitrary: t stack' rule: resolve.induct)
  case (1 doc stack s)
  show ?case
  proof (cases "get_none ''$ref'' s = PNone")
    case True
    with "1.prems"(1) show ?thesis by (simp add: resolve.simps)
  next
    case False
    with "1.prems"(1) obtain name target where r: "reference_name s = Some name" "name \<notin> set stack"
      "definition_of doc name = Some target" "resolve doc (stack @ [name]) target = Some t"
      by (subst (asm) resolve.simps) (auto split: option.splits if_splits)
    have "resolve doc (stack' @ [name]) target = Some t"
      using "1.IH" [OF False r(1-3) r(4), of "stack' @ [name]"] "1.prems"(2) by auto
    with False r "1.prems"(2) show ?thesis by (subst resolve.simps) auto
  qed
qed

text \<open>A schema that is a reference accepts what its definition accepts.\<close>

lemma accepts_definition:
  assumes "accepts other doc s v" and "get_none ''$ref'' s = PStr r"
  shows "\<exists>target. definition_of doc (remove_prefix local_definition_prefix r) = Some target \<and> accepts other doc target v"
proof -
  from assms(1) obtain t where t: "resolve doc [] s = Some t" by (auto elim: accepts.cases)
  with assms(2) obtain target where d: "definition_of doc (remove_prefix local_definition_prefix r) = Some target"
    and "resolve doc [remove_prefix local_definition_prefix r] target = Some t"
    by (subst (asm) resolve.simps) (auto simp: reference_name_def split: option.splits if_splits)
  from resolve_fewer_pending [OF this(2), of "[]"] have "resolve doc [] target = Some t" by simp
  from accepts_resolved [OF t] accepts_resolved [OF this] assms(1) d show ?thesis by auto
qed

lemma typed_children_type:
  assumes "typed_children p at_root path s = Inr cs" "get_none ''anyOf'' s = PNone" "get_none ''$ref'' s = PNone"
  shows "\<exists>ty. get_none ''type'' s = PStr ty \<and> (ty = ''object'' \<longrightarrow> object_children p path s = Inr cs) \<and>
    (ty = ''string'' \<longrightarrow> (\<exists>i. string_bound s = PInt i \<and> i \<le> sp_string_length p)) \<and>
    (ty = ''array'' \<longrightarrow> (\<exists>i. get_none ''maxItems'' s = PInt i \<and> i \<le> sp_array_items p \<and>
       cs = [(path @ ''.items'', get_none ''items'' s)]))"
  using assms
  by (cases "get_none ''type'' s") (auto simp: typed_children_def required_bound_ok split: if_splits)

lemma distinct_listed:
  assumes "distinct (map fst d)" "\<forall>kv\<in>set d. is_kstr (fst kv) \<and> has_key (key_name (fst kv)) ps"
  shows "length d \<le> length ps"
proof -
  have "fst ` set d \<subseteq> fst ` set ps"
  proof
    fix k assume "k \<in> fst ` set d"
    with assms(2) have "is_kstr k" "has_key (key_name k) ps" by auto
    then show "k \<in> fst ` set ps" by (cases k) (auto simp: has_key_def)
  qed
  then have "card (fst ` set d) \<le> card (fst ` set ps)" by (intro card_mono) auto
  also have "\<dots> \<le> length ps" by (metis card_length length_map list.set_map)
  finally show ?thesis using assms(1) by (metis distinct_card length_map list.set_map)
qed

lemma mapping_children:
  assumes "object_children p path s = Inr cs" "get_none ''properties'' s = PNone"
    and "schema_of (get_none ''additionalProperties'' s) = Some a"
  shows "cs = [(path @ ''.additionalProperties'', get_none ''additionalProperties'' s)]"
    and "\<exists>i. get_none ''maxProperties'' s = PInt i \<and> i \<le> sp_properties p"
  using assms by (auto simp: object_children_def required_bound_ok)

lemma closed_children:
  assumes "object_children p path s = Inr cs"
    and "\<not> (get_none ''properties'' s = PNone \<and> schema_of (get_none ''additionalProperties'' s) \<noteq> None)"
  shows "get_none ''additionalProperties'' s = PBool False \<and>
    (\<exists>ps. (if get_none ''properties'' s = PNone then ps = [] else schema_of (get_none ''properties'' s) = Some ps) \<and>
       int (length ps) \<le> sp_properties p \<and> cs = map (\<lambda>(k, v). (path @ ''.properties.'' @ key_name k, v)) ps)"
  using assms
  by (cases "get_or (PList []) ''required'' s")
    (auto simp: object_children_def split: if_splits option.splits)

lemma keys_distinct_list [simp]: "keys_distinct (PList xs) \<longleftrightarrow> (\<forall>x\<in>set xs. keys_distinct x)"
  by (auto simp: list_all_iff)

lemma keys_distinct_dict [simp]: "keys_distinct (PDict d) \<longleftrightarrow> distinct (map fst d) \<and> (\<forall>kv\<in>set d. keys_distinct (snd kv))"
  by (force simp: list_all_iff)

declare keys_distinct.simps(6,7) [simp del]

definition document_definitions :: "schema \<Rightarrow> schema option" where
  "document_definitions doc = schema_of (get_or (PDict []) ''$defs'' doc)"

lemma definition_of_listed:
  "\<lbrakk>definition_of doc name = Some t; document_definitions doc = Some defs\<rbrakk> \<Longrightarrow> schema_of (get_none name defs) = Some t"
  by (auto simp: definition_of_def document_definitions_def get_or_def split: option.splits)

text \<open>The entries of an accepted object and its parts.\<close>

lemma accepted_object:
  assumes "accepts other doc s (PDict d)" "get_none ''$ref'' s = PNone"
  shows "object_ok s d" "\<And>k v t. (KStr k, v) \<in> set d \<Longrightarrow> property_schema s k = Some t \<Longrightarrow> accepts other doc t v"
proof -
  note e = acceptsE [OF assms(1) resolve_done [OF assms(2)]]
  from e(1) show "object_ok s d" by (simp add: local_ok_def shape_ok_def)
  fix k v t assume kv: "(KStr k, v) \<in> set d" and t: "property_schema s k = Some t"
  have "(t, v) \<in> entry_parts s (KStr k, v)" using t by (auto simp: entry_parts_def)
  with kv have "(t, v) \<in> parts s (PDict d)" by (auto simp: parts_def)
  then show "accepts other doc t v" by (rule e(2))
qed

lemma is_kstr_pair: "is_kstr (fst kv) \<Longrightarrow> \<exists>k v. kv = (KStr k, v)"
  by (cases kv rule: prod.exhaust) (auto elim: is_kstr.elims)

lemma bounded_object:
  assumes "accepts other doc s (PDict d)" "get_none ''$ref'' s = PNone" "distinct (map fst d)"
    and "object_children p path s = Inr cs"
    and "\<And>c t k v. c \<in> set cs \<Longrightarrow> schema_of (snd c) = Some t \<Longrightarrow> (k, v) \<in> set d \<Longrightarrow> accepts other doc t v \<Longrightarrow> Q v"
    and "\<And>c. c \<in> set cs \<Longrightarrow> schema_of (snd c) \<noteq> None"
  shows "int (length d) \<le> sp_properties p \<and> (\<forall>kv\<in>set d. Q (snd kv))"
proof -
  note obj = accepted_object [OF assms(1,2)]
  have keys: "\<forall>kv\<in>set d. is_kstr (fst kv)" using obj(1) by (simp add: object_ok_def)
  show ?thesis
  proof (cases "get_none ''properties'' s = PNone \<and> schema_of (get_none ''additionalProperties'' s) \<noteq> None")
    case True
    then obtain a where a: "get_none ''properties'' s = PNone" "schema_of (get_none ''additionalProperties'' s) = Some a"
      by auto
    note m = mapping_children [OF assms(4) a]
    from m(2) obj(1) have "int (length d) \<le> sp_properties p"
      by (auto simp: object_ok_def dest: count_ok_upper)
    moreover have "Q (snd kv)" if kvd: "kv \<in> set d" for kv
    proof -
      obtain k v where kv: "kv = (KStr k, v)" using is_kstr_pair keys kvd by blast
      have "property_schema s k = Some a" using a by (simp add: property_schema_def)
      with obj(2) that kv have "accepts other doc a v" by blast
      with assms(5) [of _ a "KStr k" v] m(1) a(2) that kv show ?thesis by simp
    qed
    ultimately show ?thesis by blast
  next
    case False
    from closed_children [OF assms(4) this] obtain ps where c: "get_none ''additionalProperties'' s = PBool False"
      and ps: "if get_none ''properties'' s = PNone then ps = [] else schema_of (get_none ''properties'' s) = Some ps"
      "int (length ps) \<le> sp_properties p" "cs = map (\<lambda>(k, v). (path @ ''.properties.'' @ key_name k, v)) ps" by blast
    have listed: "listed_property s (key_name (fst kv))" if "kv \<in> set d" for kv
      using obj(1) c that by (simp add: object_ok_def)
    have sch: "schema_of (get_none ''properties'' s) = Some ps" if "kv \<in> set d" for kv
      using ps(1) listed [OF that] by (auto simp: listed_property_def split: if_splits)
    have "\<forall>kv\<in>set d. is_kstr (fst kv) \<and> has_key (key_name (fst kv)) ps"
      using keys listed sch by (auto simp: listed_property_def)
    from distinct_listed [OF assms(3) this] ps(2) have "int (length d) \<le> sp_properties p" by simp
    moreover have "Q (snd kv)" if kvd: "kv \<in> set d" for kv
    proof -
      obtain k v where kv: "kv = (KStr k, v)" using is_kstr_pair keys kvd by blast
      have hk: "has_key k ps" using listed [OF that] sch [OF that] kv by (simp add: listed_property_def)
      then have "dict_get k ps \<noteq> None" by (simp add: has_key_def dict_get_def map_of_eq_None_iff)
      then have in_ps: "(KStr k, get_none k ps) \<in> set ps"
        by (auto simp: get_or_def dict_get_def dest: map_of_SomeD)
      then have child: "(path @ ''.properties.'' @ k, get_none k ps) \<in> set cs"
        unfolding ps(3) by force
      from assms(6) [OF this] obtain t where t: "schema_of (get_none k ps) = Some t" by auto
      have "property_schema s k = Some t" using sch [OF that] t by (simp add: property_schema_def)
      with obj(2) that kv have "accepts other doc t v" by blast
      with assms(5) [OF child, of t "KStr k" v] t that kv show ?thesis by simp
    qed
    ultimately show ?thesis by blast
  qed
qed

lemma shaped_bounds:
  assumes "document_definitions doc = Some defs"
  shows "\<lbrakk>shaped p defs n s; accepts other doc s v; keys_distinct v\<rbrakk> \<Longrightarrow> value_within p n v"
proof (induction n arbitrary: s v)
  case (Suc n)
  from Suc.prems(1) obtain path vs path' r at_root path'' cs
    where vs: "variant_children p path s = Inr vs" "\<forall>c\<in>set vs. schema_at (shaped p defs n) (snd c)"
      and r: "schema_reference path' s = Inr r" "\<forall>name. r = Some name \<longrightarrow> schema_at (shaped p defs n) (get_none name defs)"
      and cs: "typed_children p at_root path'' s = Inr cs" "\<forall>c\<in>set cs. schema_at (shaped p defs n) (snd c)"
    by (auto simp: shape_def)
  have sub: "value_within p n x" if "schema_at (shaped p defs n) w" "schema_of w = Some t" "accepts other doc t x" "keys_distinct x" for w t x
    using Suc.IH that by (auto simp: schema_at_def)
  show ?case
  proof (cases "get_none ''$ref'' s = PNone")
    case False
    with r(1) obtain x where x: "get_none ''$ref'' s = PStr x" "r = Some (remove_prefix local_definition_prefix x)"
      by (cases "get_none ''$ref'' s") (auto simp: schema_reference_def split: if_splits)
    from accepts_definition [OF Suc.prems(2) x(1)] obtain target where
      "definition_of doc (remove_prefix local_definition_prefix x) = Some target" "accepts other doc target v" by blast
    with sub r(2) x(2) definition_of_listed [OF _ assms] Suc.prems(3) show ?thesis
      by (blast intro: value_within_Suc)
  next
    case noref: True
    note e = acceptsE [OF Suc.prems(2) resolve_done [OF noref]]
    show ?thesis
    proof (cases "get_none ''anyOf'' s = PNone")
      case False
      with vs(1) obtain ws where ws: "get_none ''anyOf'' s = PList ws" "vs = enumerated (path @ ''.anyOf'') ws"
        by (cases "get_none ''anyOf'' s") (auto simp: variant_children_def split: if_splits)
      have "has_key ''anyOf'' s"
        using ws(1) get_none_cases [of "''anyOf''" s] by (auto simp: has_key_def intro: rev_image_eqI)
      from e(3) [OF this] obtain us w where us: "variant_list s = Some us" "w \<in> set us" "accepts other doc w v" by blast
      with ws(1) obtain x where x: "x \<in> set ws" "schema_of x = Some w"
        by (auto simp: variant_list_def list_all_iff split: if_splits)
      have "x \<in> snd ` set vs" using x(1) unfolding ws(2) enumerated_def
        by (simp flip: set_map)
      with vs(2) have "schema_at (shaped p defs n) x" by auto
      from sub [OF this x(2) us(3) Suc.prems(3)] show ?thesis by (rule value_within_Suc)
    next
      case True
      from typed_children_type [OF cs(1) True noref] obtain ty where
        T: "get_none ''type'' s = PStr ty \<and> (ty = ''object'' \<longrightarrow> object_children p path'' s = Inr cs) \<and>
          (ty = ''string'' \<longrightarrow> (\<exists>i. string_bound s = PInt i \<and> i \<le> sp_string_length p)) \<and>
          (ty = ''array'' \<longrightarrow> (\<exists>i. get_none ''maxItems'' s = PInt i \<and> i \<le> sp_array_items p \<and>
             cs = [(path'' @ ''.items'', get_none ''items'' s)]))" ..
      note ty = T [THEN conjunct1] and obj = T [THEN conjunct2, THEN conjunct1]
        and str = T [THEN conjunct2, THEN conjunct2, THEN conjunct1]
        and arr = T [THEN conjunct2, THEN conjunct2, THEN conjunct2]
      from e(1) ty have hty: "has_type ty v" by (simp add: local_ok_def type_ok_def)
      show ?thesis
      proof (cases v)
        case (PStr x)
        with hty have "ty = ''string''" by (simp add: has_type_def)
        with str obtain i where i: "string_bound s = PInt i" "i \<le> sp_string_length p" by blast
        from e(1) PStr have "local_ok other s (PStr x)" by simp
        from accepted_string [OF this i(1)] i(2) PStr show ?thesis by simp
      next
        case (PList xs)
        with hty have "ty = ''array''" by (simp add: has_type_def)
        with arr obtain i where i: "get_none ''maxItems'' s = PInt i" "i \<le> sp_array_items p"
          "cs = [(path'' @ ''.items'', get_none ''items'' s)]" by blast
        have "int (length xs) \<le> i" using e(1) PList i(1)
          by (auto simp: local_ok_def shape_ok_def array_ok_def dest: count_ok_upper)
        moreover have "value_within p n x" if "x \<in> set xs" for x
        proof -
          from cs(2) i(3) have at: "schema_at (shaped p defs n) (get_none ''items'' s)" by simp
          then obtain t where t: "schema_of (get_none ''items'' s) = Some t" by (auto simp: schema_at_def)
          have "(t, x) \<in> parts s v" using PList t that by (simp add: parts_def)
          from sub [OF at t e(2) [OF this]] Suc.prems(3) PList that show ?thesis by simp
        qed
        ultimately show ?thesis using PList i(2) by (simp add: list_all_iff)
      next
        case (PDict d)
        with hty have "ty = ''object''" by (simp add: has_type_def)
        from obj [rule_format, OF this] have oc: "object_children p path'' s = Inr cs" .
        have "int (length d) \<le> sp_properties p \<and> (\<forall>kv\<in>set d. value_within p n (snd kv))"
        proof (rule bounded_object [OF _ noref _ oc])
          show "accepts other doc s (PDict d)" "distinct (map fst d)" using Suc.prems(2,3) PDict by auto
          show "schema_of (snd c) \<noteq> None" if "c \<in> set cs" for c
            using cs(2) that by (auto simp: schema_at_def)
          show "value_within p n x" if "c \<in> set cs" "schema_of (snd c) = Some t" "(k, x) \<in> set d" "accepts other doc t x" for c t k x
            using sub [of "snd c" t x] cs(2) that Suc.prems(3) PDict by fastforce
        qed
        then show ?thesis using PDict by (simp add: list_all_iff)
      qed (use hty in \<open>simp_all add: has_type_def\<close>)
    qed
  qed
qed simp

text \<open>A schema the validator admits bounds the values it accepts.\<close>

lemma validated_schema_bounds:
  assumes "validate_schema frepr p path (PDict doc) = Inr ()"
    and "accepts other doc doc v" and "keys_distinct v"
  shows "value_within p (nat (sp_depth p)) v"
proof -
  from assms(1) obtain defs st where doc: "schema_of (PDict doc) = Some doc"
    and defs: "document_definitions doc = Some defs"
    and run: "validate_value \<lparr>se_definitions = defs, se_policy = p, se_root_path = path\<rparr> 1 True [] path (PDict doc)
        \<lparr>ss_nodes = 0, ss_depths = []\<rparr> = Inr st"
    by (auto simp: validate_schema_def document_definitions_def Let_def split: option.splits if_splits)
  have "visited_ok \<lparr>se_definitions = defs, se_policy = p, se_root_path = path\<rparr> [] \<lparr>ss_nodes = 0, ss_depths = []\<rparr>"
    by (simp add: visited_ok_def)
  from validation_shapes(1) [OF run this] doc have "shaped p defs (nat (sp_depth p)) doc"
    by (simp add: below_def schema_at_def)
  from shaped_bounds [OF defs this assms(2,3)] show ?thesis .
qed

lemma validated_schema_json: "validate_schema frepr p path v = Inr () \<Longrightarrow> is_json_object v"
  using dumps_Some_iff [of frepr v]
  by (cases v) (auto simp: validate_schema_def split: option.splits if_splits)

subsection \<open>The catalog\<close>

record tool_source =
  so_metadata :: tool_metadata
  so_input_schema :: pyval
  so_output_schema :: pyval

datatype catalog_error = Contract_violation violation | Manifest_error value_error

record tool_catalog =
  ct_tools :: "tool_source list"
  ct_manifests :: "tool_manifest list"

definition as_catalog_error :: "'a validated \<Rightarrow> (catalog_error, 'a) result" where
  "as_catalog_error r = (case r of Inl e \<Rightarrow> Inl (Contract_violation e) | Inr a \<Rightarrow> Inr a)"

definition tool_path :: "nat \<Rightarrow> string \<Rightarrow> string" where
  "tool_path i field = index_path ''tools'' i @ ''.'' @ field"

definition duplicate_of :: "(string \<times> nat \<times> string) list \<Rightarrow> nat \<Rightarrow> string \<Rightarrow> unit validated" where
  "duplicate_of names i name =
     (case map_of names (normalize_tool_name name) of
        None \<Rightarrow> Inr ()
      | Some (j, first) \<Rightarrow> Inl (Duplicate_tool_name first (tool_path j ''metadata.name'') name (tool_path i ''metadata.name'')))"

fun register_tools ::
  "(rat \<Rightarrow> string) \<Rightarrow> (string \<Rightarrow> string) \<Rightarrow> schema_policy \<Rightarrow> metadata_policy \<Rightarrow> nat \<Rightarrow> (string \<times> nat \<times> string) list
     \<Rightarrow> tool_source list \<Rightarrow> (catalog_error, tool_manifest list) result" where
  "register_tools frepr sha sp mp i names [] = Inr []"
| "register_tools frepr sha sp mp i names (t # ts) =
     and_then (as_catalog_error (validate_metadata mp (so_metadata t))) (\<lambda>_.
     (let name = tm_name (so_metadata t); normalized = normalize_tool_name name in
      and_then (as_catalog_error (duplicate_of names i name)) (\<lambda>_.
      and_then (as_catalog_error (validate_schema frepr sp (tool_path i ''input_schema'') (so_input_schema t))) (\<lambda>_.
      and_then (as_catalog_error (validate_schema frepr sp (tool_path i ''output_schema'') (so_output_schema t))) (\<lambda>_.
      and_then (case make_tool_manifest frepr sha (so_metadata t) normalized (so_input_schema t) (so_output_schema t) of
          Inl e \<Rightarrow> Inl (Manifest_error e) | Inr m \<Rightarrow> Inr m) (\<lambda>m.
      and_then (register_tools frepr sha sp mp (Suc i) (dict_put normalized (i, name) names) ts) (\<lambda>ms.
      Inr (m # ms))))))))"

definition make_tool_catalog ::
  "(rat \<Rightarrow> string) \<Rightarrow> (string \<Rightarrow> string) \<Rightarrow> schema_policy \<Rightarrow> metadata_policy \<Rightarrow> tool_source list
     \<Rightarrow> (catalog_error, tool_catalog) result" where
  "make_tool_catalog frepr sha sp mp tools =
     and_then (register_tools frepr sha sp mp 0 [] tools) (\<lambda>ms. Inr \<lparr>ct_tools = tools, ct_manifests = ms\<rparr>)"

definition catalog_get :: "tool_catalog \<Rightarrow> string \<Rightarrow> tool_source option" where
  "catalog_get c name = map_of (map (\<lambda>t. (tm_name (so_metadata t), t)) (ct_tools c)) name"

definition export_metadata :: "tool_catalog \<Rightarrow> pyval list" where
  "export_metadata c = map manifest_to_dict (ct_manifests c)"

lemma as_catalog_error_Inr [simp]: "as_catalog_error r = Inr a \<longleftrightarrow> r = Inr a"
  by (simp add: as_catalog_error_def split: sum.split)

definition tool_key :: "tool_source \<Rightarrow> string" where
  "tool_key t = normalize_tool_name (tm_name (so_metadata t))"

definition described_by :: "tool_source \<Rightarrow> tool_manifest \<Rightarrow> bool" where
  "described_by t m \<longleftrightarrow> mf_metadata m = so_metadata t \<and> mf_normalized_name m = tool_key t \<and>
     mf_input_schema m = sort_entries (so_input_schema t) \<and> mf_output_schema m = sort_entries (so_output_schema t)"

lemma register_tools_ok:
  assumes "register_tools frepr sha sp mp i names ts = Inr ms"
  shows "distinct (map tool_key ts) \<and> set (map tool_key ts) \<inter> fst ` set names = {} \<and> list_all2 described_by ts ms \<and>
    (\<forall>t\<in>set ts. validate_metadata mp (so_metadata t) = Inr () \<and>
       (\<exists>path. validate_schema frepr sp path (so_input_schema t) = Inr ()) \<and>
       (\<exists>path. validate_schema frepr sp path (so_output_schema t) = Inr ()))"
  using assms
proof (induction ts arbitrary: i names ms)
  case (Cons t ts)
  from Cons.prems obtain m ms' where ok: "validate_metadata mp (so_metadata t) = Inr ()"
      "duplicate_of names i (tm_name (so_metadata t)) = Inr ()"
      "validate_schema frepr sp (tool_path i ''input_schema'') (so_input_schema t) = Inr ()"
      "validate_schema frepr sp (tool_path i ''output_schema'') (so_output_schema t) = Inr ()"
    and m: "make_tool_manifest frepr sha (so_metadata t) (tool_key t) (so_input_schema t) (so_output_schema t) = Inr m"
    and rest: "register_tools frepr sha sp mp (Suc i) (dict_put (tool_key t) (i, tm_name (so_metadata t)) names) ts = Inr ms'"
    and ms: "ms = m # ms'"
    by (auto simp: Let_def tool_key_def split: sum.splits)
  have new: "tool_key t \<notin> fst ` set names"
    using ok(2) by (auto simp: duplicate_of_def tool_key_def map_of_eq_None_iff split: option.splits)
  have keys: "fst ` set (dict_put (tool_key t) (i, tm_name (so_metadata t)) names) = insert (tool_key t) (fst ` set names)"
    using keys_dict_put [of "tool_key t" "(i, tm_name (so_metadata t))" names] new
    by (simp flip: set_map)
  have "described_by t m"
    using m by (auto simp: make_tool_manifest_def described_by_def decoded_object_def)
  with Cons.IH [OF rest] ok(1,3,4) new show ?case unfolding keys ms by auto
qed simp

lemma sort_entries_json: "is_json_value v \<Longrightarrow> is_json_value (sort_entries v)"
proof (induction v)
  case (PDict d)
  then show ?case by (fastforce simp: is_json_dict)
qed auto

text \<open>After the validation of its schemas a tool always has a manifest.\<close>

lemma manifest_made:
  assumes "is_json_object i" "is_json_object j"
  shows "\<exists>m. make_tool_manifest frepr sha md n i j = Inr m"
proof -
  have i: "is_json_value i" "is_json_value j" using assms by (auto elim!: is_json_object.elims)
  then have "is_json_value (obj [(''input_schema'', sort_entries i), (''output_schema'', sort_entries j)])"
    using sort_entries_json by (simp add: obj_def is_json_dict)
  with i assms show ?thesis
    unfolding canonical_json_ok [of frepr, symmetric] is_ok_iff
    by (auto simp: make_tool_manifest_def decoded_object_def)
qed

lemma register_tools_error: "register_tools frepr sha sp mp i names ts = Inl e \<Longrightarrow> \<exists>x. e = Contract_violation x"
proof (induction ts arbitrary: i names)
  case (Cons t ts)
  show ?case
  proof (cases "is_ok (validate_schema frepr sp (tool_path i ''input_schema'') (so_input_schema t)) \<and>
      is_ok (validate_schema frepr sp (tool_path i ''output_schema'') (so_output_schema t))")
    case True
    then have v: "validate_schema frepr sp (tool_path i ''input_schema'') (so_input_schema t) = Inr ()"
      "validate_schema frepr sp (tool_path i ''output_schema'') (so_output_schema t) = Inr ()"
      by (auto simp: is_ok_iff)
    obtain m where "make_tool_manifest frepr sha (so_metadata t) (normalize_tool_name (tm_name (so_metadata t)))
        (so_input_schema t) (so_output_schema t) = Inr m"
      using manifest_made [OF validated_schema_json [OF v(1)] validated_schema_json [OF v(2)]] by blast
    with Cons show ?thesis
      by (auto simp: Let_def and_then_def as_catalog_error_def split: sum.splits)
  next
    case False
    then show ?thesis using Cons.prems
      by (auto simp: Let_def and_then_def as_catalog_error_def is_ok_iff split: sum.splits)
  qed
qed simp

lemma catalog_lookup:
  assumes "distinct (map tool_key ts)" "t \<in> set ts"
  shows "map_of (map (\<lambda>t. (tm_name (so_metadata t), t)) ts) (tm_name (so_metadata t)) = Some t"
proof (rule map_of_is_SomeI)
  have "distinct (map (normalize_tool_name \<circ> (tm_name \<circ> so_metadata)) ts)"
    using assms(1) by (simp add: tool_key_def [abs_def] o_def)
  then have "distinct (map (tm_name \<circ> so_metadata) ts)"
    by (metis distinct_map map_map)
  then show "distinct (map fst (map (\<lambda>t. (tm_name (so_metadata t), t)) ts))" by (simp add: o_def)
qed (use assms(2) in auto)


subsection \<open>Sample\<close>

definition sample_schema :: pyval where
  "sample_schema = obj
     [(''type'', PStr ''object''), (''additionalProperties'', PBool False), (''required'', pstrs [''q'']),
      (''$defs'', obj [(''Q'', obj [(''type'', PStr ''string''), (''maxLength'', PInt 3)])]),
      (''properties'', obj [(''q'', obj [(''$ref'', PStr ''#/$defs/Q'')])])]"

definition sample_source :: tool_source where
  "sample_source = \<lparr>so_metadata = \<lparr>tm_name = ''search'', tm_title = ''Search'', tm_description = ''Search'',
     tm_effect = Effect_READ, tm_approval = Approval_NOT_REQUIRED, tm_idempotency = Idempotency_NOT_APPLICABLE,
     tm_required_scopes = [], tm_discovery = None\<rparr>, so_input_schema = sample_schema, so_output_schema = sample_schema\<rparr>"

lemma sample_registered:
  "is_ok (make_tool_catalog (\<lambda>q. ''0'') (\<lambda>s. ''h'') default_schema_policy default_metadata_policy [sample_source])"
  by code_simp

lemma sample_recursive:
  "case validate_schema (\<lambda>q. ''0'') default_schema_policy ''s''
     (obj [(''$ref'', PStr ''#/$defs/A''), (''$defs'', obj [(''A'', obj [(''$ref'', PStr ''#/$defs/A'')])])]) of
     Inl x \<Rightarrow> violation_code x = ''recursive_schema'' | _ \<Rightarrow> False"
  by code_simp


end
