(* ===== verification/Registry_Cache.thy ===== *)
theory Registry_Cache
  imports Registry_Artifact Errors
begin

section \<open>The cache of the Registry discovery\<close>

text \<open>
  Models the cache half of \<^verbatim>\<open>src/tesserix_mcp_runtime/registry_discovery.py\<close>: the keys that scope
  every entry to an identity, the expiry policy, the cache interface the resolver calls, and
  \<open>InMemoryRegistryCache\<close>, whose two ordered dictionaries are lists of entries, oldest first. Its
  lock makes every operation one step.

  The locale \<open>discovery_cache\<close> is the contract of the interface: a cache may forget, it never
  invents. What a cache returns then is the latest value put under the same key.
\<close>

subsection \<open>Keys and policy\<close>

definition query_contract_version :: string where
  "query_contract_version = ''registry-v0-search-stub-v1''"

record search_key =
  sk_origin :: string
  sk_scope_hash :: string
  sk_contract :: string
  sk_query_digest :: string

record artifact_key =
  ak_origin :: string
  ak_scope_hash :: string
  ak_contract :: string
  ak_digest :: string

definition require_origin :: "(string \<Rightarrow> bool) \<Rightarrow> string \<Rightarrow> check" where
  "require_origin netloc_ok origin =
     and_then (canonical_https_origin netloc_ok ''origin'' origin) (\<lambda>o'.
     raise_if (origin \<noteq> o') (ValueError ''origin must be canonical'') okay)"

definition check_search_key :: "(string \<Rightarrow> bool) \<Rightarrow> search_key \<Rightarrow> check" where
  "check_search_key netloc_ok k =
     and_then (require_origin netloc_ok (sk_origin k)) (\<lambda>_.
     raise_if (\<not> fullmatch hex64 (sk_scope_hash k) \<or> \<not> fullmatch hex64 (sk_query_digest k))
       (ValueError ''cache hashes must be lowercase SHA-256 digests'')
     (raise_if (sk_contract k \<noteq> query_contract_version)
       (ValueError ''contract_version must identify the shipped query contract'') okay))"

definition check_artifact_key :: "(string \<Rightarrow> bool) \<Rightarrow> artifact_key \<Rightarrow> check" where
  "check_artifact_key netloc_ok k =
     and_then (require_origin netloc_ok (ak_origin k)) (\<lambda>_.
     raise_if (\<not> fullmatch hex64 (ak_scope_hash k))
       (ValueError ''identity_scope_hash must be a lowercase SHA-256 digest'')
     (raise_if (ak_contract k \<noteq> query_contract_version)
       (ValueError ''contract_version must identify the shipped query contract'')
     (raise_if (\<not> fullmatch sha256_ref (ak_digest k))
       (ValueError ''artifact_digest must be a Registry SHA-256 digest'') okay)))"

record cache_policy =
  cp_search_ttl :: pyfloat
  cp_artifact_ttl :: pyfloat
  cp_max_stale :: pyfloat

definition default_cache_policy :: cache_policy where
  "default_cache_policy = \<lparr>cp_search_ttl = Fin 30, cp_artifact_ttl = Fin 60, cp_max_stale = Fin 0\<rparr>"

definition check_cache_policy :: "cache_policy \<Rightarrow> check" where
  "check_cache_policy p =
     for_each (\<lambda>(name, v, lower, upper).
       raise_if (\<not> is_finite v \<or> \<not> (Fin lower \<le> v \<and> v \<le> Fin upper))
         (ValueError (name @ '' must be within its safe bound'')) okay)
       [(''search_ttl_seconds'', cp_search_ttl p, 1/1000, 30),
        (''artifact_ttl_seconds'', cp_artifact_ttl p, 1/1000, 60),
        (''offline_max_stale_seconds'', cp_max_stale p, 0, 3600)]"

subsection \<open>The interface\<close>

datatype cache_error = Cache_unavailable | Cache_raises exn

record search_entry =
  ce_stubs :: "search_stub list"
  ce_expires_at :: pyfloat

record artifact_entry =
  ca_artifact :: registry_artifact
  ca_fresh_until :: pyfloat
  ca_stale_until :: pyfloat

record 'c cache_ops =
  co_get_search :: "search_key \<Rightarrow> pyfloat \<Rightarrow> 'c \<Rightarrow> (cache_error, search_stub list option) result \<times> 'c"
  co_put_search :: "search_key \<Rightarrow> search_entry \<Rightarrow> 'c \<Rightarrow> (cache_error, unit) result \<times> 'c"
  co_get_artifact :: "artifact_key \<Rightarrow> pyfloat \<Rightarrow> bool \<Rightarrow> 'c \<Rightarrow> (cache_error, registry_artifact option) result \<times> 'c"
  co_put_artifact :: "artifact_key \<Rightarrow> artifact_entry \<Rightarrow> 'c \<Rightarrow> (cache_error, unit) result \<times> 'c"

subsection \<open>The cache in memory\<close>

record memory_cache =
  mc_max_searches :: nat
  mc_max_artifacts :: nat
  mc_searches :: "(search_key \<times> search_entry) list"
  mc_artifacts :: "(artifact_key \<times> artifact_entry) list"

definition make_memory_cache :: "int \<Rightarrow> int \<Rightarrow> (value_error, memory_cache) result" where
  "make_memory_cache searches artifacts =
     and_then (for_each (\<lambda>(name, v, maximum).
         raise_if (\<not> (1 \<le> v \<and> v \<le> maximum)) (ValueError (name @ '' must be within its hard bound'')) okay)
       [(''max_search_entries'', searches, 1024), (''max_artifact_entries'', artifacts, 256)]) (\<lambda>_.
     Inr \<lparr>mc_max_searches = nat searches, mc_max_artifacts = nat artifacts, mc_searches = [], mc_artifacts = []\<rparr>)"

definition cache_value_error :: cache_error where
  "cache_value_error = Cache_raises \<lparr>exn_kind = PyValueError, exn_type = ''ValueError''\<rparr>"

definition validate_time :: "pyfloat \<Rightarrow> (cache_error, unit) result" where
  "validate_time v = raise_if (\<not> is_finite v \<or> v < Fin 0) cache_value_error (Inr ())"

text \<open>\<open>d.move_to_end(k)\<close> of a present key, and \<open>d[k] = e\<close> followed by it.\<close>

definition touch :: "'k \<Rightarrow> 'e \<Rightarrow> ('k \<times> 'e) list \<Rightarrow> ('k \<times> 'e) list" where
  "touch k e d = dict_del k d @ [(k, e)]"

text \<open>\<open>while len(d) > m: d.popitem(last=False)\<close>.\<close>

fun evict :: "nat \<Rightarrow> ('k \<times> 'e) list \<Rightarrow> ('k \<times> 'e) list" where
  "evict m [] = []"
| "evict m (kv # d) = (if length (kv # d) > m then evict m d else kv # d)"

definition get_search ::
  "search_key \<Rightarrow> pyfloat \<Rightarrow> memory_cache \<Rightarrow> (cache_error, search_stub list option) result \<times> memory_cache" where
  "get_search k now c =
     run_then (validate_time now, c) (\<lambda>_ c.
     (case map_of (mc_searches c) k of
        None \<Rightarrow> (Inr None, c)
      | Some e \<Rightarrow>
          if now \<ge> ce_expires_at e then (Inr None, c\<lparr>mc_searches := dict_del k (mc_searches c)\<rparr>)
          else (Inr (Some (ce_stubs e)), c\<lparr>mc_searches := touch k e (mc_searches c)\<rparr>)))"

definition put_search ::
  "search_key \<Rightarrow> search_entry \<Rightarrow> memory_cache \<Rightarrow> (cache_error, unit) result \<times> memory_cache" where
  "put_search k e c =
     run_then (validate_time (ce_expires_at e), c) (\<lambda>_ c.
     if length (ce_stubs e) > max_search_results then (Inl cache_value_error, c)
     else (Inr (), c\<lparr>mc_searches := evict (mc_max_searches c) (touch k e (mc_searches c))\<rparr>))"

definition get_artifact ::
  "artifact_key \<Rightarrow> pyfloat \<Rightarrow> bool \<Rightarrow> memory_cache \<Rightarrow> (cache_error, registry_artifact option) result \<times> memory_cache" where
  "get_artifact k now allow_stale c =
     run_then (validate_time now, c) (\<lambda>_ c.
     (case map_of (mc_artifacts c) k of
        None \<Rightarrow> (Inr None, c)
      | Some e \<Rightarrow>
          if now \<ge> ca_stale_until e then (Inr None, c\<lparr>mc_artifacts := dict_del k (mc_artifacts c)\<rparr>)
          else if now \<ge> ca_fresh_until e \<and> \<not> allow_stale then (Inr None, c)
          else (Inr (Some (ca_artifact e)), c\<lparr>mc_artifacts := touch k e (mc_artifacts c)\<rparr>)))"

definition put_artifact ::
  "artifact_key \<Rightarrow> artifact_entry \<Rightarrow> memory_cache \<Rightarrow> (cache_error, unit) result \<times> memory_cache" where
  "put_artifact k e c =
     run_then (validate_time (ca_fresh_until e), c) (\<lambda>_ c.
     run_then (validate_time (ca_stale_until e), c) (\<lambda>_ c.
     if ca_stale_until e < ca_fresh_until e then (Inl cache_value_error, c)
     else (Inr (), c\<lparr>mc_artifacts := evict (mc_max_artifacts c) (touch k e (mc_artifacts c))\<rparr>)))"

definition memory_ops :: "memory_cache cache_ops" where
  "memory_ops = \<lparr>co_get_search = get_search, co_put_search = put_search,
     co_get_artifact = get_artifact, co_put_artifact = put_artifact\<rparr>"

subsection \<open>The ordered dictionary\<close>

lemma evict_drop: "evict m d = drop (length d - m) d"
  by (induction d) (auto simp: Suc_diff_le)

lemma length_evict: "length (evict m d) \<le> m"
  by (simp add: evict_drop)

lemma map_of_drop:
  assumes "distinct (map fst d)"
  shows "map_of (drop n d) \<subseteq>\<^sub>m map_of d"
  unfolding map_le_def
proof
  fix k assume "k \<in> dom (map_of (drop n d))"
  then obtain e where e: "map_of (drop n d) k = Some e" by blast
  then have "(k, e) \<in> set d" by (auto dest: map_of_SomeD in_set_dropD)
  with assms e show "map_of (drop n d) k = map_of d k" by (simp add: map_of_is_SomeI)
qed

lemma keys_touch: "distinct (map fst d) \<Longrightarrow> distinct (map fst (touch k e d))"
  by (auto simp: touch_def dict_del_def distinct_map_filter)

lemma map_of_touch: "map_of (touch k e d) = (map_of d)(k \<mapsto> e)"
  by (rule ext) (auto simp: touch_def map_add_def split: option.split)

lemma length_touch: "(k, e) \<in> set d \<Longrightarrow> length (touch k e d) \<le> length d"
  using length_filter_less [of "(k, e)" d "\<lambda>kv. fst kv \<noteq> k"] by (simp add: touch_def dict_del_def)

lemma length_dict_del: "length (dict_del k d) \<le> length d"
  by (simp add: dict_del_def)

subsection \<open>The contract of a cache\<close>

locale discovery_cache =
  fixes ops :: "'c cache_ops"
    and searches :: "'c \<Rightarrow> search_key \<rightharpoonup> search_entry"
    and artifacts :: "'c \<Rightarrow> artifact_key \<rightharpoonup> artifact_entry"
    and inv :: "'c \<Rightarrow> bool"
  assumes get_search_law: "\<lbrakk>inv c; co_get_search ops k now c = (r, d)\<rbrakk> \<Longrightarrow>
      inv d \<and> searches d \<subseteq>\<^sub>m searches c \<and> artifacts d \<subseteq>\<^sub>m artifacts c \<and>
      (\<forall>stubs. r = Inr (Some stubs) \<longrightarrow>
         (\<exists>e. searches c k = Some e \<and> ce_stubs e = stubs \<and> \<not> ce_expires_at e \<le> now))"
    and put_search_law: "\<lbrakk>inv c; co_put_search ops k e c = (r', d)\<rbrakk> \<Longrightarrow>
      inv d \<and> artifacts d \<subseteq>\<^sub>m artifacts c \<and>
      searches d \<subseteq>\<^sub>m (if is_ok r' then (searches c)(k \<mapsto> e) else searches c)"
    and get_artifact_law: "\<lbrakk>inv c; co_get_artifact ops l now allow_stale c = (q, d)\<rbrakk> \<Longrightarrow>
      inv d \<and> searches d \<subseteq>\<^sub>m searches c \<and> artifacts d \<subseteq>\<^sub>m artifacts c \<and>
      (\<forall>a. q = Inr (Some a) \<longrightarrow>
         (\<exists>e. artifacts c l = Some e \<and> ca_artifact e = a \<and> \<not> ca_stale_until e \<le> now \<and>
           (allow_stale \<or> \<not> ca_fresh_until e \<le> now)))"
    and put_artifact_law: "\<lbrakk>inv c; co_put_artifact ops l f c = (q', d)\<rbrakk> \<Longrightarrow>
      inv d \<and> searches d \<subseteq>\<^sub>m searches c \<and>
      artifacts d \<subseteq>\<^sub>m (if is_ok q' then (artifacts c)(l \<mapsto> f) else artifacts c)"

text \<open>
  A history of operations, with the latest entry put under every key beside the cache.
\<close>

datatype cache_op =
    Get_search search_key pyfloat
  | Put_search search_key search_entry
  | Get_artifact artifact_key pyfloat bool
  | Put_artifact artifact_key artifact_entry

record latest =
  la_searches :: "search_key \<rightharpoonup> search_entry"
  la_artifacts :: "artifact_key \<rightharpoonup> artifact_entry"

fun cache_step :: "'c cache_ops \<Rightarrow> cache_op \<Rightarrow> 'c \<times> latest \<Rightarrow> 'c \<times> latest" where
  "cache_step ops (Get_search k now) (c, m) = (snd (co_get_search ops k now c), m)"
| "cache_step ops (Put_search k e) (c, m) =
     (case co_put_search ops k e c of
        (r, d) \<Rightarrow> (d, if is_ok r then m\<lparr>la_searches := (la_searches m)(k \<mapsto> e)\<rparr> else m))"
| "cache_step ops (Get_artifact k now stale) (c, m) = (snd (co_get_artifact ops k now stale c), m)"
| "cache_step ops (Put_artifact k e) (c, m) =
     (case co_put_artifact ops k e c of
        (r, d) \<Rightarrow> (d, if is_ok r then m\<lparr>la_artifacts := (la_artifacts m)(k \<mapsto> e)\<rparr> else m))"

definition cache_run :: "'c cache_ops \<Rightarrow> cache_op list \<Rightarrow> 'c \<times> latest \<Rightarrow> 'c \<times> latest" where
  "cache_run ops history s = fold (cache_step ops) history s"

definition nothing_put :: latest where
  "nothing_put = \<lparr>la_searches = Map.empty, la_artifacts = Map.empty\<rparr>"

lemma map_le_put: "f \<subseteq>\<^sub>m g(k \<mapsto> e) \<Longrightarrow> g \<subseteq>\<^sub>m h \<Longrightarrow> f \<subseteq>\<^sub>m h(k \<mapsto> e)"
  by (erule map_le_trans) (erule map_le_upd)

context discovery_cache
begin

definition agrees :: "'c \<times> latest \<Rightarrow> bool" where
  "agrees s \<longleftrightarrow> inv (fst s) \<and> searches (fst s) \<subseteq>\<^sub>m la_searches (snd s) \<and>
     artifacts (fst s) \<subseteq>\<^sub>m la_artifacts (snd s)"

lemma agrees_ops:
  "\<lbrakk>agrees (c, m); co_get_search ops k now c = (r, d)\<rbrakk> \<Longrightarrow> agrees (d, m)"
  "\<lbrakk>agrees (c, m); co_put_search ops k e c = (r', d)\<rbrakk> \<Longrightarrow>
     agrees (d, if is_ok r' then m\<lparr>la_searches := (la_searches m)(k \<mapsto> e)\<rparr> else m)"
  "\<lbrakk>agrees (c, m); co_get_artifact ops l now stale c = (q, d)\<rbrakk> \<Longrightarrow> agrees (d, m)"
  "\<lbrakk>agrees (c, m); co_put_artifact ops l f c = (q', d)\<rbrakk> \<Longrightarrow>
     agrees (d, if is_ok q' then m\<lparr>la_artifacts := (la_artifacts m)(l \<mapsto> f)\<rparr> else m)"
proof -
  assume a: "agrees (c, m)"
  note le = map_le_trans [of "searches d" "searches c" "la_searches m"]
    map_le_trans [of "artifacts d" "artifacts c" "la_artifacts m"]
    map_le_put [of "searches d" "searches c" k e "la_searches m"]
    map_le_put [of "artifacts d" "artifacts c" l f "la_artifacts m"]
  show "co_get_search ops k now c = (r, d) \<Longrightarrow> agrees (d, m)"
    using a le get_search_law [of c k now r d] by (simp add: agrees_def)
  show "co_put_search ops k e c = (r', d) \<Longrightarrow>
      agrees (d, if is_ok r' then m\<lparr>la_searches := (la_searches m)(k \<mapsto> e)\<rparr> else m)"
    using a le put_search_law [of c k e r' d] by (simp add: agrees_def split: if_splits)
  show "co_get_artifact ops l now stale c = (q, d) \<Longrightarrow> agrees (d, m)"
    using a le get_artifact_law [of c l now stale q d] by (simp add: agrees_def)
  show "co_put_artifact ops l f c = (q', d) \<Longrightarrow>
      agrees (d, if is_ok q' then m\<lparr>la_artifacts := (la_artifacts m)(l \<mapsto> f)\<rparr> else m)"
    using a le put_artifact_law [of c l f q' d] by (simp add: agrees_def split: if_splits)
qed

lemma agrees_step:
  assumes "agrees (c, m)"
  shows "agrees (cache_step ops p (c, m))"
proof (cases p)
  case (Get_search k now)
  then show ?thesis using agrees_ops(1) [OF assms surjective_pairing] by simp
next
  case (Put_search k e)
  obtain r d where "co_put_search ops k e c = (r, d)" by fastforce
  with Put_search agrees_ops(2) [OF assms this] show ?thesis by simp
next
  case (Get_artifact k now stale)
  then show ?thesis using agrees_ops(3) [OF assms surjective_pairing] by simp
next
  case (Put_artifact k e)
  obtain r d where "co_put_artifact ops k e c = (r, d)" by fastforce
  with Put_artifact agrees_ops(4) [OF assms this] show ?thesis by simp
qed

lemma agrees_run: "agrees s \<Longrightarrow> agrees (cache_run ops history s)"
  unfolding cache_run_def
proof (induction history arbitrary: s)
  case (Cons p history)
  then show ?case using agrees_step [of "fst s" "snd s" p] by simp
qed simp

lemma search_hit_latest:
  assumes "agrees (c, m)" "co_get_search ops k now c = (Inr (Some stubs), d)"
  shows "\<exists>e. la_searches m k = Some e \<and> ce_stubs e = stubs \<and> \<not> ce_expires_at e \<le> now"
proof -
  from assms get_search_law [of c k now "Inr (Some stubs)" d] obtain e where
    "searches c k = Some e" "ce_stubs e = stubs" "\<not> ce_expires_at e \<le> now"
    by (auto simp: agrees_def)
  with assms(1) show ?thesis by (auto simp: agrees_def map_le_def dom_def)
qed

lemma artifact_hit_latest:
  assumes "agrees (c, m)" "co_get_artifact ops k now stale c = (Inr (Some a), d)"
  shows "\<exists>e. la_artifacts m k = Some e \<and> ca_artifact e = a \<and> \<not> ca_stale_until e \<le> now \<and>
    (stale \<or> \<not> ca_fresh_until e \<le> now)"
proof -
  from assms get_artifact_law [of c k now stale "Inr (Some a)" d] obtain e where
    "artifacts c k = Some e" "ca_artifact e = a" "\<not> ca_stale_until e \<le> now"
    "stale \<or> \<not> ca_fresh_until e \<le> now"
    by (auto simp: agrees_def)
  with assms(1) show ?thesis by (auto simp: agrees_def map_le_def dom_def)
qed

end

subsection \<open>The cache in memory keeps the contract\<close>

text \<open>Every key once, never more entries than the bounds.\<close>

definition cache_inv :: "nat \<Rightarrow> nat \<Rightarrow> memory_cache \<Rightarrow> bool" where
  "cache_inv m n c \<longleftrightarrow> mc_max_searches c = m \<and> mc_max_artifacts c = n \<and>
     distinct (map fst (mc_searches c)) \<and> distinct (map fst (mc_artifacts c)) \<and>
     length (mc_searches c) \<le> m \<and> length (mc_artifacts c) \<le> n"

lemma map_le_del: "map_of (dict_del k d) \<subseteq>\<^sub>m map_of d"
  by (auto simp: map_le_def)

lemma map_of_touch_present: "map_of d k = Some e \<Longrightarrow> map_of (touch k e d) = map_of d"
  by (auto simp: map_of_touch fun_eq_iff)

lemma distinct_evict: "distinct (map fst d) \<Longrightarrow> distinct (map fst (evict m d))"
  by (simp add: evict_drop drop_map [symmetric])

lemma evict_touch_le: "distinct (map fst d) \<Longrightarrow> map_of (evict m (touch k e d)) \<subseteq>\<^sub>m (map_of d)(k \<mapsto> e)"
  using map_of_drop [OF keys_touch, of d "length (touch k e d) - m" k e] by (simp add: evict_drop map_of_touch)

lemma length_del_le: "length d \<le> m \<Longrightarrow> length (dict_del k d) \<le> m"
  by (rule le_trans [OF length_dict_del])

lemma length_touch_le: "(k, e) \<in> set d \<Longrightarrow> length d \<le> m \<Longrightarrow> length (touch k e d) \<le> m"
  by (rule le_trans [OF length_touch])

lemmas cache_rules = distinct_dict_del keys_touch distinct_evict length_evict map_le_del
  length_del_le length_touch_le evict_touch_le

lemma validate_time_run: "run_then (validate_time v, c) k = (r, d) \<Longrightarrow>
    (\<exists>e. r = Inl e) \<and> d = c \<or> k () c = (r, d)"
  by (auto simp: validate_time_def raise_if_def split: if_splits)

lemma get_search_memory:
  assumes "get_search k now c = (r, d)" "cache_inv m n c"
  shows "cache_inv m n d \<and> map_of (mc_searches d) \<subseteq>\<^sub>m map_of (mc_searches c) \<and> mc_artifacts d = mc_artifacts c \<and>
    (\<forall>stubs. r = Inr (Some stubs) \<longrightarrow>
       (\<exists>e. map_of (mc_searches c) k = Some e \<and> ce_stubs e = stubs \<and> \<not> ce_expires_at e \<le> now))"
  using assms unfolding get_search_def
  by (auto dest!: validate_time_run simp: cache_inv_def map_of_touch_present cache_rules split: option.splits if_splits)

lemma put_search_memory:
  assumes "put_search k e c = (r, d)" "cache_inv m n c"
  shows "cache_inv m n d \<and> mc_artifacts d = mc_artifacts c \<and>
    map_of (mc_searches d) \<subseteq>\<^sub>m (if is_ok r then (map_of (mc_searches c))(k \<mapsto> e) else map_of (mc_searches c))"
  using assms unfolding put_search_def
  by (auto dest!: validate_time_run simp: cache_inv_def cache_rules split: if_splits)

lemma get_artifact_memory:
  assumes "get_artifact k now stale c = (r, d)" "cache_inv m n c"
  shows "cache_inv m n d \<and> map_of (mc_artifacts d) \<subseteq>\<^sub>m map_of (mc_artifacts c) \<and> mc_searches d = mc_searches c \<and>
    (\<forall>a. r = Inr (Some a) \<longrightarrow>
       (\<exists>e. map_of (mc_artifacts c) k = Some e \<and> ca_artifact e = a \<and> \<not> ca_stale_until e \<le> now \<and>
         (stale \<or> \<not> ca_fresh_until e \<le> now)))"
  using assms unfolding get_artifact_def
  by (auto dest!: validate_time_run simp: cache_inv_def map_of_touch_present cache_rules split: option.splits if_splits)

lemma put_artifact_memory:
  assumes "put_artifact k e c = (r, d)" "cache_inv m n c"
  shows "cache_inv m n d \<and> mc_searches d = mc_searches c \<and>
    map_of (mc_artifacts d) \<subseteq>\<^sub>m (if is_ok r then (map_of (mc_artifacts c))(k \<mapsto> e) else map_of (mc_artifacts c))"
  using assms unfolding put_artifact_def
  by (auto dest!: validate_time_run simp: cache_inv_def cache_rules split: if_splits)

interpretation memory: discovery_cache memory_ops "\<lambda>c. map_of (mc_searches c)" "\<lambda>c. map_of (mc_artifacts c)"
  "cache_inv m n" for m n
  by unfold_locales
    (simp_all only: memory_ops_def cache_ops.simps,
     auto dest: get_search_memory put_search_memory get_artifact_memory put_artifact_memory)

text \<open>
  C24. After any history of operations, the cache in memory holds at most the entries its bounds
  allow, and what it returns is the latest value put under the same key, which holds the identity
  scope: search stubs that have not expired, and an artifact that is fresh, or not yet stale when
  the caller allows it.
\<close>

theorem cache_hit_is_latest:
  assumes "make_memory_cache searches artifacts = Inr c0"
    and "cache_run memory_ops history (c0, nothing_put) = (c, m)"
  shows "length (mc_searches c) \<le> nat searches \<and> length (mc_artifacts c) \<le> nat artifacts \<and>
    (\<forall>k now stubs. fst (get_search k now c) = Inr (Some stubs) \<longrightarrow>
       (\<exists>e. la_searches m k = Some e \<and> ce_stubs e = stubs \<and> \<not> ce_expires_at e \<le> now)) \<and>
    (\<forall>k now stale a. fst (get_artifact k now stale c) = Inr (Some a) \<longrightarrow>
       (\<exists>e. la_artifacts m k = Some e \<and> ca_artifact e = a \<and> \<not> ca_stale_until e \<le> now \<and>
         (stale \<or> \<not> ca_fresh_until e \<le> now)))"
proof (intro conjI allI impI)
  let ?m = "nat searches" and ?n = "nat artifacts"
  have "memory.agrees ?m ?n (c0, nothing_put)"
    using assms(1) by (auto simp: memory.agrees_def make_memory_cache_def cache_inv_def nothing_put_def)
  from memory.agrees_run [OF this, of history] have a: "memory.agrees ?m ?n (c, m)"
    unfolding assms(2) .
  then show "length (mc_searches c) \<le> ?m" "length (mc_artifacts c) \<le> ?n"
    by (auto simp: memory.agrees_def cache_inv_def)
  show "\<exists>e. la_searches m k = Some e \<and> ce_stubs e = stubs \<and> \<not> ce_expires_at e \<le> now"
    if "fst (get_search k now c) = Inr (Some stubs)" for k now stubs
    using memory.search_hit_latest [OF a, of k now stubs "snd (get_search k now c)"] that
    by (simp add: memory_ops_def prod_eq_iff)
  show "\<exists>e. la_artifacts m k = Some e \<and> ca_artifact e = a \<and> \<not> ca_stale_until e \<le> now \<and>
      (stale \<or> \<not> ca_fresh_until e \<le> now)"
    if "fst (get_artifact k now stale c) = Inr (Some a)" for k now stale a
    using memory.artifact_hit_latest [OF a, of k now stale a "snd (get_artifact k now stale c)"] that
    by (simp add: memory_ops_def prod_eq_iff)
qed

definition sample_search_key :: "string \<Rightarrow> search_key" where
  "sample_search_key scope = \<lparr>sk_origin = ''https://registry'', sk_scope_hash = scope,
     sk_contract = query_contract_version, sk_query_digest = ''q''\<rparr>"

definition sample_history :: "cache_op list" where
  "sample_history =
     [Put_search (sample_search_key ''a'') \<lparr>ce_stubs = [], ce_expires_at = Fin 9\<rparr>,
      Put_search (sample_search_key ''b'') \<lparr>ce_stubs = [], ce_expires_at = Fin 7\<rparr>,
      Get_search (sample_search_key ''b'') (Fin 1)]"

definition sample_cache :: memory_cache where
  "sample_cache = \<lparr>mc_max_searches = 1, mc_max_artifacts = 1, mc_searches = [], mc_artifacts = []\<rparr>"

text \<open>The second entry put the first one out; it is what the cache gives until it expires.\<close>

theorem cache_hit_is_latest_witness:
  "\<exists>e. la_searches (snd (cache_run memory_ops sample_history (sample_cache, nothing_put))) (sample_search_key ''b'') = Some e \<and>
     ce_stubs e = [] \<and> \<not> ce_expires_at e \<le> Fin 5"
proof -
  have made: "make_memory_cache 1 1 = Inr sample_cache" by code_simp
  have hit: "fst (get_search (sample_search_key ''b'') (Fin 5)
      (fst (cache_run memory_ops sample_history (sample_cache, nothing_put)))) = Inr (Some [])"
    by code_simp
  from cache_hit_is_latest [OF made surjective_pairing, of sample_history] hit show ?thesis by blast
qed

end
