(* ===== verification/Registry_Resolver.thy ===== *)
theory Registry_Resolver
  imports Registry_Cache Schema_Compatibility
begin

section \<open>Resolution of a Registry server\<close>

text \<open>
  Models the rest of \<^verbatim>\<open>src/tesserix_mcp_runtime/registry_discovery.py\<close>: the explanations, the ADK
  projection and \<open>RegistryResolver\<close>: search (from the cache or the network), the first stub that no
  reason rejects, its exact artifact (fresh from the cache, from the network, or stale while the
  Registry is unavailable), the check of its identity and content digest, and the projection of the
  tools the policy reviewed.

  The Registry is the environment: what a search and a fetch answer, and the times of the clock. The
  cache is any implementation of the interface of \<^verbatim>\<open>Registry_Cache\<close>.
\<close>

subsection \<open>Reasons, explanations, projection\<close>

datatype candidate_reason =
    Reason_KIND
  | Reason_NAMESPACE
  | Reason_CAPABILITY
  | Reason_LIFECYCLE
  | Reason_PROTOCOL
  | Reason_SCOPE
  | Reason_TOOL_POLICY
  | Reason_SCHEMA
  | Reason_FINGERPRINT
  | Reason_GATEWAY
  | Reason_CONTRACT

datatype resolution_source = Source_NETWORK | Source_CACHE | Source_OFFLINE

record candidate_explanation =
  ex_ref :: string
  ex_selected :: bool
  ex_reasons :: "candidate_reason list"

definition make_explanation ::
  "string \<Rightarrow> bool \<Rightarrow> candidate_reason list \<Rightarrow> (value_error, candidate_explanation) result" where
  "make_explanation ref selected reasons =
     and_then (require_visible ''ref'' ref 2048) (\<lambda>_.
     raise_if (length reasons > 11 \<or> \<not> distinct reasons) (ValueError ''reasons must be a bounded typed tuple'')
     (raise_if (selected \<and> reasons \<noteq> []) (ValueError ''a selected candidate cannot carry rejection reasons'')
     (raise_if (\<not> selected \<and> reasons = []) (ValueError ''a rejected candidate must carry a reason'')
     (Inr \<lparr>ex_ref = ref, ex_selected = selected, ex_reasons = reasons\<rparr>))))"

record tool_pin =
  pn_name :: string
  pn_input :: string
  pn_output :: string

definition check_tool_pin :: "tool_pin \<Rightarrow> check" where
  "check_tool_pin p =
     and_then (require_visible ''tool pin name'' (pn_name p) 128) (\<lambda>_.
     raise_if (\<not> fullmatch hex64 (pn_input p) \<or> \<not> fullmatch hex64 (pn_output p))
       (ValueError ''tool pins must contain lowercase SHA-256 fingerprints'') okay)"

record adk_server =
  sv_name :: string
  sv_endpoint :: string
  sv_allow :: "string list"
  sv_deny :: "string list"
  sv_prefix :: string
  sv_max_tools :: int
  sv_max_schema_bytes :: int
  sv_artifact_ref :: string
  sv_artifact_digest :: string
  sv_tool_pins :: "tool_pin list"

definition check_adk_server :: "(string \<Rightarrow> bool) \<Rightarrow> adk_server \<Rightarrow> check" where
  "check_adk_server netloc_ok s =
     raise_if (\<not> fullmatch adk_name_rx (sv_name s)) (ValueError ''name must use the portable ADK grammar'')
     (case urlsplit netloc_ok (sv_endpoint s) of
        None \<Rightarrow> Inl (ValueError ''Invalid IPv6 URL'')
      | Some u \<Rightarrow>
          raise_if (su_scheme u \<noteq> ''https'' \<or> su_hostname u = [] \<or> has_userinfo u \<or> su_query u \<noteq> [] \<or> su_fragment u \<noteq> [])
            (ValueError ''endpoint must be a trusted HTTPS gateway URL'')
          (and_then (require_unique_text_tuple ''allow'' (sv_allow s) 128 128) (\<lambda>_.
           and_then (require_unique_text_tuple ''deny'' (sv_deny s) 128 128) (\<lambda>_.
           raise_if (set (sv_allow s) \<inter> set (sv_deny s) \<noteq> {}) (ValueError ''ADK projection cannot both allow and deny a tool'')
           (raise_if (sv_prefix s \<noteq> [] \<and> \<not> fullmatch adk_name_rx (sv_prefix s))
              (ValueError ''prefix must use the portable ADK grammar'')
           (and_then (require_adk_surface_bounds (sv_max_tools s) (sv_max_schema_bytes s)) (\<lambda>_.
            and_then (require_visible ''artifact_ref'' (sv_artifact_ref s) 2048) (\<lambda>_.
            raise_if (\<not> fullmatch sha256_ref (sv_artifact_digest s)) (ValueError ''artifact_digest must be a Registry digest'')
            (raise_if (''*'' \<in> set (sv_allow s) \<or> map pn_name (sv_tool_pins s) \<noteq> sv_allow s \<or>
                int (length (sv_allow s)) > sv_max_tools s)
              (ValueError ''allow and tool_pins must describe the exact reviewed tool surface'') okay)))))))))"

record resolution =
  rs_source :: resolution_source
  rs_server :: "adk_server option"
  rs_explanations :: "candidate_explanation list"

definition make_resolution ::
  "resolution_source \<Rightarrow> adk_server option \<Rightarrow> candidate_explanation list \<Rightarrow> (value_error, resolution) result" where
  "make_resolution source server es =
     raise_if (length es > 20) (ValueError ''explanations must be a bounded immutable tuple'')
       (Inr \<lparr>rs_source = source, rs_server = server, rs_explanations = es\<rparr>)"

subsection \<open>Keys of a call\<close>

definition cache_hash :: "(rat \<Rightarrow> string) \<Rightarrow> (string \<Rightarrow> string) \<Rightarrow> pyval \<Rightarrow> (value_error, string) result" where
  "cache_hash frepr sha v =
     (case dumps frepr v of
        None \<Rightarrow> Inl (ValueError ''Out of range float values are not JSON compliant'')
      | Some t \<Rightarrow> Inr (sha t))"

definition identity_scope_hash ::
  "(rat \<Rightarrow> string) \<Rightarrow> (string \<Rightarrow> string) \<Rightarrow> call_context \<Rightarrow> (value_error, string) result" where
  "identity_scope_hash frepr sha c =
     cache_hash frepr sha (obj
       [(''issuer'', PStr (ctx_issuer c)), (''tenant'', PStr (ctx_tenant c)), (''subject'', PStr (ctx_subject c)),
        (''scopes'', pstrs (sort (ctx_scopes c)))])"

definition make_search_key ::
  "(rat \<Rightarrow> string) \<Rightarrow> (string \<Rightarrow> string) \<Rightarrow> (string \<Rightarrow> bool) \<Rightarrow> string \<Rightarrow> registry_query \<Rightarrow> call_context
     \<Rightarrow> (value_error, search_key) result" where
  "make_search_key frepr sha netloc_ok origin q c =
     and_then (identity_scope_hash frepr sha c) (\<lambda>scope.
     and_then (cache_hash frepr sha (obj
       [(''intent'', PStr (rq_intent q)), (''kinds'', pstrs (rq_kinds q)), (''namespace'', of_opt_str (rq_namespace q)),
        (''limit'', PInt (rq_limit q)), (''view'', PStr ''stub'')])) (\<lambda>digest.
     (let k = \<lparr>sk_origin = origin, sk_scope_hash = scope, sk_contract = query_contract_version, sk_query_digest = digest\<rparr> in
      and_then (check_search_key netloc_ok k) (\<lambda>_. Inr k))))"

definition make_artifact_key ::
  "(rat \<Rightarrow> string) \<Rightarrow> (string \<Rightarrow> string) \<Rightarrow> (string \<Rightarrow> bool) \<Rightarrow> string \<Rightarrow> search_stub \<Rightarrow> call_context
     \<Rightarrow> (value_error, artifact_key) result" where
  "make_artifact_key frepr sha netloc_ok origin stub c =
     and_then (identity_scope_hash frepr sha c) (\<lambda>scope.
     (let k = \<lparr>ak_origin = origin, ak_scope_hash = scope, ak_contract = query_contract_version, ak_digest = st_digest stub\<rparr> in
      and_then (check_artifact_key netloc_ok k) (\<lambda>_. Inr k)))"

subsection \<open>Candidates\<close>

text \<open>\<open>_text_tuple\<close>: a list of at most 128 distinct stripped texts.\<close>

definition text_tuple :: "pyval \<Rightarrow> string list option" where
  "text_tuple v =
     (case v of
        PList vs \<Rightarrow>
          if length vs \<le> 128 \<and> list_all (\<lambda>x. case text_of x of None \<Rightarrow> False | Some s \<Rightarrow> s \<noteq> [] \<and> s = strip s) vs \<and>
             distinct (map (\<lambda>x. the (text_of x)) vs)
          then Some (map (\<lambda>x. the (text_of x)) vs) else None
      | _ \<Rightarrow> None)"

definition attributes_get :: "string \<Rightarrow> pyval \<Rightarrow> pyval" where
  "attributes_get k v = (case v of PDict d \<Rightarrow> get_none k d | _ \<Rightarrow> PNone)"

definition advertised_capabilities :: "search_stub \<Rightarrow> string list" where
  "advertised_capabilities s =
     filter (\<lambda>t. t \<noteq> []) (map strip (split_on (CHR '','')
       (case map_of (st_annotations s) ''discovery.agentic.dev/capabilities'' of None \<Rightarrow> [] | Some v \<Rightarrow> v)))
     @ (case text_tuple (attributes_get ''capabilities'' (st_attributes s)) of None \<Rightarrow> [] | Some cs \<Rightarrow> cs)"

definition stub_reasons :: "registry_query \<Rightarrow> resolution_policy \<Rightarrow> search_stub \<Rightarrow> candidate_reason list" where
  "stub_reasons q p s =
     (if st_kind s \<noteq> ''MCPServer'' \<or> st_kind s \<notin> set (rq_kinds q) then [Reason_KIND] else []) @
     (if (case rq_namespace q of None \<Rightarrow> False | Some n \<Rightarrow> st_namespace s \<noteq> n) then [Reason_NAMESPACE] else []) @
     (if \<not> set (rp_capabilities p) \<subseteq> set (advertised_capabilities s) then [Reason_CAPABILITY] else [])"

text \<open>The loop over the stubs: the explanations of the rejected ones and the first that is not.\<close>

fun select_stub ::
  "registry_query \<Rightarrow> resolution_policy \<Rightarrow> search_stub list
     \<Rightarrow> (value_error, candidate_explanation list \<times> search_stub option) result" where
  "select_stub q p [] = Inr ([], None)"
| "select_stub q p (s # ss) =
     (if stub_reasons q p s = [] then Inr ([], Some s)
      else
        and_then (make_explanation (st_ref s) False (stub_reasons q p s)) (\<lambda>e.
        and_then (select_stub q p ss) (\<lambda>(es, chosen). Inr (e # es, chosen))))"

subsection \<open>Projection of an artifact\<close>

record resolved_tool =
  re_name :: string
  re_input :: string
  re_output :: string
  re_schema_bytes :: nat

text \<open>\<open>_schema\<close>: a JSON object; a value that is not JSON raises.\<close>

definition schema_value :: "pyval \<Rightarrow> (value_error, schema option) result" where
  "schema_value v =
     (case schema_of v of
        None \<Rightarrow> Inr None
      | Some d \<Rightarrow> if is_json_value v then Inr (Some d) else Inl (ValueError ''value must be JSON''))"

definition expected_differs :: "string option \<Rightarrow> string \<Rightarrow> bool" where
  "expected_differs expected f = (case expected of None \<Rightarrow> False | Some e \<Rightarrow> e \<noteq> f)"

definition fingerprint_text :: "pyval \<Rightarrow> string option" where
  "fingerprint_text v = (case text_of v of None \<Rightarrow> None | Some s \<Rightarrow> if fullmatch hex64 s then Some s else None)"

text \<open>The last checks of \<open>_resolve_tool\<close>: the compatibility with the reviewed schema and the size.\<close>

definition finish_tool ::
  "(rat \<Rightarrow> string) \<Rightarrow> (string \<Rightarrow> string) \<Rightarrow> string \<Rightarrow> tool_requirement \<Rightarrow> schema \<Rightarrow> string \<Rightarrow> string
     \<Rightarrow> (value_error, candidate_reason + resolved_tool) result" where
  "finish_tool frepr sha name req schema inp outp =
     and_then
       (case qr_compatible_input req of
          None \<Rightarrow> Inr True
        | Some baseline \<Rightarrow>
            and_then (schema_value baseline) (\<lambda>b.
            (case b of
               None \<Rightarrow> Inr False
             | Some bs \<Rightarrow> and_then (classify_schema_change frepr sha bs schema Direction_INPUT) (\<lambda>ch.
                 Inr (ch \<noteq> Change_BREAKING)))))
       (\<lambda>compatible.
        if \<not> compatible then Inr (Inl Reason_SCHEMA)
        else
          and_then (canonical_json frepr (PDict schema)) (\<lambda>text.
          Inr (Inr \<lparr>re_name = name, re_input = inp, re_output = outp, re_schema_bytes = utf8_length text\<rparr>)))"

definition resolve_tool ::
  "(rat \<Rightarrow> string) \<Rightarrow> (string \<Rightarrow> string) \<Rightarrow> resolution_policy \<Rightarrow> call_context \<Rightarrow> string \<Rightarrow> schema \<Rightarrow> tool_requirement
     \<Rightarrow> (value_error, candidate_reason + resolved_tool) result" where
  "resolve_tool frepr sha p c name tool req =
     (if (case text_of (get_none ''status'' tool) of None \<Rightarrow> True | Some st \<Rightarrow> st \<notin> set (rp_lifecycles p))
      then Inr (Inl Reason_LIFECYCLE)
      else if (case text_tuple (get_none ''requiredScopes'' tool) of None \<Rightarrow> True | Some ss \<Rightarrow> \<not> set ss \<subseteq> set (ctx_scopes c))
      then Inr (Inl Reason_SCOPE)
      else if (case text_tuple (get_none ''capabilities'' tool) of None \<Rightarrow> True | Some cs \<Rightarrow> \<not> set (rp_capabilities p) \<subseteq> set cs)
      then Inr (Inl Reason_CAPABILITY)
      else
        and_then (schema_value (get_none ''inputSchema'' tool)) (\<lambda>schema.
        (case (schema, fingerprint_text (get_none ''inputFingerprint'' tool), fingerprint_text (get_none ''outputFingerprint'' tool)) of
           (Some sc, Some inp, Some outp) \<Rightarrow>
             if get_none ''inputSchemaFingerprint'' tool \<noteq> PNone \<and> fingerprint_text (get_none ''inputSchemaFingerprint'' tool) = None
             then Inr (Inl Reason_FINGERPRINT)
             else
               and_then (schema_fingerprint frepr sha (PDict sc)) (\<lambda>computed.
               (let projected = (case fingerprint_text (get_none ''inputSchemaFingerprint'' tool) of None \<Rightarrow> inp | Some f \<Rightarrow> f) in
                if computed \<noteq> projected \<or> expected_differs (qr_input_fingerprint req) inp \<or>
                   expected_differs (qr_output_fingerprint req) outp
                then Inr (Inl Reason_FINGERPRINT)
                else finish_tool frepr sha name req sc inp outp))
         | _ \<Rightarrow> Inr (Inl Reason_CONTRACT))))"

text \<open>The tools of the extension by name, in the order of their first entry.\<close>

fun tools_by_name :: "pyval list \<Rightarrow> (string \<times> schema) list \<Rightarrow> (string \<times> schema) list" where
  "tools_by_name [] d = d"
| "tools_by_name (v # vs) d =
     (case schema_of v of
        None \<Rightarrow> tools_by_name vs d
      | Some tool \<Rightarrow>
          (case text_of (get_none ''name'' tool) of
             None \<Rightarrow> tools_by_name vs d
           | Some n \<Rightarrow> tools_by_name vs (dict_put n tool d)))"

definition gateway_path_ok :: "(string \<Rightarrow> bool) \<Rightarrow> string \<Rightarrow> (value_error, bool) result" where
  "gateway_path_ok netloc_ok path =
     (if path = [] \<or> length path > 2048 then Inr False
      else
        (case urlsplit netloc_ok path of
           None \<Rightarrow> Inl (ValueError ''Invalid IPv6 URL'')
         | Some u \<Rightarrow> Inr (su_scheme u = [] \<and> su_netloc u = [] \<and> su_query u = [] \<and> su_fragment u = [] \<and>
             starts_with ''/'' (su_path u) \<and> \<not> starts_with ''//'' (su_path u) \<and> backslash \<notin> set path \<and>
             list_all (\<lambda>part. part \<noteq> ''.'' \<and> part \<noteq> ''..'') (split_on (CHR ''/'') (su_path u)))))"

definition allowed_tools :: "resolution_policy \<Rightarrow> (string \<times> schema) list \<Rightarrow> string list" where
  "allowed_tools p by_name =
     filter (\<lambda>n. n \<notin> set (rp_deny p)) (if ''*'' \<in> set (rp_allow p) then map fst by_name else rp_allow p)"

definition requirement_for :: "resolution_policy \<Rightarrow> string \<Rightarrow> tool_requirement option" where
  "requirement_for p n = map_of (rev (map (\<lambda>q. (qr_name q, q)) (rp_requirements p))) n"

text \<open>The loop over the allowed tools, each of which has its schema in \<open>by_name\<close>.\<close>

fun resolve_tools ::
  "(rat \<Rightarrow> string) \<Rightarrow> (string \<Rightarrow> string) \<Rightarrow> resolution_policy \<Rightarrow> call_context \<Rightarrow> (string \<times> schema) list \<Rightarrow> string list
     \<Rightarrow> (value_error, candidate_reason + resolved_tool list) result" where
  "resolve_tools frepr sha p c by_name [] = Inr (Inr [])"
| "resolve_tools frepr sha p c by_name (n # ns) =
     (case (requirement_for p n, map_of by_name n) of
        (Some req, Some tool) \<Rightarrow>
          and_then (resolve_tool frepr sha p c n tool req) (\<lambda>r.
          (case r of
             Inl reason \<Rightarrow> Inr (Inl reason)
           | Inr t \<Rightarrow>
               and_then (resolve_tools frepr sha p c by_name ns) (\<lambda>rs.
               Inr (case rs of Inl reason \<Rightarrow> Inl reason | Inr ts \<Rightarrow> Inr (t # ts)))))
      | _ \<Rightarrow> Inr (Inl Reason_FINGERPRINT))"

type_synonym projection = "(value_error, candidate_reason + adk_server) result"

definition project_tools ::
  "(rat \<Rightarrow> string) \<Rightarrow> (string \<Rightarrow> string) \<Rightarrow> (string \<Rightarrow> bool) \<Rightarrow> resolution_policy \<Rightarrow> call_context \<Rightarrow> registry_artifact
     \<Rightarrow> string \<Rightarrow> (string \<times> schema) list \<Rightarrow> projection" where
  "project_tools frepr sha netloc_ok p c a path by_name =
     (let allowed = allowed_tools p by_name in
      if allowed = [] \<or> \<not> list_all (\<lambda>n. n \<in> set (map fst by_name)) allowed \<or> int (length allowed) > rp_max_tools p
      then Inr (Inl Reason_TOOL_POLICY)
      else
        and_then (resolve_tools frepr sha p c by_name allowed) (\<lambda>r.
        (case r of
           Inl reason \<Rightarrow> Inr (Inl reason)
         | Inr ts \<Rightarrow>
             if int (sum_list (map re_schema_bytes ts)) > rp_max_schema_bytes p then Inr (Inl Reason_SCHEMA)
             else
               (let pins = map (\<lambda>t. \<lparr>pn_name = re_name t, pn_input = re_input t, pn_output = re_output t\<rparr>) ts;
                    server = \<lparr>sv_name = rp_server_name p, sv_endpoint = rp_gateway_origin p @ path, sv_allow = allowed,
                      sv_deny = rp_deny p, sv_prefix = rp_prefix p, sv_max_tools = rp_max_tools p,
                      sv_max_schema_bytes = rp_max_schema_bytes p, sv_artifact_ref = rt_ref a,
                      sv_artifact_digest = rt_digest a, sv_tool_pins = pins\<rparr> in
                and_then (for_each check_tool_pin pins) (\<lambda>_.
                and_then (check_adk_server netloc_ok server) (\<lambda>_. Inr (Inr server)))))))"

definition covers :: "pyval \<Rightarrow> (string list \<Rightarrow> bool) \<Rightarrow> bool" where
  "covers v ok = (case text_tuple v of None \<Rightarrow> False | Some ts \<Rightarrow> ok ts)"

definition semantic_capabilities :: "schema \<Rightarrow> pyval" where
  "semantic_capabilities extension =
     (case schema_of (get_none ''semantic'' extension) of None \<Rightarrow> PNone | Some s \<Rightarrow> get_none ''capabilities'' s)"

definition route_path :: "schema \<Rightarrow> pyval" where
  "route_path extension =
     (case schema_of (get_none ''routePolicy'' extension) of None \<Rightarrow> PNone | Some s \<Rightarrow> get_none ''gatewayPath'' s)"

definition project ::
  "(rat \<Rightarrow> string) \<Rightarrow> (string \<Rightarrow> string) \<Rightarrow> (string \<Rightarrow> bool) \<Rightarrow> resolution_policy \<Rightarrow> call_context \<Rightarrow> registry_artifact
     \<Rightarrow> projection" where
  "project frepr sha netloc_ok p c a =
     (case schema_of (attributes_get ''x-tesserix'' (rt_spec a)) of
        None \<Rightarrow> Inr (Inl Reason_CONTRACT)
      | Some extension \<Rightarrow>
          if (case text_of (get_none ''lifecycle'' extension) of None \<Rightarrow> True | Some l \<Rightarrow> l \<notin> set (rp_lifecycles p))
          then Inr (Inl Reason_LIFECYCLE)
          else if \<not> covers (get_none ''protocolVersions'' extension) (\<lambda>vs. set vs \<inter> set (rp_protocols p) \<noteq> {})
          then Inr (Inl Reason_PROTOCOL)
          else if \<not> covers (get_none ''requiredScopes'' extension) (\<lambda>ss. set ss \<subseteq> set (ctx_scopes c))
          then Inr (Inl Reason_SCOPE)
          else if \<not> covers (semantic_capabilities extension) (\<lambda>cs. set (rp_capabilities p) \<subseteq> set cs)
          then Inr (Inl Reason_CAPABILITY)
          else
            (case text_of (route_path extension) of
               None \<Rightarrow> Inr (Inl Reason_GATEWAY)
             | Some path \<Rightarrow>
                 and_then (gateway_path_ok netloc_ok path) (\<lambda>ok.
                 if \<not> ok then Inr (Inl Reason_GATEWAY)
                 else
                   (case get_none ''tools'' extension of
                      PList tools \<Rightarrow> project_tools frepr sha netloc_ok p c a path (tools_by_name tools [])
                    | _ \<Rightarrow> Inr (Inl Reason_CONTRACT)))))"

subsection \<open>The resolver\<close>

datatype resolve_error =
    Artifact_race string string
  | Digest_mismatch string string
  | Registry_unavailable
  | Registry_failure error_code
  | Resolve_value_error value_error
  | Resolve_raises exn

definition as_value_error :: "(value_error, 'a) result \<Rightarrow> (resolve_error, 'a) result" where
  "as_value_error r = (case r of Inl e \<Rightarrow> Inl (Resolve_value_error e) | Inr a \<Rightarrow> Inr a)"

text \<open>What a resolver is made of: the Registry, its canonical origin and the cache policy.\<close>

record resolver =
  rv_frepr :: "rat \<Rightarrow> string"
  rv_sha :: "string \<Rightarrow> string"
  rv_netloc_ok :: "string \<Rightarrow> bool"
  rv_origin :: string
  rv_policy :: cache_policy
  rv_search :: "registry_query \<Rightarrow> call_context \<Rightarrow> (resolve_error, search_stub list) result"
  rv_fetch :: "search_stub \<Rightarrow> call_context \<Rightarrow> (resolve_error, registry_artifact) result"
  rv_now :: "nat \<Rightarrow> pyfloat"

text \<open>A cache call: an unavailable cache is a miss (or a lost write), any other failure comes out.\<close>

definition cache_get :: "'a option \<Rightarrow> (cache_error, 'a option) result \<Rightarrow> (resolve_error, 'a option) result" where
  "cache_get on_unavailable r =
     (case r of
        Inr v \<Rightarrow> Inr v
      | Inl Cache_unavailable \<Rightarrow> Inr on_unavailable
      | Inl (Cache_raises e) \<Rightarrow> Inl (Resolve_raises e))"

definition cache_put :: "(cache_error, unit) result \<Rightarrow> (resolve_error, unit) result" where
  "cache_put r =
     (case r of
        Inr u \<Rightarrow> Inr ()
      | Inl Cache_unavailable \<Rightarrow> Inr ()
      | Inl (Cache_raises e) \<Rightarrow> Inl (Resolve_raises e))"

definition limit_stubs :: "registry_query \<Rightarrow> search_stub list \<Rightarrow> (resolve_error, search_stub list) result" where
  "limit_stubs q stubs =
     raise_if (int (length stubs) > rq_limit q)
       (Resolve_value_error (ValueError ''Registry search violated the bounded stub contract'')) (Inr stubs)"

text \<open>The stubs, and whether the network was used.\<close>

definition find_stubs ::
  "resolver \<Rightarrow> 'c cache_ops option \<Rightarrow> search_key \<Rightarrow> registry_query \<Rightarrow> call_context \<Rightarrow> 'c
     \<Rightarrow> (resolve_error, search_stub list \<times> bool) result \<times> 'c" where
  "find_stubs v cache key q ctx s =
     run_then
       (case cache of
          None \<Rightarrow> (Inr None, s)
        | Some ops \<Rightarrow> (case co_get_search ops key (rv_now v 0) s of (r, t) \<Rightarrow> (cache_get None r, t)))
       (\<lambda>hit s.
        (case hit of
           Some stubs \<Rightarrow> (and_then (limit_stubs q stubs) (\<lambda>ss. Inr (ss, False)), s)
         | None \<Rightarrow>
             run_then (and_then (rv_search v q ctx) (limit_stubs q), s) (\<lambda>stubs s.
             run_then
               (case cache of
                  None \<Rightarrow> (Inr (), s)
                | Some ops \<Rightarrow>
                    (case co_put_search ops key
                       \<lparr>ce_stubs = stubs, ce_expires_at = rv_now v 1 + cp_search_ttl (rv_policy v)\<rparr> s of
                       (r, t) \<Rightarrow> (cache_put r, t)))
               (\<lambda>_ s. (Inr (stubs, True), s)))))"

datatype artifact_source = From_fresh | From_network | From_stale

definition fetch_artifact ::
  "resolver \<Rightarrow> 'c cache_ops option \<Rightarrow> artifact_key \<Rightarrow> search_stub \<Rightarrow> call_context \<Rightarrow> 'c
     \<Rightarrow> (resolve_error, registry_artifact \<times> artifact_source) result \<times> 'c" where
  "fetch_artifact v cache key stub ctx s =
     run_then
       (case cache of
          None \<Rightarrow> (Inr None, s)
        | Some ops \<Rightarrow> (case co_get_artifact ops key (rv_now v 2) False s of (r, t) \<Rightarrow> (cache_get None r, t)))
       (\<lambda>hit s.
        (case hit of
           Some a \<Rightarrow> (Inr (a, From_fresh), s)
         | None \<Rightarrow>
             (case rv_fetch v stub ctx of
                Inr a \<Rightarrow> (Inr (a, From_network), s)
              | Inl e \<Rightarrow>
                  (case cache of
                     None \<Rightarrow> (Inl e, s)
                   | Some ops \<Rightarrow>
                       if e \<noteq> Registry_unavailable \<or> cp_max_stale (rv_policy v) = Fin 0 then (Inl e, s)
                       else
                         (case co_get_artifact ops key (rv_now v 3) True s of
                            (Inr (Some a), t) \<Rightarrow> (Inr (a, From_stale), t)
                          | (Inr None, t) \<Rightarrow> (Inl e, t)
                          | (Inl Cache_unavailable, t) \<Rightarrow> (Inl e, t)
                          | (Inl (Cache_raises x), t) \<Rightarrow> (Inl (Resolve_raises x), t))))))"

definition verify_exact_identity ::
  "resolver \<Rightarrow> search_stub \<Rightarrow> registry_artifact \<Rightarrow> string \<Rightarrow> (resolve_error, unit) result" where
  "verify_exact_identity v s a rid =
     raise_if (rt_kind a \<noteq> st_kind s \<or> rt_name a \<noteq> st_name s \<or> rt_namespace a \<noteq> st_namespace s \<or>
         rt_tag a \<noteq> st_tag s \<or> rt_arn a \<noteq> st_arn s \<or> rt_ref a \<noteq> st_ref s)
       (Artifact_race rid (st_ref s))
     (raise_if (rt_digest a \<noteq> st_digest s) (Artifact_race rid (st_ref s))
     (and_then (as_value_error (computed_digest (rv_frepr v) (rv_sha v) a)) (\<lambda>d.
      raise_if (d \<noteq> rt_digest a) (Digest_mismatch rid (st_ref s)) (Inr ()))))"

definition keep_artifact ::
  "resolver \<Rightarrow> 'c cache_ops option \<Rightarrow> artifact_key \<Rightarrow> registry_artifact \<times> artifact_source \<Rightarrow> 'c
     \<Rightarrow> (resolve_error, unit) result \<times> 'c" where
  "keep_artifact v cache key found s =
     (case cache of
        None \<Rightarrow> (Inr (), s)
      | Some ops \<Rightarrow>
          if snd found \<noteq> From_network then (Inr (), s)
          else
            (let fresh = rv_now v 4 + cp_artifact_ttl (rv_policy v) in
             case co_put_artifact ops key
               \<lparr>ca_artifact = fst found, ca_fresh_until = fresh, ca_stale_until = fresh + cp_max_stale (rv_policy v)\<rparr> s of
               (r, t) \<Rightarrow> (cache_put r, t)))"

text \<open>The end of \<open>resolve\<close>: the projection of the artifact, its explanation and the resolution.\<close>

definition conclude ::
  "resolver \<Rightarrow> resolution_policy \<Rightarrow> call_context \<Rightarrow> candidate_explanation list \<Rightarrow> search_stub
     \<Rightarrow> registry_artifact \<times> artifact_source \<Rightarrow> bool \<Rightarrow> (value_error, resolution) result" where
  "conclude v p ctx es stub found network =
     and_then (project (rv_frepr v) (rv_sha v) (rv_netloc_ok v) p ctx (fst found)) (\<lambda>r.
     and_then (case r of
         Inl reason \<Rightarrow> make_explanation (st_ref stub) False [reason]
       | Inr server \<Rightarrow> make_explanation (st_ref stub) True []) (\<lambda>e.
     make_resolution
       (if snd found = From_stale then Source_OFFLINE
        else if network \<or> snd found \<noteq> From_fresh then Source_NETWORK else Source_CACHE)
       (case r of Inl reason \<Rightarrow> None | Inr server \<Rightarrow> Some server) (es @ [e])))"

definition resolve_selected ::
  "resolver \<Rightarrow> 'c cache_ops option \<Rightarrow> resolution_policy \<Rightarrow> call_context \<Rightarrow> candidate_explanation list \<Rightarrow> search_stub \<Rightarrow> bool \<Rightarrow> 'c
     \<Rightarrow> (resolve_error, resolution) result \<times> 'c" where
  "resolve_selected v cache p ctx es stub network s =
     run_then (as_value_error (make_artifact_key (rv_frepr v) (rv_sha v) (rv_netloc_ok v) (rv_origin v) stub ctx), s) (\<lambda>key s.
     run_then (fetch_artifact v cache key stub ctx s) (\<lambda>found s.
     run_then (verify_exact_identity v stub (fst found) (cc_request_id ctx), s) (\<lambda>_ s.
     run_then (keep_artifact v cache key found s) (\<lambda>_ s.
     (as_value_error (conclude v p ctx es stub found network), s)))))"

definition resolve_server ::
  "resolver \<Rightarrow> 'c cache_ops option \<Rightarrow> registry_query \<Rightarrow> resolution_policy \<Rightarrow> call_context \<Rightarrow> 'c
     \<Rightarrow> (resolve_error, resolution) result \<times> 'c" where
  "resolve_server v cache q p ctx s =
     run_then (as_value_error (make_search_key (rv_frepr v) (rv_sha v) (rv_netloc_ok v) (rv_origin v) q ctx), s) (\<lambda>key s.
     run_then (find_stubs v cache key q ctx s) (\<lambda>(stubs, network) s.
     run_then (as_value_error (select_stub q p stubs), s) (\<lambda>(es, chosen) s.
     (case chosen of
        None \<Rightarrow>
          (as_value_error (make_resolution (if network then Source_NETWORK else Source_CACHE) None es), s)
      | Some stub \<Rightarrow> resolve_selected v cache p ctx es stub network s))))"

subsection \<open>What a resolved server is\<close>

text \<open>Where the stubs and the artifact of a resolution come from.\<close>

definition offered ::
  "resolver \<Rightarrow> 'c cache_ops option \<Rightarrow> registry_query \<Rightarrow> call_context \<Rightarrow> 'c \<Rightarrow> search_stub \<Rightarrow> bool" where
  "offered v cache q ctx s stub \<longleftrightarrow>
     (\<exists>stubs. stub \<in> set stubs \<and> int (length stubs) \<le> rq_limit q \<and>
        (rv_search v q ctx = Inr stubs \<or>
         (\<exists>ops key. cache = Some ops \<and>
            make_search_key (rv_frepr v) (rv_sha v) (rv_netloc_ok v) (rv_origin v) q ctx = Inr key \<and>
            fst (co_get_search ops key (rv_now v 0) s) = Inr (Some stubs))))"

definition exact_artifact :: "resolver \<Rightarrow> search_stub \<Rightarrow> registry_artifact \<Rightarrow> bool" where
  "exact_artifact v s a \<longleftrightarrow>
     rt_kind a = st_kind s \<and> rt_name a = st_name s \<and> rt_namespace a = st_namespace s \<and> rt_tag a = st_tag s \<and>
     rt_arn a = st_arn s \<and> rt_ref a = st_ref s \<and> rt_digest a = st_digest s \<and>
     computed_digest (rv_frepr v) (rv_sha v) a = Inr (st_digest s)"

text \<open>A pin of the server: a tool the policy requires, with the fingerprints it expects.\<close>

definition reviewed_pin :: "resolution_policy \<Rightarrow> tool_pin \<Rightarrow> bool" where
  "reviewed_pin p pin \<longleftrightarrow>
     pn_name pin \<notin> set (rp_deny p) \<and>
     (\<exists>req. requirement_for p (pn_name pin) = Some req \<and>
        \<not> expected_differs (qr_input_fingerprint req) (pn_input pin) \<and>
        \<not> expected_differs (qr_output_fingerprint req) (pn_output pin))"

definition permitted :: "resolution_policy \<Rightarrow> call_context \<Rightarrow> registry_artifact \<Rightarrow> bool" where
  "permitted p ctx a \<longleftrightarrow>
     (\<exists>extension l. schema_of (attributes_get ''x-tesserix'' (rt_spec a)) = Some extension \<and>
        get_none ''lifecycle'' extension = PStr l \<and> l \<in> set (rp_lifecycles p) \<and>
        covers (get_none ''requiredScopes'' extension) (\<lambda>ss. set ss \<subseteq> set (ctx_scopes ctx)) \<and>
        covers (semantic_capabilities extension) (\<lambda>cs. set (rp_capabilities p) \<subseteq> set cs))"

definition serves ::
  "resolver \<Rightarrow> resolution_policy \<Rightarrow> call_context \<Rightarrow> registry_artifact \<Rightarrow> adk_server \<Rightarrow> bool" where
  "serves v p ctx a server \<longleftrightarrow>
     permitted p ctx a \<and> sv_artifact_ref server = rt_ref a \<and> sv_artifact_digest server = rt_digest a \<and>
     map pn_name (sv_tool_pins server) = sv_allow server \<and> sv_allow server \<noteq> [] \<and>
     (\<forall>pin\<in>set (sv_tool_pins server). reviewed_pin p pin) \<and> check_adk_server (rv_netloc_ok v) server = okay"

lemma as_value_error_Inr [simp]: "as_value_error r = Inr a \<longleftrightarrow> r = Inr a"
  by (cases r) (auto simp: as_value_error_def)

lemma text_of_Some [simp]: "text_of v = Some s \<longleftrightarrow> v = PStr s"
  by (cases v) auto

lemma select_stub_chosen:
  "select_stub q p stubs = Inr (es, Some stub) \<Longrightarrow> stub \<in> set stubs \<and> stub_reasons q p stub = []"
  by (induction stubs arbitrary: es) (auto split: if_splits)

lemma finish_tool_Inr:
  "finish_tool frepr sha n req sc inp outp = Inr (Inr t) \<Longrightarrow> re_name t = n \<and> re_input t = inp \<and> re_output t = outp"
  by (auto simp: finish_tool_def split: if_splits)

lemma resolve_tool_Inr:
  assumes "resolve_tool frepr sha p c n tool req = Inr (Inr t)"
  shows "re_name t = n \<and> \<not> expected_differs (qr_input_fingerprint req) (re_input t) \<and>
    \<not> expected_differs (qr_output_fingerprint req) (re_output t)"
  using assms unfolding resolve_tool_def
  by (auto simp: Let_def split: if_splits option.splits dest!: finish_tool_Inr)

lemma case_accepted [simp]:
  "(case r of Inl reason \<Rightarrow> Inr (Inl reason) | Inr y \<Rightarrow> k y) = Inr (Inr x) \<longleftrightarrow> (\<exists>y. r = Inr y \<and> k y = Inr (Inr x))"
  "(case r of Inl reason \<Rightarrow> Inl reason | Inr y \<Rightarrow> Inr (g y)) = Inr z \<longleftrightarrow> (\<exists>y. r = Inr y \<and> z = g y)"
  by (cases r; auto)+

lemma resolve_tools_Inr:
  "resolve_tools frepr sha p c by_name ns = Inr (Inr ts) \<Longrightarrow>
     map re_name ts = ns \<and>
     (\<forall>t\<in>set ts. \<exists>req. requirement_for p (re_name t) = Some req \<and>
        \<not> expected_differs (qr_input_fingerprint req) (re_input t) \<and>
        \<not> expected_differs (qr_output_fingerprint req) (re_output t))"
proof (induction ns arbitrary: ts)
  case (Cons n ns)
  from Cons.prems obtain req tool t us where req: "requirement_for p n = Some req"
    and t: "resolve_tool frepr sha p c n tool req = Inr (Inr t)"
    and us: "resolve_tools frepr sha p c by_name ns = Inr (Inr us)" "ts = t # us"
    by (auto split: option.splits)
  show ?case using Cons.IH [OF us(1)] resolve_tool_Inr [OF t] req us(2) by auto
qed simp

lemma project_tools_Inr:
  assumes "project_tools frepr sha netloc_ok p c a path by_name = Inr (Inr server)"
  shows "sv_artifact_ref server = rt_ref a \<and> sv_artifact_digest server = rt_digest a \<and>
    map pn_name (sv_tool_pins server) = sv_allow server \<and> sv_allow server \<noteq> [] \<and>
    (\<forall>pin\<in>set (sv_tool_pins server). reviewed_pin p pin) \<and> check_adk_server netloc_ok server = okay"
proof -
  define allowed where "allowed = allowed_tools p by_name"
  from assms obtain ts where ne: "allowed \<noteq> []"
    and ts: "resolve_tools frepr sha p c by_name allowed = Inr (Inr ts)"
    and ok: "check_adk_server netloc_ok server = okay"
    and sv: "sv_artifact_ref server = rt_ref a" "sv_artifact_digest server = rt_digest a" "sv_allow server = allowed"
      "sv_tool_pins server = map (\<lambda>t. \<lparr>pn_name = re_name t, pn_input = re_input t, pn_output = re_output t\<rparr>) ts"
    by (auto simp: project_tools_def Let_def allowed_def [symmetric] split: if_splits)
  note tools = resolve_tools_Inr [OF ts]
  have "re_name t \<notin> set (rp_deny p)" if "t \<in> set ts" for t
  proof -
    from that tools have "re_name t \<in> set allowed" by (metis image_eqI list.set_map)
    then show ?thesis by (auto simp: allowed_def allowed_tools_def)
  qed
  then show ?thesis using tools ne ok by (auto simp: sv reviewed_pin_def o_def)
qed

lemma project_Inr:
  assumes "project frepr sha netloc_ok p c a = Inr (Inr server)"
    and "netloc_ok = rv_netloc_ok v"
  shows "serves v p c a server"
proof -
  from assms(1) obtain extension l path tools where
    "schema_of (attributes_get ''x-tesserix'' (rt_spec a)) = Some extension"
    "get_none ''lifecycle'' extension = PStr l" "l \<in> set (rp_lifecycles p)"
    "covers (get_none ''requiredScopes'' extension) (\<lambda>ss. set ss \<subseteq> set (ctx_scopes c))"
    "covers (semantic_capabilities extension) (\<lambda>cs. set (rp_capabilities p) \<subseteq> set cs)"
    and tools: "project_tools frepr sha netloc_ok p c a path (tools_by_name tools []) = Inr (Inr server)"
    unfolding project_def by (auto split: option.splits if_splits pyval.splits)
  then have "permitted p c a" by (auto simp: permitted_def)
  with project_tools_Inr [OF tools] assms(2) show ?thesis by (simp add: serves_def)
qed

lemma find_stubs_offered:
  assumes "find_stubs v cache key q ctx s = (Inr (stubs, network), t)" "stub \<in> set stubs"
    and "make_search_key (rv_frepr v) (rv_sha v) (rv_netloc_ok v) (rv_origin v) q ctx = Inr key"
  shows "offered v cache q ctx s stub"
proof -
  from assms(1) obtain hit s1 where
    hit: "(case cache of None \<Rightarrow> (Inr None, s)
        | Some ops \<Rightarrow> (case co_get_search ops key (rv_now v 0) s of (r, t) \<Rightarrow> (cache_get None r, t))) = (Inr hit, s1)"
    and rest: "hit = None \<longrightarrow> (\<exists>s2. and_then (rv_search v q ctx) (limit_stubs q) = Inr stubs)"
      "\<forall>ss. hit = Some ss \<longrightarrow> limit_stubs q ss = Inr stubs"
    unfolding find_stubs_def run_then_Inr by (fastforce split: option.splits)
  show ?thesis
  proof (cases hit)
    case None
    with rest(1) have "rv_search v q ctx = Inr stubs" "int (length stubs) \<le> rq_limit q"
      by (auto simp: limit_stubs_def)
    with assms(2) show ?thesis by (auto simp: offered_def)
  next
    case (Some ss)
    with rest(2) have "ss = stubs" "int (length stubs) \<le> rq_limit q" by (auto simp: limit_stubs_def)
    moreover obtain ops where "cache = Some ops" "fst (co_get_search ops key (rv_now v 0) s) = Inr (Some ss)"
      using hit Some by (auto split: option.splits prod.splits sum.splits cache_error.splits simp: cache_get_def)
    ultimately show ?thesis using assms(2,3) by (auto simp: offered_def)
  qed
qed

lemma fetch_artifact_stale:
  "fetch_artifact v cache key stub ctx s = (Inr (a, From_stale), t) \<Longrightarrow>
     rv_fetch v stub ctx = Inl Registry_unavailable \<and> cp_max_stale (rv_policy v) \<noteq> Fin 0"
  unfolding fetch_artifact_def
  by (auto split: option.splits prod.splits sum.splits cache_error.splits if_splits)

lemma verify_exact: "verify_exact_identity v s a rid = Inr u \<Longrightarrow> exact_artifact v s a"
  by (auto simp: verify_exact_identity_def exact_artifact_def)

lemma conclude_server:
  assumes "conclude v p ctx es stub found network = Inr r" "rs_server r = Some server"
  shows "serves v p ctx (fst found) server \<and> (rs_source r = Source_OFFLINE \<longrightarrow> snd found = From_stale)"
  using assms unfolding conclude_def make_resolution_def
  by (auto split: sum.splits if_splits dest: project_Inr [OF _ refl])


subsection \<open>Sample\<close>

definition zeros :: string where "zeros = replicate 64 (CHR ''0'')"

definition sample_stub :: search_stub where
  "sample_stub = \<lparr>st_kind = ''MCPServer'', st_name = ''orders'', st_namespace = ''shop'', st_tag = ''1.0.0'',
     st_arn = ''arn:orders'', st_digest = ''sha256:'' @ zeros, st_ref = ''mcpservers/shop/orders@1.0.0'',
     st_fetch_path = ''/v0/mcpservers/orders'', st_title = [], st_description = [], st_visibility = [],
     st_labels = [], st_annotations = [], st_attributes = PDict []\<rparr>"

definition sample_tool_entry :: pyval where
  "sample_tool_entry = obj
     [(''name'', PStr ''get''), (''status'', PStr ''active''), (''requiredScopes'', pstrs [''docs:read'']),
      (''capabilities'', pstrs []), (''inputSchema'', obj [(''type'', PStr ''object'')]),
      (''inputFingerprint'', PStr zeros), (''outputFingerprint'', PStr zeros)]"

definition sample_spec :: pyval where
  "sample_spec = obj [(''x-tesserix'', obj
     [(''lifecycle'', PStr ''active''), (''protocolVersions'', pstrs [''2025-06-18'']), (''requiredScopes'', pstrs [''docs:read'']),
      (''semantic'', obj [(''capabilities'', pstrs [])]), (''routePolicy'', obj [(''gatewayPath'', PStr ''/mcp/orders'')]),
      (''tools'', PList [sample_tool_entry])])]"

definition sample_artifact :: registry_artifact where
  "sample_artifact = \<lparr>rt_api_version = ''registry.agentic.dev/v1alpha1'', rt_kind = ''MCPServer'', rt_name = ''orders'',
     rt_namespace = ''shop'', rt_tag = ''1.0.0'', rt_arn = ''arn:orders'', rt_digest = ''sha256:'' @ zeros,
     rt_ref = ''mcpservers/shop/orders@1.0.0'', rt_labels = [], rt_spec = sample_spec\<rparr>"

definition sample_resolver :: resolver where
  "sample_resolver = \<lparr>rv_frepr = (\<lambda>q. ''0''), rv_sha = (\<lambda>t. zeros), rv_netloc_ok = (\<lambda>n. True),
     rv_origin = ''https://registry'', rv_policy = default_cache_policy,
     rv_search = (\<lambda>q c. Inr [sample_stub]), rv_fetch = (\<lambda>s c. Inr sample_artifact), rv_now = (\<lambda>n. Fin 1)\<rparr>"

definition sample_query :: registry_query where
  "sample_query = \<lparr>rq_intent = ''orders'', rq_kinds = [''MCPServer''], rq_namespace = None, rq_limit = 10\<rparr>"

definition sample_resolution_policy :: resolution_policy where
  "sample_resolution_policy = \<lparr>rp_server_name = ''orders'', rp_gateway_origin = ''https://gateway'', rp_protocols = [''2025-06-18''],
     rp_capabilities = [], rp_lifecycles = [''active''], rp_allow = [''get''], rp_deny = [], rp_prefix = [],
     rp_requirements = [\<lparr>qr_name = ''get'', qr_input_fingerprint = Some zeros, qr_output_fingerprint = None,
       qr_compatible_input = None\<rparr>], rp_max_tools = 4, rp_max_schema_bytes = 1000\<rparr>"

text \<open>A resolution without a cache, step by step.\<close>

lemma resolve_without_cache:
  assumes "is_ok (make_search_key (rv_frepr v) (rv_sha v) (rv_netloc_ok v) (rv_origin v) q ctx)"
    and "rv_search v q ctx = Inr stubs" "int (length stubs) \<le> rq_limit q"
    and "select_stub q p stubs = Inr ([], Some stub)"
    and "is_ok (make_artifact_key (rv_frepr v) (rv_sha v) (rv_netloc_ok v) (rv_origin v) stub ctx)"
    and "rv_fetch v stub ctx = Inr a" "is_ok (verify_exact_identity v stub a (cc_request_id ctx))"
    and "project (rv_frepr v) (rv_sha v) (rv_netloc_ok v) p ctx a = Inr (Inr server)"
    and "make_explanation (st_ref stub) True [] = Inr e"
  shows "resolve_server v (None :: 'c cache_ops option) q p ctx s =
    (Inr \<lparr>rs_source = Source_NETWORK, rs_server = Some server, rs_explanations = [e]\<rparr>, s)"
  using assms
  by (auto simp: is_ok_iff resolve_server_def find_stubs_def limit_stubs_def resolve_selected_def fetch_artifact_def
      keep_artifact_def conclude_def make_resolution_def raise_if_def as_value_error_def)

lemma sample_steps:
  "is_ok (make_search_key (\<lambda>q. ''0'') (\<lambda>t. zeros) (\<lambda>n. True) ''https://registry'' sample_query sample_context)"
  "is_ok (make_artifact_key (\<lambda>q. ''0'') (\<lambda>t. zeros) (\<lambda>n. True) ''https://registry'' sample_stub sample_context)"
  "select_stub sample_query sample_resolution_policy [sample_stub] = Inr ([], Some sample_stub)"
  "is_ok (verify_exact_identity sample_resolver sample_stub sample_artifact (cc_request_id sample_context))"
  "is_ok (make_explanation (st_ref sample_stub) True [])"
  by code_simp+

lemma sample_projects:
  "case project (\<lambda>q. ''0'') (\<lambda>t. zeros) (\<lambda>n. True) sample_resolution_policy sample_context sample_artifact of
     Inr (Inr server) \<Rightarrow> True | _ \<Rightarrow> False"
  by code_simp

lemma sample_resolver_fields:
  "rv_frepr sample_resolver = (\<lambda>q. ''0'')" "rv_sha sample_resolver = (\<lambda>t. zeros)"
  "rv_netloc_ok sample_resolver = (\<lambda>n. True)" "rv_origin sample_resolver = ''https://registry''"
  "rv_search sample_resolver = (\<lambda>q c. Inr [sample_stub])" "rv_fetch sample_resolver = (\<lambda>s c. Inr sample_artifact)"
  "rq_limit sample_query = 10"
  by (simp_all add: sample_resolver_def sample_query_def)

lemma sample_resolves:
  "\<exists>server e. resolve_server sample_resolver (None :: unit cache_ops option) sample_query sample_resolution_policy sample_context () =
     (Inr \<lparr>rs_source = Source_NETWORK, rs_server = Some server, rs_explanations = [e]\<rparr>, ())"
proof -
  obtain server where "project (\<lambda>q. ''0'') (\<lambda>t. zeros) (\<lambda>n. True) sample_resolution_policy sample_context sample_artifact = Inr (Inr server)"
    using sample_projects by (auto split: sum.splits)
  moreover obtain e where "make_explanation (st_ref sample_stub) True [] = Inr e"
    using sample_steps(5) by (auto simp: is_ok_iff)
  ultimately show ?thesis
    by (intro exI, intro resolve_without_cache [where stubs = "[sample_stub]" and stub = sample_stub and a = sample_artifact])
      (simp_all add: sample_resolver_fields sample_steps del: select_stub.simps)
qed


end
