(* ===== verification/Authoring_Manifest.thy ===== *)
theory Authoring_Manifest
  imports Manifest_Text Json_Codec
begin

section \<open>Authoring manifests\<close>

text \<open>
  Models \<^verbatim>\<open>tesserix_mcp_manifest/models.py\<close>, \<^verbatim>\<open>loading.py\<close> and \<^verbatim>\<open>errors.py\<close>: the manifest an author
  writes, with the constraints of its fields and its validators, the summary of a tool made from its
  runtime manifest, and the bounded loading of a source.

  The classes are pydantic models, whose constraints and validators are the source's; the model states
  them as one predicate per class, and a failed one is a \<^verbatim>\<open>ValidationError\<close>. What the libraries do is
  the record \<open>manifest_library\<close>: the decoding of UTF-8, the JSON parser, percent decoding, the check of
  a network location, and pydantic's reading of a document into the fields of the model.
\<close>

subsection \<open>Errors\<close>

datatype manifest_code =
    Manifest_DUPLICATE_KEY | Manifest_INVALID_JSON | Manifest_INVALID_MANIFEST | Manifest_RESERVED_ANNOTATION
  | Manifest_SECRET_FIELD | Manifest_SOURCE_TOO_LARGE | Manifest_TOO_COMPLEX | Manifest_TOO_DEEP

fun manifest_code_value :: "manifest_code \<Rightarrow> string" where
  "manifest_code_value Manifest_DUPLICATE_KEY = ''duplicate_key''"
| "manifest_code_value Manifest_INVALID_JSON = ''invalid_json''"
| "manifest_code_value Manifest_INVALID_MANIFEST = ''invalid_manifest''"
| "manifest_code_value Manifest_RESERVED_ANNOTATION = ''reserved_annotation''"
| "manifest_code_value Manifest_SECRET_FIELD = ''secret_field''"
| "manifest_code_value Manifest_SOURCE_TOO_LARGE = ''source_too_large''"
| "manifest_code_value Manifest_TOO_COMPLEX = ''too_complex''"
| "manifest_code_value Manifest_TOO_DEEP = ''too_deep''"

datatype mismatch_component = Runtime_component | Package_component

datatype manifest_error =
    Manifest_validation manifest_code
  | Manifest_version_mismatch mismatch_component string string

fun manifest_error_text :: "manifest_error \<Rightarrow> string" where
  "manifest_error_text (Manifest_validation code) =
     ''authoring manifest validation failed ('' @ manifest_code_value code @ '')''"
| "manifest_error_text (Manifest_version_mismatch component actual expected) =
     (case component of Runtime_component \<Rightarrow> ''runtime'' | Package_component \<Rightarrow> ''package'')
       @ '' version does not match manifest version''"

subsection \<open>Patterns and texts\<close>

text \<open>
  The patterns are matched by Rust's engine, anchored at both ends; its \<^verbatim>\<open>\S\<close> leaves out the white
  space of Unicode, which has fewer control characters than \<open>str.isspace\<close>.
\<close>

definition pattern_space :: "char \<Rightarrow> bool" where
  "pattern_space c \<longleftrightarrow> ord_of c \<in> {9, 10, 11, 12, 13, 32, 133, 160}"

definition manifest_version_rx :: rx where
  "manifest_version_rx = Rep (Cls (\<lambda>c. \<not> pattern_space c)) 1 254"

definition manifest_server_rx :: rx where
  "manifest_server_rx = Seq (Plus (Cls (\<lambda>c. is_alnum c \<or> one_of ''.-'' c)))
     (Seq (lit ''/'') (Plus (Cls (\<lambda>c. is_alnum c \<or> one_of ''._-'' c))))"

definition dashed_rx :: rx where
  "dashed_rx = Seq (Plus (Cls is_lower_alnum)) (Star (Seq (lit ''-'') (Plus (Cls is_lower_alnum))))"

definition capability_rx :: rx where
  "capability_rx = Seq (lit ''cap/'') dashed_rx"

definition manifest_tool_rx :: rx where
  "manifest_tool_rx = Seq (Cls is_alpha) (Rep (Cls (\<lambda>c. is_alnum c \<or> one_of ''_.-'' c)) 0 127)"

definition tool_input_rx :: rx where
  "tool_input_rx = Seq (Cls (\<lambda>c. is_alnum c \<or> c = CHR ''_''))
     (Rep (Cls (\<lambda>c. is_alnum c \<or> one_of ''_.-'' c)) 0 127)"

definition registry_arn_rx :: rx where
  "registry_arn_rx =
     (let part = Plus (Cls (\<lambda>c. is_alnum c \<or> one_of ''._-'' c)) in
      Seq (lit ''arn:agentic:registry:'') (Seq part (Seq (lit '':'')
        (Seq (alternatives (map lit [''skills'', ''tools'', ''mcpservers'', ''prompts'', ''workflows'', ''blueprints'',
           ''agents'', ''datasets'', ''evalsuites'']))
        (Seq (lit ''/'') (Seq part (Seq (lit ''/'') (Seq part (Star (Seq (lit ''/'') part))))))))))"

definition sized :: "nat \<Rightarrow> nat \<Rightarrow> string \<Rightarrow> bool" where
  "sized low high s \<longleftrightarrow> low \<le> length s \<and> length s \<le> high"

definition prose_ok :: "nat \<Rightarrow> nat \<Rightarrow> string \<Rightarrow> bool" where
  "prose_ok low high s \<longleftrightarrow> sized low high s \<and> discovery_text_ok s"

definition phrase_ok :: "string \<Rightarrow> bool" where
  "phrase_ok = prose_ok 3 200"

definition keyword_ok :: "string \<Rightarrow> bool" where
  "keyword_ok = prose_ok 2 64"

definition server_text_ok :: "string \<Rightarrow> bool" where
  "server_text_ok = prose_ok 1 100"

definition capability_ok :: "string \<Rightarrow> bool" where
  "capability_ok s \<longleftrightarrow> length s \<le> 64 \<and> fullmatch capability_rx s"

definition registry_arn_ok :: "string \<Rightarrow> bool" where
  "registry_arn_ok s \<longleftrightarrow> length s \<le> 512 \<and> fullmatch registry_arn_rx s"

definition if_given :: "('a \<Rightarrow> bool) \<Rightarrow> 'a option \<Rightarrow> bool" where
  "if_given p x \<longleftrightarrow> (case x of None \<Rightarrow> True | Some v \<Rightarrow> p v)"

definition at_most_of :: "nat \<Rightarrow> ('a \<Rightarrow> bool) \<Rightarrow> 'a list \<Rightarrow> bool" where
  "at_most_of n p xs \<longleftrightarrow> length xs \<le> n \<and> list_all p xs"

subsection \<open>What the libraries do\<close>

text \<open>
  \<open>ml_parse\<close> gives the syntax tree as far as the parser got, with \<open>Raw_broken\<close> where it gave up, and
  whether nothing but blanks follows. \<open>ml_model\<close> reads a source into the fields of the model, in the
  strict mode and without unknown fields, before any constraint is checked; \<open>ml_object\<close> reads one as an
  object of JSON values, and \<open>ml_loads\<close> is \<open>json.loads\<close> without hooks. \<open>ml_sha\<close> is the SHA-256 of bytes.
\<close>

record 'm manifest_library =
  ml_netloc_ok :: "string \<Rightarrow> bool"
  ml_unquote :: "string \<Rightarrow> string"
  ml_decode :: "string \<Rightarrow> string option"
  ml_parse :: "string \<Rightarrow> raw_json \<times> bool"
  ml_model :: "string \<Rightarrow> 'm option"
  ml_object :: "string \<Rightarrow> pyval option"
  ml_loads :: "string \<Rightarrow> pyval option"
  ml_frepr :: "rat \<Rightarrow> string"
  ml_sha :: "string \<Rightarrow> string"

subsection \<open>The parts of a manifest\<close>

datatype runtime_adapter = Adapter_NATIVE | Adapter_ADK

fun adapter_value :: "runtime_adapter \<Rightarrow> string" where
  "adapter_value Adapter_NATIVE = ''native''"
| "adapter_value Adapter_ADK = ''adk''"

datatype discovery_risk = Risk_LOW | Risk_MEDIUM | Risk_HIGH | Risk_CRITICAL

fun risk_value :: "discovery_risk \<Rightarrow> string" where
  "risk_value Risk_LOW = ''low''"
| "risk_value Risk_MEDIUM = ''medium''"
| "risk_value Risk_HIGH = ''high''"
| "risk_value Risk_CRITICAL = ''critical''"

datatype package_registry =
  Registry_NPM | Registry_PYPI | Registry_OCI | Registry_NUGET | Registry_CARGO | Registry_MCPB

fun package_registry_value :: "package_registry \<Rightarrow> string" where
  "package_registry_value Registry_NPM = ''npm''"
| "package_registry_value Registry_PYPI = ''pypi''"
| "package_registry_value Registry_OCI = ''oci''"
| "package_registry_value Registry_NUGET = ''nuget''"
| "package_registry_value Registry_CARGO = ''cargo''"
| "package_registry_value Registry_MCPB = ''mcpb''"

definition lib_url_ok :: "'m manifest_library \<Rightarrow> bool \<Rightarrow> string \<Rightarrow> bool" where
  "lib_url_ok lib = url_ok (ml_netloc_ok lib) (ml_unquote lib)"

record repository =
  rp_url :: string
  rp_source :: string
  rp_id :: "string option"
  rp_subfolder :: "string option"

definition repository_ok :: "'m manifest_library \<Rightarrow> repository \<Rightarrow> bool" where
  "repository_ok lib r \<longleftrightarrow>
     lib_url_ok lib True (rp_url r) \<and> sized 1 64 (rp_source r) \<and> if_given (sized 1 256) (rp_id r) \<and>
     if_given (sized 1 512) (rp_subfolder r)"

record remote_endpoint =
  re_url :: string

definition remote_ok :: "'m manifest_library \<Rightarrow> remote_endpoint \<Rightarrow> bool" where
  "remote_ok lib r \<longleftrightarrow> lib_url_ok lib True (re_url r)"

datatype transport_type = Transport_STDIO | Transport_HTTP

fun transport_value :: "transport_type \<Rightarrow> string" where
  "transport_value Transport_STDIO = ''stdio''"
| "transport_value Transport_HTTP = ''streamable-http''"

record package_transport =
  pt_type :: transport_type
  pt_url :: "string option"

definition transport_ok :: "'m manifest_library \<Rightarrow> package_transport \<Rightarrow> bool" where
  "transport_ok lib t \<longleftrightarrow>
     (case pt_type t of
        Transport_HTTP \<Rightarrow> (case pt_url t of None \<Rightarrow> False | Some u \<Rightarrow> lib_url_ok lib False u)
      | Transport_STDIO \<Rightarrow> pt_url t = None)"

record package_identity =
  pk_registry_type :: package_registry
  pk_identifier :: string
  pk_transport :: package_transport
  pk_version :: "string option"
  pk_registry_base_url :: "string option"
  pk_runtime_hint :: "string option"
  pk_file_sha256 :: "string option"
  pk_image_digest :: "string option"

definition package_identifier_ok :: "'m manifest_library \<Rightarrow> string \<Rightarrow> bool" where
  "package_identifier_ok lib v \<longleftrightarrow>
     (if contains ''://'' v then lib_url_ok lib True v
      else v = strip v \<and> visible_text v \<and> CHR ''?'' \<notin> set v \<and> CHR ''#'' \<notin> set v \<and> CHR 0x5C \<notin> set v)"

definition exact_version :: "string \<Rightarrow> bool" where
  "exact_version v \<longleftrightarrow>
     v \<noteq> ''latest'' \<and> \<not> next_is (one_of ''~^<>=*'') v \<and> \<not> ends_with ''.x'' v \<and> \<not> ends_with ''.*'' v"

definition image_identity_ok :: "package_identity \<Rightarrow> bool" where
  "image_identity_ok p \<longleftrightarrow>
     (if pk_registry_type p = Registry_OCI
      then pk_image_digest p \<noteq> None \<and> CHR ''@'' \<notin> set (pk_identifier p)
      else pk_image_digest p = None) \<and>
     (pk_registry_type p = Registry_MCPB \<longrightarrow> pk_file_sha256 p \<noteq> None)"

definition package_ok :: "'m manifest_library \<Rightarrow> package_identity \<Rightarrow> bool" where
  "package_ok lib p \<longleftrightarrow>
     sized 1 2048 (pk_identifier p) \<and> package_identifier_ok lib (pk_identifier p) \<and>
     transport_ok lib (pk_transport p) \<and>
     if_given (\<lambda>v. fullmatch manifest_version_rx v \<and> exact_version v) (pk_version p) \<and>
     if_given (lib_url_ok lib True) (pk_registry_base_url p) \<and>
     if_given (sized 1 64) (pk_runtime_hint p) \<and>
     if_given (fullmatch hex64) (pk_file_sha256 p) \<and>
     if_given (fullmatch sha256_ref) (pk_image_digest p) \<and>
     image_identity_ok p"

record credential_reference =
  cf_secret_name :: string
  cf_key :: string

definition credential_ok :: "credential_reference \<Rightarrow> bool" where
  "credential_ok c \<longleftrightarrow> sized 1 253 (cf_secret_name c) \<and> sized 1 253 (cf_key c)"

record ownership =
  ow_namespace :: string
  ow_tenant_id :: string
  ow_visibility :: manifest_visibility
  ow_org_id :: "string option"
  ow_team_id :: "string option"
  ow_labels :: "(string \<times> string) list"
  ow_annotations :: "(string \<times> string) list"

definition ownership_ok :: "ownership \<Rightarrow> bool" where
  "ownership_ok w \<longleftrightarrow>
     sized 1 63 (ow_namespace w) \<and> sized 1 63 (ow_tenant_id w) \<and> if_given (sized 1 128) (ow_org_id w) \<and>
     if_given (sized 1 128) (ow_team_id w) \<and>
     \<not> list_ex (\<lambda>e. is_reserved_annotation (fst e)) (ow_annotations w) \<and>
     ow_tenant_id w = ow_namespace w"

record route_policy =
  ro_gateway_path :: string
  ro_direct_access :: bool

definition route_policy_ok :: "route_policy \<Rightarrow> bool" where
  "route_policy_ok r \<longleftrightarrow> sized 1 512 (ro_gateway_path r)"

record semantic_metadata =
  sm_summary :: "string option"
  sm_when_to_use :: "string list"
  sm_not_for :: "string list"
  sm_examples :: "string list"
  sm_capabilities :: "string list"
  sm_requires :: "string list"
  sm_risk :: "discovery_risk option"
  sm_domains :: "string list"
  sm_keywords :: "string list"

definition no_semantic :: semantic_metadata where
  "no_semantic = \<lparr>sm_summary = None, sm_when_to_use = [], sm_not_for = [], sm_examples = [], sm_capabilities = [],
     sm_requires = [], sm_risk = None, sm_domains = [], sm_keywords = []\<rparr>"

definition semantic_ok :: "semantic_metadata \<Rightarrow> bool" where
  "semantic_ok m \<longleftrightarrow>
     if_given phrase_ok (sm_summary m) \<and> at_most_of 8 phrase_ok (sm_when_to_use m) \<and>
     at_most_of 8 phrase_ok (sm_not_for m) \<and> at_most_of 8 phrase_ok (sm_examples m) \<and>
     at_most_of 32 capability_ok (sm_capabilities m) \<and> at_most_of 32 registry_arn_ok (sm_requires m) \<and>
     at_most_of 16 keyword_ok (sm_domains m) \<and> at_most_of 32 keyword_ok (sm_keywords m)"

subsection \<open>Tools\<close>

datatype tool_json_type =
    Json_ARRAY | Json_BOOLEAN | Json_INTEGER | Json_NULL | Json_NUMBER | Json_OBJECT | Json_STRING

fun tool_json_type_value :: "tool_json_type \<Rightarrow> string" where
  "tool_json_type_value Json_ARRAY = ''array''"
| "tool_json_type_value Json_BOOLEAN = ''boolean''"
| "tool_json_type_value Json_INTEGER = ''integer''"
| "tool_json_type_value Json_NULL = ''null''"
| "tool_json_type_value Json_NUMBER = ''number''"
| "tool_json_type_value Json_OBJECT = ''object''"
| "tool_json_type_value Json_STRING = ''string''"

definition tool_json_types :: "tool_json_type list" where
  "tool_json_types =
     [Json_ARRAY, Json_BOOLEAN, Json_INTEGER, Json_NULL, Json_NUMBER, Json_OBJECT, Json_STRING]"

definition tool_json_type_of :: "pyval \<Rightarrow> tool_json_type option" where
  "tool_json_type_of v = find (\<lambda>t. v = PStr (tool_json_type_value t)) tool_json_types"

record tool_input =
  ti_name :: string
  ti_json_type :: tool_json_type
  ti_description :: "string option"
  ti_required :: bool

definition tool_input_ok :: "tool_input \<Rightarrow> bool" where
  "tool_input_ok i \<longleftrightarrow>
     sized 1 128 (ti_name i) \<and> fullmatch tool_input_rx (ti_name i) \<and> if_given phrase_ok (ti_description i)"

record tool_summary =
  ts_name :: string
  ts_description :: string
  ts_input_fingerprint :: string
  ts_output_fingerprint :: string
  ts_required_scopes :: "string list"
  ts_semantic :: semantic_metadata
  ts_lifecycle :: manifest_lifecycle
  ts_inputs :: "tool_input list"

definition tool_summary_ok :: "tool_summary \<Rightarrow> bool" where
  "tool_summary_ok t \<longleftrightarrow>
     sized 1 128 (ts_name t) \<and> fullmatch manifest_tool_rx (ts_name t) \<and> prose_ok 1 512 (ts_description t) \<and>
     fullmatch hex64 (ts_input_fingerprint t) \<and> fullmatch hex64 (ts_output_fingerprint t) \<and>
     semantic_ok (ts_semantic t) \<and> at_most_of 50 tool_input_ok (ts_inputs t)"

definition text_value :: "pyval \<Rightarrow> string option" where
  "text_value v = (case v of PStr s \<Rightarrow> Some s | _ \<Rightarrow> None)"

definition validation_error :: value_error where
  "validation_error = ValueError ''validation error''"

text \<open>
  \<open>_runtime_tool_inputs\<close>. The input schema of a runtime manifest is a decoded JSON object, so the keys
  of its properties are texts.
\<close>

definition property_input :: "string list \<Rightarrow> string \<times> pyval \<Rightarrow> tool_input option" where
  "property_input required_names = (\<lambda>(name, definition).
     if is_secret_field name then None
     else
       (case definition of
          PDict d \<Rightarrow>
            map_option (\<lambda>t. \<lparr>ti_name = name, ti_json_type = t,
                ti_description = text_value (get_none ''description'' d),
                ti_required = (name \<in> set required_names)\<rparr>) (tool_json_type_of (get_none ''type'' d))
        | _ \<Rightarrow> None))"

definition text_entries :: "(pykey \<times> pyval) list \<Rightarrow> (string \<times> pyval) list" where
  "text_entries d = concat (map (\<lambda>(k, v). case k of KStr s \<Rightarrow> [(s, v)] | KOther i \<Rightarrow> []) d)"

definition schema_inputs :: "pyval \<Rightarrow> tool_input list" where
  "schema_inputs input_schema =
     (case input_schema of
        PDict schema \<Rightarrow>
          (case get_none ''properties'' schema of
             PDict properties \<Rightarrow>
               List.map_filter
                 (property_input (case get_none ''required'' schema of PList xs \<Rightarrow> List.map_filter text_value xs | _ \<Rightarrow> []))
                 (sort_key fst (text_entries properties))
           | _ \<Rightarrow> [])
      | _ \<Rightarrow> [])"

definition runtime_tool_inputs :: "tool_manifest \<Rightarrow> (value_error, tool_input list) result" where
  "runtime_tool_inputs m =
     (let inputs = schema_inputs (mf_input_schema m) in
      raise_if (\<not> list_all tool_input_ok inputs) validation_error
      (raise_if (length inputs > 50)
        (ValueError ''tool discovery input projection exceeds 50 safe properties'')
        (Inr inputs)))"

definition runtime_semantic :: "tool_manifest \<Rightarrow> (value_error, semantic_metadata) result" where
  "runtime_semantic m =
     (case tm_discovery (mf_metadata m) of
        None \<Rightarrow> Inr no_semantic
      | Some d \<Rightarrow>
          (let s = no_semantic\<lparr>sm_summary := Some (td_summary d), sm_when_to_use := [td_when_to_use d],
             sm_examples := td_examples d, sm_capabilities := td_capabilities d\<rparr> in
           raise_if (\<not> semantic_ok s) validation_error (Inr s)))"

definition runtime_lifecycle :: "tool_manifest \<Rightarrow> manifest_lifecycle" where
  "runtime_lifecycle m =
     (case tm_discovery (mf_metadata m) of
        Some d \<Rightarrow> if td_lifecycle d = ''deprecated'' then Lifecycle_DEPRECATED else Lifecycle_ACTIVE
      | None \<Rightarrow> Lifecycle_ACTIVE)"

definition summary_from_runtime ::
  "tool_manifest \<Rightarrow> semantic_metadata option \<Rightarrow> manifest_lifecycle option \<Rightarrow> (value_error, tool_summary) result" where
  "summary_from_runtime m semantic lifecycle =
     and_then (case semantic of Some s \<Rightarrow> Inr s | None \<Rightarrow> runtime_semantic m) (\<lambda>s.
     and_then (runtime_tool_inputs m) (\<lambda>inputs.
     (let t = \<lparr>ts_name = mf_normalized_name m, ts_description = tm_description (mf_metadata m),
        ts_input_fingerprint = mf_input_fingerprint m, ts_output_fingerprint = mf_output_fingerprint m,
        ts_required_scopes = tm_required_scopes (mf_metadata m), ts_semantic = s,
        ts_lifecycle = (case lifecycle of Some l \<Rightarrow> l | None \<Rightarrow> runtime_lifecycle m), ts_inputs = inputs\<rparr> in
      raise_if (\<not> tool_summary_ok t) validation_error (Inr t))))"

text \<open>A summary made from a runtime manifest shows no property whose name says it is a secret.\<close>

lemma property_input_public: "property_input rs e = Some i \<Longrightarrow> \<not> is_secret_field (ti_name i)"
  by (auto simp: property_input_def split: prod.splits pyval.splits if_splits)

lemma schema_inputs_public: "i \<in> set (schema_inputs s) \<Longrightarrow> \<not> is_secret_field (ti_name i)"
  unfolding schema_inputs_def
  by (cases s; cases "get_none ''properties'' (case s of PDict d \<Rightarrow> d | _ \<Rightarrow> [])")
    (auto simp: List.map_filter_def dest: property_input_public)

lemma summary_from_runtime_ok:
  assumes "summary_from_runtime m semantic lifecycle = Inr t"
  shows "tool_summary_ok t" and "ts_inputs t = schema_inputs (mf_input_schema m)"
    and "\<forall>i\<in>set (ts_inputs t). \<not> is_secret_field (ti_name i)"
proof -
  show "tool_summary_ok t" and inputs: "ts_inputs t = schema_inputs (mf_input_schema m)"
    using assms by (auto simp: summary_from_runtime_def runtime_tool_inputs_def Let_def)
  show "\<forall>i\<in>set (ts_inputs t). \<not> is_secret_field (ti_name i)"
    unfolding inputs using schema_inputs_public by blast
qed

subsection \<open>The manifest\<close>

record authoring_manifest =
  am_manifest_version :: string
  am_name :: string
  am_version :: string
  am_description :: string
  am_title :: "string option"
  am_repository :: repository
  am_ownership :: ownership
  am_adapter :: runtime_adapter
  am_protocol_versions :: "string list"
  am_lifecycle :: manifest_lifecycle
  am_route_policy :: route_policy
  am_remote :: "remote_endpoint option"
  am_package :: "package_identity option"
  am_credential_ref :: "credential_reference option"
  am_semantic :: semantic_metadata
  am_egress_hosts :: "string list"
  am_required_scopes :: "string list"
  am_tools :: "tool_summary list"

type_synonym manifest_lib = "authoring_manifest manifest_library"

definition authoring_ok :: "manifest_lib \<Rightarrow> authoring_manifest \<Rightarrow> bool" where
  "authoring_ok lib m \<longleftrightarrow>
     am_manifest_version m = authoring_version \<and>
     sized 3 200 (am_name m) \<and> fullmatch manifest_server_rx (am_name m) \<and>
     fullmatch manifest_version_rx (am_version m) \<and>
     server_text_ok (am_description m) \<and> if_given server_text_ok (am_title m) \<and>
     repository_ok lib (am_repository m) \<and> ownership_ok (am_ownership m) \<and>
     am_protocol_versions m \<noteq> [] \<and> route_policy_ok (am_route_policy m) \<and>
     if_given (remote_ok lib) (am_remote m) \<and> if_given (package_ok lib) (am_package m) \<and>
     if_given credential_ok (am_credential_ref m) \<and>
     semantic_ok (am_semantic m) \<and> list_all tool_summary_ok (am_tools m) \<and>
     (am_remote m \<noteq> None \<or> am_package m \<noteq> None)"

subsection \<open>Loading\<close>

datatype hook_error = Duplicate_key | Unreadable

definition manifest_object :: "(string \<times> pyval) list \<Rightarrow> (hook_error, pyval) result" where
  "manifest_object pairs =
     (case unique_object [] pairs of None \<Rightarrow> Inl Duplicate_key | Some d \<Rightarrow> Inr (PDict d))"

text \<open>The parser calls the hooks as it goes, so the first error in the order of the text is raised.\<close>

fun read_raw :: "raw_json \<Rightarrow> (hook_error, pyval) result"
  and read_items :: "raw_json list \<Rightarrow> (hook_error, pyval list) result"
  and read_pairs :: "(string \<times> raw_json) list \<Rightarrow> (hook_error, (string \<times> pyval) list) result"
where
  "read_raw (Raw_leaf v) = Inr v"
| "read_raw Raw_constant = Inl Unreadable"
| "read_raw Raw_broken = Inl Unreadable"
| "read_raw (Raw_list xs) = and_then (read_items xs) (\<lambda>vs. Inr (PList vs))"
| "read_raw (Raw_object kvs) = and_then (read_pairs kvs) manifest_object"
| "read_items [] = Inr []"
| "read_items (x # xs) = and_then (read_raw x) (\<lambda>v. and_then (read_items xs) (\<lambda>vs. Inr (v # vs)))"
| "read_pairs [] = Inr []"
| "read_pairs ((k, x) # kvs) = and_then (read_raw x) (\<lambda>v. and_then (read_pairs kvs) (\<lambda>vs. Inr ((k, v) # vs)))"

definition read_document :: "manifest_lib \<Rightarrow> string \<Rightarrow> (hook_error, pyval) result" where
  "read_document lib text =
     and_then (read_raw (fst (ml_parse lib text))) (\<lambda>v. raise_if (\<not> snd (ml_parse lib text)) Unreadable (Inr v))"

definition allowed_reference_key :: "string list \<Rightarrow> string \<Rightarrow> bool" where
  "allowed_reference_key path key \<longleftrightarrow>
     path = [] \<and> key = ''credential_ref'' \<or> path = [''credential_ref''] \<and> key = ''secret_name''"

text \<open>\<open>_is_object\<close> and \<open>_is_array\<close>: the values below a value, with their paths.\<close>

definition text_keyed :: "(pykey \<times> pyval) list \<Rightarrow> bool" where
  "text_keyed d \<longleftrightarrow> list_all (\<lambda>e. is_kstr (fst e)) d"

definition values_below :: "string list \<Rightarrow> pyval \<Rightarrow> (pyval \<times> string list) list" where
  "values_below path v =
     (case v of
        PDict d \<Rightarrow> if text_keyed d then map (\<lambda>(k, x). (x, path @ [k])) (text_entries d) else []
      | PList xs \<Rightarrow> map (\<lambda>x. (x, path)) xs
      | _ \<Rightarrow> [])"

definition secret_below :: "string list \<Rightarrow> pyval \<Rightarrow> bool" where
  "secret_below path v =
     (case v of
        PDict d \<Rightarrow>
          text_keyed d \<and> list_ex (\<lambda>(k, x). is_secret_field k \<and> \<not> allowed_reference_key path k) (text_entries d)
      | _ \<Rightarrow> False)"

lemma values_below_size:
  "sum_list (map (\<lambda>(x, p). Suc (size x)) (values_below path v)) < Suc (size v)"
proof (cases v)
  case (PDict d)
  have "sum_list (map (\<lambda>(x, p). Suc (size x)) (map (\<lambda>(k, x). (x, path @ [k])) (text_entries d)))
      \<le> size_list (size_prod (\<lambda>k. 0) size) d"
    by (induction d) (auto simp: text_entries_def split: pykey.splits)
  with PDict show ?thesis by (auto simp: values_below_def)
next
  case (PList xs)
  have "sum_list (map (\<lambda>(x, p). Suc (size x)) (map (\<lambda>x. (x, path)) xs)) = size_list size xs"
    by (induction xs) auto
  with PList show ?thesis by (simp add: values_below_def)
qed (simp_all add: values_below_def)

text \<open>The stack has its top at the head; the source extends its list at the end and pops there.\<close>

function walk_structure :: "nat \<Rightarrow> (pyval \<times> int \<times> string list) list \<Rightarrow> (manifest_code, unit) result" where
  "walk_structure n [] = Inr ()"
| "walk_structure n ((v, depth, path) # pending) =
     (if Suc n > manifest_max_nodes then Inl Manifest_TOO_COMPLEX
      else if depth > manifest_max_depth then Inl Manifest_TOO_DEEP
      else if secret_below path v then Inl Manifest_SECRET_FIELD
      else walk_structure (Suc n) (rev (map (\<lambda>(x, p). (x, depth + 1, p)) (values_below path v)) @ pending))"
  by pat_completeness auto

termination
proof (relation "measure (\<lambda>(n, pending). sum_list (map (\<lambda>(v, depth, path). Suc (size v)) pending))", goal_cases)
  case (2 n v depth path pending)
  have "sum_list (map (\<lambda>(v, depth, path). Suc (size v)) (rev (map (\<lambda>(x, p). (x, depth + 1, p)) (values_below path v))))
      = sum_list (map (\<lambda>(x, p). Suc (size x)) (values_below path v))"
    by (simp add: rev_map [symmetric] sum_list_rev o_def case_prod_unfold)
  with values_below_size [of path v] show ?case by simp
qed simp

declare walk_structure.simps [simp del]

definition enforce_structure_limits :: "pyval \<Rightarrow> (manifest_code, unit) result" where
  "enforce_structure_limits document = walk_structure 0 [(document, 1, [])]"

definition as_manifest_error :: "(manifest_code, 'a) result \<Rightarrow> (manifest_error, 'a) result" where
  "as_manifest_error r = (case r of Inl c \<Rightarrow> Inl (Manifest_validation c) | Inr a \<Rightarrow> Inr a)"

definition load_authoring_manifest :: "manifest_lib \<Rightarrow> string \<Rightarrow> (manifest_error, authoring_manifest) result" where
  "load_authoring_manifest lib source =
     (if length source > manifest_max_bytes then Inl (Manifest_validation Manifest_SOURCE_TOO_LARGE)
      else
        (case ml_decode lib source of
           None \<Rightarrow> Inl (Manifest_validation Manifest_INVALID_JSON)
         | Some text \<Rightarrow>
             (case read_document lib text of
                Inl Duplicate_key \<Rightarrow> Inl (Manifest_validation Manifest_DUPLICATE_KEY)
              | Inl Unreadable \<Rightarrow> Inl (Manifest_validation Manifest_INVALID_JSON)
              | Inr document \<Rightarrow>
                  and_then (as_manifest_error (enforce_structure_limits document)) (\<lambda>_.
                  (case ml_model lib source of
                     None \<Rightarrow> Inl (Manifest_validation Manifest_INVALID_MANIFEST)
                   | Some m \<Rightarrow>
                       raise_if (\<not> authoring_ok lib m) (Manifest_validation Manifest_INVALID_MANIFEST) (Inr m))))))"

subsection \<open>What the walk decides\<close>

lemma values_below_smaller: "(x, p) \<in> set (values_below path v) \<Longrightarrow> size x < size v"
  using member_le_sum_list [of "Suc (size x)" "map (\<lambda>(x, p). Suc (size x)) (values_below path v)"] values_below_size [of path v]
  by force

text \<open>Every value of a document with its depth and its path.\<close>

function visited :: "int \<Rightarrow> string list \<Rightarrow> pyval \<Rightarrow> (pyval \<times> int \<times> string list) list" where
  "visited depth path v = (v, depth, path) # concat (map (\<lambda>(x, p). visited (depth + 1) p x) (values_below path v))"
  by pat_completeness auto

termination
  by (relation "measure (\<lambda>(depth, path, v). size v)") (auto dest: values_below_smaller)

declare visited.simps [simp del]

definition visit_ok :: "pyval \<times> int \<times> string list \<Rightarrow> bool" where
  "visit_ok = (\<lambda>(v, depth, path). depth \<le> manifest_max_depth \<and> \<not> secret_below path v)"

definition all_visited :: "(pyval \<times> int \<times> string list) list \<Rightarrow> (pyval \<times> int \<times> string list) list" where
  "all_visited pending = concat (map (\<lambda>(v, depth, path). visited depth path v) pending)"

lemma all_visited_simps [simp]:
  "all_visited [] = []"
  "all_visited ((v, depth, path) # pending) = visited depth path v @ all_visited pending"
  "all_visited (xs @ ys) = all_visited xs @ all_visited ys"
  "set (all_visited (rev xs)) = set (all_visited xs)"
  "length (all_visited (rev xs)) = length (all_visited xs)"
  by (auto simp: all_visited_def length_concat rev_map [symmetric] sum_list_rev)

lemma visited_below:
  "visited depth path v = (v, depth, path) # all_visited (map (\<lambda>(x, p). (x, depth + 1, p)) (values_below path v))"
  by (simp add: visited.simps [of depth] all_visited_def o_def case_prod_unfold)

lemma walk_structure_iff:
  "n \<le> manifest_max_nodes \<Longrightarrow>
     walk_structure n pending = Inr () \<longleftrightarrow>
     n + length (all_visited pending) \<le> manifest_max_nodes \<and> (\<forall>x\<in>set (all_visited pending). visit_ok x)"
proof (induction n pending rule: walk_structure.induct)
  case (1 n)
  then show ?case by (simp add: walk_structure.simps all_visited_def)
next
  case (2 n v depth path pending)
  let ?rest = "rev (map (\<lambda>(x, p). (x, depth + 1, p)) (values_below path v)) @ pending"
  show ?case
  proof (cases "Suc n > manifest_max_nodes \<or> \<not> visit_ok (v, depth, path)")
    case True
    then have "walk_structure n ((v, depth, path) # pending) \<noteq> Inr ()"
      by (auto simp: walk_structure.simps visit_ok_def)
    with True show ?thesis by (auto simp: visited_below [of depth])
  next
    case False
    then have "walk_structure n ((v, depth, path) # pending) = walk_structure (Suc n) ?rest"
      by (simp add: walk_structure.simps visit_ok_def)
    moreover have "walk_structure (Suc n) ?rest = Inr () \<longleftrightarrow>
        Suc n + length (all_visited ?rest) \<le> manifest_max_nodes \<and> (\<forall>x\<in>set (all_visited ?rest). visit_ok x)"
      using False by (intro "2.IH") (auto simp: visit_ok_def)
    ultimately show ?thesis using False by (auto simp: visited_below [of depth])
  qed
qed

text \<open>The walk accepts exactly the documents within both bounds that name no secret.\<close>

lemma structure_decided:
  "enforce_structure_limits d = Inr () \<longleftrightarrow>
     length (visited 1 [] d) \<le> manifest_max_nodes \<and> (\<forall>x\<in>set (visited 1 [] d). visit_ok x)"
  using walk_structure_iff [of 0 "[(d, 1, [])]"] by (simp add: enforce_structure_limits_def)

text \<open>A loaded manifest comes from a bounded source, a document within the limits, and is valid.\<close>

lemma load_authoring_manifest_ok:
  assumes "load_authoring_manifest lib source = Inr m"
  obtains s d where "ml_decode lib source = Some s" and "read_document lib s = Inr d"
    and "enforce_structure_limits d = Inr ()" and "ml_model lib source = Some m" and "authoring_ok lib m"
    and "length source \<le> manifest_max_bytes"
  using assms unfolding load_authoring_manifest_def as_manifest_error_def
  by (auto split: if_splits option.splits sum.splits hook_error.splits)

end
