(* ===== verification/Manifest_Compiler.thy ===== *)
theory Manifest_Compiler
  imports Authoring_Manifest
begin

section \<open>The manifest compiler\<close>

text \<open>
  Models \<^verbatim>\<open>tesserix_mcp_manifest/compiler.py\<close>: the canonical text of a document (sorted keys, an
  indentation of two), the portable document and the Registry document of an authoring manifest, their
  compilation with its checks, and the extraction of the portable document from the Registry manifest.

  A manifest in bytes is a \<open>string\<close> with one \<open>char\<close> for each byte.
\<close>

subsection \<open>The canonical text\<close>

definition new_line :: "nat \<Rightarrow> string" where
  "new_line n = CHR 0x0A # replicate (2 * n) (CHR '' '')"

definition json_block :: "char \<Rightarrow> char \<Rightarrow> nat \<Rightarrow> string list \<Rightarrow> string" where
  "json_block opening closing n items =
     (if items = [] then [opening, closing]
      else [opening] @ new_line (Suc n) @ join ('','' @ new_line (Suc n)) items @ new_line n @ [closing])"

definition member_text :: "string \<times> string \<Rightarrow> string" where
  "member_text = (\<lambda>(k, v). json_string k @ '': '' @ v)"

text \<open>\<open>json.dumps\<close> with \<open>indent=2\<close>; \<open>None\<close> where it raises.\<close>

primrec pretty :: "(rat \<Rightarrow> string) \<Rightarrow> pyval \<Rightarrow> nat \<Rightarrow> string option"
  and pretty_list :: "(rat \<Rightarrow> string) \<Rightarrow> pyval list \<Rightarrow> nat \<Rightarrow> string list option"
  and pretty_items :: "(rat \<Rightarrow> string) \<Rightarrow> (pykey \<times> pyval) list \<Rightarrow> nat \<Rightarrow> (string \<times> string) list option"
  and pretty_item :: "(rat \<Rightarrow> string) \<Rightarrow> pykey \<times> pyval \<Rightarrow> nat \<Rightarrow> (string \<times> string) option"
where
  "pretty frepr PNone n = Some ''null''"
| "pretty frepr (PBool b) n = Some (if b then ''true'' else ''false'')"
| "pretty frepr (PInt i) n = Some (int_str i)"
| "pretty frepr (PFloat f) n = (case f of Fin q \<Rightarrow> Some (frepr q) | _ \<Rightarrow> None)"
| "pretty frepr (PStr s) n = Some (json_string s)"
| "pretty frepr (PList xs) n = map_option (json_block (CHR ''['') (CHR '']'') n) (pretty_list frepr xs (Suc n))"
| "pretty frepr (PDict d) n =
     map_option (\<lambda>items. json_block (CHR ''{'') (CHR ''}'') n (map member_text (sort_key fst items))) (pretty_items frepr d (Suc n))"
| "pretty frepr POther n = None"
| "pretty_list frepr [] n = Some []"
| "pretty_list frepr (x # xs) n =
     (case pretty frepr x n of None \<Rightarrow> None | Some s \<Rightarrow> map_option ((#) s) (pretty_list frepr xs n))"
| "pretty_items frepr [] n = Some []"
| "pretty_items frepr (kv # d) n =
     (case pretty_item frepr kv n of None \<Rightarrow> None | Some p \<Rightarrow> map_option ((#) p) (pretty_items frepr d n))"
| "pretty_item frepr (Pair k v) n =
     (case k of KOther i \<Rightarrow> None | KStr s \<Rightarrow> map_option (Pair s) (pretty frepr v n))"

fun utf8_encode :: "string \<Rightarrow> string" where
  "utf8_encode [] = []"
| "utf8_encode (c # cs) =
     (if ord_of c < 128 then [c] else [char_of (192 + ord_of c div 64), char_of (128 + ord_of c mod 64)]) @ utf8_encode cs"

definition manifest_bytes :: "(rat \<Rightarrow> string) \<Rightarrow> pyval \<Rightarrow> (value_error, string) result" where
  "manifest_bytes frepr document =
     (case pretty frepr document 0 of
        None \<Rightarrow> Inl (ValueError ''document is not JSON'')
      | Some t \<Rightarrow> Inr (utf8_encode (t @ [CHR 0x0A])))"

text \<open>\<open>hashlib.sha256\<close> of the bytes of a text.\<close>

definition text_sha :: "manifest_lib \<Rightarrow> string \<Rightarrow> string" where
  "text_sha lib s = ml_sha lib (utf8_encode s)"

subsection \<open>Documents\<close>

definition without_none :: "(string \<times> pyval) list \<Rightarrow> (string \<times> pyval) list" where
  "without_none kvs = filter (\<lambda>(k, v). v \<noteq> PNone) kvs"

definition sorted_strings :: "string list \<Rightarrow> pyval" where
  "sorted_strings ss = pstrs (sort ss)"

definition optional_sorted_strings :: "string list \<Rightarrow> pyval" where
  "optional_sorted_strings ss = (if ss = [] then PNone else sorted_strings ss)"

definition string_map :: "(string \<times> string) list \<Rightarrow> pyval" where
  "string_map kvs = obj (map (\<lambda>(k, v). (k, PStr v)) kvs)"

definition optional_value :: "('a \<Rightarrow> string) \<Rightarrow> 'a option \<Rightarrow> pyval" where
  "optional_value f x = of_opt_str (map_option f x)"

definition semantic_annotations :: "authoring_manifest \<Rightarrow> (string \<times> string) list" where
  "semantic_annotations m =
     (let s = am_semantic m in
      (case sm_summary s of None \<Rightarrow> [] | Some t \<Rightarrow> [(discovery_annotation ''summary'', t)]) @
      (if sm_when_to_use s = [] then [] else [(discovery_annotation ''when-to-use'', join ''; '' (sort (sm_when_to_use s)))]) @
      (if sm_capabilities s = [] then [] else [(discovery_annotation ''capabilities'', join '', '' (sort (sm_capabilities s)))]) @
      (if sm_requires s = [] then [] else [(discovery_annotation ''requires'', join '', '' (sort (sm_requires s)))]))"

definition package_document :: "package_identity \<Rightarrow> pyval" where
  "package_document p = obj (without_none
     [(''fileSha256'', of_opt_str (pk_file_sha256 p)),
      (''identifier'', PStr (case pk_image_digest p of None \<Rightarrow> pk_identifier p | Some d \<Rightarrow> pk_identifier p @ ''@'' @ d)),
      (''registryBaseUrl'', of_opt_str (pk_registry_base_url p)),
      (''registryType'', PStr (package_registry_value (pk_registry_type p))),
      (''runtimeHint'', of_opt_str (pk_runtime_hint p)),
      (''transport'', obj (without_none
         [(''type'', PStr (transport_value (pt_type (pk_transport p)))), (''url'', of_opt_str (pt_url (pk_transport p)))])),
      (''version'', of_opt_str (pk_version p))])"

definition input_properties :: "tool_input list \<Rightarrow> (string \<times> pyval) list" where
  "input_properties inputs =
     foldl (\<lambda>d i. dict_put (ti_name i) (obj (without_none
         [(''description'', of_opt_str (ti_description i)), (''type'', PStr (tool_json_type_value (ti_json_type i)))])) d)
       [] (sort_key ti_name inputs)"

definition tool_input_schema :: "tool_summary \<Rightarrow> pyval" where
  "tool_input_schema t = obj
     [(''properties'', obj (input_properties (ts_inputs t))),
      (''required'', pstrs (map ti_name (filter ti_required (sort_key ti_name (ts_inputs t))))),
      (''type'', PStr ''object'')]"

definition tool_document :: "manifest_lib \<Rightarrow> tool_summary \<Rightarrow> (value_error, pyval) result" where
  "tool_document lib t =
     (let s = ts_semantic t in
      and_then (schema_fingerprint (ml_frepr lib) (text_sha lib) (tool_input_schema t)) (\<lambda>fingerprint.
      Inr (obj (without_none
        [(''capabilities'', sorted_strings (sm_capabilities s)),
         (''description'', PStr (ts_description t)),
         (''inputFingerprint'', PStr (ts_input_fingerprint t)),
         (''inputSchema'', tool_input_schema t),
         (''inputSchemaFingerprint'', PStr fingerprint),
         (''name'', PStr (ts_name t)),
         (''outputFingerprint'', PStr (ts_output_fingerprint t)),
         (''requires'', sorted_strings (sm_requires s)),
         (''requiredScopes'', sorted_strings (ts_required_scopes t)),
         (''riskLevel'', optional_value risk_value (sm_risk s)),
         (''semantic'', obj (without_none
            [(''examples'', optional_sorted_strings (sm_examples s)),
             (''notFor'', optional_sorted_strings (sm_not_for s)),
             (''summary'', of_opt_str (sm_summary s)),
             (''whenToUse'', optional_sorted_strings (sm_when_to_use s))])),
         (''status'', PStr (lifecycle_value (ts_lifecycle t)))]))))"

definition portable_document :: "authoring_manifest \<Rightarrow> (string \<times> pyval) list" where
  "portable_document m = without_none
     ([(''$schema'', PStr official_schema_url),
       (''description'', PStr (am_description m)),
       (''name'', PStr (am_name m)),
       (''repository'', obj (without_none
          [(''id'', of_opt_str (rp_id (am_repository m))),
           (''source'', PStr (rp_source (am_repository m))),
           (''subfolder'', of_opt_str (rp_subfolder (am_repository m))),
           (''url'', PStr (rp_url (am_repository m)))])),
       (''title'', of_opt_str (am_title m)),
       (''version'', PStr (am_version m))] @
      (case am_remote m of
         None \<Rightarrow> []
       | Some r \<Rightarrow> [(''remotes'', PList [obj [(''type'', PStr ''streamable-http''), (''url'', PStr (re_url r))]])]) @
      (case am_package m of None \<Rightarrow> [] | Some p \<Rightarrow> [(''packages'', PList [package_document p])]))"

definition registry_labels :: "authoring_manifest \<Rightarrow> (string \<times> string) list" where
  "registry_labels m =
     dict_put ''transport'' (if am_remote m \<noteq> None then ''streamable-http'' else ''package'') (ow_labels (am_ownership m))"

definition registry_annotations :: "authoring_manifest \<Rightarrow> (string \<times> string) list" where
  "registry_annotations m =
     foldl (\<lambda>d (k, v). dict_put k v d) (ow_annotations (am_ownership m)) (semantic_annotations m)"

definition registry_metadata :: "authoring_manifest \<Rightarrow> (string \<times> pyval) list" where
  "registry_metadata m =
     (let w = am_ownership m in without_none
        [(''annotations'', if registry_annotations m = [] then PNone else string_map (registry_annotations m)),
         (''labels'', string_map (registry_labels m)),
         (''name'', PStr (am_name m)),
         (''namespace'', PStr (ow_namespace w)),
         (''orgId'', of_opt_str (ow_org_id w)),
         (''tag'', PStr (am_version m)),
         (''teamId'', of_opt_str (ow_team_id w)),
         (''tenantId'', PStr (ow_tenant_id w)),
         (''visibility'', PStr (visibility_value (ow_visibility w)))])"

definition server_semantic :: "semantic_metadata \<Rightarrow> pyval" where
  "server_semantic s = obj (without_none
     [(''capabilities'', sorted_strings (sm_capabilities s)),
      (''domains'', sorted_strings (sm_domains s)),
      (''examples'', optional_sorted_strings (sm_examples s)),
      (''keywords'', sorted_strings (sm_keywords s)),
      (''notFor'', optional_sorted_strings (sm_not_for s)),
      (''requires'', optional_sorted_strings (sm_requires s)),
      (''risk'', optional_value risk_value (sm_risk s)),
      (''summary'', of_opt_str (sm_summary s)),
      (''whenToUse'', optional_sorted_strings (sm_when_to_use s))])"

definition registry_extension :: "authoring_manifest \<Rightarrow> pyval list \<Rightarrow> pyval" where
  "registry_extension m tools = obj
     [(''adapter'', PStr (adapter_value (am_adapter m))),
      (''authoringVersion'', PStr authoring_version),
      (''egressHosts'', sorted_strings (am_egress_hosts m)),
      (''lifecycle'', PStr (lifecycle_value (am_lifecycle m))),
      (''protocolVersions'', sorted_strings (am_protocol_versions m)),
      (''requiredScopes'', sorted_strings (am_required_scopes m)),
      (''routePolicy'', obj
         [(''directAccess'', PBool (ro_direct_access (am_route_policy m))),
          (''gatewayPath'', PStr (ro_gateway_path (am_route_policy m)))]),
      (''semantic'', server_semantic (am_semantic m)),
      (''tools'', PList tools)]"

definition registry_spec :: "authoring_manifest \<Rightarrow> (string \<times> pyval) list \<Rightarrow> pyval list \<Rightarrow> (string \<times> pyval) list" where
  "registry_spec m portable tools =
     dict_put registry_extension_key (registry_extension m tools) portable @
     (case am_credential_ref m of
        None \<Rightarrow> []
      | Some c \<Rightarrow> [(''credentialRef'', obj [(''key'', PStr (cf_key c)), (''secretName'', PStr (cf_secret_name c))])])"

definition registry_document ::
  "manifest_lib \<Rightarrow> authoring_manifest \<Rightarrow> (string \<times> pyval) list \<Rightarrow> (value_error, pyval) result" where
  "registry_document lib m portable =
     and_then (map_result (tool_document lib) (sort_key ts_name (am_tools m))) (\<lambda>tools.
     Inr (obj
       [(''apiVersion'', PStr registry_api_version),
        (''kind'', PStr ''MCPServer''),
        (''metadata'', obj (registry_metadata m)),
        (''spec'', obj (registry_spec m portable tools))]))"

subsection \<open>Compilation\<close>

datatype compile_error = Manifest_raised manifest_error | Value_raised value_error

record compiled_manifests =
  cm_server_json :: string
  cm_registry_manifest :: string

definition server_digest :: "manifest_lib \<Rightarrow> compiled_manifests \<Rightarrow> string" where
  "server_digest lib c = ''sha256:'' @ ml_sha lib (cm_server_json c)"

definition registry_digest :: "manifest_lib \<Rightarrow> compiled_manifests \<Rightarrow> string" where
  "registry_digest lib c = ''sha256:'' @ ml_sha lib (cm_registry_manifest c)"

definition compile_refusal :: "manifest_lib \<Rightarrow> authoring_manifest \<Rightarrow> string \<Rightarrow> (manifest_error, unit) result" where
  "compile_refusal lib m runtime_version =
     (let w = am_ownership m in
      raise_if (list_ex (\<lambda>e. is_reserved_annotation (fst e)) (ow_annotations w))
        (Manifest_validation Manifest_RESERVED_ANNOTATION)
      (raise_if (list_ex (\<lambda>e. is_secret_field (fst e)) (ow_labels w) \<or>
           list_ex (\<lambda>e. is_secret_field (fst e)) (ow_annotations w))
        (Manifest_validation Manifest_SECRET_FIELD)
      (raise_if (\<not> authoring_ok lib m) (Manifest_validation Manifest_INVALID_MANIFEST)
      (raise_if (runtime_version \<noteq> am_version m)
        (Manifest_version_mismatch Runtime_component runtime_version (am_version m))
      (case Option.bind (am_package m) pk_version of
         None \<Rightarrow> Inr ()
       | Some v \<Rightarrow> raise_if (v \<noteq> am_version m) (Manifest_version_mismatch Package_component v (am_version m)) (Inr ()))))))"

definition compiled_documents :: "manifest_lib \<Rightarrow> authoring_manifest \<Rightarrow> (value_error, compiled_manifests) result" where
  "compiled_documents lib m =
     and_then (registry_document lib m (portable_document m)) (\<lambda>registry.
     and_then (manifest_bytes (ml_frepr lib) (obj (portable_document m))) (\<lambda>server_json.
     and_then (manifest_bytes (ml_frepr lib) registry) (\<lambda>registry_manifest.
     Inr \<lparr>cm_server_json = server_json, cm_registry_manifest = registry_manifest\<rparr>)))"

definition compile_manifests ::
  "manifest_lib \<Rightarrow> authoring_manifest \<Rightarrow> string \<Rightarrow> (compile_error, compiled_manifests) result" where
  "compile_manifests lib m runtime_version =
     (case compile_refusal lib m runtime_version of
        Inl e \<Rightarrow> Inl (Manifest_raised e)
      | Inr _ \<Rightarrow>
          (case compiled_documents lib m of
             Inl e \<Rightarrow> Inl (Value_raised e)
           | Inr c \<Rightarrow> Inr c))"

text \<open>\<open>extract_server_json\<close>: pydantic reads the bytes strictly into an object of JSON values.\<close>

definition extract_server_json :: "manifest_lib \<Rightarrow> string \<Rightarrow> (value_error, string) result" where
  "extract_server_json lib registry_manifest =
     (case ml_object lib registry_manifest of
        Some (PDict document) \<Rightarrow>
          raise_if (get_none ''kind'' document \<noteq> PStr ''MCPServer'') (ValueError ''invalid_registry_manifest'')
          (case get_none ''spec'' document of
             PDict spec \<Rightarrow>
               manifest_bytes (ml_frepr lib)
                 (PDict (filter (\<lambda>(k, v). k \<notin> {KStr registry_extension_key, KStr ''credentialRef''}) spec))
           | _ \<Rightarrow> Inl (ValueError ''invalid_registry_spec''))
      | _ \<Rightarrow> Inl (ValueError ''invalid_registry_manifest''))"

subsection \<open>The canonical text does not depend on the order of entries\<close>

definition entry_key :: "pykey \<times> 'v \<Rightarrow> string" where
  "entry_key kv = (case fst kv of KStr s \<Rightarrow> s | KOther i \<Rightarrow> [])"

lemma insort_key_map: "insort_key f (g x) (map g xs) = map g (insort_key (\<lambda>x. f (g x)) x xs)"
  by (induction xs) auto

lemma sort_key_map: "sort_key f (map g xs) = map g (sort_key (\<lambda>x. f (g x)) xs)"
  by (induction xs) (simp_all add: insort_key_map)

lemma pretty_items_eq:
  "pretty_items frepr d n =
     (if \<forall>kv\<in>set d. pretty_item frepr kv n \<noteq> None
      then Some (map (\<lambda>kv. (entry_key kv, snd (the (pretty_item frepr kv n)))) d) else None)"
proof (induction d)
  case (Cons kv d)
  obtain k v where kv: "kv = (k, v)" by (cases kv)
  show ?case
  proof (cases "pretty_item frepr kv n")
    case (Some p)
    then have "p = (entry_key kv, snd (the (pretty_item frepr kv n)))"
      by (auto simp: kv entry_key_def split: pykey.splits)
    then show ?thesis using Cons Some by (simp del: pretty_item.simps)
  qed simp
qed simp

lemma pretty_list_eq:
  "pretty_list frepr xs n =
     (if \<forall>x\<in>set xs. pretty frepr x n \<noteq> None then Some (map (\<lambda>x. the (pretty frepr x n)) xs) else None)"
proof (induction xs)
  case (Cons x xs)
  then show ?case by (cases "pretty frepr x n") auto
qed simp

lemma sort_entries_dict:
  "sort_entries (PDict d) = PDict (sort_key entry_key (map (map_prod id sort_entries) d))"
  by (simp add: entry_key_def [abs_def])

lemma pretty_item_sorted:
  "pretty frepr (sort_entries (snd kv)) n = pretty frepr (snd kv) n \<Longrightarrow>
     pretty_item frepr (map_prod id sort_entries kv) n = pretty_item frepr kv n"
  by (cases kv) (simp split: pykey.split)

lemma pretty_sort_entries: "pretty frepr (sort_entries v) n = pretty frepr v n"
proof (induction v arbitrary: n)
  case (PList xs)
  then have "pretty_list frepr (map sort_entries xs) m = pretty_list frepr xs m" for m
    by (simp add: pretty_list_eq o_def cong: map_cong)
  then show ?case by simp
next
  case (PDict d)
  let ?e = "map (map_prod id sort_entries) d"
  let ?text = "\<lambda>n kv. (entry_key kv, snd (the (pretty_item frepr kv n)))"
  have item: "pretty_item frepr (map_prod id sort_entries kv) m = pretty_item frepr kv m" if "kv \<in> set d" for kv m
    using PDict [of kv "snd kv" m] that by (intro pretty_item_sorted) (cases kv, auto)
  have key: "entry_key (map_prod id sort_entries kv) = entry_key kv" for kv
    by (cases kv) (simp add: entry_key_def)
  have "sort_key fst (map (?text m) (sort_key entry_key ?e)) = sort_key fst (map (?text m) d)" for m
  proof -
    have "map (?text m) (sort_key entry_key ?e) = sort_key fst (map (?text m) ?e)"
      by (simp add: sort_key_map o_def)
    moreover have "map (?text m) ?e = map (?text m) d"
      using item by (simp add: key cong: map_cong)
    ultimately show ?thesis by (simp only: sort_key_id_if_sorted [OF sorted_sort_key])
  qed
  moreover have "(\<forall>kv\<in>set (sort_key entry_key ?e). pretty_item frepr kv m \<noteq> None)
      \<longleftrightarrow> (\<forall>kv\<in>set d. pretty_item frepr kv m \<noteq> None)" for m
    using item by (auto simp del: pretty_item.simps)
  ultimately show ?case
    by (simp only: sort_entries_dict pretty.simps pretty_items_eq split: if_split) simp
qed simp_all

lemma manifest_bytes_sort_entries: "manifest_bytes frepr (sort_entries v) = manifest_bytes frepr v"
  by (simp add: manifest_bytes_def pretty_sort_entries)

lemma pretty_Some_iff: "pretty frepr v n \<noteq> None \<longleftrightarrow> is_json_value v"
proof (induction v arbitrary: n)
  case (PFloat f)
  show ?case by (cases f) simp_all
next
  case (PList xs)
  then show ?case by (simp add: pretty_list_eq)
next
  case (PDict d)
  have item: "pretty_item frepr (k, v) m \<noteq> None \<longleftrightarrow> is_kstr k \<and> is_json_value v" if "(k, v) \<in> set d" for k v m
    using PDict [OF that, of v m] by (cases k) simp_all
  have "(\<forall>kv\<in>set d. pretty_item frepr kv m \<noteq> None) \<longleftrightarrow> is_json_value (PDict d)" for m
    unfolding is_json_dict
  proof (rule ball_cong [OF refl])
    fix kv assume "kv \<in> set d"
    then show "pretty_item frepr kv m \<noteq> None \<longleftrightarrow> (case kv of (k, v) \<Rightarrow> is_kstr k \<and> is_json_value v)"
      using item [of "fst kv" "snd kv" m] by (simp only: prod.collapse split_def)
  qed
  then show ?case by (simp only: pretty.simps pretty_items_eq split: if_split) simp
qed simp_all

lemma manifest_bytes_ok: "is_json_value v \<Longrightarrow> \<exists>b. manifest_bytes frepr v = Inr b"
  using pretty_Some_iff [of frepr v 0] by (auto simp: manifest_bytes_def)

subsection \<open>Every document of the compiler is JSON\<close>

lemma is_json_obj [simp]: "is_json_value (obj kvs) \<longleftrightarrow> (\<forall>(k, v)\<in>set kvs. is_json_value v)"
  by (auto simp: obj_def)

lemma is_json_texts [simp]:
  "is_json_value (pstrs ss)" "is_json_value (of_opt_str x)" "is_json_value (sorted_strings ss)"
  "is_json_value (optional_sorted_strings ss)" "is_json_value (string_map kvs)" "is_json_value (optional_value f y)"
proof -
  show opt: "is_json_value (of_opt_str x)" for x by (cases x) simp_all
  show "is_json_value (optional_value f y)" by (simp add: optional_value_def opt)
qed (auto simp: pstrs_def sorted_strings_def optional_sorted_strings_def string_map_def)

lemma is_json_without_none: "(\<forall>(k, v)\<in>set kvs. is_json_value v) \<Longrightarrow> is_json_value (obj (without_none kvs))"
  by (auto simp: without_none_def)

lemma set_dict_put_subset: "set (dict_put k v d) \<subseteq> insert (k, v) (set d)"
  by (induction d) (auto split: if_splits)

lemma put_each_json:
  "(\<forall>(k, v)\<in>set d. is_json_value v) \<Longrightarrow> (\<And>i. is_json_value (g i)) \<Longrightarrow>
     \<forall>(k, v)\<in>set (foldl (\<lambda>d i. dict_put (f i) (g i) d) d xs). is_json_value v"
proof (induction xs arbitrary: d)
  case (Cons x xs)
  have "\<forall>(k, v)\<in>set (dict_put (f x) (g x) d). is_json_value v"
    using Cons.prems set_dict_put_subset [of "f x" "g x" d] by fastforce
  then show ?case using Cons by simp
qed simp

lemma input_properties_json: "\<forall>(k, v)\<in>set (input_properties inputs). is_json_value v"
  unfolding input_properties_def
  by (rule put_each_json) (auto intro!: is_json_without_none simp del: is_json_obj)

lemma tool_document_ok: "\<exists>d. tool_document lib t = Inr d \<and> is_json_value d"
proof -
  have "is_json_value (tool_input_schema t)"
    using input_properties_json by (simp add: tool_input_schema_def)
  then have "is_ok (canonical_json (ml_frepr lib) (tool_input_schema t))"
    by (simp only: canonical_json_ok)
  then obtain f where "schema_fingerprint (ml_frepr lib) (text_sha lib) (tool_input_schema t) = Inr f"
    by (auto simp: schema_fingerprint_def is_ok_iff)
  then show ?thesis
    using \<open>is_json_value (tool_input_schema t)\<close>
    by (auto simp: tool_document_def Let_def intro!: is_json_without_none simp del: is_json_obj)
qed

lemma server_semantic_json: "is_json_value (server_semantic s)"
  by (auto simp: server_semantic_def intro!: is_json_without_none simp del: is_json_obj)

lemma registry_document_ok: "\<exists>d. registry_document lib m p = Inr (obj d)"
  and registry_document_json:
    "registry_document lib m p = Inr d \<Longrightarrow> (\<forall>(k, v)\<in>set p. is_json_value v) \<Longrightarrow> is_json_value d"
proof -
  have tools: "\<exists>ds. map_result (tool_document lib) ts = Inr ds \<and> (\<forall>d\<in>set ds. is_json_value d)" for ts
  proof (induction ts)
    case (Cons t ts)
    with tool_document_ok [of lib t] show ?case by fastforce
  qed simp
  then show "\<exists>d. registry_document lib m p = Inr (obj d)"
    using tools [of "sort_key ts_name (am_tools m)"] by (force simp: registry_document_def)
  show "is_json_value d" if d: "registry_document lib m p = Inr d" and p: "\<forall>(k, v)\<in>set p. is_json_value v"
  proof -
    obtain ts where ts: "map_result (tool_document lib) (sort_key ts_name (am_tools m)) = Inr ts"
        "\<forall>d\<in>set ts. is_json_value d"
      using tools by blast
    have "is_json_value (registry_extension m ts)"
      using ts(2) by (auto simp: registry_extension_def server_semantic_json)
    then have "\<forall>(k, v)\<in>set (registry_spec m p ts). is_json_value v"
      using p set_dict_put_subset [of registry_extension_key "registry_extension m ts" p]
      by (fastforce simp: registry_spec_def split: option.splits)
    moreover have "\<forall>(k, v)\<in>set (registry_metadata m). is_json_value v"
      by (auto simp: registry_metadata_def without_none_def Let_def)
    ultimately show ?thesis
      using d ts(1) by (auto simp: registry_document_def)
  qed
qed

lemma portable_document_json: "\<forall>(k, v)\<in>set (portable_document m). is_json_value v"
proof -
  have "is_json_value (package_document p)" for p
    by (auto simp: package_document_def intro!: is_json_without_none simp del: is_json_obj)
  then show ?thesis
    by (auto simp: portable_document_def without_none_def split: option.splits)
qed

lemma compiled_documents_ok:
  "\<exists>c d. compiled_documents lib m = Inr c \<and> registry_document lib m (portable_document m) = Inr (obj d) \<and>
     manifest_bytes (ml_frepr lib) (obj (portable_document m)) = Inr (cm_server_json c) \<and>
     manifest_bytes (ml_frepr lib) (obj d) = Inr (cm_registry_manifest c)"
proof -
  obtain d where d: "registry_document lib m (portable_document m) = Inr (obj d)"
    using registry_document_ok by blast
  obtain b where "manifest_bytes (ml_frepr lib) (obj (portable_document m)) = Inr b"
    using manifest_bytes_ok portable_document_json is_json_obj by blast
  moreover obtain b' where "manifest_bytes (ml_frepr lib) (obj d) = Inr b'"
    using manifest_bytes_ok [OF registry_document_json [OF d portable_document_json]] by blast
  ultimately show ?thesis using d by (force simp: compiled_documents_def)
qed

text \<open>Compilation fails for its checks only: no document of a manifest is beyond the encoder.\<close>

lemma compile_manifests_fails:
  "compile_manifests lib m v = Inl e \<longleftrightarrow> (\<exists>r. compile_refusal lib m v = Inl r \<and> e = Manifest_raised r)"
  using compiled_documents_ok [of lib m] by (auto simp: compile_manifests_def split: sum.splits)

lemma compile_manifests_ok:
  assumes "compile_manifests lib m v = Inr c"
  shows "compiled_documents lib m = Inr c" and "compile_refusal lib m v = Inr ()"
  using assms by (auto simp: compile_manifests_def split: sum.splits)

subsection \<open>Extraction\<close>

text \<open>What a strict JSON parser does: reading the text of a document gives the document, its entries in order.\<close>

definition reads_back :: "manifest_lib \<Rightarrow> pyval \<Rightarrow> bool" where
  "reads_back lib d \<longleftrightarrow>
     (case manifest_bytes (ml_frepr lib) d of Inl e \<Rightarrow> False | Inr b \<Rightarrow> ml_object lib b = Some (sort_entries d))"

lemma portable_keys:
  "set (map fst (portable_document m)) \<subseteq>
     {''$schema'', ''description'', ''name'', ''repository'', ''title'', ''version'', ''remotes'', ''packages''}"
  by (auto simp: portable_document_def without_none_def split: option.splits)

lemma dict_put_new: "k \<notin> fst ` set d \<Longrightarrow> dict_put k v d = d @ [(k, v)]"
  by (induction d) auto

lemma registry_spec_eq:
  "\<exists>e. registry_spec m (portable_document m) ts = portable_document m @ e \<and>
     set (map fst e) \<subseteq> {registry_extension_key, ''credentialRef''}"
proof -
  have "registry_extension_key \<notin> fst ` set (portable_document m)"
    using portable_keys [of m] by (auto simp: registry_extension_key_def)
  then show ?thesis
    by (auto simp: registry_spec_def dict_put_new split: option.splits)
qed

lemma filter_sorted_entries:
  "filter (\<lambda>(k, v). P k) (sort_key entry_key (map (map_prod id g) d)) =
     sort_key entry_key (map (map_prod id g) (filter (\<lambda>(k, v). P k) d))"
  by (simp add: filter_sort filter_map o_def case_prod_unfold)

lemma distinct_fst_sort_key: "distinct (map fst (sort_key f xs)) = distinct (map fst xs)"
  by (simp only: distinct_map set_sort distinct_sort)

text \<open>A sorted document has the entries of the document, one for each key.\<close>

lemma get_sorted_entries:
  assumes "distinct (map fst d)"
  shows "get_none k (sort_key entry_key (map (map_prod id g) d)) =
    (case dict_get k d of None \<Rightarrow> PNone | Some v \<Rightarrow> g v)"
proof -
  have "distinct (map fst (map (map_prod id g) d))" using assms by (simp add: o_def case_prod_unfold)
  then have "map_of (sort_key entry_key (map (map_prod id g) d)) = map_of (map (map_prod id g) d)"
    by (subst map_of_inject_set) (simp_all only: set_sort, simp_all add: distinct_fst_sort_key)
  then have "map_of (sort_key entry_key (map (map_prod id g) d)) (KStr k) = map_of (map (map_prod id g) d) (KStr k)"
    by simp
  also have "\<dots> = map_option g (map_of d (KStr k))"
    by (induction d) auto
  finally show ?thesis by (simp add: get_or_def dict_get_def split: option.splits)
qed

lemma registry_document_entries:
  assumes "registry_document lib m (portable_document m) = Inr d"
  obtains ts where "map_result (tool_document lib) (sort_key ts_name (am_tools m)) = Inr ts"
    and "d = obj [(''apiVersion'', PStr registry_api_version), (''kind'', PStr ''MCPServer''),
      (''metadata'', obj (registry_metadata m)), (''spec'', obj (registry_spec m (portable_document m) ts))]"
  using assms by (auto simp: registry_document_def)

lemma extracted_spec:
  "filter (\<lambda>(k, v). k \<notin> {KStr registry_extension_key, KStr ''credentialRef''})
     (map (\<lambda>(k, v). (KStr k, v)) (registry_spec m (portable_document m) ts)) =
   map (\<lambda>(k, v). (KStr k, v)) (portable_document m)"
proof -
  obtain e where e: "registry_spec m (portable_document m) ts = portable_document m @ e"
      "set (map fst e) \<subseteq> {registry_extension_key, ''credentialRef''}"
    using registry_spec_eq by blast
  have "filter (\<lambda>(k, v). k \<notin> {KStr registry_extension_key, KStr ''credentialRef''}) (map (\<lambda>(k, v). (KStr k, v)) e) = []"
    using e(2) by (fastforce simp: filter_empty_conv)
  moreover have "\<forall>(k, v)\<in>set (portable_document m). k \<notin> {registry_extension_key, ''credentialRef''}"
    using portable_keys [of m] by (fastforce simp: registry_extension_key_def)
  ultimately show ?thesis
    by (auto simp: e(1) filter_map o_def case_prod_unfold filter_id_conv)
qed

text \<open>
  C0. A Registry manifest holds the portable manifest: extracting it from the compiled bytes gives the
  compiled server document back, byte for byte, whatever the extension and the credential reference
  are. The JSON parser gives back the document whose text it reads.
\<close>

theorem server_json_extracted:
  assumes "compile_manifests lib m v = Inr c"
    and "\<And>d. registry_document lib m (portable_document m) = Inr d \<Longrightarrow> reads_back lib d"
  shows "extract_server_json lib (cm_registry_manifest c) = Inr (cm_server_json c)"
proof -
  obtain d where d: "registry_document lib m (portable_document m) = Inr d"
      "manifest_bytes (ml_frepr lib) (obj (portable_document m)) = Inr (cm_server_json c)"
      "manifest_bytes (ml_frepr lib) d = Inr (cm_registry_manifest c)"
    using compiled_documents_ok [of lib m] compile_manifests_ok(1) [OF assms(1)] by auto
  then have read: "ml_object lib (cm_registry_manifest c) = Some (sort_entries d)"
    using assms(2) [OF d(1)] by (simp add: reads_back_def)
  obtain ts where dd: "d = obj [(''apiVersion'', PStr registry_api_version), (''kind'', PStr ''MCPServer''),
      (''metadata'', obj (registry_metadata m)), (''spec'', obj (registry_spec m (portable_document m) ts))]"
    using registry_document_entries [OF d(1)] by metis
  let ?spec = "map (\<lambda>(k, v). (KStr k, v)) (registry_spec m (portable_document m) ts)"
  let ?top = "map (\<lambda>(k, v). (KStr k, v)) [(''apiVersion'', PStr registry_api_version), (''kind'', PStr ''MCPServer''),
      (''metadata'', obj (registry_metadata m)), (''spec'', obj (registry_spec m (portable_document m) ts))]"
  have entry: "get_none k (sort_key entry_key (map (map_prod id sort_entries) ?top)) =
      (case dict_get k ?top of None \<Rightarrow> PNone | Some v \<Rightarrow> sort_entries v)" for k
    by (rule get_sorted_entries) simp
  have top: "sort_entries d = PDict (sort_key entry_key (map (map_prod id sort_entries) ?top))"
    by (simp only: dd obj_def sort_entries_dict)
  have "get_none ''kind'' (sort_key entry_key (map (map_prod id sort_entries) ?top)) = PStr ''MCPServer''"
    unfolding entry by (simp add: dict_get_def)
  moreover have "get_none ''spec'' (sort_key entry_key (map (map_prod id sort_entries) ?top)) =
      PDict (sort_key entry_key (map (map_prod id sort_entries) ?spec))"
    unfolding entry by (simp add: dict_get_def obj_def sort_entries_dict del: sort_entries.simps)
  ultimately have "extract_server_json lib (cm_registry_manifest c) =
      manifest_bytes (ml_frepr lib) (PDict (filter (\<lambda>(k, v). k \<notin> {KStr registry_extension_key, KStr ''credentialRef''})
        (sort_key entry_key (map (map_prod id sort_entries) ?spec))))"
    unfolding extract_server_json_def read top by (simp only: option.case pyval.case raise_if_False not_True_eq_False simp_thms)
  also have "\<dots> = manifest_bytes (ml_frepr lib) (sort_entries (obj (portable_document m)))"
    unfolding filter_sorted_entries extracted_spec obj_def sort_entries_dict ..
  finally show ?thesis using d(2) by (simp only: manifest_bytes_sort_entries)
qed

subsection \<open>The order of the author does not matter\<close>

definition reordered ::
  "authoring_manifest \<Rightarrow> tool_summary list \<Rightarrow> string list \<Rightarrow> string list \<Rightarrow> string list \<Rightarrow> authoring_manifest" where
  "reordered m tools hosts scopes versions =
     m\<lparr>am_tools := tools, am_egress_hosts := hosts, am_required_scopes := scopes, am_protocol_versions := versions\<rparr>"

lemma reordered_fields [simp]:
  "am_manifest_version (reordered m ts hs ss vs) = am_manifest_version m"
  "am_name (reordered m ts hs ss vs) = am_name m"
  "am_version (reordered m ts hs ss vs) = am_version m"
  "am_description (reordered m ts hs ss vs) = am_description m"
  "am_title (reordered m ts hs ss vs) = am_title m"
  "am_repository (reordered m ts hs ss vs) = am_repository m"
  "am_ownership (reordered m ts hs ss vs) = am_ownership m"
  "am_adapter (reordered m ts hs ss vs) = am_adapter m"
  "am_lifecycle (reordered m ts hs ss vs) = am_lifecycle m"
  "am_route_policy (reordered m ts hs ss vs) = am_route_policy m"
  "am_remote (reordered m ts hs ss vs) = am_remote m"
  "am_package (reordered m ts hs ss vs) = am_package m"
  "am_credential_ref (reordered m ts hs ss vs) = am_credential_ref m"
  "am_semantic (reordered m ts hs ss vs) = am_semantic m"
  "am_tools (reordered m ts hs ss vs) = ts"
  "am_egress_hosts (reordered m ts hs ss vs) = hs"
  "am_required_scopes (reordered m ts hs ss vs) = ss"
  "am_protocol_versions (reordered m ts hs ss vs) = vs"
  by (simp_all add: reordered_def)

lemma sorted_strings_mset:
  assumes "mset xs = mset ys"
  shows "sorted_strings xs = sorted_strings ys"
proof -
  have "sort xs = sort ys" by (rule properties_for_sort) (simp_all add: assms)
  then show ?thesis by (simp add: sorted_strings_def)
qed

text \<open>
  The compiled bytes do not depend on the order in which the author lists tools, egress hosts, scopes
  and protocol versions.
\<close>

lemma compile_order_independent:
  assumes "mset tools = mset (am_tools m)" and "distinct (map ts_name (am_tools m))"
    and "mset hosts = mset (am_egress_hosts m)" and "mset scopes = mset (am_required_scopes m)"
    and "mset versions = mset (am_protocol_versions m)"
  shows "compile_manifests lib (reordered m tools hosts scopes versions) v = compile_manifests lib m v"
proof -
  let ?n = "reordered m tools hosts scopes versions"
  have "sort_key ts_name tools = sort_key ts_name (am_tools m)"
  proof (rule sort_key_perm_unique [OF assms(1)])
    have "mset (map ts_name tools) = mset (map ts_name (am_tools m))" by (simp add: assms(1))
    then show "distinct (map ts_name tools)" using assms(2) mset_eq_imp_distinct_iff by blast
  qed
  moreover have "portable_document ?n = portable_document m"
    by (simp add: portable_document_def)
  moreover have "registry_spec ?n p ts = registry_spec m p ts" for p ts
    using sorted_strings_mset [OF assms(3)] sorted_strings_mset [OF assms(4)] sorted_strings_mset [OF assms(5)]
    by (simp add: registry_spec_def registry_extension_def)
  moreover have "registry_metadata ?n = registry_metadata m"
    by (simp add: registry_metadata_def registry_annotations_def registry_labels_def semantic_annotations_def Let_def)
  ultimately have "compiled_documents lib ?n = compiled_documents lib m"
    by (simp add: compiled_documents_def registry_document_def)
  moreover have "authoring_ok lib ?n = authoring_ok lib m"
    using mset_eq_setD [OF assms(1)] assms(5) by (auto simp: authoring_ok_def list_all_iff)
  moreover from this have "compile_refusal lib ?n v = compile_refusal lib m v"
    by (simp add: compile_refusal_def Let_def cong: option.case_cong)
  ultimately show ?thesis
    by (simp add: compile_manifests_def cong: sum.case_cong)
qed

subsection \<open>An example\<close>

definition parcel_semantic :: semantic_metadata where
  "parcel_semantic = no_semantic\<lparr>sm_summary := Some ''Locate'',
     sm_when_to_use := [''Tracking''], sm_capabilities := [''cap/track''], sm_risk := Some Risk_LOW\<rparr>"

definition parcel_tool :: tool_summary where
  "parcel_tool = \<lparr>ts_name = ''track'', ts_description = ''Tracker'',
     ts_input_fingerprint = replicate 64 (CHR ''1''), ts_output_fingerprint = replicate 64 (CHR ''2''),
     ts_required_scopes = [''track:read''], ts_semantic = parcel_semantic, ts_lifecycle = Lifecycle_ACTIVE,
     ts_inputs = [\<lparr>ti_name = ''number'', ti_json_type = Json_STRING, ti_description = None, ti_required = True\<rparr>]\<rparr>"

definition parcel_manifest :: authoring_manifest where
  "parcel_manifest = \<lparr>am_manifest_version = ''1.0'', am_name = ''io.acme/parcels'', am_version = ''1.2.0'',
     am_description = ''Parcels'', am_title = None,
     am_repository = \<lparr>rp_url = ''https://git.example/acme/parcels'', rp_source = ''git'', rp_id = None, rp_subfolder = None\<rparr>,
     am_ownership = \<lparr>ow_namespace = ''acme'', ow_tenant_id = ''acme'', ow_visibility = Visibility_PRIVATE,
       ow_org_id = None, ow_team_id = None, ow_labels = [(''tier'', ''one'')], ow_annotations = []\<rparr>,
     am_adapter = Adapter_NATIVE, am_protocol_versions = [''2025-06-18''], am_lifecycle = Lifecycle_ACTIVE,
     am_route_policy = \<lparr>ro_gateway_path = ''/mcp/parcels'', ro_direct_access = False\<rparr>, am_remote = None,
     am_package = Some \<lparr>pk_registry_type = Registry_OCI, pk_identifier = ''oci.example/acme/parcels'',
       pk_transport = \<lparr>pt_type = Transport_STDIO, pt_url = None\<rparr>, pk_version = Some ''1.2.0'',
       pk_registry_base_url = None, pk_runtime_hint = None, pk_file_sha256 = None,
       pk_image_digest = Some (''sha256:'' @ replicate 64 (CHR ''3''))\<rparr>,
     am_credential_ref = Some \<lparr>cf_secret_name = ''parcels'', cf_key = ''api''\<rparr>,
     am_semantic = parcel_semantic, am_egress_hosts = [], am_required_scopes = [''track:read''], am_tools = [parcel_tool]\<rparr>"

definition blank_library :: manifest_lib where
  "blank_library = \<lparr>ml_netloc_ok = (\<lambda>n. False), ml_unquote = (\<lambda>s. s), ml_decode = Some,
     ml_parse = (\<lambda>s. (Raw_object [], True)), ml_model = (\<lambda>s. Some parcel_manifest), ml_object = (\<lambda>s. None),
     ml_loads = (\<lambda>s. None), ml_frepr = (\<lambda>q. []), ml_sha = (\<lambda>s. replicate 64 (CHR ''4''))\<rparr>"

definition parcel_registry :: pyval where
  "parcel_registry =
     (case registry_document blank_library parcel_manifest (portable_document parcel_manifest) of Inl e \<Rightarrow> PNone | Inr d \<Rightarrow> d)"

definition parcel_library :: manifest_lib where
  "parcel_library = blank_library\<lparr>ml_object := (\<lambda>s. Some (sort_entries parcel_registry)),
     ml_loads := (\<lambda>s. Some (sort_entries parcel_registry))\<rparr>"

lemma parcel_semantic_ok: "semantic_ok parcel_semantic"
  by code_simp

lemma parcel_tool_ok: "tool_summary_ok parcel_tool"
  by code_simp

lemma parcel_manifest_ok: "authoring_ok parcel_library parcel_manifest"
  by code_simp

lemma parcel_refusal: "compile_refusal parcel_library parcel_manifest ''1.2.0'' = Inr ()"
proof -
  have "is_ok (compile_refusal parcel_library parcel_manifest ''1.2.0'')" by code_simp
  then show ?thesis by (simp add: is_ok_iff)
qed

lemma parcel_reads_back: "reads_back parcel_library parcel_registry"
  and parcel_registry_document:
    "registry_document parcel_library parcel_manifest (portable_document parcel_manifest) = Inr parcel_registry"
proof -
  have same: "text_sha parcel_library = text_sha blank_library" "ml_frepr parcel_library = ml_frepr blank_library"
    by (simp_all add: fun_eq_iff text_sha_def parcel_library_def)
  then have "tool_document parcel_library = tool_document blank_library"
    by (intro ext) (simp add: tool_document_def)
  then have "registry_document parcel_library = registry_document blank_library"
    by (intro ext) (simp add: registry_document_def)
  then show doc: "registry_document parcel_library parcel_manifest (portable_document parcel_manifest) = Inr parcel_registry"
    using registry_document_ok [of blank_library parcel_manifest "portable_document parcel_manifest"]
    by (auto simp: parcel_registry_def)
  show "reads_back parcel_library parcel_registry"
    using manifest_bytes_ok [OF registry_document_json [OF doc portable_document_json], of "ml_frepr parcel_library"]
    by (auto simp: reads_back_def) (simp add: parcel_library_def)
qed

lemma parcel_compiled: "\<exists>c. compile_manifests parcel_library parcel_manifest ''1.2.0'' = Inr c"
  using compiled_documents_ok [of parcel_library parcel_manifest] by (auto simp: compile_manifests_def parcel_refusal)

theorem server_json_extracted_witness:
  "\<exists>c. compile_manifests parcel_library parcel_manifest ''1.2.0'' = Inr c \<and>
     extract_server_json parcel_library (cm_registry_manifest c) = Inr (cm_server_json c)"
proof -
  obtain c where c: "compile_manifests parcel_library parcel_manifest ''1.2.0'' = Inr c"
    using parcel_compiled by blast
  then have "extract_server_json parcel_library (cm_registry_manifest c) = Inr (cm_server_json c)"
    by (rule server_json_extracted) (simp add: parcel_registry_document parcel_reads_back)
  with c show ?thesis by blast
qed

end
