(* ===== verification/Spec2Isabelle.thy ===== *)
theory Spec2Isabelle
  imports Application_Run Migration Http_Listener Gateway_Snapshot Publication Tool_Catalog Registry_Resolver Manifest_Compiler
begin

text \<open>Verification development of the Tesserix MCP runtime.\<close>

end
